(* ===== verification/Go_Prelude.thy ===== *)
theory Go_Prelude
  imports Main "HOL-Library.Word" "HOL-Library.AList" "HOL-Library.Multiset"
begin

text \<open>
  What the model takes from Go itself: machine integers, time stamps, built-in maps and the
  error values of the program, with the lemmas every component shares.

  \<^item> \<open>uint8\<close>, \<open>uint32\<close>, \<open>uint64\<close> are words; an \<open>int64\<close> counter is an \<open>int\<close> that every
    arithmetic operation wraps with \<open>i64\<close>; \<open>time.Time\<close> and \<open>time.Duration\<close> are \<open>int\<close>
    nanoseconds.
  \<^item> A Go \<open>map\<close> is an association list with distinct keys (\<open>gm_ok\<close>). Go leaves the iteration
    order of a map unspecified; the model iterates in the order of the list, and the theorems
    quantify over the list.
  \<^item> An \<open>error\<close> is a value of \<open>err\<close>, one constructor per message; a nil
    error is \<open>None\<close>.
\<close>

section \<open>Machine integers and time\<close>

type_synonym byte = "8 word"
type_synonym bytes = "8 word list"
type_synonym u32 = "32 word"
type_synonym u64 = "64 word"
type_synonym time = int
type_synonym duration = int

text \<open>Two's complement wrap-around of \<open>int64\<close>.\<close>

definition i64 :: "int \<Rightarrow> int" where
  "i64 x = (x + 2 ^ 63) mod 2 ^ 64 - 2 ^ 63"

definition in_i64 :: "int \<Rightarrow> bool" where
  "in_i64 x \<longleftrightarrow> - (2 ^ 63) \<le> x \<and> x < 2 ^ 63"

lemma i64_id: "in_i64 x \<Longrightarrow> i64 x = x"
  by (simp add: i64_def in_i64_def)

lemma i64_in: "in_i64 (i64 x)"
  by (simp add: i64_def in_i64_def)

text \<open>Nanoseconds per unit of time.\<close>

definition Second :: duration where "Second = 1000000000"
definition Millisecond :: duration where "Millisecond = 1000000"

text \<open>\<open>time.Time.Unix\<close> and \<open>time.Time.UnixMilli\<close>.\<close>

definition Unix :: "time \<Rightarrow> int" where "Unix t = t div Second"
definition UnixMilli :: "time \<Rightarrow> int" where "UnixMilli t = t div Millisecond"

section \<open>Errors\<close>

datatype err =
    ErrExternal string            \<comment> \<open>an error returned by code outside the repository\<close>
  | ErrEOF                        \<comment> \<open>\<open>io.EOF\<close>\<close>
  | ErrUnexpectedEOF              \<comment> \<open>\<open>io.ErrUnexpectedEOF\<close>\<close>
  | ErrWrap string err            \<comment> \<open>\<open>fmt.Errorf("...: %w", err)\<close>, named by its place\<close>
  | ErrQueueStopped
  | ErrQueueFull int
  | ErrStaleSeq u64 u64
  | ErrNoCallback
  | ErrInvalidNotify
  | ErrBindRequired string
  | ErrBindFailed string u32
  | ErrStreamNil
  | ErrSessionNotFound string
  | ErrOpenIDNotFound string
  | ErrActivate string
  | ErrSessionClosed
  | ErrOpenIDTaken string string
  | ErrQueueUninit string
  | ErrTooLarge nat
  | ErrTargetType string
  | ErrSessionNotNormal
  | ErrNoSession
  | ErrNoService string
  | ErrServiceDisabled string
  | ErrNoAddress string
  | ErrNoUpstream
  | ErrNoServices
  | ErrParseInt string
  | ErrAlreadyStarted
  | ErrBackupDisabled
  | ErrNotConnected

section \<open>Go maps\<close>

abbreviation gm_get :: "('k \<times> 'v) list \<Rightarrow> 'k \<Rightarrow> 'v option" where
  "gm_get \<equiv> map_of"
abbreviation gm_put :: "'k \<Rightarrow> 'v \<Rightarrow> ('k \<times> 'v) list \<Rightarrow> ('k \<times> 'v) list" where
  "gm_put \<equiv> AList.update"
abbreviation gm_del :: "'k \<Rightarrow> ('k \<times> 'v) list \<Rightarrow> ('k \<times> 'v) list" where
  "gm_del \<equiv> AList.delete"

definition gm_ok :: "('k \<times> 'v) list \<Rightarrow> bool" where
  "gm_ok m \<longleftrightarrow> distinct (map fst m)"

text \<open>Deleting in the loop over a map every entry that satisfies a test.\<close>

definition gm_drop :: "('k \<times> 'v \<Rightarrow> bool) \<Rightarrow> ('k \<times> 'v) list \<Rightarrow> ('k \<times> 'v) list" where
  "gm_drop P m = filter (\<lambda>e. \<not> P e) m"

text \<open>The zero value of a missing key.\<close>

definition gm_getd :: "'v \<Rightarrow> ('k \<times> 'v) list \<Rightarrow> 'k \<Rightarrow> 'v" where
  "gm_getd d m k = (case map_of m k of None \<Rightarrow> d | Some v \<Rightarrow> v)"

lemma gm_ok_Nil [simp]: "gm_ok []"
  by (simp add: gm_ok_def)

lemma gm_ok_put [simp]: "gm_ok m \<Longrightarrow> gm_ok (gm_put k v m)"
  by (simp add: gm_ok_def distinct_update)

lemma gm_ok_del [simp]: "gm_ok m \<Longrightarrow> gm_ok (gm_del k m)"
  by (simp add: gm_ok_def distinct_delete)

lemma gm_ok_drop [simp]: "gm_ok m \<Longrightarrow> gm_ok (gm_drop P m)"
  by (auto simp: gm_ok_def gm_drop_def distinct_map filter_map intro: inj_on_subset)

lemma gm_ok_map [simp]: "gm_ok (map (\<lambda>(k, v). (k, f k v)) m) = gm_ok m"
  by (simp add: gm_ok_def comp_def case_prod_beta)

lemma gm_get_put [simp]: "gm_get (gm_put k v m) k' = (if k' = k then Some v else gm_get m k')"
  by (simp add: update_conv')

lemma gm_get_del [simp]: "gm_get (gm_del k m) k' = (if k' = k then None else gm_get m k')"
  by (simp add: delete_conv')

lemma gm_get_in: "gm_ok m \<Longrightarrow> (k, v) \<in> set m \<longleftrightarrow> gm_get m k = Some v"
  by (auto simp: gm_ok_def dest: map_of_SomeD)

lemma gm_get_drop:
  assumes "gm_ok m"
  shows "gm_get (gm_drop P m) k =
    (case gm_get m k of None \<Rightarrow> None | Some v \<Rightarrow> if P (k, v) then None else Some v)"
proof (cases "gm_get (gm_drop P m) k")
  case None
  then show ?thesis
    using assms by (auto simp: gm_drop_def map_of_eq_None_iff image_iff split: option.splits
        dest!: map_of_SomeD)
next
  case (Some v)
  then have "(k, v) \<in> set m" "\<not> P (k, v)"
    by (auto simp: gm_drop_def dest!: map_of_SomeD)
  with Some assms show ?thesis by (simp add: gm_get_in)
qed

lemma gm_keys_put: "fst ` set (gm_put k v m) = insert k (fst ` set m)"
  by (induction m) auto

lemma gm_keys_del: "fst ` set (gm_del k m) = fst ` set m - {k}"
  by (auto simp: AList.delete_eq)

lemma gm_set_put: "e \<in> set (gm_put k v m) \<Longrightarrow> e = (k, v) \<or> e \<in> set m"
  by (induction m) (auto split: if_splits)

lemma gm_set_del: "e \<in> set (gm_del k m) \<Longrightarrow> e \<in> set m \<and> fst e \<noteq> k"
  by (auto simp: AList.delete_eq)

lemma gm_len_put: "length (gm_put k v m) = (if k \<in> fst ` set m then length m else Suc (length m))"
  by (induction m) auto

lemma gm_len_drop: "length (gm_drop P m) + length (filter P m) = length m"
  by (simp add: gm_drop_def add.commute sum_length_filter_compl)

lemma gm_drop_Nil [simp]: "gm_drop P [] = []"
  by (simp add: gm_drop_def)

lemma gm_drop_all: "(\<And>e. e \<in> set m \<Longrightarrow> \<not> P e) \<Longrightarrow> gm_drop P m = m"
  by (simp add: gm_drop_def filter_id_conv)

lemma gm_in_drop [simp]: "e \<in> set (gm_drop P m) \<longleftrightarrow> e \<in> set m \<and> \<not> P e"
  by (auto simp: gm_drop_def)

text \<open>Keys and length of the same map, listed once for the components.\<close>

lemmas gm_simps = gm_get_put gm_get_del gm_ok_put gm_ok_del gm_ok_drop gm_in_drop

section \<open>The interface of a keyed store\<close>

text \<open>
  The contract under which the components use a map: a lookup after an insertion, a deletion
  and a whole sequence of deletions. The session indices and the table of unacknowledged
  messages are clients of it.
\<close>

locale keyed_store =
  fixes lookup :: "'m \<Rightarrow> 'k \<Rightarrow> 'v option"
    and insert_at :: "'k \<Rightarrow> 'v \<Rightarrow> 'm \<Rightarrow> 'm"
    and remove_at :: "'k \<Rightarrow> 'm \<Rightarrow> 'm"
    and invar :: "'m \<Rightarrow> bool"
  assumes lookup_insert: "invar m \<Longrightarrow> lookup (insert_at k v m) k' = (if k' = k then Some v else lookup m k')"
    and lookup_remove: "invar m \<Longrightarrow> lookup (remove_at k m) k' = (if k' = k then None else lookup m k')"
    and invar_insert: "invar m \<Longrightarrow> invar (insert_at k v m)"
    and invar_remove: "invar m \<Longrightarrow> invar (remove_at k m)"
begin

lemma invar_remove_many: "invar m \<Longrightarrow> invar (fold remove_at ks m)"
  by (induction ks arbitrary: m) (simp_all add: invar_remove)

lemma lookup_remove_many:
  "invar m \<Longrightarrow> lookup (fold remove_at ks m) k = (if k \<in> set ks then None else lookup m k)"
  by (induction ks arbitrary: m) (auto simp: lookup_remove invar_remove)

lemma remove_insert_other:
  "invar m \<Longrightarrow> k \<noteq> k' \<Longrightarrow> lookup (remove_at k (insert_at k' v m)) k' = Some v"
  by (simp add: lookup_insert lookup_remove invar_insert)

end

interpretation gmap: keyed_store gm_get gm_put gm_del gm_ok
  by unfold_locales simp_all

end
