(* ===== verification/Go_Heap.thy ===== *)
theory Go_Heap
  imports Go_Prelude
begin

text \<open>
  The package \<open>container/heap\<close> of Go's standard library, as the message queue of
  \<open>internal/session/ordered_queue.go\<close> uses it: \<open>up\<close>, \<open>down\<close>, \<open>Init\<close>, \<open>Push\<close> and \<open>Pop\<close> over a
  slice (a list) and a \<open>Less\<close> function. \<open>heap_ok\<close> is the heap order; every operation keeps the
  multiset of the elements and re-establishes the order, \<open>Pop\<close> returns a least element.
\<close>

section \<open>The operations\<close>

definition slice_swap :: "nat \<Rightarrow> nat \<Rightarrow> 'a list \<Rightarrow> 'a list" where
  "slice_swap i j xs = xs[i := xs ! j, j := xs ! i]"

lemma length_slice_swap [simp]: "length (slice_swap i j xs) = length xs"
  by (simp add: slice_swap_def)

lemma mset_slice_swap [simp]:
  "i < length xs \<Longrightarrow> j < length xs \<Longrightarrow> mset (slice_swap i j xs) = mset xs"
  by (simp add: slice_swap_def mset_swap)

lemma nth_slice_swap:
  "i < length xs \<Longrightarrow> j < length xs \<Longrightarrow>
    slice_swap i j xs ! k = (if k = j then xs ! i else if k = i then xs ! j else xs ! k)"
  by (simp add: slice_swap_def nth_list_update)

function heap_up :: "('a \<Rightarrow> 'a \<Rightarrow> bool) \<Rightarrow> 'a list \<Rightarrow> nat \<Rightarrow> 'a list" where
  "heap_up lt xs j =
     (let i = (j - 1) div 2 in
      if i = j \<or> \<not> lt (xs ! j) (xs ! i) then xs
      else heap_up lt (slice_swap i j xs) i)"
  by pat_completeness auto
termination
  by (relation "measure (\<lambda>(lt, xs, j). j)") auto

function heap_down :: "('a \<Rightarrow> 'a \<Rightarrow> bool) \<Rightarrow> 'a list \<Rightarrow> nat \<Rightarrow> nat \<Rightarrow> 'a list" where
  "heap_down lt xs i n =
     (let j1 = 2 * i + 1; j2 = j1 + 1 in
      if j1 \<ge> n then xs
      else let j = (if j2 < n \<and> lt (xs ! j2) (xs ! j1) then j2 else j1) in
        if \<not> lt (xs ! j) (xs ! i) then xs
        else heap_down lt (slice_swap i j xs) j n)"
  by pat_completeness auto
termination
  by (relation "measure (\<lambda>(lt, xs, i, n). n - i)") (auto simp: Let_def split: if_splits)

declare heap_up.simps [simp del] heap_down.simps [simp del]

primrec heap_init_from :: "('a \<Rightarrow> 'a \<Rightarrow> bool) \<Rightarrow> nat \<Rightarrow> 'a list \<Rightarrow> 'a list" where
  "heap_init_from lt 0 xs = xs"
| "heap_init_from lt (Suc i) xs = heap_init_from lt i (heap_down lt xs i (length xs))"

definition heap_Init :: "('a \<Rightarrow> 'a \<Rightarrow> bool) \<Rightarrow> 'a list \<Rightarrow> 'a list" where
  "heap_Init lt xs = heap_init_from lt (length xs div 2) xs"

definition heap_Push :: "('a \<Rightarrow> 'a \<Rightarrow> bool) \<Rightarrow> 'a \<Rightarrow> 'a list \<Rightarrow> 'a list" where
  "heap_Push lt x xs = heap_up lt (xs @ [x]) (length xs)"

text \<open>\<open>Pop\<close> of an empty heap panics; every caller tests the length first.\<close>

definition heap_Pop :: "('a \<Rightarrow> 'a \<Rightarrow> bool) \<Rightarrow> 'a list \<Rightarrow> ('a \<times> 'a list) option" where
  "heap_Pop lt xs =
     (if xs = [] then None
      else let n = length xs - 1; ys = heap_down lt (slice_swap 0 n xs) 0 n
        in Some (ys ! n, take n ys))"

section \<open>Elements are kept\<close>

lemma length_heap_up [simp]: "length (heap_up lt xs j) = length xs"
proof (induction lt xs j rule: heap_up.induct)
  case (1 lt xs j)
  then show ?case by (subst heap_up.simps) (auto simp: Let_def)
qed

lemma length_heap_down [simp]: "length (heap_down lt xs i n) = length xs"
proof (induction lt xs i n rule: heap_down.induct)
  case (1 lt xs i n)
  then show ?case by (subst heap_down.simps) (simp add: Let_def)
qed

lemma mset_heap_up [simp]: "j < length xs \<Longrightarrow> mset (heap_up lt xs j) = mset xs"
proof (induction lt xs j rule: heap_up.induct)
  case (1 lt xs j)
  show ?case
  proof (cases "(j - 1) div 2 = j \<or> \<not> lt (xs ! j) (xs ! ((j - 1) div 2))")
    case True
    then show ?thesis by (subst heap_up.simps) (auto simp: Let_def)
  next
    case False
    moreover have "(j - 1) div 2 < length xs" using "1.prems" by linarith
    ultimately show ?thesis
      using "1.IH" "1.prems" by (subst heap_up.simps) (simp add: Let_def)
  qed
qed

lemma mset_heap_down [simp]: "n \<le> length xs \<Longrightarrow> mset (heap_down lt xs i n) = mset xs"
proof (induction lt xs i n rule: heap_down.induct)
  case (1 lt xs i n)
  show ?case
  proof (cases "2 * i + 1 \<ge> n")
    case True
    then show ?thesis by (subst heap_down.simps) (simp add: Let_def)
  next
    case False
    with 1 show ?thesis by (subst heap_down.simps) (simp add: Let_def)
  qed
qed

lemma length_heap_init_from [simp]: "length (heap_init_from lt k xs) = length xs"
  by (induction k arbitrary: xs) simp_all

lemma length_heap_Init [simp]: "length (heap_Init lt xs) = length xs"
  by (simp add: heap_Init_def)

lemma mset_heap_Init [simp]: "mset (heap_Init lt xs) = mset xs"
proof -
  have "mset (heap_init_from lt k ys) = mset ys" for k and ys :: "'a list"
    by (induction k arbitrary: ys) simp_all
  then show ?thesis by (simp add: heap_Init_def)
qed

lemma length_heap_Push [simp]: "length (heap_Push lt x xs) = Suc (length xs)"
  by (simp add: heap_Push_def)

lemma mset_heap_Push [simp]: "mset (heap_Push lt x xs) = add_mset x (mset xs)"
  by (simp add: heap_Push_def)

lemma heap_down_beyond: "n \<le> k \<Longrightarrow> n \<le> length xs \<Longrightarrow> heap_down lt xs i n ! k = xs ! k"
proof (induction lt xs i n rule: heap_down.induct)
  case (1 lt xs i n)
  show ?case
  proof (cases "2 * i + 1 \<ge> n")
    case True
    then show ?thesis by (subst heap_down.simps) (simp add: Let_def)
  next
    case False
    with 1 show ?thesis
      by (subst heap_down.simps) (simp add: Let_def nth_slice_swap)
  qed
qed

lemma heap_Pop_top:
  assumes "xs \<noteq> []"
  obtains ys where "heap_Pop lt xs = Some (xs ! 0, ys)" "mset xs = add_mset (xs ! 0) (mset ys)"
    "length xs = Suc (length ys)"
proof -
  let ?n = "length xs - 1"
  let ?zs = "heap_down lt (slice_swap 0 ?n xs) 0 ?n"
  have n: "?n < length xs" "0 < length xs" using assms by (cases xs; simp)+
  then have top: "?zs ! ?n = xs ! 0"
    by (simp add: heap_down_beyond nth_slice_swap)
  have "mset ?zs = mset xs" using n by simp
  moreover have "?zs = take ?n ?zs @ [?zs ! ?n]"
    using n by (metis (no_types, lifting) Suc_diff_1 length_heap_down length_slice_swap lessI
        take_Suc_conv_app_nth take_all_iff order_refl)
  ultimately have "mset xs = mset (take ?n ?zs @ [?zs ! ?n])"
    by simp
  then have "mset xs = add_mset (xs ! 0) (mset (take ?n ?zs))"
    by (simp only: top mset_append mset.simps) simp
  with assms n top show thesis
    by (intro that [of "take ?n ?zs"]) (simp_all add: heap_Pop_def Let_def)
qed

section \<open>Heap order\<close>

abbreviation par :: "nat \<Rightarrow> nat" where
  "par j \<equiv> (j - 1) div 2"

definition heap_ok :: "('a \<Rightarrow> 'k::linorder) \<Rightarrow> 'a list \<Rightarrow> bool" where
  "heap_ok key xs \<longleftrightarrow> (\<forall>j < length xs. 0 < j \<longrightarrow> key (xs ! par j) \<le> key (xs ! j))"

text \<open>
  The order between the nodes from \<open>l\<close> on and their children below \<open>n\<close>, and the state in the
  middle of \<open>down\<close> and \<open>up\<close>: one node, \<open>i\<close>, may break the order.
\<close>

definition heap_from :: "('a \<Rightarrow> 'k::linorder) \<Rightarrow> nat \<Rightarrow> nat \<Rightarrow> 'a list \<Rightarrow> bool" where
  "heap_from key l n xs \<longleftrightarrow> (\<forall>j < n. 0 < j \<and> l \<le> par j \<longrightarrow> key (xs ! par j) \<le> key (xs ! j))"

definition sinking :: "('a \<Rightarrow> 'k::linorder) \<Rightarrow> nat \<Rightarrow> nat \<Rightarrow> nat \<Rightarrow> 'a list \<Rightarrow> bool" where
  "sinking key i l n xs \<longleftrightarrow> l \<le> i \<and>
     (\<forall>j < n. 0 < j \<and> l \<le> par j \<and> par j \<noteq> i \<longrightarrow> key (xs ! par j) \<le> key (xs ! j)) \<and>
     (\<forall>j < n. 0 < j \<and> par j = i \<and> 0 < i \<and> l \<le> par i \<longrightarrow> key (xs ! par i) \<le> key (xs ! j))"

definition rising :: "('a \<Rightarrow> 'k::linorder) \<Rightarrow> nat \<Rightarrow> 'a list \<Rightarrow> bool" where
  "rising key i xs \<longleftrightarrow> i < length xs \<and>
     (\<forall>j < length xs. 0 < j \<and> j \<noteq> i \<longrightarrow> key (xs ! par j) \<le> key (xs ! j)) \<and>
     (\<forall>j < length xs. 0 < j \<and> par j = i \<and> 0 < i \<longrightarrow> key (xs ! par i) \<le> key (xs ! j))"

lemma heap_ok_from: "heap_ok key xs = heap_from key 0 (length xs) xs"
  by (simp add: heap_ok_def heap_from_def)

lemma heap_ok_Nil [simp]: "heap_ok key []"
  by (simp add: heap_ok_def)

lemma par_cases: "0 < k \<Longrightarrow> par k = i \<longleftrightarrow> k = 2 * i + 1 \<or> k = 2 * i + 2"
  by (cases k) auto

lemma sinking_swap:
  assumes s: "sinking key i l n xs" and n: "n \<le> length xs" and j: "j < n" "par j = i" "0 < j"
    and small: "\<And>k. k < n \<Longrightarrow> 0 < k \<Longrightarrow> par k = i \<Longrightarrow> key (xs ! j) \<le> key (xs ! k)"
    and lt: "key (xs ! j) < key (xs ! i)"
  shows "sinking key j l n (slice_swap i j xs)"
proof -
  let ?ys = "slice_swap i j xs"
  have ij: "i < j" using j by linarith
  have nth: "\<And>k. ?ys ! k = (if k = j then xs ! i else if k = i then xs ! j else xs ! k)"
    using ij j n by (simp add: nth_slice_swap)
  have "l \<le> j" using s ij by (simp add: sinking_def)
  moreover have "key (?ys ! par k) \<le> key (?ys ! k)"
    if k: "k < n" "0 < k" "l \<le> par k" "par k \<noteq> j" for k
  proof -
    consider "k = i" | "k = j" | "k \<noteq> i" "k \<noteq> j" "par k = i" | "k \<noteq> i" "k \<noteq> j" "par k \<noteq> i" by blast
    then show ?thesis
    proof cases
      case 1
      then have "par k \<noteq> i" "par k \<noteq> j" using k ij by linarith+
      with 1 k j ij s show ?thesis by (simp add: nth sinking_def)
    next
      case 2
      with j ij lt show ?thesis by (simp add: nth)
    next
      case 3
      with small k ij show ?thesis by (simp add: nth)
    next
      case 4
      with k s show ?thesis by (simp add: nth sinking_def)
    qed
  qed
  moreover have "key (?ys ! par j) \<le> key (?ys ! k)" if k: "k < n" "0 < k" "par k = j" for k
  proof -
    have "l \<le> par k" using k s ij by (simp add: sinking_def)
    moreover have "k \<noteq> i" "k \<noteq> j" using k ij by linarith+
    moreover have "par k \<noteq> i" using k ij by simp
    then have "key (xs ! par k) \<le> key (xs ! k)" using s k \<open>l \<le> par k\<close>
      unfolding sinking_def by blast
    ultimately show ?thesis using k ij j by (simp add: nth)
  qed
  ultimately show ?thesis by (simp add: sinking_def)
qed

lemma heap_down_correct:
  assumes "sinking key i l n xs" "n \<le> length xs"
  shows "heap_from key l n (heap_down (\<lambda>x y. key x < key y) xs i n)"
  using assms
proof (induction "\<lambda>x y. key x < key y" xs i n rule: heap_down.induct)
  case (1 xs i n)
  let ?j1 = "2 * i + 1"
  let ?j2 = "2 * i + 2"
  let ?j = "if ?j2 < n \<and> key (xs ! ?j2) < key (xs ! ?j1) then ?j2 else ?j1"
  let ?lt = "\<lambda>x y. key x < key y"
  show ?case
  proof (cases "?j1 \<ge> n")
    case True
    have "par k \<noteq> i" if "k < n" "0 < k" for k
      using that True by (simp add: par_cases)
    then have "heap_from key l n xs"
      using "1.prems" by (simp add: heap_from_def sinking_def)
    with True show ?thesis by (subst heap_down.simps) (simp add: Let_def)
  next
    case False
    then have j: "?j < n" "par ?j = i" "0 < ?j" by auto
    have small: "key (xs ! ?j) \<le> key (xs ! k)" if k: "k < n" "0 < k" "par k = i" for k
    proof -
      have "k = ?j1 \<or> k = ?j2" using par_cases [OF k(2), of i] k(3) by simp
      with k(1) show ?thesis by (auto intro: less_imp_le)
    qed
    show ?thesis
    proof (cases "key (xs ! ?j) < key (xs ! i)")
      case True
      have "sinking key ?j l n (slice_swap i ?j xs)"
        using "1.prems" j small True by (intro sinking_swap) simp_all
      then have "heap_from key l n (heap_down ?lt (slice_swap i ?j xs) ?j n)"
        using False True "1.prems"(2) by (intro "1.hyps") auto
      with False True show ?thesis
        by (subst heap_down.simps) (auto simp: Let_def)
    next
      case F: False
      have "key (xs ! par k) \<le> key (xs ! k)" if k: "k < n" "0 < k" "l \<le> par k" for k
        using F small [of k] k "1.prems"(1) by (cases "par k = i") (auto simp: sinking_def)
      then have "heap_from key l n xs" by (simp add: heap_from_def)
      with False F show ?thesis
        by (subst heap_down.simps) (auto simp: Let_def)
    qed
  qed
qed

lemma rising_swap:
  assumes r: "rising key i xs" and i: "0 < i" and lt: "key (xs ! i) < key (xs ! par i)"
  shows "rising key (par i) (slice_swap (par i) i xs)"
proof -
  obtain p where p: "par i = p" by simp
  let ?ys = "slice_swap p i xs"
  have pi: "p < i" "i < length xs" using r i p by (auto simp: rising_def)
  have nth: "\<And>k. ?ys ! k = (if k = i then xs ! p else if k = p then xs ! i else xs ! k)"
    using pi by (simp add: nth_slice_swap)
  have le: "key (xs ! par k) \<le> key (xs ! k)" if "k < length xs" "0 < k" "k \<noteq> i" for k
    using r that by (simp add: rising_def)
  have gp: "key (xs ! p) \<le> key (xs ! k)" if "k < length xs" "0 < k" "par k = i" for k
    using r i that p by (auto simp: rising_def)
  have "key (?ys ! par k) \<le> key (?ys ! k)" if k: "k < length xs" "0 < k" "k \<noteq> p" for k
  proof -
    consider "k = i" | "k \<noteq> i" "par k = i" | "k \<noteq> i" "par k = p" "par k \<noteq> i"
      | "k \<noteq> i" "par k \<noteq> i" "par k \<noteq> p" by blast
    then show ?thesis
    proof cases
      case 1
      then show ?thesis using pi lt p by (simp add: nth)
    next
      case 2
      then show ?thesis using k gp by (simp add: nth)
    next
      case 3
      then have "key (xs ! i) \<le> key (xs ! k)" using lt le [of k] k p by simp
      with 3 k show ?thesis by (simp add: nth)
    next
      case 4
      then show ?thesis using k le by (simp add: nth)
    qed
  qed
  moreover have "key (?ys ! par p) \<le> key (?ys ! k)"
    if k: "k < length xs" "0 < k" "par k = p" "0 < p" for k
  proof -
    have pp: "par p \<noteq> p" "par p \<noteq> i" "k \<noteq> p" using k pi by linarith+
    have up: "key (xs ! par p) \<le> key (xs ! p)" using le [of p] pi k by simp
    show ?thesis
    proof (cases "k = i")
      case True
      then show ?thesis using up pp by (simp add: nth)
    next
      case False
      then have "key (xs ! p) \<le> key (xs ! k)" using le [of k] k by simp
      with up False pp show ?thesis by (simp add: nth)
    qed
  qed
  ultimately show ?thesis using pi unfolding p by (simp add: rising_def)
qed

lemma heap_up_correct:
  assumes "rising key i xs"
  shows "heap_ok key (heap_up (\<lambda>x y. key x < key y) xs i)"
  using assms
proof (induction "\<lambda>x y. key x < key y" xs i rule: heap_up.induct)
  case (1 xs i)
  show ?case
  proof (cases "par i = i \<or> \<not> key (xs ! i) < key (xs ! par i)")
    case True
    have "key (xs ! par k) \<le> key (xs ! k)" if k: "k < length xs" "0 < k" for k
      using True "1.prems" k by (cases "k = i") (auto simp: rising_def)
    then have "heap_ok key xs" by (simp add: heap_ok_def)
    with True show ?thesis by (subst heap_up.simps) (auto simp: Let_def)
  next
    case False
    then have "0 < i" by (cases i) auto
    with False "1.prems" have "rising key (par i) (slice_swap (par i) i xs)"
      by (intro rising_swap) simp_all
    with False have "heap_ok key (heap_up (\<lambda>x y. key x < key y) (slice_swap (par i) i xs) (par i))"
      by (intro "1.hyps") simp_all
    with False show ?thesis by (subst heap_up.simps) (simp add: Let_def)
  qed
qed

section \<open>The operations keep the order\<close>

text \<open>The smallest key is at the root.\<close>

lemma heap_ok_min:
  assumes "heap_ok key xs" "k < length xs"
  shows "key (xs ! 0) \<le> key (xs ! k)"
  using assms(2)
proof (induction k rule: less_induct)
  case (less k)
  show ?case
  proof (cases "k = 0")
    case False
    then have "par k < k" by linarith
    then have "key (xs ! 0) \<le> key (xs ! par k)" using less by simp
    also have "\<dots> \<le> key (xs ! k)" using assms(1) less.prems False by (simp add: heap_ok_def)
    finally show ?thesis .
  qed simp
qed

lemma heap_ok_min_set: "heap_ok key xs \<Longrightarrow> x \<in> set xs \<Longrightarrow> key (xs ! 0) \<le> key x"
  by (metis heap_ok_min in_set_conv_nth)

lemma heap_ok_Init: "heap_ok key (heap_Init (\<lambda>x y. key x < key y) xs)"
proof -
  have "heap_from key 0 (length ys) (heap_init_from (\<lambda>x y. key x < key y) k ys)"
    if "heap_from key k (length ys) ys" for k and ys :: "'a list"
    using that
  proof (induction k arbitrary: ys)
    case (Suc k)
    have "sinking key k k (length ys) ys"
      using Suc.prems by (auto simp: sinking_def heap_from_def)
    then have "heap_from key k (length ys) (heap_down (\<lambda>x y. key x < key y) ys k (length ys))"
      by (rule heap_down_correct) simp
    then show ?case using Suc.IH [of "heap_down (\<lambda>x y. key x < key y) ys k (length ys)"] by simp
  qed simp
  moreover have "heap_from key (length xs div 2) (length xs) xs"
    by (auto simp: heap_from_def)
  ultimately show ?thesis by (simp add: heap_Init_def heap_ok_from)
qed

lemma heap_ok_Push:
  assumes "heap_ok key xs"
  shows "heap_ok key (heap_Push (\<lambda>x y. key x < key y) x xs)"
proof -
  have par: "par k < length xs" if "0 < k" "k < Suc (length xs)" for k
    using that by linarith
  have leaf: "xs = []" if "par k = length xs" "k < Suc (length xs)" for k
  proof -
    have "length xs = 0" using that by linarith
    then show ?thesis by simp
  qed
  have "rising key (length xs) (xs @ [x])"
    using assms by (auto simp: rising_def heap_ok_def nth_append dest: par leaf [simplified])
  then show ?thesis by (simp add: heap_Push_def heap_up_correct)
qed

lemma heap_ok_Pop:
  assumes "heap_ok key xs" "heap_Pop (\<lambda>x y. key x < key y) xs = Some (x, ys)"
  shows "heap_ok key ys"
proof -
  let ?n = "length xs - 1"
  let ?s = "slice_swap 0 ?n xs"
  have ne: "xs \<noteq> []" and ys: "ys = take ?n (heap_down (\<lambda>x y. key x < key y) ?s 0 ?n)"
    using assms(2) by (auto simp: heap_Pop_def Let_def split: if_splits)
  have "?s ! k = xs ! k" if "k < ?n" "0 < k" for k
    using that ne by (simp add: nth_slice_swap)
  then have "sinking key 0 0 ?n ?s"
    using assms(1) by (auto simp: sinking_def heap_ok_def)
  then have "heap_from key 0 ?n (heap_down (\<lambda>x y. key x < key y) ?s 0 ?n)"
    by (rule heap_down_correct) simp
  then show ?thesis by (auto simp: ys heap_ok_def heap_from_def min_def)
qed

end
