(* ===== verification/Proto_Types.thy ===== *)
theory Proto_Types
  imports Go_Prelude
begin

text \<open>
  The protobuf messages of \<open>proto/message.pb.go\<close> and \<open>proto/upstream.pb.go\<close>: one record per
  message struct, one datatype per enum (protobuf enums are open, so an unknown number is a
  value too). The wire format belongs to the protobuf library: \<open>proto.Marshal\<close> and
  \<open>proto.Unmarshal\<close> are parameters, collected in the record \<open>protobuf\<close>.

  Texts the program composes itself (many of them not ASCII) are values of \<open>msgtext\<close>: a constructor
  per literal or format string, with the arguments of the format.
\<close>

section \<open>Texts\<close>

datatype msgtext =
    Raw string
  | ErrText err
  | TitleText string string            \<comment> \<open>\<open>"[%s] %s"\<close>\<close>
  | TInvalidSeq | TSeqDetail u64 u64
  | TStartSeqZero
  | TParseFailed
  | TBadState | TLoginNotAllowed
  | TNotLoggedIn | TLoginFirst
  | TUpstreamBusy | TUpstreamBusyDetail
  | TServiceBusy | TAsyncFullDetail
  | TUpstreamError | TLoginFailed
  | TNoOpenID | TOpenIDEmpty | TBindFailed
  | TOverloaded | TOverloadedDetail
  | TPushOK
  | TSentTo int int

section \<open>Enumerations\<close>

datatype request_type =
  REQUEST_UNKNOWN | REQUEST_START | REQUEST_STOP | REQUEST_HEARTBEAT | REQUEST_BUSINESS
  | REQUEST_ACK | REQUEST_OTHER int

datatype push_type =
  PUSH_UNKNOWN | PUSH_START_RESP | PUSH_HEARTBEAT_RESP | PUSH_BUSINESS_DATA | PUSH_ERROR
  | PUSH_OTHER int

datatype stop_reason =
  STOP_UNKNOWN | USER_LOGOUT | APP_CLOSE | SWITCH_ACCOUNT | STOP_OTHER int

datatype sync_hint =
  NSH_IMMEDIATELY | NSH_BEFORE_RESPONSE | NSH_AFTER_RESPONSE | NSH_OTHER int

section \<open>Messages between client and gateway\<close>

type_synonym headers = "(string \<times> string) list"

record client_request =
  cr_MsgId :: u32
  cr_SeqId :: u64
  cr_Type :: request_type
  cr_Payload :: bytes
  cr_Headers :: headers
  cr_Openid :: string

record server_push =
  sp_MsgId :: u32
  sp_SeqId :: u64
  sp_Type :: push_type
  sp_Payload :: bytes
  sp_Headers :: headers

record start_request =
  st_Openid :: string
  st_ClientId :: string
  st_AuthToken :: string
  st_LastAckedSeqId :: u64

record error_message =
  em_ErrorCode :: int
  em_ErrorMessage :: msgtext
  em_Detail :: msgtext

record start_response =
  sr_Success :: bool
  sr_Error :: "error_message option"
  sr_HeartbeatInterval :: int
  sr_ConnectionId :: string

record stop_request =
  so_Reason :: stop_reason

record heartbeat_request =
  hq_ClientTimestamp :: int

record heartbeat_response =
  hr_ClientTimestamp :: int
  hr_ServerTimestamp :: int

record business_request =
  bq_Action :: string
  bq_Params :: headers
  bq_Data :: bytes

record business_response =
  br_Code :: int
  br_Message :: msgtext
  br_Data :: bytes

record client_ack =
  ca_AckedSeqId :: u64

section \<open>Messages between gateway and upstream services\<close>

record upstream_request =
  uq_SessionId :: string
  uq_Openid :: string
  uq_Action :: string
  uq_Params :: headers
  uq_Data :: bytes
  uq_Headers :: headers
  uq_ClientSeqId :: u64

record upstream_response =
  ur_Code :: int
  ur_Message :: msgtext
  ur_Data :: bytes
  ur_Headers :: headers
  ur_ClientSeqId :: u64

record unicast_push_request =
  up_TargetType :: string
  up_TargetId :: string
  up_MsgType :: string
  up_Title :: string
  up_Content :: msgtext
  up_Data :: bytes
  up_Metadata :: headers
  up_SyncHint :: sync_hint
  up_BindClientSeqId :: u64

record unicast_push_response =
  ps_Success :: bool
  ps_Message :: msgtext
  ps_ErrorCode :: string

record broadcast_request =
  bc_MsgType :: string
  bc_Title :: string
  bc_Content :: msgtext
  bc_Data :: bytes
  bc_Metadata :: headers

record broadcast_response =
  bp_SentCount :: int
  bp_Message :: msgtext

section \<open>The protobuf library\<close>

datatype proto_msg =
    PClientRequest client_request | PServerPush server_push | PStartRequest start_request
  | PStartResponse start_response | PStopRequest stop_request
  | PHeartbeatRequest heartbeat_request | PHeartbeatResponse heartbeat_response
  | PBusinessRequest business_request | PBusinessResponse business_response
  | PErrorMessage error_message | PClientAck client_ack
  | PUnicastPushRequest unicast_push_request

record protobuf =
  Marshal :: "proto_msg \<Rightarrow> err + bytes"
  UnmarshalClientRequest :: "bytes \<Rightarrow> err + client_request"
  UnmarshalServerPush :: "bytes \<Rightarrow> err + server_push"
  UnmarshalStartRequest :: "bytes \<Rightarrow> err + start_request"
  UnmarshalStopRequest :: "bytes \<Rightarrow> err + stop_request"
  UnmarshalHeartbeatRequest :: "bytes \<Rightarrow> err + heartbeat_request"
  UnmarshalBusinessRequest :: "bytes \<Rightarrow> err + business_request"
  UnmarshalClientAck :: "bytes \<Rightarrow> err + client_ack"

text \<open>\<open>payload, _ := proto.Marshal(m)\<close>: on an error the bytes are nil.\<close>

definition marshal_or_nil :: "protobuf \<Rightarrow> proto_msg \<Rightarrow> bytes" where
  "marshal_or_nil pb m = (case Marshal pb m of Inl _ \<Rightarrow> [] | Inr b \<Rightarrow> b)"

end
