(* ===== verification/Ordered_Queue.thy ===== *)
theory Ordered_Queue
  imports Go_Heap Proto_Types
begin

text \<open>
  \<open>internal/session/ordered_queue.go\<close>: the queue that sends the server's messages of one session
  in the order of their sequence numbers. Messages that arrive ahead of their turn wait in a
  binary heap; sent messages stay in \<open>sentMessages\<close> until the client acknowledges them.

  The send callback is a function the queue stores. It acts on a world of type \<open>'w\<close> (the stream,
  the metrics); every operation takes the world and returns it with the queue. Each operation
  runs under \<open>queueMux\<close>, so it is one step.
\<close>

section \<open>State\<close>

record omsg =
  ServerSeq :: u64
  Push :: server_push
  Data :: bytes
  Timestamp :: time
  Retries :: int
  Sent :: bool

definition MessageTimeout :: duration where "MessageTimeout = 30 * Second"
definition MaxRetries :: int where "MaxRetries = 3"
definition CleanupInterval :: duration where "CleanupInterval = 10 * Second"

section \<open>Queue limits\<close>

record queue_config =
  qc_MaxQueueSize :: int
  qc_MaxRetries :: int
  qc_CleanupInterval :: int

text \<open>\<open>queue_config.go\<close>. Nothing in the program builds a queue from these limits.\<close>

definition LoadQueueConfigFromEnv :: queue_config where
  "LoadQueueConfigFromEnv =
     \<lparr>qc_MaxQueueSize = 1000, qc_MaxRetries = MaxRetries, qc_CleanupInterval = 10000\<rparr>"

definition qc_Validate :: "queue_config \<Rightarrow> err option \<times> queue_config" where
  "qc_Validate c =
     (let c1 = (if qc_MaxQueueSize c \<le> 0 then c\<lparr>qc_MaxQueueSize := 1000\<rparr> else c);
          c2 = (if qc_MaxRetries c1 < 0 then c1\<lparr>qc_MaxRetries := MaxRetries\<rparr> else c1);
          c3 = (if qc_CleanupInterval c2 \<le> 0 then c2\<lparr>qc_CleanupInterval := 10000\<rparr> else c2)
      in (None, c3))"

section \<open>The queue\<close>

record 'w oqueue =
  sessionID :: string
  waitingQueue :: "omsg list"
  sentMessages :: "(u64 \<times> omsg) list"
  nextExpectedSeq :: u64
  lastSentSeq :: u64
  lastAckedSeq :: u64
  maxQueueSize :: int
  stopped :: bool
  stopCh_closed :: bool
  ticker_running :: bool
  sendCallback :: "('w \<Rightarrow> omsg \<Rightarrow> 'w \<times> err option) option"

section \<open>The heap of waiting messages\<close>

definition mq_Less :: "omsg \<Rightarrow> omsg \<Rightarrow> bool" where
  "mq_Less x y \<longleftrightarrow> ServerSeq x < ServerSeq y"

text \<open>\<open>MessageQueue.Push\<close> appends, \<open>MessageQueue.Pop\<close> takes the last element off, \<open>Swap\<close>
  exchanges two: the three primitives \<open>container/heap\<close> builds its operations from.\<close>

definition mq_Init :: "omsg list \<Rightarrow> omsg list" where
  "mq_Init q = heap_Init mq_Less q"

definition mq_Push :: "omsg \<Rightarrow> omsg list \<Rightarrow> omsg list" where
  "mq_Push x q = heap_Push mq_Less x q"

definition mq_Pop :: "omsg list \<Rightarrow> (omsg \<times> omsg list) option" where
  "mq_Pop q = heap_Pop mq_Less q"

lemma mq_Pop_length: "mq_Pop q = Some (m, q') \<Longrightarrow> length q = Suc (length q')"
  by (auto simp: mq_Pop_def heap_Pop_def Let_def split: if_splits)

section \<open>Operations\<close>

definition NewOrderedMessageQueue :: "string \<Rightarrow> int \<Rightarrow> 'w oqueue" where
  "NewOrderedMessageQueue sid maxq =
     \<lparr>sessionID = sid, waitingQueue = mq_Init [], sentMessages = [],
      nextExpectedSeq = 1, lastSentSeq = 0, lastAckedSeq = 0, maxQueueSize = maxq,
      stopped = False, stopCh_closed = False, ticker_running = True, sendCallback = None\<rparr>"

definition SetSendCallback ::
  "('w \<Rightarrow> omsg \<Rightarrow> 'w \<times> err option) option \<Rightarrow> 'w oqueue \<Rightarrow> 'w oqueue" where
  "SetSendCallback cb q = q\<lparr>sendCallback := cb\<rparr>"

definition GetSendCallback :: "'w oqueue \<Rightarrow> ('w \<Rightarrow> omsg \<Rightarrow> 'w \<times> err option) option" where
  "GetSendCallback q = sendCallback q"

definition oq_sendMessageDirectly :: "'w oqueue \<Rightarrow> 'w \<Rightarrow> omsg \<Rightarrow> 'w \<times> err option" where
  "oq_sendMessageDirectly q w m =
     (case sendCallback q of Some cb \<Rightarrow> cb w m | None \<Rightarrow> (w, Some ErrNoCallback))"

text \<open>What the code does after a successful send.\<close>

definition mark_sent :: "omsg \<Rightarrow> 'w oqueue \<Rightarrow> 'w oqueue" where
  "mark_sent m q =
     q\<lparr>sentMessages := gm_put (ServerSeq m) (m\<lparr>Sent := True\<rparr>) (sentMessages q),
       nextExpectedSeq := nextExpectedSeq q + 1,
       lastSentSeq := ServerSeq m\<rparr>"

function processWaitingMessages :: "'w oqueue \<Rightarrow> 'w \<Rightarrow> 'w oqueue \<times> 'w" where
  "processWaitingMessages q w =
     (if waitingQueue q = [] then (q, w)
      else if ServerSeq (waitingQueue q ! 0) = nextExpectedSeq q then
        (case mq_Pop (waitingQueue q) of
           None \<Rightarrow> (q, w)
         | Some (m, rest) \<Rightarrow>
             (case oq_sendMessageDirectly q w m of
                (w', Some _) \<Rightarrow> (q\<lparr>waitingQueue := mq_Push m rest\<rparr>, w')
              | (w', None) \<Rightarrow> processWaitingMessages (mark_sent m (q\<lparr>waitingQueue := rest\<rparr>)) w'))
      else (q, w))"
  by pat_completeness auto
termination
  by (relation "measure (\<lambda>(q, w). length (waitingQueue q))")
    (auto dest: mq_Pop_length simp: mark_sent_def)

declare processWaitingMessages.simps [simp del]

definition EnqueueMessage ::
  "u64 \<Rightarrow> server_push \<Rightarrow> bytes \<Rightarrow> time \<Rightarrow> 'w oqueue \<Rightarrow> 'w \<Rightarrow> err option \<times> 'w oqueue \<times> 'w" where
  "EnqueueMessage seq push data now q w =
     (if stopped q then (Some ErrQueueStopped, q, w)
      else if maxQueueSize q \<le> int (length (waitingQueue q)) then
        (Some (ErrQueueFull (maxQueueSize q)), q, w)
      else
        let m = \<lparr>ServerSeq = seq, Push = push, Data = data, Timestamp = now,
                 Retries = 0, Sent = False\<rparr> in
        if seq = nextExpectedSeq q then
          (case oq_sendMessageDirectly q w m of
             (w', Some e) \<Rightarrow> (Some (ErrWrap ''EnqueueMessage: send'' e), q, w')
           | (w', None) \<Rightarrow>
               (case processWaitingMessages (mark_sent m q) w' of (q', w'') \<Rightarrow> (None, q', w'')))
        else if nextExpectedSeq q < seq then
          (None, q\<lparr>waitingQueue := mq_Push m (waitingQueue q)\<rparr>, w)
        else (Some (ErrStaleSeq seq (nextExpectedSeq q)), q, w))"

record queue_stats =
  qs_session_id :: string
  qs_queue_size :: int
  qs_pending_count :: int
  qs_max_queue_size :: int
  qs_next_expected_seq :: u64
  qs_last_sent_seq :: u64
  qs_last_acked_seq :: u64
  qs_stopped :: bool

definition GetQueueStats :: "'w oqueue \<Rightarrow> queue_stats" where
  "GetQueueStats q =
     \<lparr>qs_session_id = sessionID q, qs_queue_size = int (length (waitingQueue q)),
      qs_pending_count = int (length (sentMessages q)), qs_max_queue_size = maxQueueSize q,
      qs_next_expected_seq = nextExpectedSeq q, qs_last_sent_seq = lastSentSeq q,
      qs_last_acked_seq = lastAckedSeq q, qs_stopped = stopped q\<rparr>"

definition ResyncSequence :: "u64 \<Rightarrow> 'w oqueue \<Rightarrow> 'w oqueue" where
  "ResyncSequence ack q =
     (let q1 = q\<lparr>sentMessages := gm_drop (\<lambda>(k, _). k \<le> ack) (sentMessages q)\<rparr>;
          q2 = (if nextExpectedSeq q1 \<le> ack then
                  q1\<lparr>nextExpectedSeq := ack + 1, lastSentSeq := ack,
                     waitingQueue := mq_Init (filter (\<lambda>m. ack < ServerSeq m) (waitingQueue q1))\<rparr>
                else q1)
      in if lastAckedSeq q2 < ack then q2\<lparr>lastAckedSeq := ack\<rparr> else q2)"

definition oq_AckMessagesUpTo :: "u64 \<Rightarrow> 'w oqueue \<Rightarrow> int \<times> 'w oqueue" where
  "oq_AckMessagesUpTo ack q =
     (let acked = int (length (filter (\<lambda>(k, _). k \<le> ack) (sentMessages q)));
          q1 = q\<lparr>sentMessages := gm_drop (\<lambda>(k, _). k \<le> ack) (sentMessages q)\<rparr>
      in (acked, if lastAckedSeq q1 < ack then q1\<lparr>lastAckedSeq := ack\<rparr> else q1))"

definition oq_GetPendingCount :: "'w oqueue \<Rightarrow> int" where
  "oq_GetPendingCount q = int (length (sentMessages q))"

definition cleanupExpiredMessages :: "time \<Rightarrow> 'w oqueue \<Rightarrow> 'w oqueue" where
  "cleanupExpiredMessages now q =
     q\<lparr>sentMessages := gm_drop (\<lambda>(_, m). now - Timestamp m > MessageTimeout \<and> MaxRetries \<le> Retries m)
                         (sentMessages q),
       waitingQueue := mq_Init (filter (\<lambda>m. now - Timestamp m \<le> MessageTimeout) (waitingQueue q))\<rparr>"

text \<open>The loop of \<open>retryTimedOutMessages\<close> over the map of sent messages, and its body.\<close>

definition retry_one ::
  "time \<Rightarrow> ('w \<Rightarrow> omsg \<Rightarrow> 'w \<times> err option) option \<Rightarrow> omsg \<Rightarrow> 'w \<Rightarrow> omsg \<times> 'w" where
  "retry_one now cb m w =
     (if MessageTimeout div 2 < now - Timestamp m \<and> Retries m < MaxRetries then
        (case cb of
           None \<Rightarrow> (m, w)
         | Some f \<Rightarrow>
             (case f w m of
                (w1, None) \<Rightarrow> (m\<lparr>Retries := Retries m + 1, Timestamp := now\<rparr>, w1)
              | (w1, Some _) \<Rightarrow> (m, w1)))
      else (m, w))"

fun retry_entries ::
  "time \<Rightarrow> ('w \<Rightarrow> omsg \<Rightarrow> 'w \<times> err option) option \<Rightarrow> (u64 \<times> omsg) list \<Rightarrow> 'w \<Rightarrow>
     (u64 \<times> omsg) list \<times> 'w" where
  "retry_entries now cb [] w = ([], w)"
| "retry_entries now cb ((k, m) # es) w =
     (case retry_one now cb m w of (m', w') \<Rightarrow>
       (case retry_entries now cb es w' of (es', w'') \<Rightarrow> ((k, m') # es', w'')))"

definition retryTimedOutMessages :: "time \<Rightarrow> 'w oqueue \<Rightarrow> 'w \<Rightarrow> 'w oqueue \<times> 'w" where
  "retryTimedOutMessages now q w =
     (case retry_entries now (sendCallback q) (sentMessages q) w of
        (es, w') \<Rightarrow> (q\<lparr>sentMessages := es\<rparr>, w'))"

text \<open>One round of \<open>cleanupLoop\<close>: the loop ends once \<open>stopCh\<close> is closed, a tick cleans up and retries.\<close>

definition cleanupLoop_round :: "time \<Rightarrow> 'w oqueue \<Rightarrow> 'w \<Rightarrow> 'w oqueue \<times> 'w" where
  "cleanupLoop_round now q w =
     (if stopCh_closed q then (q, w)
      else retryTimedOutMessages now (cleanupExpiredMessages now q) w)"

definition oq_Stop :: "'w oqueue \<Rightarrow> 'w oqueue" where
  "oq_Stop q =
     (if stopped q then q
      else q\<lparr>stopped := True, stopCh_closed := True, ticker_running := False,
             waitingQueue := mq_Init [], sentMessages := []\<rparr>)"

section \<open>The interface of a min-queue\<close>

text \<open>What the send loop relies on: the top is a message with the least sequence number.\<close>

locale min_queue =
  fixes push :: "'a \<Rightarrow> 'q \<Rightarrow> 'q"
    and pop :: "'q \<Rightarrow> ('a \<times> 'q) option"
    and elems :: "'q \<Rightarrow> 'a multiset"
    and ok :: "'q \<Rightarrow> bool"
    and key :: "'a \<Rightarrow> 'k::linorder"
  assumes elems_push: "elems (push x q) = add_mset x (elems q)"
    and ok_push: "ok q \<Longrightarrow> ok (push x q)"
    and pop_None: "pop q = None \<longleftrightarrow> elems q = {#}"
    and pop_elems: "pop q = Some (x, q') \<Longrightarrow> elems q = add_mset x (elems q')"
    and ok_pop: "ok q \<Longrightarrow> pop q = Some (x, q') \<Longrightarrow> ok q'"
    and pop_min: "ok q \<Longrightarrow> pop q = Some (x, q') \<Longrightarrow> y \<in># elems q \<Longrightarrow> key x \<le> key y"
begin

lemma pop_hits_bound:
  assumes "ok q" "pop q = Some (x, q')" and bound: "\<And>y. y \<in># elems q \<Longrightarrow> n \<le> key y"
  shows "key x = n \<longleftrightarrow> n \<in> key ` set_mset (elems q)"
proof
  assume "key x = n"
  then show "n \<in> key ` set_mset (elems q)" using pop_elems [OF assms(2)] by auto
next
  assume "n \<in> key ` set_mset (elems q)"
  then have "key x \<le> n" using pop_min [OF assms(1,2)] by auto
  moreover have "n \<le> key x" using bound pop_elems [OF assms(2)] by simp
  ultimately show "key x = n" by simp
qed

lemma push_back: "pop q = Some (x, q') \<Longrightarrow> elems (push x q') = elems q"
  by (simp add: elems_push pop_elems)

end

lemma mq_Less_key: "mq_Less = (\<lambda>x y. ServerSeq x < ServerSeq y)"
  by (simp add: fun_eq_iff mq_Less_def)

lemma mq_Pop_SomeD:
  assumes "mq_Pop q = Some (x, q')"
  shows "x = q ! 0" "mset q = add_mset x (mset q')" "q \<noteq> []"
proof -
  show "q \<noteq> []" using assms by (auto simp: mq_Pop_def heap_Pop_def)
  then obtain ys where "heap_Pop mq_Less q = Some (q ! 0, ys)" "mset q = add_mset (q ! 0) (mset ys)"
    by (rule heap_Pop_top)
  with assms show "x = q ! 0" "mset q = add_mset x (mset q')"
    by (simp_all add: mq_Pop_def)
qed

interpretation mq: min_queue mq_Push mq_Pop mset "heap_ok ServerSeq" ServerSeq
proof
  fix x y :: omsg and q q' :: "omsg list"
  show "mset (mq_Push x q) = add_mset x (mset q)"
    by (simp add: mq_Push_def)
  show "heap_ok ServerSeq q \<Longrightarrow> heap_ok ServerSeq (mq_Push x q)"
    by (simp add: mq_Push_def mq_Less_key heap_ok_Push)
  show "(mq_Pop q = None) = (mset q = {#})"
    by (simp add: mq_Pop_def heap_Pop_def Let_def)
  show el: "mset q = add_mset x (mset q')" if "mq_Pop q = Some (x, q')"
    using that by (rule mq_Pop_SomeD)
  show "heap_ok ServerSeq q \<Longrightarrow> mq_Pop q = Some (x, q') \<Longrightarrow> heap_ok ServerSeq q'"
    by (simp add: mq_Pop_def mq_Less_key heap_ok_Pop)
  show "ServerSeq x \<le> ServerSeq y"
    if "heap_ok ServerSeq q" "mq_Pop q = Some (x, q')" "y \<in># mset q"
  proof -
    have "x = q ! 0"
      using that(2) by (rule mq_Pop_SomeD)
    then show ?thesis using that heap_ok_min_set by simp
  qed
qed

lemma mq_Pop_top: "q \<noteq> [] \<Longrightarrow> \<exists>q'. mq_Pop q = Some (q ! 0, q')"
  using heap_Pop_top [of q mq_Less] by (metis mq_Pop_def)

lemma mq_Init_facts [simp]:
  "heap_ok ServerSeq (mq_Init q)" "mset (mq_Init q) = mset q" "length (mq_Init q) = length q"
  "set (mq_Init q) = set q" "(mq_Init q = []) = (q = [])"
proof -
  show m: "mset (mq_Init q) = mset q" by (simp add: mq_Init_def)
  show "heap_ok ServerSeq (mq_Init q)" by (simp add: mq_Init_def mq_Less_key heap_ok_Init)
  show "length (mq_Init q) = length q" by (simp add: mq_Init_def)
  show "set (mq_Init q) = set q" using m by (metis set_mset_mset)
  show "(mq_Init q = []) = (q = [])" using m by (metis mset_zero_iff)
qed

lemma mq_Init_Nil [simp]: "mq_Init [] = []"
  by simp

lemma mq_Push_facts [simp]:
  "length (mq_Push m q) = Suc (length q)" "set (mq_Push m q) = insert m (set q)"
  "mq_Push m q \<noteq> []"
proof -
  show l: "length (mq_Push m q) = Suc (length q)" by (simp add: mq_Push_def)
  show "set (mq_Push m q) = insert m (set q)"
    using mq.elems_push [of m q] by (metis set_mset_add_mset_insert set_mset_mset)
  show "mq_Push m q \<noteq> []" using l by (metis length_0_conv nat.distinct(1))
qed

lemma mq_Pop_facts:
  assumes "mq_Pop q = Some (m, q')"
  shows "m \<in> set q" "set q = insert m (set q')" "m = q ! 0"
proof -
  show s: "set q = insert m (set q')"
    using mq.pop_elems [OF assms] by (metis set_mset_add_mset_insert set_mset_mset)
  then show "m \<in> set q" by simp
  show "m = q ! 0" using assms by (rule mq_Pop_SomeD)
qed

section \<open>The invariant\<close>

definition sent_ok :: "(u64 \<times> omsg) list \<Rightarrow> bool" where
  "sent_ok es \<longleftrightarrow> gm_ok es \<and>
     (\<forall>(k, m) \<in> set es. ServerSeq m = k \<and> Sent m \<and> 0 \<le> Retries m \<and> Retries m \<le> MaxRetries)"

definition waiting_ok :: "omsg list \<Rightarrow> bool" where
  "waiting_ok q \<longleftrightarrow> heap_ok ServerSeq q \<and> (\<forall>m \<in> set q. \<not> Sent m \<and> Retries m = 0)"

definition oq_inv :: "'w oqueue \<Rightarrow> bool" where
  "oq_inv q \<longleftrightarrow> waiting_ok (waitingQueue q) \<and> sent_ok (sentMessages q) \<and>
     int (length (waitingQueue q)) \<le> maxQueueSize q \<and>
     nextExpectedSeq q = lastSentSeq q + 1 \<and>
     (stopped q \<longrightarrow> waitingQueue q = [] \<and> sentMessages q = []) \<and>
     stopCh_closed q = stopped q \<and> ticker_running q = (\<not> stopped q)"

lemma waiting_ok_Nil [simp]: "waiting_ok []"
  by (simp add: waiting_ok_def)

lemma waiting_ok_Init: "(\<forall>m \<in> set q. \<not> Sent m \<and> Retries m = 0) \<Longrightarrow> waiting_ok (mq_Init q)"
  by (simp add: waiting_ok_def)

lemma waiting_ok_Push: "waiting_ok q \<Longrightarrow> \<not> Sent m \<Longrightarrow> Retries m = 0 \<Longrightarrow> waiting_ok (mq_Push m q)"
  by (simp add: waiting_ok_def mq.ok_push)

lemma waiting_ok_Pop:
  assumes "waiting_ok q" "mq_Pop q = Some (m, q')"
  shows "waiting_ok q'" "\<not> Sent m" "Retries m = 0"
  using assms mq_Pop_facts [OF assms(2)] mq.ok_pop [OF _ assms(2)]
  by (auto simp: waiting_ok_def)

lemma sent_ok_put:
  "sent_ok es \<Longrightarrow> Retries m = 0 \<Longrightarrow> ServerSeq m = k \<Longrightarrow> sent_ok (gm_put k (m\<lparr>Sent := True\<rparr>) es)"
  by (auto simp: sent_ok_def MaxRetries_def dest!: gm_set_put)

lemma sent_ok_drop: "sent_ok es \<Longrightarrow> sent_ok (gm_drop P es)"
  by (auto simp: sent_ok_def)

text \<open>The retry loop keeps the keys and changes only retries and time stamps.\<close>

lemma retry_one_msg:
  assumes "retry_one now cb m w = (m', w')"
  shows "ServerSeq m' = ServerSeq m" "Sent m' = Sent m" "Data m' = Data m" "Push m' = Push m"
    "Retries m' = Retries m \<or> Retries m' = Retries m + 1 \<and> Retries m < MaxRetries"
  using assms by (auto simp: retry_one_def split: if_splits option.splits prod.splits)

lemma retry_entries_keys: "map fst (fst (retry_entries now cb es w)) = map fst es"
proof (induction es arbitrary: w)
  case (Cons e es)
  obtain k m where e: "e = (k, m)" by fastforce
  obtain m' w' where one: "retry_one now cb m w = (m', w')" by fastforce
  show ?case
    using Cons [of w'] by (cases "retry_entries now cb es w'") (simp add: e one)
qed simp

lemma sent_ok_Cons:
  "sent_ok ((k, m) # es) \<longleftrightarrow> k \<notin> fst ` set es \<and> sent_ok es \<and>
     ServerSeq m = k \<and> Sent m \<and> 0 \<le> Retries m \<and> Retries m \<le> MaxRetries"
  by (auto simp: sent_ok_def gm_ok_def)

lemma retry_entries_ok: "sent_ok es \<Longrightarrow> sent_ok (fst (retry_entries now cb es w))"
proof (induction now cb es w rule: retry_entries.induct)
  case (2 now cb k m es w)
  obtain m' w' where one: "retry_one now cb m w = (m', w')" by fastforce
  obtain es' w'' where rest: "retry_entries now cb es w' = (es', w'')" by fastforce
  have "map fst es' = map fst es" using retry_entries_keys [of now cb es w'] rest by simp
  then have "fst ` set es' = fst ` set es" by (metis image_set)
  moreover have "sent_ok es'" using "2.IH" [OF one [symmetric]] "2.prems" rest
    by (simp add: sent_ok_Cons)
  ultimately show ?case
    using "2.prems" retry_one_msg [OF one] by (auto simp: one rest sent_ok_Cons)
qed simp

lemma retry_entries_length [simp]: "length (fst (retry_entries now cb es w)) = length es"
  by (metis retry_entries_keys length_map)

section \<open>The send loop, step by step\<close>

definition top_is_next :: "'w oqueue \<Rightarrow> bool" where
  "top_is_next q \<longleftrightarrow> waitingQueue q \<noteq> [] \<and> ServerSeq (waitingQueue q ! 0) = nextExpectedSeq q"

lemma process_stop: "\<not> top_is_next q \<Longrightarrow> processWaitingMessages q w = (q, w)"
  by (subst processWaitingMessages.simps) (auto simp: top_is_next_def)

lemma process_sent:
  "top_is_next q \<Longrightarrow> mq_Pop (waitingQueue q) = Some (m, rest) \<Longrightarrow>
    oq_sendMessageDirectly q w m = (w', None) \<Longrightarrow>
    processWaitingMessages q w = processWaitingMessages (mark_sent m (q\<lparr>waitingQueue := rest\<rparr>)) w'"
  by (subst processWaitingMessages.simps) (simp add: top_is_next_def)

lemma process_failed:
  "top_is_next q \<Longrightarrow> mq_Pop (waitingQueue q) = Some (m, rest) \<Longrightarrow>
    oq_sendMessageDirectly q w m = (w', Some e) \<Longrightarrow>
    processWaitingMessages q w = (q\<lparr>waitingQueue := mq_Push m rest\<rparr>, w')"
  by (subst processWaitingMessages.simps) (simp add: top_is_next_def)

lemma top_is_next_pop:
  assumes "top_is_next q"
  obtains m rest where "mq_Pop (waitingQueue q) = Some (m, rest)" "ServerSeq m = nextExpectedSeq q"
    "length (waitingQueue q) = Suc (length rest)"
  using assms mq_Pop_top [of "waitingQueue q"] mq_Pop_length [of "waitingQueue q"]
  by (auto simp: top_is_next_def)

end
