(* ===== verification/Notify_Ordering.thy ===== *)
theory Notify_Ordering
  imports Proto_Types
begin

text \<open>
  \<open>internal/session/notify_ordering.go\<close>: notifications bound to the response of a client request,
  kept per client sequence number (\<open>grid\<close>) until the response is sent.

  Each method of \<open>MessageOrderingManager\<close> holds the mutex from start to end, so it is one step.
  The two maps are handled by the same code; \<open>bind_at\<close>, \<open>take_at\<close>, \<open>pending_in\<close> and \<open>cleanup_in\<close> are
  that code for one map.
\<close>

section \<open>State\<close>

record notify_item =
  NotifyData :: bytes
  MsgType :: string
  Title :: string
  Content :: msgtext
  Metadata :: headers
  SyncHint :: sync_hint
  BindGrid :: u32
  CreateTime :: int

type_synonym bound = "(u32 \<times> notify_item list) list"

record ordering =
  beforeRspNotifies :: bound
  afterRspNotifies :: bound

definition NewMessageOrderingManager :: ordering where
  "NewMessageOrderingManager = \<lparr>beforeRspNotifies = [], afterRspNotifies = []\<rparr>"

section \<open>Operations\<close>

definition bind_at :: "u32 \<Rightarrow> notify_item \<Rightarrow> bound \<Rightarrow> bound" where
  "bind_at g n b = gm_put g (gm_getd [] b g @ [n]) b"

definition take_at :: "u32 \<Rightarrow> bound \<Rightarrow> notify_item list \<times> bound" where
  "take_at g b = (gm_getd [] b g, gm_del g b)"

definition om_AddNotifyBindBeforeRsp :: "u32 \<Rightarrow> notify_item option \<Rightarrow> ordering \<Rightarrow> bool \<times> ordering" where
  "om_AddNotifyBindBeforeRsp g n m =
     (case n of
        None \<Rightarrow> (False, m)
      | Some x \<Rightarrow> (True, m\<lparr>beforeRspNotifies := bind_at g x (beforeRspNotifies m)\<rparr>))"

definition om_AddNotifyBindAfterRsp :: "u32 \<Rightarrow> notify_item option \<Rightarrow> ordering \<Rightarrow> bool \<times> ordering" where
  "om_AddNotifyBindAfterRsp g n m =
     (case n of
        None \<Rightarrow> (False, m)
      | Some x \<Rightarrow> (True, m\<lparr>afterRspNotifies := bind_at g x (afterRspNotifies m)\<rparr>))"

definition GetAndRemoveBeforeNotifies :: "u32 \<Rightarrow> ordering \<Rightarrow> notify_item list \<times> ordering" where
  "GetAndRemoveBeforeNotifies g m =
     (case take_at g (beforeRspNotifies m) of (ns, b) \<Rightarrow> (ns, m\<lparr>beforeRspNotifies := b\<rparr>))"

definition GetAndRemoveAfterNotifies :: "u32 \<Rightarrow> ordering \<Rightarrow> notify_item list \<times> ordering" where
  "GetAndRemoveAfterNotifies g m =
     (case take_at g (afterRspNotifies m) of (ns, b) \<Rightarrow> (ns, m\<lparr>afterRspNotifies := b\<rparr>))"

fun pending_in :: "bound \<Rightarrow> nat" where
  "pending_in [] = 0"
| "pending_in ((g, ns) # b) = length ns + pending_in b"

definition GetPendingBeforeCount :: "ordering \<Rightarrow> int" where
  "GetPendingBeforeCount m = int (pending_in (beforeRspNotifies m))"

definition GetPendingAfterCount :: "ordering \<Rightarrow> int" where
  "GetPendingAfterCount m = int (pending_in (afterRspNotifies m))"

text \<open>One of the two loops of \<open>CleanupExpiredNotifies\<close>: the notifications kept, and how many were not.\<close>

fun cleanup_in :: "int \<Rightarrow> int \<Rightarrow> bound \<Rightarrow> bound \<times> int" where
  "cleanup_in now maxAge [] = ([], 0)"
| "cleanup_in now maxAge ((g, ns) # b) =
     (let filtered = filter (\<lambda>n. now - CreateTime n \<le> maxAge) ns;
          cleaned = int (length ns) - int (length filtered)
      in case cleanup_in now maxAge b of (b', k) \<Rightarrow>
           ((if filtered = [] then b' else (g, filtered) # b'), cleaned + k))"

definition CleanupExpiredNotifies :: "int \<Rightarrow> int \<Rightarrow> ordering \<Rightarrow> int \<times> ordering" where
  "CleanupExpiredNotifies now maxAge m =
     (case cleanup_in now maxAge (beforeRspNotifies m) of (b, k) \<Rightarrow>
       (case cleanup_in now maxAge (afterRspNotifies m) of (a, k') \<Rightarrow>
         (k + k', m\<lparr>beforeRspNotifies := b, afterRspNotifies := a\<rparr>)))"

definition om_Clear :: "ordering \<Rightarrow> ordering" where
  "om_Clear m = m\<lparr>beforeRspNotifies := [], afterRspNotifies := []\<rparr>"

section \<open>A table of bound notifications as a family of FIFO queues\<close>

text \<open>
  The abstract view: for every number the list of the notifications bound to it, in the order of
  binding. The operations are the locale's, the laws the client (the session) uses.
\<close>

definition bound_view :: "bound \<Rightarrow> u32 \<Rightarrow> notify_item list" where
  "bound_view b g = gm_getd [] b g"

definition bound_ok :: "bound \<Rightarrow> bool" where
  "bound_ok b \<longleftrightarrow> gm_ok b \<and> (\<forall>(g, ns) \<in> set b. ns \<noteq> [])"

locale fifo_family =
  fixes add :: "'k \<Rightarrow> 'a \<Rightarrow> 'q \<Rightarrow> 'q"
    and take_all :: "'k \<Rightarrow> 'q \<Rightarrow> 'a list \<times> 'q"
    and view :: "'q \<Rightarrow> 'k \<Rightarrow> 'a list"
    and invar :: "'q \<Rightarrow> bool"
  assumes invar_add: "invar q \<Longrightarrow> invar (add k x q)"
    and invar_take: "invar q \<Longrightarrow> invar (snd (take_all k q))"
    and view_add: "invar q \<Longrightarrow> view (add k x q) = (view q)(k := view q k @ [x])"
    and view_take: "invar q \<Longrightarrow> fst (take_all k q) = view q k \<and> view (snd (take_all k q)) = (view q)(k := [])"
begin

primrec add_many :: "('k \<times> 'a) list \<Rightarrow> 'q \<Rightarrow> 'q" where
  "add_many [] q = q"
| "add_many (x # xs) q = add_many xs (add (fst x) (snd x) q)"

lemma invar_add_many: "invar q \<Longrightarrow> invar (add_many xs q)"
  by (induction xs arbitrary: q) (simp_all add: invar_add)

lemma view_add_many:
  "invar q \<Longrightarrow> view (add_many xs q) k = view q k @ map snd (filter (\<lambda>x. fst x = k) xs)"
  by (induction xs arbitrary: q) (auto simp: invar_add view_add)

text \<open>What is taken is what was added for that key since the key was last taken, in that order.\<close>

lemma take_after_adds:
  assumes "invar q" "view q k = []"
  shows "fst (take_all k (add_many xs q)) = map snd (filter (\<lambda>x. fst x = k) xs)"
    and "fst (take_all k (snd (take_all k (add_many xs q)))) = []"
    and "k' \<noteq> k \<Longrightarrow> view (snd (take_all k (add_many xs q))) k' = view (add_many xs q) k'"
  using assms by (simp_all add: view_take invar_take invar_add_many view_add_many)

end

lemma gm_getd_put: "gm_getd d (gm_put k v m) k' = (if k' = k then v else gm_getd d m k')"
  by (simp add: gm_getd_def)

lemma gm_getd_del: "gm_getd d (gm_del k m) k' = (if k' = k then d else gm_getd d m k')"
  by (simp add: gm_getd_def)

lemma bound_ok_Nil [simp]: "bound_ok []"
  by (simp add: bound_ok_def)

lemma bound_ok_bind: "bound_ok b \<Longrightarrow> bound_ok (bind_at g n b)"
  by (auto simp: bound_ok_def bind_at_def dest!: gm_set_put)

lemma bound_ok_del: "bound_ok b \<Longrightarrow> bound_ok (gm_del g b)"
  by (auto simp: bound_ok_def dest!: gm_set_del)

interpretation notifies: fifo_family bind_at take_at bound_view bound_ok
proof
  fix b :: bound and g n
  show "bound_ok b \<Longrightarrow> bound_ok (bind_at g n b)" by (rule bound_ok_bind)
  show "bound_ok b \<Longrightarrow> bound_ok (snd (take_at g b))" by (simp add: take_at_def bound_ok_del)
  show "bound_view (bind_at g n b) = (bound_view b)(g := bound_view b g @ [n])"
    by (simp add: bound_view_def bind_at_def gm_getd_put fun_eq_iff)
  show "fst (take_at g b) = bound_view b g \<and> bound_view (snd (take_at g b)) = (bound_view b)(g := [])"
    by (simp add: bound_view_def take_at_def gm_getd_del fun_eq_iff)
qed

lemma take_at_view: "fst (take_at g b) = bound_view b g"
  by (simp add: take_at_def bound_view_def)

section \<open>Cleanup\<close>

lemma cleanup_keys: "fst ` set (fst (cleanup_in now a b)) \<subseteq> fst ` set b"
proof (induction b)
  case (Cons e b)
  obtain h ns where e: "e = (h, ns)" by (metis surj_pair)
  obtain b' k where rest: "cleanup_in now a b = (b', k)" by (metis surj_pair)
  show ?case using Cons rest by (auto simp: e Let_def)
qed simp

lemma cleanup_view:
  assumes "gm_ok b"
  shows "bound_view (fst (cleanup_in now a b)) g =
    filter (\<lambda>n. now - CreateTime n \<le> a) (bound_view b g)"
  using assms
proof (induction b)
  case (Cons e b)
  obtain h ns where e: "e = (h, ns)" by (metis surj_pair)
  obtain b' k where rest: "cleanup_in now a b = (b', k)" by (metis surj_pair)
  have "h \<notin> fst ` set b" "gm_ok b" using Cons.prems by (auto simp: e gm_ok_def)
  moreover from this have "h \<notin> fst ` set b'" using cleanup_keys [of now a b] rest by auto
  moreover from this have "map_of b' h = None" "map_of b h = None"
    using calculation by (simp_all add: map_of_eq_None_iff)
  ultimately show ?case
    using Cons.IH rest by (auto simp: e bound_view_def gm_getd_def Let_def split: option.splits)
qed (simp add: bound_view_def gm_getd_def)

lemma cleanup_count:
  "snd (cleanup_in now a b) = int (pending_in b) - int (pending_in (fst (cleanup_in now a b)))"
proof (induction b)
  case (Cons e b)
  obtain h ns where e: "e = (h, ns)" by (metis surj_pair)
  obtain b' k where rest: "cleanup_in now a b = (b', k)" by (metis surj_pair)
  show ?case using Cons rest by (auto simp: e Let_def)
qed simp

lemma cleanup_ok: "bound_ok b \<Longrightarrow> bound_ok (fst (cleanup_in now a b))"
proof (induction b)
  case (Cons e b)
  obtain h ns where e: "e = (h, ns)" by (metis surj_pair)
  obtain b' k where rest: "cleanup_in now a b = (b', k)" by (metis surj_pair)
  have ok: "bound_ok b" using Cons.prems by (auto simp: e bound_ok_def gm_ok_def)
  have "h \<notin> fst ` set b" using Cons.prems by (auto simp: e bound_ok_def gm_ok_def)
  then have "h \<notin> fst ` set b'" using cleanup_keys [of now a b] rest by auto
  then show ?case
    using Cons.IH [OF ok] rest by (auto simp: e bound_ok_def gm_ok_def Let_def)
qed simp

definition ordering_ok :: "ordering \<Rightarrow> bool" where
  "ordering_ok m \<longleftrightarrow> bound_ok (beforeRspNotifies m) \<and> bound_ok (afterRspNotifies m)"

lemma ordering_ok_New [simp]: "ordering_ok NewMessageOrderingManager"
  by (simp add: ordering_ok_def NewMessageOrderingManager_def bound_ok_def)

lemma ordering_ok_ops:
  assumes "ordering_ok m"
  shows "ordering_ok (snd (om_AddNotifyBindBeforeRsp g n m))"
    "ordering_ok (snd (om_AddNotifyBindAfterRsp g n m))"
    "ordering_ok (snd (GetAndRemoveBeforeNotifies g m))"
    "ordering_ok (snd (GetAndRemoveAfterNotifies g m))"
    "ordering_ok (snd (CleanupExpiredNotifies now a m))"
    "ordering_ok (om_Clear m)"
  using assms cleanup_ok [of "beforeRspNotifies m" now a] cleanup_ok [of "afterRspNotifies m" now a]
    notifies.invar_take [of "beforeRspNotifies m" g] notifies.invar_take [of "afterRspNotifies m" g]
  by (auto simp: ordering_ok_def om_AddNotifyBindBeforeRsp_def om_AddNotifyBindAfterRsp_def
      GetAndRemoveBeforeNotifies_def GetAndRemoveAfterNotifies_def CleanupExpiredNotifies_def
      om_Clear_def bound_ok_bind bound_ok_Nil split: option.splits prod.splits)

section \<open>Properties\<close>

text \<open>A sequence of bindings: before or after, the number, the notification.\<close>

fun om_bind :: "bool \<times> u32 \<times> notify_item \<Rightarrow> ordering \<Rightarrow> ordering" where
  "om_bind (before, g, n) m =
     snd (if before then om_AddNotifyBindBeforeRsp g (Some n) m
          else om_AddNotifyBindAfterRsp g (Some n) m)"

definition om_binds :: "(bool \<times> u32 \<times> notify_item) list \<Rightarrow> ordering \<Rightarrow> ordering" where
  "om_binds xs m = fold om_bind xs m"

definition bound_for :: "bool \<Rightarrow> u32 \<Rightarrow> (bool \<times> u32 \<times> notify_item) list \<Rightarrow> notify_item list" where
  "bound_for before g xs = map (\<lambda>(_, _, n). n) (filter (\<lambda>(b, h, _). b = before \<and> h = g) xs)"

lemma om_binds_view:
  "beforeRspNotifies (om_binds xs m) = notifies.add_many (map snd (filter fst xs)) (beforeRspNotifies m) \<and>
   afterRspNotifies (om_binds xs m) = notifies.add_many (map snd (filter (Not \<circ> fst) xs)) (afterRspNotifies m)"
proof (induction xs arbitrary: m)
  case (Cons x xs)
  obtain b g n where x: "x = (b, g, n)" by (metis surj_pair)
  show ?case
    using Cons [of "om_bind x m"]
    by (simp add: x om_binds_def om_AddNotifyBindBeforeRsp_def om_AddNotifyBindAfterRsp_def)
qed (simp add: om_binds_def)

lemma bound_for_split:
  "bound_for True g xs = map snd (filter (\<lambda>x. fst x = g) (map snd (filter fst xs)))"
  "bound_for False g xs = map snd (filter (\<lambda>x. fst x = g) (map snd (filter (Not \<circ> fst) xs)))"
  by (induction xs) (auto simp: bound_for_def)

text \<open>C27. The notifications taken for a number are exactly those bound to it, in the order of binding;
  before and after bindings and other numbers do not mix, and taking empties the number. \<close>

theorem notify_fifo:
  "let m = om_binds xs NewMessageOrderingManager;
       (bs, m1) = GetAndRemoveBeforeNotifies g m;
       (as, m2) = GetAndRemoveAfterNotifies g m
   in bs = bound_for True g xs \<and> as = bound_for False g xs \<and>
      fst (GetAndRemoveBeforeNotifies g m1) = [] \<and> fst (GetAndRemoveAfterNotifies g m2) = [] \<and>
      fst (GetAndRemoveAfterNotifies g m1) = as \<and> fst (GetAndRemoveBeforeNotifies g m2) = bs \<and>
      (\<forall>h. h \<noteq> g \<longrightarrow> fst (GetAndRemoveBeforeNotifies h m1) = bound_for True h xs)"
proof -
  let ?m = "om_binds xs NewMessageOrderingManager"
  have init: "bound_ok []" "bound_view [] h = []" for h
    by (simp_all add: bound_view_def gm_getd_def)
  have b: "beforeRspNotifies ?m = notifies.add_many (map snd (filter fst xs)) []"
    and a: "afterRspNotifies ?m = notifies.add_many (map snd (filter (Not \<circ> fst) xs)) []"
    using om_binds_view [of xs NewMessageOrderingManager] by (simp_all add: NewMessageOrderingManager_def)
  note take = notifies.take_after_adds
  note tb = take [OF init, where xs = "map snd (filter fst xs)", folded b]
  note ta = take [OF init, where xs = "map snd (filter (Not \<circ> fst) xs)", folded a]
  have ob: "bound_view (beforeRspNotifies ?m) h = bound_for True h xs" for h
    using tb(1) [of h] by (simp add: take_at_view bound_for_split)
  show ?thesis
    using tb(1,2) [of g] ta(1,2) [of g] tb(3) [of _ g] ob
    by (simp add: Let_def GetAndRemoveBeforeNotifies_def GetAndRemoveAfterNotifies_def
        case_prod_beta bound_for_split take_at_view)
qed

theorem notify_fifo_witness:
  "let mk = (\<lambda>t. \<lparr>NotifyData = [], MsgType = ''t'', Title = t, Content = Raw ''c'', Metadata = [],
         SyncHint = NSH_IMMEDIATELY, BindGrid = 5, CreateTime = 1\<rparr>);
       m = om_binds [(True, 5, mk ''a''), (False, 5, mk ''b''), (True, 6, mk ''c''), (True, 5, mk ''d'')]
         NewMessageOrderingManager
   in map Title (fst (GetAndRemoveBeforeNotifies 5 m)) = [''a'', ''d''] \<and>
      map Title (fst (GetAndRemoveBeforeNotifies 6 (snd (GetAndRemoveBeforeNotifies 5 m)))) = [''c'']"
proof -
  define mk :: "string \<Rightarrow> notify_item" where "mk = (\<lambda>t. \<lparr>NotifyData = [], MsgType = ''t'', Title = t, Content = Raw ''c'',
    Metadata = [], SyncHint = NSH_IMMEDIATELY, BindGrid = 5, CreateTime = 1\<rparr>)"
  show ?thesis
    using notify_fifo [where g = 5 and xs = "[(True, 5, mk ''a''), (False, 5, mk ''b''), (True, 6, mk ''c''), (True, 5, mk ''d'')]"]
    by (simp add: Let_def case_prod_beta bound_for_def mk_def)
qed

text \<open>Cleaning up removes exactly the notifications older than the given age, keeps the order of the
  others, and returns the number it removed. \<close>

theorem notify_cleanup:
  assumes "ordering_ok m" "CleanupExpiredNotifies now maxAge m = (k, m')"
  shows "bound_view (beforeRspNotifies m') g =
      filter (\<lambda>n. now - CreateTime n \<le> maxAge) (bound_view (beforeRspNotifies m) g) \<and>
    bound_view (afterRspNotifies m') g =
      filter (\<lambda>n. now - CreateTime n \<le> maxAge) (bound_view (afterRspNotifies m) g) \<and>
    k = GetPendingBeforeCount m + GetPendingAfterCount m -
        (GetPendingBeforeCount m' + GetPendingAfterCount m') \<and> ordering_ok m'"
proof -
  have ok: "gm_ok (beforeRspNotifies m)" "gm_ok (afterRspNotifies m)"
    using assms(1) by (simp_all add: ordering_ok_def bound_ok_def)
  have "ordering_ok m'" using ordering_ok_ops(5) [OF assms(1), of now maxAge] assms(2) by simp
  then show ?thesis
    using assms(2) cleanup_view [OF ok(1), of now maxAge g] cleanup_view [OF ok(2), of now maxAge g]
      cleanup_count [of now maxAge "beforeRspNotifies m"] cleanup_count [of now maxAge "afterRspNotifies m"]
    by (auto simp: CleanupExpiredNotifies_def GetPendingBeforeCount_def GetPendingAfterCount_def
        split: prod.splits)
qed

definition note0 :: "int \<Rightarrow> notify_item" where
  "note0 t = \<lparr>NotifyData = [], MsgType = ''m'', Title = ''t'', Content = Raw ''c'', Metadata = [],
     SyncHint = NSH_BEFORE_RESPONSE, BindGrid = 7, CreateTime = t\<rparr>"

theorem notify_cleanup_witness:
  "fst (CleanupExpiredNotifies 100 10
     (om_binds [(True, 7, note0 80), (True, 7, note0 95), (False, 7, note0 50)] NewMessageOrderingManager)) = 2"
proof -
  let ?m = "om_binds [(True, 7, note0 80), (True, 7, note0 95), (False, 7, note0 50)] NewMessageOrderingManager"
  obtain k m' where c: "CleanupExpiredNotifies 100 10 ?m = (k, m')" by (metis surj_pair)
  have "ordering_ok ?m" by (simp add: om_binds_def ordering_ok_ops)
  then have "k = GetPendingBeforeCount ?m + GetPendingAfterCount ?m -
      (GetPendingBeforeCount m' + GetPendingAfterCount m')"
    using notify_cleanup [OF _ c] by blast
  moreover have "GetPendingBeforeCount ?m + GetPendingAfterCount ?m = 3" by code_simp
  moreover have m': "m' = om_binds [(True, 7, note0 95)] NewMessageOrderingManager"
    using c by (simp add: CleanupExpiredNotifies_def om_binds_def om_AddNotifyBindBeforeRsp_def
        om_AddNotifyBindAfterRsp_def bind_at_def gm_getd_def NewMessageOrderingManager_def note0_def)
  have "GetPendingBeforeCount m' + GetPendingAfterCount m' = 1" unfolding m' by code_simp
  ultimately show ?thesis using c by simp
qed

end
