(* ===== verification/Message_Codec.thy ===== *)
theory Message_Codec
  imports Proto_Types
begin

text \<open>
  \<open>internal/message/codec.go\<close>: frames of a four-byte big-endian length and the protobuf bytes, the
  limit of 1 MiB, and the messages the codec builds.

  A reader is the list of the bytes it will still deliver before it ends. A writer is a function
  of the state it writes to; it gets the whole frame in one call. The clock of
  \<open>getCurrentTimestamp\<close> is an argument. The read-latency callback only measures and is left out.
\<close>

definition MessageHeaderSize :: nat where "MessageHeaderSize = 4"
definition MaxMessageSize :: nat where "MaxMessageSize = 1024 * 1024"

section \<open>Encoding and decoding messages\<close>

definition EncodeClientRequest :: "protobuf \<Rightarrow> client_request \<Rightarrow> err + bytes" where
  "EncodeClientRequest pb req =
     (case Marshal pb (PClientRequest req) of
        Inl e \<Rightarrow> Inl (ErrWrap ''EncodeClientRequest'' e)
      | Inr d \<Rightarrow> if MaxMessageSize < length d then Inl (ErrTooLarge (length d)) else Inr d)"

definition DecodeClientRequest :: "protobuf \<Rightarrow> bytes \<Rightarrow> err + client_request" where
  "DecodeClientRequest pb d =
     (case UnmarshalClientRequest pb d of
        Inl e \<Rightarrow> Inl (ErrWrap ''DecodeClientRequest'' e)
      | Inr r \<Rightarrow> Inr r)"

definition EncodeServerPush :: "protobuf \<Rightarrow> server_push \<Rightarrow> err + bytes" where
  "EncodeServerPush pb push =
     (case Marshal pb (PServerPush push) of
        Inl e \<Rightarrow> Inl (ErrWrap ''EncodeServerPush'' e)
      | Inr d \<Rightarrow> if MaxMessageSize < length d then Inl (ErrTooLarge (length d)) else Inr d)"

definition DecodeServerPush :: "protobuf \<Rightarrow> bytes \<Rightarrow> err + server_push" where
  "DecodeServerPush pb d =
     (case UnmarshalServerPush pb d of
        Inl e \<Rightarrow> Inl (ErrWrap ''DecodeServerPush'' e)
      | Inr r \<Rightarrow> Inr r)"

definition EncodeClientAck :: "protobuf \<Rightarrow> client_ack \<Rightarrow> err + bytes" where
  "EncodeClientAck pb ack =
     (case Marshal pb (PClientAck ack) of
        Inl e \<Rightarrow> Inl (ErrWrap ''EncodeClientAck'' e)
      | Inr d \<Rightarrow> Inr d)"

definition DecodeClientAck :: "protobuf \<Rightarrow> bytes \<Rightarrow> err + client_ack" where
  "DecodeClientAck pb d =
     (case UnmarshalClientAck pb d of
        Inl e \<Rightarrow> Inl (ErrWrap ''DecodeClientAck'' e)
      | Inr r \<Rightarrow> Inr r)"

section \<open>Frames\<close>

text \<open>\<open>binary.BigEndian\<close> for \<open>uint32\<close>.\<close>

definition put_be32 :: "u32 \<Rightarrow> bytes" where
  "put_be32 x = [ucast (drop_bit 24 x), ucast (drop_bit 16 x), ucast (drop_bit 8 x), ucast x]"

definition get_be32 :: "bytes \<Rightarrow> u32" where
  "get_be32 bs = fold (\<lambda>b acc. acc * 256 + ucast b) bs 0"

text \<open>\<open>io.ReadFull\<close> for \<open>n\<close> bytes.\<close>

definition ReadFull :: "nat \<Rightarrow> bytes \<Rightarrow> (err + bytes) \<times> bytes" where
  "ReadFull n r =
     (if n \<le> length r then (Inr (take n r), drop n r)
      else if r = [] then (Inl ErrEOF, [])
      else (Inl ErrUnexpectedEOF, []))"

definition ReadMessage :: "bytes \<Rightarrow> (err + bytes) \<times> bytes" where
  "ReadMessage r =
     (case ReadFull MessageHeaderSize r of
        (Inl e, r1) \<Rightarrow> (Inl (ErrWrap ''ReadMessage: header'' e), r1)
      | (Inr header, r1) \<Rightarrow>
          let messageLen = get_be32 header in
          if of_nat MaxMessageSize < messageLen then (Inl (ErrTooLarge (unat messageLen)), r1)
          else (case ReadFull (unat messageLen) r1 of
                  (Inl e, r2) \<Rightarrow> (Inl (ErrWrap ''ReadMessage: body'' e), r2)
                | (Inr body, r2) \<Rightarrow> (Inr body, r2)))"

definition WriteMessage ::
  "('s \<Rightarrow> bytes \<Rightarrow> 's \<times> err option) \<Rightarrow> 's \<Rightarrow> bytes \<Rightarrow> 's \<times> err option" where
  "WriteMessage writer s data =
     (if MaxMessageSize < length data then (s, Some (ErrTooLarge (length data)))
      else (case writer s (put_be32 (of_nat (length data)) @ data) of
              (s', None) \<Rightarrow> (s', None)
            | (s', Some e) \<Rightarrow> (s', Some (ErrWrap ''WriteMessage'' e))))"

section \<open>Building messages\<close>

definition new_request :: "u32 \<Rightarrow> u64 \<Rightarrow> request_type \<Rightarrow> bytes \<Rightarrow> string \<Rightarrow> client_request" where
  "new_request msgID seqID t payload openID =
     \<lparr>cr_MsgId = msgID, cr_SeqId = seqID, cr_Type = t, cr_Payload = payload, cr_Headers = [],
      cr_Openid = openID\<rparr>"

definition new_push :: "u32 \<Rightarrow> u64 \<Rightarrow> push_type \<Rightarrow> bytes \<Rightarrow> server_push" where
  "new_push msgID seqID t payload =
     \<lparr>sp_MsgId = msgID, sp_SeqId = seqID, sp_Type = t, sp_Payload = payload, sp_Headers = []\<rparr>"

definition getCurrentTimestamp :: "time \<Rightarrow> int" where
  "getCurrentTimestamp now = UnixMilli now"

definition CreateHeartbeatRequest ::
  "protobuf \<Rightarrow> time \<Rightarrow> u32 \<Rightarrow> u64 \<Rightarrow> string \<Rightarrow> client_request" where
  "CreateHeartbeatRequest pb now msgID seqID openID =
     new_request msgID seqID REQUEST_HEARTBEAT
       (marshal_or_nil pb (PHeartbeatRequest \<lparr>hq_ClientTimestamp = getCurrentTimestamp now\<rparr>)) openID"

definition CreateHeartbeatResponse :: "protobuf \<Rightarrow> time \<Rightarrow> u32 \<Rightarrow> u64 \<Rightarrow> int \<Rightarrow> server_push" where
  "CreateHeartbeatResponse pb now msgID seqID clientTimestamp =
     new_push msgID seqID PUSH_HEARTBEAT_RESP
       (marshal_or_nil pb (PHeartbeatResponse
          \<lparr>hr_ClientTimestamp = clientTimestamp, hr_ServerTimestamp = getCurrentTimestamp now\<rparr>))"

definition CreateBusinessRequest ::
  "protobuf \<Rightarrow> u32 \<Rightarrow> u64 \<Rightarrow> string \<Rightarrow> headers \<Rightarrow> bytes \<Rightarrow> string \<Rightarrow> client_request" where
  "CreateBusinessRequest pb msgID seqID action params data openID =
     new_request msgID seqID REQUEST_BUSINESS
       (marshal_or_nil pb (PBusinessRequest
          \<lparr>bq_Action = action, bq_Params = params, bq_Data = data\<rparr>)) openID"

definition CreateBusinessResponse ::
  "protobuf \<Rightarrow> u32 \<Rightarrow> u64 \<Rightarrow> int \<Rightarrow> msgtext \<Rightarrow> bytes \<Rightarrow> server_push" where
  "CreateBusinessResponse pb msgID seqID code message data =
     new_push msgID seqID PUSH_BUSINESS_DATA
       (marshal_or_nil pb (PBusinessResponse
          \<lparr>br_Code = code, br_Message = message, br_Data = data\<rparr>))"

definition CreateAckMessage :: "protobuf \<Rightarrow> u64 \<Rightarrow> string \<Rightarrow> client_request" where
  "CreateAckMessage pb seqID openID =
     new_request 0 0 REQUEST_ACK (marshal_or_nil pb (PClientAck \<lparr>ca_AckedSeqId = seqID\<rparr>)) openID"

definition CreateErrorMessage ::
  "protobuf \<Rightarrow> u32 \<Rightarrow> u64 \<Rightarrow> int \<Rightarrow> msgtext \<Rightarrow> msgtext \<Rightarrow> server_push" where
  "CreateErrorMessage pb msgID seqID code message detail =
     new_push msgID seqID PUSH_ERROR
       (marshal_or_nil pb (PErrorMessage
          \<lparr>em_ErrorCode = code, em_ErrorMessage = message, em_Detail = detail\<rparr>))"

definition CreateStartResponse ::
  "protobuf \<Rightarrow> u32 \<Rightarrow> u64 \<Rightarrow> bool \<Rightarrow> error_message option \<Rightarrow> int \<Rightarrow> string \<Rightarrow> server_push" where
  "CreateStartResponse pb msgID seqID success e heartbeatInterval connectionID =
     new_push msgID seqID PUSH_START_RESP
       (marshal_or_nil pb (PStartResponse
          \<lparr>sr_Success = success, sr_Error = e, sr_HeartbeatInterval = heartbeatInterval,
           sr_ConnectionId = connectionID\<rparr>))"

definition CreateStartRequest ::
  "protobuf \<Rightarrow> u32 \<Rightarrow> u64 \<Rightarrow> string \<Rightarrow> string \<Rightarrow> u64 \<Rightarrow> client_request" where
  "CreateStartRequest pb msgID seqID openID authToken lastAckedSeqID =
     new_request msgID seqID REQUEST_START
       (marshal_or_nil pb (PStartRequest
          \<lparr>st_Openid = openID, st_ClientId = [], st_AuthToken = authToken,
           st_LastAckedSeqId = lastAckedSeqID\<rparr>)) openID"

definition CreateStopRequest ::
  "protobuf \<Rightarrow> u32 \<Rightarrow> u64 \<Rightarrow> stop_reason \<Rightarrow> string \<Rightarrow> client_request" where
  "CreateStopRequest pb msgID seqID reason openID =
     new_request msgID seqID REQUEST_STOP
       (marshal_or_nil pb (PStopRequest \<lparr>so_Reason = reason\<rparr>)) openID"

section \<open>Executable forms\<close>

text \<open>The size limit as a numeral, so that evaluation does not count up to it.\<close>

lemma MaxMessageSize_u32: "(of_nat MaxMessageSize :: u32) = 1048576"
  by (simp add: MaxMessageSize_def)

lemma MaxMessageSize_int: "MaxMessageSize < n \<longleftrightarrow> 1048576 < int n"
  by (simp add: MaxMessageSize_def)

lemma ReadMessage_code [code]:
  "ReadMessage r =
     (case ReadFull MessageHeaderSize r of
        (Inl x, r1) \<Rightarrow> (Inl (ErrWrap ''ReadMessage: header'' x), r1)
      | (Inr header, r1) \<Rightarrow>
          let n = get_be32 header in
          if 1048576 < n then (Inl (ErrTooLarge (unat n)), r1)
          else (case ReadFull (unat n) r1 of
                  (Inl x, r2) \<Rightarrow> (Inl (ErrWrap ''ReadMessage: body'' x), r2)
                | (Inr body, r2) \<Rightarrow> (Inr body, r2)))"
  unfolding ReadMessage_def MaxMessageSize_u32 by (rule refl)

lemma EncodeServerPush_code [code]:
  "EncodeServerPush p push =
     (case Marshal p (PServerPush push) of
        Inl x \<Rightarrow> Inl (ErrWrap ''EncodeServerPush'' x)
      | Inr d \<Rightarrow> if 1048576 < int (length d) then Inl (ErrTooLarge (length d)) else Inr d)"
  unfolding EncodeServerPush_def MaxMessageSize_int by (rule refl)

lemma WriteMessage_code [code]:
  "WriteMessage writer s d =
     (if 1048576 < int (length d) then (s, Some (ErrTooLarge (length d)))
      else (case writer s (put_be32 (of_nat (length d)) @ d) of
              (s', None) \<Rightarrow> (s', None)
            | (s', Some x) \<Rightarrow> (s', Some (ErrWrap ''WriteMessage'' x))))"
  unfolding WriteMessage_def MaxMessageSize_int by (rule refl)

section \<open>The big-endian header\<close>

lemma length_put_be32 [simp]: "length (put_be32 x) = 4"
  by (simp add: put_be32_def)

lemma be32_digits:
  fixes n :: nat
  assumes "n < 4294967296"
  shows "((n div 16777216 mod 256 * 256 + n div 65536 mod 256) * 256 + n div 256 mod 256) * 256
    + n mod 256 = n"
proof -
  have e: "n div 65536 = n div 256 div 256" "n div 16777216 = n div 256 div 256 div 256"
    by (simp_all flip: div_mult2_eq)
  have "n div 16777216 < 256" using assms by (simp add: less_mult_imp_div_less)
  then have "n div 256 div 256 div 256 mod 256 = n div 256 div 256 div 256"
    unfolding e by (rule mod_less)
  then show ?thesis unfolding e by (simp only: div_mult_mod_eq)
qed

lemma unat_byte_of: "unat (ucast (drop_bit k (x :: u32)) :: byte) = unat x div 2 ^ k mod 256"
proof -
  have "take_bit 32 (unat x) = unat x" using unsigned_less [of x] by (intro take_bit_nat_eq_self) simp
  then have "unat (ucast (drop_bit k x) :: byte) = take_bit 8 (drop_bit k (unat x))"
    by (simp only: unsigned_ucast_eq unsigned_drop_bit_eq) simp
  then show ?thesis by (simp add: drop_bit_eq_div take_bit_eq_mod)
qed

lemma ucast_of_nat: "(ucast (b :: byte) :: u32) = of_nat (unat b)"
  by simp

lemma get_put_be32: "get_be32 (put_be32 x) = x"
proof -
  have lt: "unat x < 4294967296" using unsigned_less [of x] by simp
  have d: "(ucast (ucast (drop_bit k x) :: byte) :: u32) = of_nat (unat x div 2 ^ k mod 256)" for k
    by (simp only: ucast_of_nat unat_byte_of)
  have "get_be32 (put_be32 x) = of_nat (((unat x div 16777216 mod 256 * 256 + unat x div 65536 mod 256) * 256
      + unat x div 256 mod 256) * 256 + unat x mod 256)"
    using d [of 24] d [of 16] d [of 8] d [of 0] by (simp add: get_be32_def put_be32_def)
  also have "\<dots> = of_nat (unat x)" by (simp only: be32_digits [OF lt])
  finally show ?thesis by simp
qed

lemma unat_len: "n \<le> MaxMessageSize \<Longrightarrow> unat (of_nat n :: u32) = n"
  by (simp add: MaxMessageSize_def unat_of_nat take_bit_nat_eq_self)

lemma frame_ok: "n \<le> MaxMessageSize \<Longrightarrow> \<not> of_nat MaxMessageSize < (of_nat n :: u32)"
  by (simp add: word_less_nat_alt unat_len not_less)

section \<open>Properties\<close>

text \<open>The writer of a byte stream: what is written arrives, in order, at the reader.\<close>

definition pipe :: "bytes \<Rightarrow> bytes \<Rightarrow> bytes \<times> err option" where
  "pipe s frame = (s @ frame, None)"

fun write_all :: "bytes list \<Rightarrow> bytes \<Rightarrow> bytes" where
  "write_all [] s = s"
| "write_all (d # ds) s = write_all ds (fst (WriteMessage pipe s d))"

fun read_all :: "nat \<Rightarrow> bytes \<Rightarrow> bytes list \<times> (err + bytes) \<times> bytes" where
  "read_all 0 r = (case ReadMessage r of (res, r') \<Rightarrow> ([], res, r'))"
| "read_all (Suc n) r =
     (case ReadMessage r of
        (Inr d, r') \<Rightarrow> (case read_all n r' of (ds, res) \<Rightarrow> (d # ds, res))
      | (Inl e, r') \<Rightarrow> ([], Inl e, r'))"

lemma ReadMessage_frame:
  assumes "length d \<le> MaxMessageSize"
  shows "ReadMessage (put_be32 (of_nat (length d)) @ d @ rest) = (Inr d, rest)"
  using assms
  by (simp add: ReadMessage_def ReadFull_def MessageHeaderSize_def get_put_be32 unat_len frame_ok Let_def)

lemma write_all_append:
  "\<forall>d \<in> set ds. length d \<le> MaxMessageSize \<Longrightarrow>
    write_all ds s = s @ concat (map (\<lambda>d. put_be32 (of_nat (length d)) @ d) ds)"
  by (induction ds arbitrary: s) (auto simp: WriteMessage_def pipe_def)

lemma frames_read:
  assumes "\<forall>d \<in> set ds. length d \<le> MaxMessageSize"
  shows "read_all (length ds) (write_all ds []) = (ds, Inl (ErrWrap ''ReadMessage: header'' ErrEOF), [])"
proof -
  have "read_all (length ds) (concat (map (\<lambda>d. put_be32 (of_nat (length d)) @ d) ds)) =
      (ds, Inl (ErrWrap ''ReadMessage: header'' ErrEOF), [])"
    using assms
  proof (induction ds)
    case Nil
    then show ?case by (simp add: ReadMessage_def ReadFull_def MessageHeaderSize_def)
  next
    case (Cons d ds)
    then show ?case using ReadMessage_frame [of d] by simp
  qed
  then show ?thesis using write_all_append [OF assms] by simp
qed

text \<open>C12. Framing round trip: any sequence of messages of at most 1 MiB written to a stream is read
  back one by one, unchanged and with their boundaries, and then the reader reports the end of the
  stream (wrapped, so that a comparison with the plain end-of-file error never holds). \<close>

theorem frames_roundtrip:
  assumes "\<forall>d \<in> set ds. length d \<le> MaxMessageSize"
  shows "read_all (length ds) (write_all ds []) = (ds, Inl (ErrWrap ''ReadMessage: header'' ErrEOF), [])"
  using assms by (rule frames_read)

theorem frames_roundtrip_witness:
  "read_all 3 (write_all [[1, 2], [], [255]] []) =
    ([[1, 2], [], [255]], Inl (ErrWrap ''ReadMessage: header'' ErrEOF), [])"
  using frames_roundtrip [of "[[1, 2], [], [255]]"] by (simp add: MaxMessageSize_def numeral_3_eq_3)

text \<open>C13. Reading is safe on any bytes: a message accepted is at most 1 MiB long, is exactly the bytes
  after a header that holds its length, and every byte that is not consumed stays in the stream; an
  oversized length is refused before the body is read. \<close>

theorem read_bounds:
  "case ReadMessage r of
     (Inr d, rest) \<Rightarrow> length d \<le> MaxMessageSize \<and> r = take 4 r @ d @ rest \<and>
       unat (get_be32 (take 4 r)) = length d
   | (Inl e, rest) \<Rightarrow> (\<exists>pre. r = pre @ rest) \<and>
       (4 \<le> length r \<and> MaxMessageSize < unat (get_be32 (take 4 r)) \<longleftrightarrow>
         (\<exists>n. e = ErrTooLarge n)) \<and>
       ((\<exists>n. e = ErrTooLarge n) \<longrightarrow> rest = drop 4 r)"
proof -
  have m: "of_nat MaxMessageSize < x \<longleftrightarrow> MaxMessageSize < unat x" for x :: u32
    by (simp add: word_less_nat_alt unat_len)
  show ?thesis
    by (auto simp: ReadMessage_def ReadFull_def MessageHeaderSize_def m Let_def not_less
        append_eq_conv_conj simp flip: drop_drop split: if_splits prod.splits sum.splits intro!: exI [of _ "take 4 r"])
qed

theorem read_bounds_witness:
  "ReadMessage [0, 0, 0, 2, 7, 8, 9] = (Inr [7, 8], [9]) \<and> [0, 0, 0, 2, 7, 8, 9] = take 4 [0, 0, 0, 2, 7, 8, 9 :: byte] @ [7, 8] @ [9] \<and>
   (\<exists>n. ReadMessage [0, 16, 0, 1, 5] = (Inl (ErrTooLarge n), [5]))"
proof -
  have a: "ReadMessage [0, 0, 0, 2, 7, 8, 9] = (Inr [7, 8], [9])" by code_simp
  have "get_be32 (take 4 [0, 16, 0, 1, 5]) = 1048577" by code_simp
  then have "MaxMessageSize < unat (get_be32 (take 4 [0, 16, 0, 1, 5]))" by (simp add: MaxMessageSize_def)
  then have "\<exists>n. ReadMessage [0, 16, 0, 1, 5] = (Inl (ErrTooLarge n), [5])"
    using read_bounds [of "[0, 16, 0, 1, 5]"] by (auto simp: case_prod_beta prod_eq_iff split: sum.splits)
  then show ?thesis using read_bounds [of "[0, 0, 0, 2, 7, 8, 9]"] a by simp
qed

text \<open>Wire round trip: pushes encoded, framed, written, read and decoded come out as they went in,
  in order, provided the protobuf library's unmarshalling inverts its marshalling on them. \<close>

theorem push_wire_roundtrip:
  assumes "\<forall>p \<in> set ps. \<forall>d. Marshal pb (PServerPush p) = Inr d \<longrightarrow> UnmarshalServerPush pb d = Inr p"
    "list_all2 (\<lambda>p d. EncodeServerPush pb p = Inr d) ps ds"
  shows "map (DecodeServerPush pb) (fst (read_all (length ps) (write_all ds []))) = map Inr ps"
proof -
  have enc: "length d \<le> MaxMessageSize \<and> Marshal pb (PServerPush p) = Inr d"
    if "EncodeServerPush pb p = Inr d" for p d
    using that by (auto simp: EncodeServerPush_def not_less split: sum.splits if_splits)
  have "\<forall>d \<in> set ds. length d \<le> MaxMessageSize"
    using assms(2) enc by (fastforce simp: list_all2_conv_all_nth in_set_conv_nth)
  then have "fst (read_all (length ps) (write_all ds [])) = ds"
    using frames_read list_all2_lengthD [OF assms(2)] by simp
  moreover have "map (DecodeServerPush pb) ds = map Inr ps"
    using assms(2,1) by induction (auto simp: DecodeServerPush_def dest!: enc)
  ultimately show ?thesis by simp
qed

text \<open>An instance of the library that serialises the message number only.\<close>

definition toy_pb :: protobuf where
  "toy_pb =
     \<lparr>Marshal = (\<lambda>m. case m of PServerPush p \<Rightarrow> Inr (put_be32 (sp_MsgId p)) | _ \<Rightarrow> Inr []),
      UnmarshalClientRequest = (\<lambda>_. Inl ErrEOF),
      UnmarshalServerPush = (\<lambda>d. Inr (new_push (get_be32 d) 0 PUSH_BUSINESS_DATA [])),
      UnmarshalStartRequest = (\<lambda>_. Inl ErrEOF), UnmarshalStopRequest = (\<lambda>_. Inl ErrEOF),
      UnmarshalHeartbeatRequest = (\<lambda>_. Inl ErrEOF), UnmarshalBusinessRequest = (\<lambda>_. Inl ErrEOF),
      UnmarshalClientAck = (\<lambda>_. Inl ErrEOF)\<rparr>"

theorem push_wire_roundtrip_witness:
  "map (DecodeServerPush toy_pb) (fst (read_all 2 (write_all [put_be32 7, put_be32 300] []))) =
    map Inr [new_push 7 0 PUSH_BUSINESS_DATA [], new_push 300 0 PUSH_BUSINESS_DATA []]"
  using push_wire_roundtrip [of "[new_push 7 0 PUSH_BUSINESS_DATA [], new_push 300 0 PUSH_BUSINESS_DATA []]"
      toy_pb "[put_be32 7, put_be32 300]"]
  by (simp add: toy_pb_def new_push_def get_put_be32 EncodeServerPush_def MaxMessageSize_def numeral_2_eq_2)

end
