(* ===== verification/Metrics.thy ===== *)
theory Metrics
  imports Go_Prelude Complex_Main
begin

text \<open>
  \<open>pkg/metrics/metrics.go\<close>. The Prometheus client library keeps the metrics; what the program does
  is call it, so a \<open>GateServerMetrics\<close> is the list of the calls made, in order, and \<open>calls_of\<close>
  counts the calls of a kind. A \<open>float64\<close> is the rational number that is rounded to it, or infinite, or no
  number, as a division by zero gives; a comparison with what is no number is false.
\<close>

datatype float64 = Finite rat | Infinite bool | NaN       \<comment> \<open>\<open>Infinite True\<close> is positive\<close>

text \<open>Division by a number; its zero is the positive one, as a converted integer or duration is.\<close>

fun float_div :: "float64 \<Rightarrow> rat \<Rightarrow> float64" where
  "float_div (Finite a) b = (if b = 0 then (if a = 0 then NaN else Infinite (0 < a)) else Finite (a / b))"
| "float_div (Infinite s) b = Infinite (s = (0 \<le> b))"
| "float_div NaN b = NaN"

fun float_mult :: "float64 \<Rightarrow> rat \<Rightarrow> float64" where
  "float_mult (Finite a) b = Finite (a * b)"
| "float_mult (Infinite s) b = (if b = 0 then NaN else Infinite (s = (0 < b)))"
| "float_mult NaN b = NaN"

fun greater :: "float64 \<Rightarrow> float64 \<Rightarrow> bool" where
  "greater (Finite x) (Finite y) \<longleftrightarrow> y < x"
| "greater (Infinite s) (Finite _) \<longleftrightarrow> s"
| "greater (Finite _) (Infinite s) \<longleftrightarrow> \<not> s"
| "greater (Infinite s) (Infinite t) \<longleftrightarrow> s \<and> \<not> t"
| "greater _ _ \<longleftrightarrow> False"

fun at_least :: "float64 \<Rightarrow> rat \<Rightarrow> bool" where
  "at_least (Finite x) y \<longleftrightarrow> y \<le> x"
| "at_least (Infinite s) y \<longleftrightarrow> s"
| "at_least NaN y \<longleftrightarrow> False"

datatype metric_call =
    QpsCounterInc
  | ThroughputAdd string int
  | ActiveConnectionsSet int
  | OutboundQueueSizeSet string int
  | RequestDurationObserve string duration
  | ErrorCounterInc string
  | OutboundQueueSizeDelete string
  | ConnectionsRejectedInc string
  | RequestsRejectedInc string
  | UpstreamRejectedInc string
  | CurrentQPSSet float64
  | UpstreamConcurrentSet int

type_synonym metrics = "metric_call list"

definition NewGateServerMetrics :: metrics where "NewGateServerMetrics = []"
definition IncQPS :: "metrics \<Rightarrow> metrics" where "IncQPS m = m @ [QpsCounterInc]"
definition AddThroughput :: "string \<Rightarrow> int \<Rightarrow> metrics \<Rightarrow> metrics" where
  "AddThroughput direction n m = m @ [ThroughputAdd direction n]"
definition SetActiveConnections :: "int \<Rightarrow> metrics \<Rightarrow> metrics" where
  "SetActiveConnections n m = m @ [ActiveConnectionsSet n]"
definition SetOutboundQueueSize :: "string \<Rightarrow> int \<Rightarrow> metrics \<Rightarrow> metrics" where
  "SetOutboundQueueSize sid n m = m @ [OutboundQueueSizeSet sid n]"
definition ObserveRequestDuration :: "string \<Rightarrow> duration \<Rightarrow> metrics \<Rightarrow> metrics" where
  "ObserveRequestDuration t d m = m @ [RequestDurationObserve t d]"
definition IncError :: "string \<Rightarrow> metrics \<Rightarrow> metrics" where
  "IncError t m = m @ [ErrorCounterInc t]"
definition metrics_RemoveSession :: "string \<Rightarrow> metrics \<Rightarrow> metrics" where
  "metrics_RemoveSession sid m = m @ [OutboundQueueSizeDelete sid]"
definition IncConnectionsRejected :: "string \<Rightarrow> metrics \<Rightarrow> metrics" where
  "IncConnectionsRejected r m = m @ [ConnectionsRejectedInc r]"
definition IncRequestsRejected :: "string \<Rightarrow> metrics \<Rightarrow> metrics" where
  "IncRequestsRejected r m = m @ [RequestsRejectedInc r]"
definition IncUpstreamRejected :: "string \<Rightarrow> metrics \<Rightarrow> metrics" where
  "IncUpstreamRejected r m = m @ [UpstreamRejectedInc r]"
definition SetCurrentQPS :: "float64 \<Rightarrow> metrics \<Rightarrow> metrics" where
  "SetCurrentQPS q m = m @ [CurrentQPSSet q]"
definition SetUpstreamConcurrent :: "int \<Rightarrow> metrics \<Rightarrow> metrics" where
  "SetUpstreamConcurrent n m = m @ [UpstreamConcurrentSet n]"

text \<open>Reading the calls back.\<close>

definition calls_of :: "metric_call \<Rightarrow> metrics \<Rightarrow> nat" where
  "calls_of c m = length (filter (\<lambda>x. x = c) m)"

lemma calls_of_append [simp]: "calls_of c (m @ m') = calls_of c m + calls_of c m'"
  by (simp add: calls_of_def)

lemma calls_of_Nil [simp]: "calls_of c [] = 0"
  by (simp add: calls_of_def)

lemma calls_of_Cons [simp]: "calls_of c (x # m) = (if x = c then 1 else 0) + calls_of c m"
  by (simp add: calls_of_def)

lemmas metrics_defs = IncQPS_def AddThroughput_def SetActiveConnections_def SetOutboundQueueSize_def
  ObserveRequestDuration_def IncError_def metrics_RemoveSession_def IncConnectionsRejected_def
  IncRequestsRejected_def IncUpstreamRejected_def SetCurrentQPS_def SetUpstreamConcurrent_def

end
