(* ===== verification/Session_Core.thy ===== *)
theory Session_Core
  imports Ordered_Queue Notify_Ordering Message_Codec Metrics
begin

text \<open>
  \<open>internal/session/session.go\<close>: one client session.

  The QUIC stream and connection of a session come from \<open>quic-go\<close>; they are one value of the
  parameter type \<open>'x\<close> (\<open>s_transport\<close>; \<open>None\<close> is the nil stream and connection), with the operations the
  program calls on it in the record \<open>ext\<close>. A send callback of the session's queue sees a \<open>link\<close>:
  the closed flag, the transport and the metrics, which it may change; \<open>session_link\<close> and \<open>put_link\<close>
  exchange it with the session.

  The atomics and the mutex of a session make every method below one step. \<open>now\<close> is the clock.
\<close>

section \<open>State\<close>

record 'x ext =
  pb :: protobuf
  stream_Write :: "'x \<Rightarrow> bytes \<Rightarrow> 'x \<times> err option"
  stream_Close :: "'x \<Rightarrow> 'x"
  conn_CloseWithError :: "int \<Rightarrow> 'x \<Rightarrow> 'x"
  copier_Copy :: "(u64 \<times> omsg) list \<Rightarrow> (u64 \<times> omsg) list \<Rightarrow> (u64 \<times> omsg) list"

record 'x link =
  lk_closed :: bool
  lk_transport :: "'x option"
  lk_metrics :: metrics

datatype session_state = SessionInited | SessionNormal | SessionClosed

record 'x session =
  s_ID :: string
  s_transport :: "'x option"
  s_CreateTime :: time
  s_LastActivity :: time
  s_ClientID :: string
  s_OpenID :: string
  s_connIdx :: int
  s_UserIP :: string
  s_state :: session_state
  s_zone :: int
  s_isSuccessor :: bool
  s_isRelogin :: bool
  s_isRedirectable :: bool
  s_needReset :: bool
  s_redirectableTime :: time
  s_nextSeqID :: u64
  s_serverSeq :: u64
  s_maxClientSeq :: u64
  s_clientAckServerSeq :: u64
  s_orderedQueue :: "'x link oqueue option"
  s_orderingManager :: "ordering option"
  s_closed :: bool
  s_closeCh_closed :: bool

definition session_link :: "'x session \<Rightarrow> metrics \<Rightarrow> 'x link" where
  "session_link s ms = \<lparr>lk_closed = s_closed s, lk_transport = s_transport s, lk_metrics = ms\<rparr>"

definition put_link :: "'x link \<Rightarrow> 'x session \<Rightarrow> 'x session" where
  "put_link l s = s\<lparr>s_closed := lk_closed l, s_transport := lk_transport l\<rparr>"

section \<open>Life cycle\<close>

definition NextSeqID :: "'x session \<Rightarrow> u64 \<times> 'x session" where
  "NextSeqID s = (s_nextSeqID s + 1, s\<lparr>s_nextSeqID := s_nextSeqID s + 1\<rparr>)"

definition UpdateActivity :: "time \<Rightarrow> 'x session \<Rightarrow> 'x session" where
  "UpdateActivity now s = s\<lparr>s_LastActivity := now\<rparr>"

definition IsExpired :: "time \<Rightarrow> duration \<Rightarrow> 'x session \<Rightarrow> bool" where
  "IsExpired now timeout s \<longleftrightarrow> now - s_LastActivity s > timeout"

text \<open>
  \<open>Close\<close>. The code calls the stream and the connection without a nil test; the sessions of the
  manager always have both (\<open>CreateOrReconnectSession\<close> is given them by the listener).
\<close>

definition session_Close :: "'x ext \<Rightarrow> 'x session \<Rightarrow> 'x session" where
  "session_Close e s =
     (if s_closed s then s
      else s\<lparr>s_closed := True,
             s_orderedQueue := map_option oq_Stop (s_orderedQueue s),
             s_transport := map_option (\<lambda>t. conn_CloseWithError e 0 (stream_Close e t)) (s_transport s),
             s_closeCh_closed := True\<rparr>)"

definition IsClosed :: "'x session \<Rightarrow> bool" where
  "IsClosed s = s_closed s"

definition SetClosed :: "'x session \<Rightarrow> bool \<times> 'x session" where
  "SetClosed s = (if s_closed s then (True, s) else (False, s\<lparr>s_closed := True\<rparr>))"

definition State :: "'x session \<Rightarrow> session_state" where
  "State s = s_state s"

definition SetState :: "session_state \<Rightarrow> 'x session \<Rightarrow> 'x session" where
  "SetState st s = s\<lparr>s_state := st\<rparr>"

definition IsInited :: "'x session \<Rightarrow> bool" where
  "IsInited s \<longleftrightarrow> State s = SessionInited"

definition IsNormal :: "'x session \<Rightarrow> bool" where
  "IsNormal s \<longleftrightarrow> State s = SessionNormal"

definition SetNormal :: "'x session \<Rightarrow> bool \<times> 'x session" where
  "SetNormal s = (if s_state s = SessionInited then (True, s\<lparr>s_state := SessionNormal\<rparr>) else (False, s))"

definition Zone :: "'x session \<Rightarrow> int" where
  "Zone s = s_zone s"

definition SetZone :: "int \<Rightarrow> 'x session \<Rightarrow> 'x session" where
  "SetZone z s = s\<lparr>s_zone := z\<rparr>"

section \<open>Sequence numbers\<close>

definition session_ServerSeq :: "'x session \<Rightarrow> u64" where
  "session_ServerSeq s = s_serverSeq s"

definition SetServerSeq :: "u64 \<Rightarrow> 'x session \<Rightarrow> 'x session" where
  "SetServerSeq n s = s\<lparr>s_serverSeq := n\<rparr>"

definition NewServerSeq :: "'x session \<Rightarrow> u64 \<times> 'x session" where
  "NewServerSeq s = (s_serverSeq s + 1, s\<lparr>s_serverSeq := s_serverSeq s + 1\<rparr>)"

definition IncrementAndGetSeq :: "'x session \<Rightarrow> u64 \<times> 'x session" where
  "IncrementAndGetSeq s = NewServerSeq s"

definition MaxClientSeq :: "'x session \<Rightarrow> u64" where
  "MaxClientSeq s = s_maxClientSeq s"

definition ClientAckServerSeq :: "'x session \<Rightarrow> u64" where
  "ClientAckServerSeq s = s_clientAckServerSeq s"

definition UpdateAckServerSeq :: "u64 \<Rightarrow> 'x session \<Rightarrow> err option \<times> 'x session" where
  "UpdateAckServerSeq n s = (None, s\<lparr>s_clientAckServerSeq := n\<rparr>)"

definition IsSuccessor :: "'x session \<Rightarrow> bool" where
  "IsSuccessor s = s_isSuccessor s"

definition SetSuccessor :: "bool \<Rightarrow> 'x session \<Rightarrow> 'x session" where
  "SetSuccessor b s = s\<lparr>s_isSuccessor := b\<rparr>"

definition ConnIdx :: "'x session \<Rightarrow> int" where
  "ConnIdx s = s_connIdx s"

definition InheritFrom :: "'x session \<Rightarrow> 'x session \<Rightarrow> 'x session" where
  "InheritFrom old s =
     (let s1 = SetSuccessor True (SetServerSeq (session_ServerSeq old) (SetZone (Zone old) s));
          s2 = (if IsNormal old then SetState SessionNormal s1 else s1);
          s3 = s2\<lparr>s_clientAckServerSeq := ClientAckServerSeq old, s_maxClientSeq := MaxClientSeq old\<rparr>
      in case (s_orderedQueue old, s_orderedQueue s3) of
           (Some _, Some q) \<Rightarrow> s3\<lparr>s_orderedQueue := Some (ResyncSequence (ClientAckServerSeq old) q)\<rparr>
         | _ \<Rightarrow> s3)"

definition ValidateClientSeq :: "u64 \<Rightarrow> 'x session \<Rightarrow> bool \<times> 'x session" where
  "ValidateClientSeq clientSeq s =
     (let current = s_maxClientSeq s in
      if current = 0 then (True, s\<lparr>s_maxClientSeq := clientSeq\<rparr>)
      else if clientSeq = current + 1 then (True, s\<lparr>s_maxClientSeq := clientSeq\<rparr>)
      else (False, s))"

definition session_ActivateSession :: "int \<Rightarrow> 'x session \<Rightarrow> bool \<times> 'x session" where
  "session_ActivateSession zone s =
     (if s_state s = SessionInited then (True, s\<lparr>s_state := SessionNormal, s_zone := zone\<rparr>)
      else (False, s))"

definition CanProcessBusinessRequest :: "'x session \<Rightarrow> bool" where
  "CanProcessBusinessRequest s \<longleftrightarrow> State s = SessionNormal"

definition CanProcessLoginRequest :: "'x session \<Rightarrow> bool" where
  "CanProcessLoginRequest s \<longleftrightarrow> State s = SessionInited \<or> State s = SessionNormal"

definition GetOrderedQueue :: "'x session \<Rightarrow> 'x link oqueue option" where
  "GetOrderedQueue s = s_orderedQueue s"

definition InitOrderedQueue :: "int \<Rightarrow> 'x session \<Rightarrow> 'x session" where
  "InitOrderedQueue n s =
     (if s_orderedQueue s = None then s\<lparr>s_orderedQueue := Some (NewOrderedMessageQueue (s_ID s) n)\<rparr> else s)"

text \<open>The queue operations of a session, with the link put back.\<close>

definition session_Enqueue ::
  "u64 \<Rightarrow> server_push \<Rightarrow> bytes \<Rightarrow> time \<Rightarrow> 'x link oqueue \<Rightarrow> 'x session \<Rightarrow> metrics \<Rightarrow>
     err option \<times> 'x session \<times> metrics" where
  "session_Enqueue seq push data now q s ms =
     (case EnqueueMessage seq push data now q (session_link s ms) of
        (r, q', l) \<Rightarrow> (r, (put_link l s)\<lparr>s_orderedQueue := Some q'\<rparr>, lk_metrics l))"

definition session_cleanupRound :: "time \<Rightarrow> 'x session \<Rightarrow> metrics \<Rightarrow> 'x session \<times> metrics" where
  "session_cleanupRound now s ms =
     (case s_orderedQueue s of
        None \<Rightarrow> (s, ms)
      | Some q \<Rightarrow>
          (case cleanupLoop_round now q (session_link s ms) of
             (q', l) \<Rightarrow> ((put_link l s)\<lparr>s_orderedQueue := Some q'\<rparr>, lk_metrics l)))"

section \<open>Notifications bound to responses\<close>

definition AddNotifyBindBeforeRsp :: "u32 \<Rightarrow> notify_item option \<Rightarrow> 'x session \<Rightarrow> bool \<times> 'x session" where
  "AddNotifyBindBeforeRsp g n s =
     (case s_orderingManager s of
        None \<Rightarrow> (False, s)
      | Some m \<Rightarrow>
          (case om_AddNotifyBindBeforeRsp g n m of (b, m') \<Rightarrow> (b, s\<lparr>s_orderingManager := Some m'\<rparr>)))"

definition AddNotifyBindAfterRsp :: "u32 \<Rightarrow> notify_item option \<Rightarrow> 'x session \<Rightarrow> bool \<times> 'x session" where
  "AddNotifyBindAfterRsp g n s =
     (case s_orderingManager s of
        None \<Rightarrow> (False, s)
      | Some m \<Rightarrow>
          (case om_AddNotifyBindAfterRsp g n m of (b, m') \<Rightarrow> (b, s\<lparr>s_orderingManager := Some m'\<rparr>)))"

definition GetOrderingManager :: "'x session \<Rightarrow> ordering option" where
  "GetOrderingManager s = s_orderingManager s"

definition CleanupExpiredBindNotifies :: "time \<Rightarrow> int \<Rightarrow> 'x session \<Rightarrow> int \<times> 'x session" where
  "CleanupExpiredBindNotifies now maxAge s =
     (case s_orderingManager s of
        None \<Rightarrow> (0, s)
      | Some m \<Rightarrow>
          (case CleanupExpiredNotifies (Unix now) maxAge m of
             (k, m') \<Rightarrow> (k, s\<lparr>s_orderingManager := Some m'\<rparr>)))"

section \<open>Sending from the session\<close>

definition session_sendMessageDirectly ::
  "'x ext \<Rightarrow> time \<Rightarrow> server_push \<Rightarrow> 'x session \<Rightarrow> err option \<times> 'x session" where
  "session_sendMessageDirectly e now push s =
     (case s_transport s of
        None \<Rightarrow> (Some ErrStreamNil, s)
      | Some t \<Rightarrow>
          (case Marshal (pb e) (PServerPush push) of
             Inl x \<Rightarrow> (Some (ErrWrap ''sendMessageDirectly: marshal'' x), s)
           | Inr d \<Rightarrow>
               let s1 = UpdateActivity now s in
               (case stream_Write e t d of
                  (t', None) \<Rightarrow> (None, s1\<lparr>s_transport := Some t'\<rparr>)
                | (t', Some x) \<Rightarrow> (Some (ErrWrap ''sendMessageDirectly: write'' x), s1\<lparr>s_transport := Some t'\<rparr>))))"

text \<open>The tail shared by \<open>sendResponse\<close>, \<open>sendNotifyImmediately\<close> and \<open>sendNotifyWithSeq\<close>.\<close>

definition send_push_with_seq ::
  "'x ext \<Rightarrow> time \<Rightarrow> string \<Rightarrow> server_push \<Rightarrow> 'x session \<Rightarrow> metrics \<Rightarrow>
     err option \<times> 'x session \<times> metrics" where
  "send_push_with_seq e now place push s ms =
     (case s_orderedQueue s of
        Some q \<Rightarrow>
          (case Marshal (pb e) (PServerPush push) of
             Inl x \<Rightarrow> (Some (ErrWrap place x), s, ms)
           | Inr d \<Rightarrow> session_Enqueue (sp_SeqId push) push d now q s ms)
      | None \<Rightarrow> (case session_sendMessageDirectly e now push s of (r, s') \<Rightarrow> (r, s', ms)))"

definition sendNotifyWithSeq ::
  "'x ext \<Rightarrow> time \<Rightarrow> notify_item \<Rightarrow> u64 \<Rightarrow> 'x session \<Rightarrow> metrics \<Rightarrow>
     err option \<times> 'x session \<times> metrics" where
  "sendNotifyWithSeq e now n seq s ms =
     send_push_with_seq e now ''sendNotifyWithSeq: marshal''
       \<lparr>sp_MsgId = 0, sp_SeqId = seq, sp_Type = PUSH_BUSINESS_DATA, sp_Payload = NotifyData n,
        sp_Headers = Metadata n\<rparr> s ms"

definition sendNotifyImmediately ::
  "'x ext \<Rightarrow> time \<Rightarrow> notify_item \<Rightarrow> 'x session \<Rightarrow> metrics \<Rightarrow> err option \<times> 'x session \<times> metrics" where
  "sendNotifyImmediately e now n s ms =
     (case IncrementAndGetSeq s of
        (seq, s1) \<Rightarrow>
          send_push_with_seq e now ''sendNotifyImmediately: marshal''
            \<lparr>sp_MsgId = 0, sp_SeqId = seq, sp_Type = PUSH_BUSINESS_DATA, sp_Payload = NotifyData n,
             sp_Headers = Metadata n\<rparr> s1 ms)"

definition sendResponse ::
  "'x ext \<Rightarrow> time \<Rightarrow> bytes \<Rightarrow> 'x session \<Rightarrow> metrics \<Rightarrow> err option \<times> 'x session \<times> metrics" where
  "sendResponse e now data s ms =
     (if data = [] then (None, s, ms)
      else (case IncrementAndGetSeq s of
              (seq, s1) \<Rightarrow>
                send_push_with_seq e now ''sendResponse: marshal''
                  \<lparr>sp_MsgId = 0, sp_SeqId = seq, sp_Type = PUSH_BUSINESS_DATA, sp_Payload = data,
                   sp_Headers = []\<rparr> s1 ms))"

text \<open>The loops of \<open>sendBeforeNotifies\<close> and \<open>sendAfterNotifies\<close>: a failed send ends the loop.\<close>

fun send_notifies ::
  "'x ext \<Rightarrow> time \<Rightarrow> string \<Rightarrow> notify_item list \<Rightarrow> 'x session \<Rightarrow> metrics \<Rightarrow>
     err option \<times> 'x session \<times> metrics" where
  "send_notifies e now place [] s ms = (None, s, ms)"
| "send_notifies e now place (n # ns) s ms =
     (case IncrementAndGetSeq s of
        (seq, s1) \<Rightarrow>
          (case sendNotifyWithSeq e now n seq s1 ms of
             (Some x, s2, ms2) \<Rightarrow> (Some (ErrWrap place x), s2, ms2)
           | (None, s2, ms2) \<Rightarrow> send_notifies e now place ns s2 ms2))"

definition session_sendBeforeNotifies ::
  "'x ext \<Rightarrow> time \<Rightarrow> u32 \<Rightarrow> 'x session \<Rightarrow> metrics \<Rightarrow> err option \<times> 'x session \<times> metrics" where
  "session_sendBeforeNotifies e now g s ms =
     (case s_orderingManager s of
        None \<Rightarrow> (None, s, ms)
      | Some m \<Rightarrow>
          (case GetAndRemoveBeforeNotifies g m of
             (ns, m') \<Rightarrow> send_notifies e now ''before notify'' ns (s\<lparr>s_orderingManager := Some m'\<rparr>) ms))"

definition session_sendAfterNotifies ::
  "'x ext \<Rightarrow> time \<Rightarrow> u32 \<Rightarrow> 'x session \<Rightarrow> metrics \<Rightarrow> err option \<times> 'x session \<times> metrics" where
  "session_sendAfterNotifies e now g s ms =
     (case s_orderingManager s of
        None \<Rightarrow> (None, s, ms)
      | Some m \<Rightarrow>
          (case GetAndRemoveAfterNotifies g m of
             (ns, m') \<Rightarrow> send_notifies e now ''after notify'' ns (s\<lparr>s_orderingManager := Some m'\<rparr>) ms))"

definition ProcWithNotifyBinds ::
  "'x ext \<Rightarrow> time \<Rightarrow> bytes \<Rightarrow> u32 \<Rightarrow> 'x session option \<Rightarrow> metrics \<Rightarrow>
     err option \<times> 'x session option \<times> metrics" where
  "ProcWithNotifyBinds e now responseData g so ms =
     (case so of
        None \<Rightarrow> (Some ErrInvalidNotify, None, ms)
      | Some s \<Rightarrow>
          (case session_sendBeforeNotifies e now g s ms of
             (Some x, s1, ms1) \<Rightarrow> (Some (ErrWrap ''before notifies'' x), Some s1, ms1)
           | (None, s1, ms1) \<Rightarrow>
               (case sendResponse e now responseData s1 ms1 of
                  (Some x, s2, ms2) \<Rightarrow> (Some (ErrWrap ''response'' x), Some s2, ms2)
                | (None, s2, ms2) \<Rightarrow>
                    (case session_sendAfterNotifies e now g s2 ms2 of
                       (Some x, s3, ms3) \<Rightarrow> (Some (ErrWrap ''after notifies'' x), Some s3, ms3)
                     | (None, s3, ms3) \<Rightarrow> (None, Some s3, ms3)))))"

text \<open>\<open>uint32(notifyReq.BindClientSeqId)\<close> keeps the low 32 bits.\<close>

definition grid_of :: "u64 \<Rightarrow> u32" where
  "grid_of n = ucast n"

definition ProcessNotify ::
  "'x ext \<Rightarrow> time \<Rightarrow> unicast_push_request option \<Rightarrow> 'x session option \<Rightarrow> metrics \<Rightarrow>
     err option \<times> 'x session option \<times> metrics" where
  "ProcessNotify e now ro so ms =
     (case (so, ro) of
        (Some s, Some r) \<Rightarrow>
          (case Marshal (pb e) (PUnicastPushRequest r) of
             Inl x \<Rightarrow> (Some (ErrWrap ''ProcessNotify: marshal'' x), so, ms)
           | Inr d \<Rightarrow>
               let g = grid_of (up_BindClientSeqId r);
                   item = \<lparr>NotifyData = d, MsgType = up_MsgType r, Title = up_Title r,
                           Content = up_Content r, Metadata = up_Metadata r, SyncHint = up_SyncHint r,
                           BindGrid = g, CreateTime = Unix now\<rparr>
               in (case up_SyncHint r of
                     NSH_BEFORE_RESPONSE \<Rightarrow>
                       if g = 0 then (Some (ErrBindRequired ''NSH_BEFORE_RESPONSE''), so, ms)
                       else (case AddNotifyBindBeforeRsp g (Some item) s of
                               (True, s') \<Rightarrow> (None, Some s', ms)
                             | (False, s') \<Rightarrow> (Some (ErrBindFailed ''before'' g), Some s', ms))
                   | NSH_AFTER_RESPONSE \<Rightarrow>
                       if g = 0 then (Some (ErrBindRequired ''NSH_AFTER_RESPONSE''), so, ms)
                       else (case AddNotifyBindAfterRsp g (Some item) s of
                               (True, s') \<Rightarrow> (None, Some s', ms)
                             | (False, s') \<Rightarrow> (Some (ErrBindFailed ''after'' g), Some s', ms))
                   | _ \<Rightarrow> (case sendNotifyImmediately e now item s ms of (r', s', ms') \<Rightarrow> (r', Some s', ms'))))
      | _ \<Rightarrow> (Some ErrInvalidNotify, so, ms))"

end
