(* ===== verification/Session_Manager.thy ===== *)
theory Session_Manager
  imports Session_Core
begin

text \<open>
  \<open>internal/session/manager.go\<close>: the manager of all sessions.

  Sessions are shared objects (the two indices, the connection handlers and the timers point to
  them), so they live in \<open>m_store\<close>, a list that only grows, and a pointer is a position in it. The
  two \<open>sync.Map\<close>s are maps from identifiers to positions. A delayed removal (\<open>time.AfterFunc\<close>) and
  the delayed close of a replaced session (a goroutine that sleeps five seconds) are entries of
  \<open>m_timers\<close>, run by \<open>fire_timer\<close>. The identifier \<open>uuid.New\<close> makes is an argument of
  \<open>CreateOrReconnectSession\<close>. The methods are taken as atomic; the background goroutine is the
  operation \<open>cleanupExpiredSessions_round\<close>.
\<close>

section \<open>State\<close>

datatype timer = RemoveTimer string | CloseTimer nat

record 'x manager =
  m_store :: "'x session list"
  m_sessions :: "(string \<times> nat) list"
  m_sessionsByUID :: "(string \<times> nat) list"
  m_sessionTimeout :: duration
  m_ackTimeout :: duration
  m_maxRetries :: int
  m_connectionDownDelay :: duration
  m_stopped :: bool
  m_timers :: "(time \<times> timer) list"
  m_syncEnabled :: bool
  m_syncCallback :: bool
  m_backupMode :: bool

definition NewManager :: "duration \<Rightarrow> duration \<Rightarrow> int \<Rightarrow> 'x manager" where
  "NewManager st ackt mr =
     \<lparr>m_store = [], m_sessions = [], m_sessionsByUID = [], m_sessionTimeout = st, m_ackTimeout = ackt,
      m_maxRetries = mr, m_connectionDownDelay = 30 * Second, m_stopped = False, m_timers = [],
      m_syncEnabled = False, m_syncCallback = False, m_backupMode = False\<rparr>"

definition sess_at :: "nat \<Rightarrow> 'x manager \<Rightarrow> 'x session" where
  "sess_at r m = m_store m ! r"

definition upd_sess :: "nat \<Rightarrow> ('x session \<Rightarrow> 'x session) \<Rightarrow> 'x manager \<Rightarrow> 'x manager" where
  "upd_sess r f m = m\<lparr>m_store := (m_store m)[r := f (m_store m ! r)]\<rparr>"

section \<open>Creation and reconnection\<close>

definition new_session ::
  "string \<Rightarrow> time \<Rightarrow> 'x \<Rightarrow> string \<Rightarrow> string \<Rightarrow> string \<Rightarrow> 'x session" where
  "new_session sid now t clientID openID userIP =
     \<lparr>s_ID = sid, s_transport = Some t, s_CreateTime = now, s_LastActivity = now,
      s_ClientID = clientID, s_OpenID = openID, s_connIdx = 1, s_UserIP = userIP,
      s_state = SessionInited, s_zone = 0, s_isSuccessor = False, s_isRelogin = False,
      s_isRedirectable = False, s_needReset = False, s_redirectableTime = 0,
      s_nextSeqID = 1, s_serverSeq = 0, s_maxClientSeq = 0, s_clientAckServerSeq = 0,
      s_orderedQueue = Some (NewOrderedMessageQueue sid 1000),
      s_orderingManager = Some NewMessageOrderingManager, s_closed = False, s_closeCh_closed = False\<rparr>"

definition handleOldSessionOnReconnectAtomic :: "time \<Rightarrow> nat \<Rightarrow> 'x manager \<Rightarrow> 'x manager" where
  "handleOldSessionOnReconnectAtomic now r m =
     (let m1 = upd_sess r (\<lambda>s. snd (SetClosed s)) m
      in m1\<lparr>m_sessions := gm_del (s_ID (sess_at r m)) (m_sessions m1),
            m_timers := m_timers m1 @ [(now + 5 * Second, CloseTimer r)]\<rparr>)"

text \<open>\<open>copier.Copy\<close> of the unacknowledged messages (both queues exist; a nil one would panic).\<close>

definition copy_sent :: "'x ext \<Rightarrow> 'x session \<Rightarrow> 'x session \<Rightarrow> 'x session" where
  "copy_sent e old s =
     (case (s_orderedQueue old, s_orderedQueue s) of
        (Some qo, Some q) \<Rightarrow>
          s\<lparr>s_orderedQueue := Some (q\<lparr>sentMessages := copier_Copy e (sentMessages q) (sentMessages qo)\<rparr>)\<rparr>
      | _ \<Rightarrow> s)"

text \<open>The session a reconnection resumes: the user's last one, if it was active recently.\<close>

definition reconnect_candidate :: "time \<Rightarrow> string \<Rightarrow> 'x manager \<Rightarrow> nat option" where
  "reconnect_candidate now openID m =
     (if openID = [] then None
      else case gm_get (m_sessionsByUID m) openID of
             None \<Rightarrow> None
           | Some r \<Rightarrow> if now - s_LastActivity (sess_at r m) < m_connectionDownDelay m * 2 then Some r else None)"

definition CreateOrReconnectSession ::
  "'x ext \<Rightarrow> string \<Rightarrow> time \<Rightarrow> 'x \<Rightarrow> string \<Rightarrow> string \<Rightarrow> string \<Rightarrow> 'x manager \<Rightarrow>
     nat \<times> bool \<times> 'x manager" where
  "CreateOrReconnectSession e uuid now t clientID openID userIP m =
     (let new = new_session uuid now t clientID openID userIP;
          r' = length (m_store m);
          (isReconnect, new', m1) =
            (case reconnect_candidate now openID m of
               None \<Rightarrow> (False, new, m)
             | Some r \<Rightarrow>
                 let old = sess_at r m in
                 if gm_get (m_sessions m) (s_ID old) = Some r then
                   let new1 = InheritFrom old new;
                       m1 = handleOldSessionOnReconnectAtomic now r m
                   in (True, copy_sent e (sess_at r m1) new1, m1)
                 else (False, new, m));
          m2 = m1\<lparr>m_store := m_store m1 @ [new'], m_sessions := gm_put uuid r' (m_sessions m1)\<rparr>;
          m3 = (if openID \<noteq> [] then m2\<lparr>m_sessionsByUID := gm_put openID r' (m_sessionsByUID m2)\<rparr> else m2)
      in (r', isReconnect, m3))"

section \<open>Lookup\<close>

definition GetSession :: "string \<Rightarrow> 'x manager \<Rightarrow> nat option" where
  "GetSession sid m = gm_get (m_sessions m) sid"

definition GetAllSessions :: "'x manager \<Rightarrow> nat list" where
  "GetAllSessions m = map snd (m_sessions m)"

definition GetSessionCount :: "'x manager \<Rightarrow> int" where
  "GetSessionCount m = int (length (m_sessions m))"

definition GetSessionByOpenID :: "string \<Rightarrow> 'x manager \<Rightarrow> nat option" where
  "GetSessionByOpenID openID m = gm_get (m_sessionsByUID m) openID"

section \<open>Operations on one session\<close>

definition m_AckMessagesUpTo :: "string \<Rightarrow> u64 \<Rightarrow> 'x manager \<Rightarrow> int \<times> 'x manager" where
  "m_AckMessagesUpTo sid ack m =
     (case GetSession sid m of
        None \<Rightarrow> (0, m)
      | Some r \<Rightarrow>
          let m1 = upd_sess r (\<lambda>s. snd (UpdateAckServerSeq ack s)) m in
          (case GetOrderedQueue (sess_at r m1) of
             None \<Rightarrow> (0, m1)
           | Some q \<Rightarrow>
               (case oq_AckMessagesUpTo ack q of
                  (k, q') \<Rightarrow> (k, upd_sess r (\<lambda>s. s\<lparr>s_orderedQueue := Some q'\<rparr>) m1))))"

definition m_ActivateSession :: "string \<Rightarrow> int \<Rightarrow> 'x manager \<Rightarrow> err option \<times> 'x manager" where
  "m_ActivateSession sid zone m =
     (case GetSession sid m of
        None \<Rightarrow> (Some (ErrSessionNotFound sid), m)
      | Some r \<Rightarrow>
          (case session_ActivateSession zone (sess_at r m) of
             (True, s) \<Rightarrow> (None, upd_sess r (\<lambda>_. s) m)
           | (False, s) \<Rightarrow> (Some (ErrActivate sid), m)))"

definition writeMessageToSession :: "'x ext \<Rightarrow> nat \<Rightarrow> bytes \<Rightarrow> 'x manager \<Rightarrow> err option \<times> 'x manager" where
  "writeMessageToSession e r d m =
     (if IsClosed (sess_at r m) then (Some ErrSessionClosed, m)
      else (case s_transport (sess_at r m) of
              None \<Rightarrow> (Some ErrStreamNil, m)
            | Some t \<Rightarrow> (case stream_Write e t d of
                (t', x) \<Rightarrow> (x, upd_sess r (\<lambda>s. s\<lparr>s_transport := Some t'\<rparr>) m))))"

definition ValidateClientSequence :: "string \<Rightarrow> u64 \<Rightarrow> 'x manager \<Rightarrow> bool \<times> 'x manager" where
  "ValidateClientSequence sid clientSeq m =
     (case GetSession sid m of
        None \<Rightarrow> (False, m)
      | Some r \<Rightarrow> (case ValidateClientSeq clientSeq (sess_at r m) of (b, s) \<Rightarrow> (b, upd_sess r (\<lambda>_. s) m)))"

definition GetExpectedClientSequence :: "string \<Rightarrow> 'x manager \<Rightarrow> u64" where
  "GetExpectedClientSequence sid m =
     (case GetSession sid m of None \<Rightarrow> 1 | Some r \<Rightarrow> MaxClientSeq (sess_at r m) + 1)"

definition m_GetPendingCount :: "string \<Rightarrow> 'x manager \<Rightarrow> int" where
  "m_GetPendingCount sid m =
     (case GetSession sid m of
        None \<Rightarrow> 0
      | Some r \<Rightarrow> (case GetOrderedQueue (sess_at r m) of None \<Rightarrow> 0 | Some q \<Rightarrow> oq_GetPendingCount q))"

definition BindSession :: "nat \<Rightarrow> 'x manager \<Rightarrow> err option \<times> 'x manager" where
  "BindSession r m =
     (let s = sess_at r m;
          bound = m\<lparr>m_sessionsByUID := gm_put (s_OpenID s) r (m_sessionsByUID m)\<rparr>
      in if s_OpenID s = [] then (None, m)
         else (case gm_get (m_sessionsByUID m) (s_OpenID s) of
                 Some r' \<Rightarrow>
                   if s_ID (sess_at r' m) \<noteq> s_ID s
                   then (Some (ErrOpenIDTaken (s_OpenID s) (s_ID (sess_at r' m))), m)
                   else (None, bound)
               | None \<Rightarrow> (None, bound)))"

section \<open>Removal\<close>

definition immediateRemoveSession :: "'x ext \<Rightarrow> string \<Rightarrow> 'x manager \<Rightarrow> 'x manager" where
  "immediateRemoveSession e sid m =
     (case gm_get (m_sessions m) sid of
        None \<Rightarrow> m
      | Some r \<Rightarrow>
          let m1 = m\<lparr>m_sessions := gm_del sid (m_sessions m)\<rparr>;
              m2 = (if s_OpenID (sess_at r m) \<noteq> [] then
                      m1\<lparr>m_sessionsByUID := gm_del (s_OpenID (sess_at r m)) (m_sessionsByUID m1)\<rparr>
                    else m1)
          in upd_sess r (session_Close e) m2)"

definition RemoveSessionWithDelay :: "'x ext \<Rightarrow> time \<Rightarrow> string \<Rightarrow> bool \<Rightarrow> 'x manager \<Rightarrow> 'x manager" where
  "RemoveSessionWithDelay e now sid delay m =
     (case gm_get (m_sessions m) sid of
        None \<Rightarrow> m
      | Some r \<Rightarrow>
          (case SetClosed (sess_at r m) of
             (alreadyClosed, s) \<Rightarrow>
               let m1 = upd_sess r (\<lambda>_. s) m in
               if alreadyClosed \<and> \<not> delay then immediateRemoveSession e sid m1
               else if delay \<and> s_OpenID s \<noteq> [] then
                 m1\<lparr>m_timers := m_timers m1 @ [(now + m_connectionDownDelay m1, RemoveTimer sid)]\<rparr>
               else immediateRemoveSession e sid m1))"

definition RemoveSession :: "'x ext \<Rightarrow> time \<Rightarrow> string \<Rightarrow> 'x manager \<Rightarrow> 'x manager" where
  "RemoveSession e now sid m = RemoveSessionWithDelay e now sid False m"

text \<open>Run the timer at a position of the list once it is due.\<close>

definition fire_timer :: "'x ext \<Rightarrow> time \<Rightarrow> nat \<Rightarrow> 'x manager \<Rightarrow> 'x manager" where
  "fire_timer e now i m =
     (if i < length (m_timers m) \<and> fst (m_timers m ! i) \<le> now then
        let m1 = m\<lparr>m_timers := take i (m_timers m) @ drop (Suc i) (m_timers m)\<rparr> in
        (case snd (m_timers m ! i) of
           RemoveTimer sid \<Rightarrow> immediateRemoveSession e sid m1
         | CloseTimer r \<Rightarrow> upd_sess r (session_Close e) m1)
      else m)"

definition expire_one :: "'x ext \<Rightarrow> string \<Rightarrow> 'x manager \<Rightarrow> 'x manager" where
  "expire_one e sid m =
     (case gm_get (m_sessions m) sid of
        None \<Rightarrow> m
      | Some r \<Rightarrow> upd_sess r (session_Close e) (m\<lparr>m_sessions := gm_del sid (m_sessions m)\<rparr>))"

definition expired_ids :: "time \<Rightarrow> 'x manager \<Rightarrow> string list" where
  "expired_ids now m =
     map fst (filter (\<lambda>(_, r). IsExpired now (m_sessionTimeout m) (sess_at r m)) (m_sessions m))"

definition removeExpiredSessions :: "'x ext \<Rightarrow> time \<Rightarrow> 'x manager \<Rightarrow> 'x manager" where
  "removeExpiredSessions e now m = fold (expire_one e) (expired_ids now m) m"

text \<open>One tick of the background loop; the loop has ended once \<open>stopCh\<close> is closed.\<close>

definition cleanupExpiredSessions_round :: "'x ext \<Rightarrow> time \<Rightarrow> 'x manager \<Rightarrow> 'x manager" where
  "cleanupExpiredSessions_round e now m =
     (if m_stopped m then m else removeExpiredSessions e now m)"

definition manager_Stop :: "'x ext \<Rightarrow> 'x manager \<Rightarrow> 'x manager" where
  "manager_Stop e m =
     (let m1 = fold (\<lambda>(_, r) m. upd_sess r (session_Close e) m) (m_sessions m) (m\<lparr>m_stopped := True\<rparr>)
      in m1\<lparr>m_sessions := [], m_sessionsByUID := []\<rparr>)"

definition EnableSync :: "'x manager \<Rightarrow> 'x manager" where
  "EnableSync m = m\<lparr>m_syncEnabled := True, m_syncCallback := True\<rparr>"

end
