(* ===== verification/Queue_Order.thy ===== *)
theory Queue_Order
  imports Ordered_Queue
begin

text \<open>
  What \<open>OrderedMessageQueue\<close> guarantees: the invariant of every operation, exact acknowledgement,
  bounded retries, delivery in sequence order under any interleaving of operations, and complete
  delivery when no message is missing. A run is a list of operations (\<open>queue_op\<close>).
\<close>

section \<open>The invariant is kept\<close>

lemma oq_inv_New: "0 \<le> n \<Longrightarrow> oq_inv (NewOrderedMessageQueue sid n)"
  by (simp add: oq_inv_def NewOrderedMessageQueue_def sent_ok_def waiting_ok_Init)

lemma mark_sent_simps [simp]:
  "waitingQueue (mark_sent m q) = waitingQueue q"
  "sentMessages (mark_sent m q) = gm_put (ServerSeq m) (m\<lparr>Sent := True\<rparr>) (sentMessages q)"
  "nextExpectedSeq (mark_sent m q) = nextExpectedSeq q + 1"
  "lastSentSeq (mark_sent m q) = ServerSeq m"
  "maxQueueSize (mark_sent m q) = maxQueueSize q" "stopped (mark_sent m q) = stopped q"
  "sendCallback (mark_sent m q) = sendCallback q" "stopCh_closed (mark_sent m q) = stopCh_closed q"
  "ticker_running (mark_sent m q) = ticker_running q" "lastAckedSeq (mark_sent m q) = lastAckedSeq q"
  "sessionID (mark_sent m q) = sessionID q"
  by (simp_all add: mark_sent_def)

text \<open>
  The rule for the send loop: a property of the queue and the world that every successful send
  of the message with the expected number keeps, and every failed send, holds at the end.
\<close>

lemma processWaitingMessages_rule:
  assumes "P q w"
    and ok: "\<And>q w m rest w'. P q w \<Longrightarrow> mq_Pop (waitingQueue q) = Some (m, rest) \<Longrightarrow>
        ServerSeq m = nextExpectedSeq q \<Longrightarrow> oq_sendMessageDirectly q w m = (w', None) \<Longrightarrow>
        P (mark_sent m (q\<lparr>waitingQueue := rest\<rparr>)) w'"
    and fail: "\<And>q w m rest w' e. P q w \<Longrightarrow> mq_Pop (waitingQueue q) = Some (m, rest) \<Longrightarrow>
        ServerSeq m = nextExpectedSeq q \<Longrightarrow> oq_sendMessageDirectly q w m = (w', Some e) \<Longrightarrow>
        P (q\<lparr>waitingQueue := mq_Push m rest\<rparr>) w'"
    and res: "processWaitingMessages q w = (q', w')"
  shows "P q' w'"
  using assms(1) res
proof (induction "length (waitingQueue q)" arbitrary: q w rule: less_induct)
  case less
  show ?case
  proof (cases "top_is_next q")
    case False
    with less.prems show ?thesis by (simp add: process_stop)
  next
    case True
    then obtain m rest where pop: "mq_Pop (waitingQueue q) = Some (m, rest)"
      and seq: "ServerSeq m = nextExpectedSeq q" and len: "length (waitingQueue q) = Suc (length rest)"
      by (rule top_is_next_pop)
    obtain w1 r where send: "oq_sendMessageDirectly q w m = (w1, r)" by fastforce
    show ?thesis
    proof (cases r)
      case None
      have "P (mark_sent m (q\<lparr>waitingQueue := rest\<rparr>)) w1"
        using ok [OF less.prems(1) pop seq] send None by simp
      moreover have "processWaitingMessages (mark_sent m (q\<lparr>waitingQueue := rest\<rparr>)) w1 = (q', w')"
        using less.prems(2) process_sent [OF True pop] send None by simp
      ultimately show ?thesis
        using len by (intro less.hyps [of "mark_sent m (q\<lparr>waitingQueue := rest\<rparr>)" w1]) simp_all
    next
      case (Some e)
      then have "q' = q\<lparr>waitingQueue := mq_Push m rest\<rparr>" "w' = w1"
        using less.prems(2) process_failed [OF True pop] send by simp_all
      with fail [OF less.prems(1) pop seq send [unfolded Some]] show ?thesis by simp
    qed
  qed
qed

lemma oq_inv_process:
  assumes "oq_inv q" "processWaitingMessages q w = (q', w')"
  shows "oq_inv q'"
proof (rule processWaitingMessages_rule [where P = "\<lambda>q w. oq_inv q", OF assms(1) _ _ assms(2)])
  fix q :: "'a oqueue" and m rest
  assume inv: "oq_inv q" and pop: "mq_Pop (waitingQueue q) = Some (m, rest)"
    and seq: "ServerSeq m = nextExpectedSeq q"
  have wait: "waiting_ok (waitingQueue q)" using inv by (simp add: oq_inv_def)
  have len: "length (waitingQueue q) = Suc (length rest)" using pop by (rule mq_Pop_length)
  then show "oq_inv (mark_sent m (q\<lparr>waitingQueue := rest\<rparr>))"
    using inv seq waiting_ok_Pop [OF wait pop] by (auto simp: oq_inv_def sent_ok_put)
  show "oq_inv (q\<lparr>waitingQueue := mq_Push m rest\<rparr>)"
    using inv len waiting_ok_Pop [OF wait pop] by (auto simp: oq_inv_def waiting_ok_Push)
qed

lemma oq_inv_Enqueue:
  assumes "oq_inv q" "EnqueueMessage seq push data now q w = (r, q', w')"
  shows "oq_inv q'"
proof -
  let ?m = "\<lparr>ServerSeq = seq, Push = push, Data = data, Timestamp = now, Retries = 0, Sent = False\<rparr>"
  have "oq_inv (mark_sent ?m q)" if "seq = nextExpectedSeq q" "\<not> stopped q"
    using assms(1) that sent_ok_put [of "sentMessages q" ?m] by (simp add: oq_inv_def)
  moreover have "oq_inv (q\<lparr>waitingQueue := mq_Push ?m (waitingQueue q)\<rparr>)"
    if "\<not> stopped q" "int (length (waitingQueue q)) < maxQueueSize q"
    using assms(1) that waiting_ok_Push [of "waitingQueue q" ?m] by (simp add: oq_inv_def)
  ultimately show ?thesis
    using assms oq_inv_process
    by (fastforce simp: EnqueueMessage_def Let_def split: if_splits prod.splits option.splits)
qed

lemma oq_inv_Ack: "oq_inv q \<Longrightarrow> oq_inv (snd (oq_AckMessagesUpTo ack q))"
  by (auto simp: oq_inv_def oq_AckMessagesUpTo_def Let_def sent_ok_drop)

lemma oq_inv_Resync: 
  assumes "oq_inv q" shows "oq_inv (ResyncSequence ack q)"
proof -
  have "waiting_ok (mq_Init (filter (\<lambda>m. ack < ServerSeq m) (waitingQueue q)))"
    using assms by (intro waiting_ok_Init) (auto simp: oq_inv_def waiting_ok_def)
  moreover have "int (length (filter (\<lambda>m. ack < ServerSeq m) (waitingQueue q))) \<le> maxQueueSize q"
    using assms length_filter_le [of _ "waitingQueue q"]
    by (meson oq_inv_def of_nat_le_iff order_trans)
  ultimately show ?thesis
    using assms by (auto simp: oq_inv_def ResyncSequence_def Let_def sent_ok_drop)
qed

lemma oq_inv_cleanup:
  assumes "oq_inv q" shows "oq_inv (cleanupExpiredMessages now q)"
proof -
  let ?f = "filter (\<lambda>m. now - Timestamp m \<le> MessageTimeout) (waitingQueue q)"
  have "waiting_ok (mq_Init ?f)"
    using assms by (intro waiting_ok_Init) (auto simp: oq_inv_def waiting_ok_def)
  moreover have "int (length ?f) \<le> maxQueueSize q"
    using assms length_filter_le [of _ "waitingQueue q"]
    by (meson oq_inv_def of_nat_le_iff order_trans)
  ultimately show ?thesis
    using assms by (auto simp: oq_inv_def cleanupExpiredMessages_def sent_ok_drop)
qed

lemma oq_inv_retry:
  assumes "oq_inv q" shows "oq_inv (fst (retryTimedOutMessages now q w))"
proof -
  obtain es w' where e: "retry_entries now (sendCallback q) (sentMessages q) w = (es, w')" by fastforce
  have "sent_ok es" "length es = length (sentMessages q)"
    using assms retry_entries_ok [of "sentMessages q" now "sendCallback q" w]
      retry_entries_length [of now "sendCallback q" "sentMessages q" w] e
    by (simp_all add: oq_inv_def)
  then show ?thesis using assms e by (auto simp: oq_inv_def retryTimedOutMessages_def)
qed

lemma oq_inv_round: "oq_inv q \<Longrightarrow> oq_inv (fst (cleanupLoop_round now q w))"
  by (simp add: cleanupLoop_round_def oq_inv_retry oq_inv_cleanup)

lemma oq_inv_Stop: "oq_inv q \<Longrightarrow> oq_inv (oq_Stop q)"
  by (auto simp: oq_inv_def oq_Stop_def sent_ok_def)

lemmas oq_inv_ops = oq_inv_Ack oq_inv_Resync oq_inv_round oq_inv_Stop

section \<open>Runs, and the log of first transmissions\<close>

datatype queue_op =
  OpEnqueue u64 server_push bytes time | OpAck u64 | OpResync u64 | OpRound time | OpStop

fun queue_step :: "queue_op \<Rightarrow> 'w oqueue \<times> 'w \<Rightarrow> 'w oqueue \<times> 'w" where
  "queue_step (OpEnqueue seq push data now) (q, w) = snd (EnqueueMessage seq push data now q w)"
| "queue_step (OpAck ack) (q, w) = (snd (oq_AckMessagesUpTo ack q), w)"
| "queue_step (OpResync ack) (q, w) = (ResyncSequence ack q, w)"
| "queue_step (OpRound now) (q, w) = cleanupLoop_round now q w"
| "queue_step OpStop (q, w) = (oq_Stop q, w)"

fun queue_run :: "queue_op list \<Rightarrow> 'w oqueue \<times> 'w \<Rightarrow> 'w oqueue \<times> 'w" where
  "queue_run [] s = s"
| "queue_run (x # xs) s = queue_run xs (queue_step x s)"

lemma queue_run_append [simp]: "queue_run (xs @ ys) s = queue_run ys (queue_run xs s)"
  by (induction xs arbitrary: s) simp_all

lemma oq_inv_step: "oq_inv (fst s) \<Longrightarrow> oq_inv (fst (queue_step x s))"
proof (cases s, cases x)
  fix q w seq push data now
  assume "oq_inv (fst s)" "s = (q, w)" "x = OpEnqueue seq push data now"
  then show ?thesis
    using oq_inv_Enqueue [of q seq push data now w] by (cases "EnqueueMessage seq push data now q w") auto
qed (auto intro: oq_inv_ops)

lemma oq_inv_run: "oq_inv (fst s) \<Longrightarrow> oq_inv (fst (queue_run xs s))"
  by (induction xs arbitrary: s) (simp_all add: oq_inv_step)

text \<open>
  A callback that notes, for every send that succeeds, the sequence number of a message that
  has not been sent before (\<open>Sent\<close> is set after the first send, so a retry is not noted).
\<close>

definition log_cb ::
  "('w \<Rightarrow> omsg \<Rightarrow> 'w \<times> err option) \<Rightarrow> 'w \<times> u64 list \<Rightarrow> omsg \<Rightarrow> ('w \<times> u64 list) \<times> err option" where
  "log_cb cb s m =
     (case cb (fst s) m of
        (w', None) \<Rightarrow> ((w', snd s @ (if Sent m then [] else [ServerSeq m])), None)
      | (w', Some e) \<Rightarrow> ((w', snd s), Some e))"

lemma log_cb_None:
  "log_cb cb (w, l) m = ((w', l'), None) \<Longrightarrow> l' = l @ (if Sent m then [] else [ServerSeq m])"
  by (auto simp: log_cb_def split: prod.splits option.splits)

lemma log_cb_Some: "log_cb cb (w, l) m = ((w', l'), Some e) \<Longrightarrow> l' = l"
  by (auto simp: log_cb_def split: prod.splits option.splits)

text \<open>Retries leave the log alone.\<close>

lemma retry_one_log:
  "Sent m \<Longrightarrow> retry_one now (Some (log_cb cb)) m s = (m', s') \<Longrightarrow> snd s' = snd s"
  by (auto simp: retry_one_def log_cb_def split: if_splits prod.splits option.splits)

lemma retry_entries_log:
  "sent_ok es \<Longrightarrow> retry_entries now (Some (log_cb cb)) es s = (es', s') \<Longrightarrow> snd s' = snd s"
proof (induction es arbitrary: s es' s')
  case (Cons e es)
  obtain k m where e: "e = (k, m)" by (metis surj_pair)
  obtain m1 s1 where one: "retry_one now (Some (log_cb cb)) m s = (m1, s1)" by (metis surj_pair)
  obtain es2 s2 where rest: "retry_entries now (Some (log_cb cb)) es s1 = (es2, s2)" by (metis surj_pair)
  have "snd s1 = snd s" using Cons.prems one by (auto simp: e sent_ok_Cons intro: retry_one_log)
  then show ?case
    using Cons.IH [OF _ rest] Cons.prems by (simp add: e one rest sent_ok_Cons)
qed simp

lemma round_log:
  assumes "oq_inv q" "sendCallback q = Some (log_cb cb)" "cleanupLoop_round now q s = (q', s')"
  shows "snd s' = snd s" "nextExpectedSeq q' = nextExpectedSeq q" "sendCallback q' = sendCallback q"
    "set (waitingQueue q') \<subseteq> set (waitingQueue q)"
proof -
  have so: "sent_ok (sentMessages (cleanupExpiredMessages now q))"
    using oq_inv_cleanup [OF assms(1)] by (simp add: oq_inv_def)
  obtain es s2 where r: "retry_entries now (Some (log_cb cb))
      (sentMessages (cleanupExpiredMessages now q)) s = (es, s2)" by (metis surj_pair)
  have cb: "sendCallback (cleanupExpiredMessages now q) = Some (log_cb cb)"
    using assms(2) by (simp add: cleanupExpiredMessages_def)
  have e: "snd s2 = snd s" using retry_entries_log [OF so r] .
  show "snd s' = snd s" "nextExpectedSeq q' = nextExpectedSeq q" "sendCallback q' = sendCallback q"
    "set (waitingQueue q') \<subseteq> set (waitingQueue q)"
    using assms(3) e r cb
    by (auto simp: cleanupLoop_round_def retryTimedOutMessages_def cleanupExpiredMessages_def
        split: if_splits)
qed

section \<open>In-order delivery\<close>

text \<open>\<open>consec n k\<close> is the list of the \<open>k\<close> sequence numbers from \<open>n\<close> on.\<close>

definition consec :: "u64 \<Rightarrow> nat \<Rightarrow> u64 list" where
  "consec n k = map (\<lambda>i. n + of_nat i) [0..<k]"

lemma consec_0 [simp]: "consec n 0 = []"
  by (simp add: consec_def)

lemma consec_snoc: "consec n (Suc k) = consec n k @ [n + of_nat k]"
  by (simp add: consec_def)

lemma length_consec [simp]: "length (consec n k) = k"
  by (simp add: consec_def)

text \<open>
  One step of the log: the numbers logged are consecutive from the expected number, and the
  expected number moves past them; the other fields that matter are kept.
\<close>

definition advances :: "('w \<times> u64 list) oqueue \<Rightarrow> u64 list \<Rightarrow> ('w \<times> u64 list) oqueue \<Rightarrow> u64 list \<Rightarrow> bool" where
  "advances q l q' l' \<longleftrightarrow>
     (\<exists>k. l' = l @ consec (nextExpectedSeq q) k \<and> nextExpectedSeq q' = nextExpectedSeq q + of_nat k) \<and>
     sendCallback q' = sendCallback q"

lemma advances_refl: "nextExpectedSeq q' = nextExpectedSeq q \<Longrightarrow> sendCallback q' = sendCallback q \<Longrightarrow>
    advances q l q' l"
  by (auto simp: advances_def intro: exI [of _ 0])

lemma advances_send:
  assumes "advances q l q1 l1" "ServerSeq m = nextExpectedSeq q1"
    "waitingQueue q2 = rest" "q2 = q1\<lparr>waitingQueue := rest\<rparr>"
  shows "advances q l (mark_sent m q2) (l1 @ [ServerSeq m])"
proof -
  obtain k where "l1 = l @ consec (nextExpectedSeq q) k" "nextExpectedSeq q1 = nextExpectedSeq q + of_nat k"
    using assms(1) by (auto simp: advances_def)
  then have "l1 @ [ServerSeq m] = l @ consec (nextExpectedSeq q) (Suc k)"
    "nextExpectedSeq (mark_sent m q2) = nextExpectedSeq q + of_nat (Suc k)"
    using assms by (simp_all add: consec_snoc ac_simps)
  then show ?thesis using assms unfolding advances_def by auto
qed

lemma process_advances:
  assumes inv: "oq_inv q0" and cb: "sendCallback q0 = Some (log_cb cb)"
    and adv: "advances q0 l0 q (snd s)" and inv': "oq_inv q"
    and res: "processWaitingMessages q s = (q', s')"
  shows "advances q0 l0 q' (snd s')"
proof -
  let ?P = "\<lambda>q s. oq_inv q \<and> advances q0 l0 q (snd s)"
  have "?P q' s'"
  proof (rule processWaitingMessages_rule [where P = ?P, OF _ _ _ res])
    show "?P q s" using adv inv' by simp
  next
    fix q s m rest s1
    assume P: "?P q s" and pop: "mq_Pop (waitingQueue q) = Some (m, rest)"
      and seq: "ServerSeq m = nextExpectedSeq q"
      and send: "oq_sendMessageDirectly q s m = (s1, None)"
    have w: "waiting_ok (waitingQueue q)" using P by (simp add: oq_inv_def)
    have "sendCallback q = Some (log_cb cb)" using P cb by (simp add: advances_def)
    with send have "log_cb cb (fst s, snd s) m = ((fst s1, snd s1), None)"
      by (simp add: oq_sendMessageDirectly_def)
    then have "snd s1 = snd s @ [ServerSeq m]"
      using log_cb_None waiting_ok_Pop [OF w pop] by fastforce
    moreover have "oq_inv (mark_sent m (q\<lparr>waitingQueue := rest\<rparr>))"
      using P seq mq_Pop_length [OF pop] waiting_ok_Pop [OF w pop]
      by (auto simp: oq_inv_def sent_ok_put)
    ultimately show "?P (mark_sent m (q\<lparr>waitingQueue := rest\<rparr>)) s1"
      using P seq advances_send by fastforce
  next
    fix q s m rest s1 e
    assume P: "?P q s" and pop: "mq_Pop (waitingQueue q) = Some (m, rest)"
      and seq: "ServerSeq m = nextExpectedSeq q"
      and send: "oq_sendMessageDirectly q s m = (s1, Some e)"
    have w: "waiting_ok (waitingQueue q)" using P by (simp add: oq_inv_def)
    have "sendCallback q = Some (log_cb cb)" using P cb by (simp add: advances_def)
    with send have "log_cb cb (fst s, snd s) m = ((fst s1, snd s1), Some e)"
      by (simp add: oq_sendMessageDirectly_def)
    then have "snd s1 = snd s" by (rule log_cb_Some)
    moreover have "oq_inv (q\<lparr>waitingQueue := mq_Push m rest\<rparr>)"
      using P mq_Pop_length [OF pop] waiting_ok_Pop [OF w pop]
      by (auto simp: oq_inv_def waiting_ok_Push)
    ultimately show "?P (q\<lparr>waitingQueue := mq_Push m rest\<rparr>) s1"
      using P by (simp add: advances_def)
  qed
  then show ?thesis by simp
qed


lemma Enqueue_refused:
  assumes "stopped q \<or> maxQueueSize q \<le> int (length (waitingQueue q)) \<or> seq < nextExpectedSeq q"
  shows "snd (EnqueueMessage seq push data now q w) = (q, w)"
proof -
  have "seq \<noteq> nextExpectedSeq q \<and> \<not> nextExpectedSeq q < seq" if "seq < nextExpectedSeq q"
    using that by auto
  then show ?thesis using assms unfolding EnqueueMessage_def Let_def by (elim disjE) simp_all
qed

lemma Enqueue_cases:
  assumes "EnqueueMessage seq push data now q w = (r, q', w')"
  obtains (refused) "q' = q" "w' = w"
  | (failed) e w1 m where "seq = nextExpectedSeq q" "ServerSeq m = seq" "\<not> Sent m" "Retries m = 0"
      "oq_sendMessageDirectly q w m = (w1, Some e)" "q' = q" "w' = w1" "r \<noteq> None"
  | (sent) w1 m where "seq = nextExpectedSeq q" "ServerSeq m = seq" "\<not> Sent m" "Retries m = 0"
      "\<not> stopped q" "oq_sendMessageDirectly q w m = (w1, None)"
      "processWaitingMessages (mark_sent m q) w1 = (q', w')" "r = None"
  | (waits) m where "nextExpectedSeq q < seq" "ServerSeq m = seq" "\<not> Sent m" "Retries m = 0"
      "\<not> stopped q" "q' = q\<lparr>waitingQueue := mq_Push m (waitingQueue q)\<rparr>" "w' = w" "r = None"
proof -
  let ?m = "\<lparr>ServerSeq = seq, Push = push, Data = data, Timestamp = now, Retries = 0, Sent = False\<rparr>"
  obtain w1 r1 where send: "oq_sendMessageDirectly q w ?m = (w1, r1)" by fastforce
  obtain q2 w2 where proc: "processWaitingMessages (mark_sent ?m q) w1 = (q2, w2)" by fastforce
  show thesis
  proof (cases "stopped q \<or> maxQueueSize q \<le> int (length (waitingQueue q)) \<or> seq < nextExpectedSeq q")
    case True
    then have "snd (EnqueueMessage seq push data now q w) = (q, w)" by (rule Enqueue_refused)
    then show thesis using assms refused by simp
  next
    case False
    then have open_q: "\<not> stopped q" "\<not> maxQueueSize q \<le> int (length (waitingQueue q))" by simp_all
    note enq = assms [unfolded EnqueueMessage_def Let_def if_not_P [OF open_q(1)] if_not_P [OF open_q(2)]]
    have m: "ServerSeq ?m = seq" "\<not> Sent ?m" "Retries ?m = 0" by simp_all
    show thesis
    proof (cases "seq = nextExpectedSeq q")
      case True
      note enq' = enq [unfolded if_P [OF True] send prod.case]
      show thesis
      proof (cases r1)
        case None
        with enq' proc have "q' = q2" "w' = w2" "r = None" by simp_all
        then show thesis using sent [OF True m open_q(1)] send None proc by simp
      next
        case (Some e)
        with enq' have "q' = q" "w' = w1" "r \<noteq> None" by auto
        then show thesis using failed [OF True m] send Some by simp
      qed
    next
      case neq: False
      with False have lt: "nextExpectedSeq q < seq" by (meson linorder_neqE)
      show thesis
        using enq [unfolded if_not_P [OF neq] if_P [OF lt]] by (intro waits [OF lt m open_q(1)]) simp_all
    qed
  qed
qed

lemma oq_inv_mark_sent:
  assumes "oq_inv q" "\<not> stopped q" "Retries m = 0" "ServerSeq m = nextExpectedSeq q"
  shows "oq_inv (mark_sent m q)"
  using assms by (auto simp: oq_inv_def sent_ok_put)

lemma send_log:
  assumes "sendCallback q = Some (log_cb cb)" "oq_sendMessageDirectly q s m = (s1, r)"
  shows "snd s1 = snd s @ (if r = None \<and> \<not> Sent m then [ServerSeq m] else [])"
  using assms by (auto simp: oq_sendMessageDirectly_def log_cb_def split: prod.splits option.splits)

text \<open>Every operation but a resynchronisation advances the log by consecutive numbers.\<close>

fun is_resync :: "queue_op \<Rightarrow> bool" where
  "is_resync (OpResync a) = True"
| "is_resync _ = False"

lemma step_advances:
  assumes inv: "oq_inv q" and cb: "sendCallback q = Some (log_cb cb)" and nr: "\<not> is_resync x"
    and step: "queue_step x (q, s) = (q', s')"
  shows "advances q (snd s) q' (snd s')"
proof (cases x)
  case (OpEnqueue seq push data now)
  obtain r where enq: "EnqueueMessage seq push data now q s = (r, q', s')"
    using step OpEnqueue by (cases "EnqueueMessage seq push data now q s") auto
  then show ?thesis
  proof (cases rule: Enqueue_cases)
    case (failed e w1 m)
    then show ?thesis using send_log [OF cb] by (fastforce intro: advances_refl)
  next
    case (sent s1 m)
    have l: "snd s1 = snd s @ [ServerSeq m]" using send_log [OF cb sent(6)] sent by simp
    have "advances q (snd s) (mark_sent m q) (snd s1)"
      unfolding l using sent advances_send [OF advances_refl, of q q m q] by (simp add: advances_def)
    then show ?thesis
      using process_advances [OF inv cb _ _ sent(7)] oq_inv_mark_sent [OF inv] sent by simp
  qed (auto intro: advances_refl)
next
  case (OpRound now)
  then have "cleanupLoop_round now q s = (q', s')" using step by simp
  note r = round_log [OF inv cb this]
  show ?thesis using r(1-3) advances_refl [of q' q] by metis
qed (use step nr in \<open>auto intro: advances_refl simp: oq_AckMessagesUpTo_def oq_Stop_def Let_def\<close>)

lemma consec_append: "consec n (j + k) = consec n j @ consec (n + of_nat j) k"
  by (induction k) (simp_all add: consec_snoc add.assoc)

lemma advances_trans: "advances q l q1 l1 \<Longrightarrow> advances q1 l1 q2 l2 \<Longrightarrow> advances q l q2 l2"
  by (fastforce simp: advances_def consec_append ac_simps intro: exI [of _ "_ + _"])

lemma run_advances:
  assumes "oq_inv q" "sendCallback q = Some (log_cb cb)" "\<forall>x \<in> set xs. \<not> is_resync x"
    "queue_run xs (q, s) = (q', s')"
  shows "oq_inv q' \<and> advances q (snd s) q' (snd s')"
  using assms
proof (induction xs arbitrary: q s)
  case Nil
  then show ?case by (simp add: advances_refl)
next
  case (Cons x xs)
  obtain q1 s1 where step: "queue_step x (q, s) = (q1, s1)" by (metis surj_pair)
  have adv: "advances q (snd s) q1 (snd s1)" using step_advances [OF Cons.prems(1,2) _ step] Cons.prems by simp
  have "oq_inv q1" using oq_inv_step [of "(q, s)" x] Cons.prems step by simp
  moreover have "sendCallback q1 = Some (log_cb cb)" using adv Cons.prems by (simp add: advances_def)
  ultimately show ?case
    using Cons.IH [of q1 s1] Cons.prems step adv advances_trans by fastforce
qed

section \<open>Membership in a stretch of consecutive numbers\<close>

lemma in_consec:
  assumes "unat n + k < 2 ^ 64"
  shows "x \<in> set (consec n k) \<longleftrightarrow> n \<le> x \<and> x < n + of_nat k"
proof -
  have un: "unat (n + of_nat i) = unat n + i" if "i \<le> k" for i
    using assms that by (simp add: unat_word_ariths unat_of_nat take_bit_nat_eq_self)
  have "x \<in> set (consec n k) \<longleftrightarrow> (\<exists>i < k. unat x = unat n + i)"
    using un by (auto simp: consec_def image_iff Bex_def word_unat_eq_iff)
  also have "\<dots> \<longleftrightarrow> unat n \<le> unat x \<and> unat x < unat n + k"
    by (auto intro: exI [of _ "unat x - unat n"])
  finally show ?thesis using un [of k] by (simp add: word_le_nat_alt word_less_nat_alt)
qed

lemma next_notin_consec:
  assumes "unat n + k < 2 ^ 64"
  shows "n + of_nat k \<notin> set (consec n k)" "n \<le> n + of_nat k"
proof -
  show "n + of_nat k \<notin> set (consec n k)" by (simp add: in_consec [OF assms])
  have "unat (n + of_nat k) = unat n + k"
    using assms by (simp add: unat_word_ariths unat_of_nat take_bit_nat_eq_self)
  then show "n \<le> n + of_nat k" by (simp add: word_le_nat_alt)
qed

lemma distinct_consec: "unat n + k < 2 ^ 64 \<Longrightarrow> distinct (consec n k)"
  by (induction k) (simp_all add: consec_snoc next_notin_consec)

text \<open>
  The specification of a gap-free delivery: the longest stretch from \<open>n\<close> on whose numbers have
  all been enqueued.
\<close>

definition prefix_from :: "u64 \<Rightarrow> u64 list \<Rightarrow> u64 list" where
  "prefix_from n ss = takeWhile (\<lambda>s. s \<in> set ss) (consec n (length ss))"

lemma prefix_from_unique:
  assumes "set (consec n k) \<subseteq> set ss" "n + of_nat k \<notin> set ss" "unat n + length ss < 2 ^ 64"
    "k \<le> length ss"
  shows "prefix_from n ss = consec n k"
proof -
  obtain j where j: "length ss = k + j" using assms(4) le_Suc_ex by blast
  have c: "consec n (length ss) = consec n k @ consec (n + of_nat k) j"
    by (simp add: j consec_append)
  have all: "\<forall>s \<in> set (consec n k). s \<in> set ss" using assms(1) by blast
  have "takeWhile (\<lambda>s. s \<in> set ss) (consec (n + of_nat k) j) = []"
  proof (cases j)
    case (Suc i)
    have "consec (n + of_nat k) j = (n + of_nat k) # consec (n + of_nat k + 1) i"
      using consec_append [of "n + of_nat k" 1 i] consec_snoc [of "n + of_nat k" 0] by (simp add: Suc)
    then show ?thesis using assms(2) by simp
  qed simp
  then show ?thesis using all by (simp add: prefix_from_def c takeWhile_append)
qed

lemma card_consec_le:
  assumes "set (consec n k) \<subseteq> set ss" "unat n + k < 2 ^ 64"
  shows "k \<le> length ss"
proof -
  have "k = card (set (consec n k))" using distinct_consec [OF assms(2)] distinct_card by fastforce
  also have "\<dots> \<le> length ss" using assms(1) card_mono card_length le_trans by (metis List.finite_set)
  finally show ?thesis .
qed

section \<open>Sends that always succeed\<close>

definition never_fails :: "('w \<Rightarrow> omsg \<Rightarrow> 'w \<times> err option) \<Rightarrow> bool" where
  "never_fails cb \<longleftrightarrow> (\<forall>w m. snd (cb w m) = None)"

lemma log_cb_never_fails: "never_fails cb \<Longrightarrow> snd (log_cb cb s m) = None"
  by (auto simp: never_fails_def log_cb_def split: prod.splits option.splits) (metis option.distinct(1) snd_conv)

lemma process_exhausts:
  assumes "never_fails cb" "sendCallback q = Some (log_cb cb)" "processWaitingMessages q s = (q', s')"
  shows "\<not> top_is_next q'"
  using assms(2,3)
proof (induction "length (waitingQueue q)" arbitrary: q s rule: less_induct)
  case less
  show ?case
  proof (cases "top_is_next q")
    case False
    with less.prems show ?thesis by (simp add: process_stop)
  next
    case True
    then obtain m rest where pop: "mq_Pop (waitingQueue q) = Some (m, rest)"
      and len: "length (waitingQueue q) = Suc (length rest)" by (rule top_is_next_pop)
    obtain s1 where send: "oq_sendMessageDirectly q s m = (s1, None)"
      using log_cb_never_fails [OF assms(1), of s m] less.prems(1)
      by (cases "log_cb cb s m") (auto simp: oq_sendMessageDirectly_def)
    show ?thesis
      using less.hyps [of "mark_sent m (q\<lparr>waitingQueue := rest\<rparr>)" s1] len less.prems
        process_sent [OF True pop send] by simp
  qed
qed

text \<open>
  What the queue has done with the numbers \<open>ss\<close> enqueued so far: a stretch from \<open>n\<close> has been
  sent, the rest waits.
\<close>

definition delivered :: "u64 \<Rightarrow> u64 list \<Rightarrow> ('w \<times> u64 list) oqueue \<Rightarrow> u64 list \<Rightarrow> bool" where
  "delivered n ss q l \<longleftrightarrow>
     (\<exists>k. l = consec n k \<and> nextExpectedSeq q = n + of_nat k) \<and>
     image_mset ServerSeq (mset (waitingQueue q)) + mset l = mset ss"

lemma delivered_set: "delivered n ss q l \<Longrightarrow> set ss = ServerSeq ` set (waitingQueue q) \<union> set l"
  unfolding delivered_def by (metis set_image_mset set_mset_mset set_mset_union)

lemma delivered_length: "delivered n ss q l \<Longrightarrow> length ss = length (waitingQueue q) + length l"
  unfolding delivered_def by (metis size_image_mset size_mset size_union)

lemma delivered_disjoint:
  assumes "delivered n ss q l" "distinct ss"
  shows "ServerSeq ` set (waitingQueue q) \<inter> set l = {}"
proof (rule ccontr)
  let ?A = "image_mset ServerSeq (mset (waitingQueue q))"
  assume "\<not> ?thesis"
  then obtain x where x: "x \<in># ?A" "x \<in># mset l" by auto
  then have "Suc 0 \<le> count ?A x" "Suc 0 \<le> count (mset l) x"
    using count_greater_zero_iff [of ?A x] count_greater_zero_iff [of "mset l" x] by linarith+
  moreover have "count (mset ss) x = count ?A x + count (mset l) x"
    using assms(1) unfolding delivered_def by (metis count_union)
  moreover have "count (mset ss) x \<le> 1"
    using assms(2) distinct_count_atmost_1 [of ss] by (simp split: if_splits)
  ultimately show False by linarith
qed

lemma delivered_sent:
  assumes "delivered n ss q l" "nextExpectedSeq q = ServerSeq m"
    "image_mset ServerSeq (mset (waitingQueue q)) + mset ss' = add_mset (ServerSeq m) (image_mset ServerSeq (mset rest)) + mset ss"
  shows "delivered n ss' (mark_sent m (q\<lparr>waitingQueue := rest\<rparr>)) (l @ [ServerSeq m])"
proof -
  obtain k where k: "l = consec n k" "nextExpectedSeq q = n + of_nat k"
    and eq: "image_mset ServerSeq (mset (waitingQueue q)) + mset l = mset ss"
    using assms(1) by (auto simp: delivered_def)
  have "l @ [ServerSeq m] = consec n (Suc k)" "nextExpectedSeq q + 1 = n + of_nat (Suc k)"
    using k assms(2) by (simp_all add: consec_snoc ac_simps)
  moreover have "image_mset ServerSeq (mset (waitingQueue q)) + mset ss' =
      image_mset ServerSeq (mset (waitingQueue q)) +
      (image_mset ServerSeq (mset rest) + mset (l @ [ServerSeq m]))"
    using assms(3) by (simp add: eq [symmetric] ac_simps)
  then have "image_mset ServerSeq (mset rest) + mset (l @ [ServerSeq m]) = mset ss'"
    by (simp only: add_left_cancel)
  ultimately show ?thesis unfolding delivered_def by auto
qed

lemma delivered_process:
  assumes inv: "oq_inv q" and cb: "sendCallback q = Some (log_cb cb)" and d: "delivered n ss q (snd s)"
    and res: "processWaitingMessages q s = (q', s')"
  shows "delivered n ss q' (snd s')"
proof -
  let ?P = "\<lambda>q s. waiting_ok (waitingQueue q) \<and> sendCallback q = Some (log_cb cb) \<and> delivered n ss q (snd s)"
  have "?P q' s'"
  proof (rule processWaitingMessages_rule [where P = ?P, OF _ _ _ res])
    show "?P q s" using assms by (simp add: oq_inv_def)
  next
    fix q s m rest s1
    assume P: "?P q s" and pop: "mq_Pop (waitingQueue q) = Some (m, rest)"
      and seq: "ServerSeq m = nextExpectedSeq q" and send: "oq_sendMessageDirectly q s m = (s1, None)"
    have w: "waiting_ok rest" "\<not> Sent m" using P pop waiting_ok_Pop by blast+
    have "snd s1 = snd s @ [ServerSeq m]" using send_log [OF _ send] P w by simp
    moreover have "mset (waitingQueue q) = add_mset m (mset rest)" using pop by (rule mq.pop_elems)
    ultimately show "?P (mark_sent m (q\<lparr>waitingQueue := rest\<rparr>)) s1"
      using P w seq delivered_sent [of n ss q "snd s" m ss rest] by simp
  next
    fix q s m rest s1 e
    assume P: "?P q s" and pop: "mq_Pop (waitingQueue q) = Some (m, rest)"
      and send: "oq_sendMessageDirectly q s m = (s1, Some e)"
    have w: "waiting_ok rest" "\<not> Sent m" "Retries m = 0" using P pop waiting_ok_Pop by blast+
    have "snd s1 = snd s" using send_log [OF _ send] P by simp
    then show "?P (q\<lparr>waitingQueue := mq_Push m rest\<rparr>) s1"
      using P w mq.push_back [OF pop] by (simp add: waiting_ok_Push delivered_def)
  qed
  then show ?thesis by simp
qed

lemma delivered_prefix:
  assumes d: "delivered n ss q l" and wait: "waiting_ok (waitingQueue q)" and top: "\<not> top_is_next q"
    and ss: "distinct ss" "\<forall>s \<in> set ss. n \<le> s" "unat n + length ss < 2 ^ 64"
  shows "l = prefix_from n ss" "\<And>m. m \<in> set (waitingQueue q) \<Longrightarrow> nextExpectedSeq q < ServerSeq m"
    "nextExpectedSeq q \<notin> set ss"
proof -
  obtain k where k: "l = consec n k" "nextExpectedSeq q = n + of_nat k"
    using d by (auto simp: delivered_def)
  have len: "k \<le> length ss" using delivered_length [OF d] k by simp
  then have small: "unat n + k < 2 ^ 64" using ss(3) by simp
  have above: "nextExpectedSeq q \<le> ServerSeq m" if "m \<in> set (waitingQueue q)" for m
  proof -
    have "ServerSeq m \<in> set ss" "ServerSeq m \<notin> set l"
      using that delivered_set [OF d] delivered_disjoint [OF d ss(1)] by auto
    then show ?thesis using ss(2) k in_consec [OF small, of "ServerSeq m"] by auto
  qed
  show strict: "nextExpectedSeq q < ServerSeq m" if m: "m \<in> set (waitingQueue q)" for m
  proof (rule ccontr)
    assume "\<not> ?thesis"
    then have "ServerSeq m = nextExpectedSeq q" using above [OF m] by simp
    moreover have "ServerSeq (waitingQueue q ! 0) \<le> ServerSeq m"
      using heap_ok_min_set wait m by (auto simp: waiting_ok_def)
    moreover have "waitingQueue q \<noteq> []" using m by auto
    moreover have "nextExpectedSeq q \<le> ServerSeq (waitingQueue q ! 0)"
      using above [of "waitingQueue q ! 0"] \<open>waitingQueue q \<noteq> []\<close> by simp
    ultimately show False using top by (simp add: top_is_next_def)
  qed
  show next_out: "nextExpectedSeq q \<notin> set ss"
    using strict next_notin_consec(1) [OF small] k delivered_set [OF d] by fastforce
  show "l = prefix_from n ss"
    using prefix_from_unique [of n k ss] k len ss(3) next_out delivered_set [OF d] by simp
qed

lemma delivered_enqueue:
  fixes q :: "('w \<times> u64 list) oqueue"
  assumes inv: "oq_inv q" "\<not> stopped q" and cb: "never_fails cb" "sendCallback q = Some (log_cb cb)"
    and d: "delivered n ss q (snd s)" and top: "\<not> top_is_next q"
    and ss: "distinct (ss @ [seq])" "\<forall>x \<in> set (ss @ [seq]). n \<le> x" "unat n + length (ss @ [seq]) < 2 ^ 64"
      "int (length ss) < maxQueueSize q"
    and enq: "EnqueueMessage seq push data now q s = (r, q', s')"
  shows "delivered n (ss @ [seq]) q' (snd s') \<and> \<not> top_is_next q' \<and> r = None"
proof -
  have wait: "waiting_ok (waitingQueue q)" using inv by (simp add: oq_inv_def)
  have "int (length (waitingQueue q)) < maxQueueSize q" using delivered_length [OF d] ss(4) by simp
  obtain k where k: "snd s = consec n k" "nextExpectedSeq q = n + of_nat k"
    using d by (auto simp: delivered_def)
  have small: "unat n + k < 2 ^ 64" using delivered_length [OF d] k ss(3) by simp
  have "seq \<notin> set (snd s)" using ss(1) delivered_set [OF d] by auto
  then have ge: "nextExpectedSeq q \<le> seq" using ss(2) k in_consec [OF small, of seq] by auto
  let ?m = "\<lparr>ServerSeq = seq, Push = push, Data = data, Timestamp = now, Retries = 0, Sent = False\<rparr>"
  note open_q = enq [unfolded EnqueueMessage_def Let_def if_not_P [OF inv(2)]]
  show ?thesis
  proof (cases "seq = nextExpectedSeq q")
    case True
    obtain s1 where send: "oq_sendMessageDirectly q s ?m = (s1, None)"
      using log_cb_never_fails [OF cb(1), of s ?m] cb(2)
      by (cases "log_cb cb s ?m") (auto simp: oq_sendMessageDirectly_def)
    then have l: "snd s1 = snd s @ [ServerSeq ?m]" using send_log [OF cb(2) send] by simp
    have q1: "processWaitingMessages (mark_sent ?m q) s1 = (q', s')" "r = None"
      using open_q True send \<open>int (length (waitingQueue q)) < maxQueueSize q\<close>
      by (auto split: prod.splits)
    have "delivered n (ss @ [seq]) (mark_sent ?m q) (snd s1)"
      unfolding l using delivered_sent [OF d, of ?m "ss @ [seq]" "waitingQueue q"] True by simp
    then have "delivered n (ss @ [seq]) q' (snd s')"
      using delivered_process [OF oq_inv_mark_sent _ _ q1(1)] inv cb True by simp
    moreover have "\<not> top_is_next q'" using process_exhausts [OF cb(1) _ q1(1)] cb(2) by simp
    ultimately show ?thesis using q1 by simp
  next
    case False
    with ge have lt: "nextExpectedSeq q < seq" by simp
    have q': "q' = q\<lparr>waitingQueue := mq_Push ?m (waitingQueue q)\<rparr>" "s' = s" "r = None"
      using open_q False lt \<open>int (length (waitingQueue q)) < maxQueueSize q\<close> by auto
    have above: "nextExpectedSeq q < ServerSeq x" if "x \<in> set (waitingQueue q)" for x
      using that ss by (intro delivered_prefix(2) [OF d wait top]) auto
    have "waitingQueue q' ! 0 \<in> set (waitingQueue q')" using q' by (intro nth_mem) simp
    then have "\<not> top_is_next q'" using q' lt above by (fastforce simp: top_is_next_def)
    moreover have "delivered n (ss @ [seq]) q' (snd s')"
      using d q' mq.elems_push [of ?m "waitingQueue q"] by (simp add: delivered_def ac_simps)
    ultimately show ?thesis using q' by simp
  qed
qed

text \<open>A burst of messages: sequence number, message, encoded bytes, clock.\<close>

definition enqueue_ops :: "(u64 \<times> server_push \<times> bytes \<times> time) list \<Rightarrow> queue_op list" where
  "enqueue_ops xs = map (\<lambda>(s, p, d, t). OpEnqueue s p d t) xs"

lemma process_keeps:
  assumes "processWaitingMessages q w = (q', w')"
  shows "maxQueueSize q' = maxQueueSize q \<and> stopped q' = stopped q \<and> sendCallback q' = sendCallback q \<and>
    lastAckedSeq q' = lastAckedSeq q \<and> sessionID q' = sessionID q"
  by (rule processWaitingMessages_rule [where P = "\<lambda>p w. maxQueueSize p = maxQueueSize q \<and>
      stopped p = stopped q \<and> sendCallback p = sendCallback q \<and> lastAckedSeq p = lastAckedSeq q \<and>
      sessionID p = sessionID q", OF _ _ _ assms]) simp_all

lemma enqueue_keeps:
  assumes "EnqueueMessage seq push data now q w = (r, q', w')"
  shows "maxQueueSize q' = maxQueueSize q \<and> stopped q' = stopped q \<and> sendCallback q' = sendCallback q \<and>
    lastAckedSeq q' = lastAckedSeq q \<and> sessionID q' = sessionID q"
  using assms by (cases rule: Enqueue_cases) (auto dest: process_keeps)

definition fresh_queue ::
  "string \<Rightarrow> int \<Rightarrow> ('w \<Rightarrow> omsg \<Rightarrow> 'w \<times> err option) \<Rightarrow> ('w \<times> u64 list) oqueue" where
  "fresh_queue sid maxq cb = SetSendCallback (Some (log_cb cb)) (NewOrderedMessageQueue sid maxq)"

lemma fresh_queue_facts [simp]:
  "sendCallback (fresh_queue sid maxq cb) = Some (log_cb cb)" "\<not> stopped (fresh_queue sid maxq cb)"
  "maxQueueSize (fresh_queue sid maxq cb) = maxq" "nextExpectedSeq (fresh_queue sid maxq cb) = 1"
  "waitingQueue (fresh_queue sid maxq cb) = []" "0 \<le> maxq \<Longrightarrow> oq_inv (fresh_queue sid maxq cb)"
  using oq_inv_New [of maxq sid]
  by (simp_all add: fresh_queue_def SetSendCallback_def NewOrderedMessageQueue_def oq_inv_def)

lemma enqueue_run_delivered:
  fixes cb :: "'w \<Rightarrow> omsg \<Rightarrow> 'w \<times> err option"
  assumes "never_fails cb" "distinct (map fst xs)" "\<forall>s \<in> set (map fst xs). 1 \<le> s"
    "length xs < 2 ^ 64 - 1" "int (length xs) \<le> maxq"
    "queue_run (enqueue_ops xs) (fresh_queue sid maxq cb, (w, [])) = (q', s')"
  shows "delivered 1 (map fst xs) q' (snd s') \<and> \<not> top_is_next q' \<and> oq_inv q' \<and> \<not> stopped q' \<and>
    maxQueueSize q' = maxq \<and> sendCallback q' = Some (log_cb cb)"
  using assms(2-)
proof (induction xs arbitrary: q' s' rule: rev_induct)
  case Nil
  then have "q' = fresh_queue sid maxq cb" "s' = (w, [])" by (simp_all add: enqueue_ops_def)
  then show ?case
    using Nil.prems by (auto simp: delivered_def top_is_next_def intro: exI [of _ 0])
next
  case (snoc x xs)
  obtain seq p d t where x: "x = (seq, p, d, t)" by (metis surj_pair)
  obtain q1 s1 where run: "queue_run (enqueue_ops xs) (fresh_queue sid maxq cb, (w, [])) = (q1, s1)"
    by (metis surj_pair)
  have IH: "delivered 1 (map fst xs) q1 (snd s1)" "\<not> top_is_next q1" "oq_inv q1" "\<not> stopped q1"
    "maxQueueSize q1 = maxq" "sendCallback q1 = Some (log_cb cb)"
    using snoc.IH [OF _ _ _ _ run] snoc.prems by auto
  obtain r where enq: "EnqueueMessage seq p d t q1 s1 = (r, q', s')"
    using snoc.prems(5) run by (cases "EnqueueMessage seq p d t q1 s1") (auto simp: enqueue_ops_def x)
  have "delivered 1 (map fst xs @ [seq]) q' (snd s') \<and> \<not> top_is_next q' \<and> r = None"
    using snoc.prems x IH by (intro delivered_enqueue [OF IH(3,4) assms(1) IH(6,1,2) _ _ _ _ enq]) auto
  moreover have "oq_inv q'" using oq_inv_Enqueue [OF IH(3) enq] .
  ultimately show ?case using enqueue_keeps [OF enq] IH x by simp
qed

section \<open>A gap stops the queue\<close>

lemma enqueue_gap:
  assumes "seq \<noteq> nextExpectedSeq q" and enq: "EnqueueMessage seq push data now q s = (r, q', s')"
  shows "s' = s \<and> nextExpectedSeq q' = nextExpectedSeq q"
  using enq assms(1) by (cases rule: Enqueue_cases) auto

fun offers :: "u64 \<Rightarrow> queue_op \<Rightarrow> bool" where
  "offers n (OpEnqueue seq push data now) = (seq = n)"
| "offers n (OpResync a) = True"
| "offers n _ = False"

lemma run_gap:
  assumes "oq_inv q" "sendCallback q = Some (log_cb cb)"
    "\<forall>x \<in> set xs. \<not> offers (nextExpectedSeq q) x" "queue_run xs (q, s) = (q', s')"
  shows "snd s' = snd s \<and> nextExpectedSeq q' = nextExpectedSeq q"
  using assms
proof (induction xs arbitrary: q s)
  case (Cons x xs)
  obtain q1 s1 where step: "queue_step x (q, s) = (q1, s1)" by (metis surj_pair)
  have inv: "oq_inv q1" using oq_inv_step [of "(q, s)" x] Cons.prems(1) step by simp
  have "snd s1 = snd s \<and> nextExpectedSeq q1 = nextExpectedSeq q \<and> sendCallback q1 = sendCallback q"
  proof (cases x)
    case (OpEnqueue seq push data now)
    obtain r where enq: "EnqueueMessage seq push data now q s = (r, q1, s1)"
      using step OpEnqueue by (cases "EnqueueMessage seq push data now q s") auto
    then show ?thesis
      using enqueue_gap [OF _ enq] enqueue_keeps [OF enq] Cons.prems(3) OpEnqueue by auto
  next
    case (OpRound now)
    then have "cleanupLoop_round now q s = (q1, s1)" using step by simp
    then show ?thesis using round_log [OF Cons.prems(1,2)] by blast
  qed (use step Cons.prems in \<open>auto simp: oq_AckMessagesUpTo_def oq_Stop_def Let_def split: if_splits\<close>)
  then show ?case using Cons.IH [OF inv] Cons.prems step by auto
qed simp

section \<open>Resynchronisation\<close>

text \<open>
  A resynchronisation may move the expected number forward, never back; as long as no number is
  the last of \<open>uint64\<close>, the log stays strictly increasing.
\<close>

definition log_below :: "('w \<times> u64 list) oqueue \<Rightarrow> u64 list \<Rightarrow> bool" where
  "log_below q l \<longleftrightarrow> sorted_wrt (<) l \<and> (\<forall>x \<in> set l. x < nextExpectedSeq q) \<and>
     (\<forall>m \<in> set (waitingQueue q). ServerSeq m \<noteq> - 1) \<and> waiting_ok (waitingQueue q)"

fun op_bounded :: "queue_op \<Rightarrow> bool" where
  "op_bounded (OpEnqueue seq push data now) = (seq \<noteq> - 1)"
| "op_bounded (OpResync a) = (a \<noteq> - 1)"
| "op_bounded _ = True"

lemma word_less_Suc: "(x :: u64) \<noteq> - 1 \<Longrightarrow> x < x + 1"
  using inc_less_eq_triv_imp [of x] not_less by blast

lemma log_below_send:
  assumes "log_below q l" "ServerSeq m = nextExpectedSeq q" "ServerSeq m \<noteq> - 1"
    "set rest \<subseteq> set (waitingQueue q)" "waiting_ok rest"
  shows "log_below (mark_sent m (q\<lparr>waitingQueue := rest\<rparr>)) (l @ [ServerSeq m])"
proof -
  have lt: "ServerSeq m < ServerSeq m + 1" using assms(3) by (rule word_less_Suc)
  have "\<forall>x \<in> set l. x < ServerSeq m" using assms(1,2) by (simp add: log_below_def)
  then have "sorted_wrt (<) (l @ [ServerSeq m])" "\<forall>x \<in> set (l @ [ServerSeq m]). x < ServerSeq m + 1"
    using assms(1) lt by (auto simp: log_below_def sorted_wrt_append intro: less_trans)
  then show ?thesis using assms by (auto simp: log_below_def)
qed

lemma log_below_process:
  assumes cb: "sendCallback q = Some (log_cb cb)" and b: "log_below q (snd s)"
    and res: "processWaitingMessages q s = (q', s')"
  shows "log_below q' (snd s')"
proof -
  let ?P = "\<lambda>q s. sendCallback q = Some (log_cb cb) \<and> log_below q (snd s)"
  have "?P q' s'"
  proof (rule processWaitingMessages_rule [where P = ?P, OF _ _ _ res])
    show "?P q s" using assms by simp
  next
    fix q s m rest s1
    assume P: "?P q s" and pop: "mq_Pop (waitingQueue q) = Some (m, rest)"
      and seq: "ServerSeq m = nextExpectedSeq q" and send: "oq_sendMessageDirectly q s m = (s1, None)"
    have w: "waiting_ok rest" "\<not> Sent m"
      using P waiting_ok_Pop [OF _ pop] by (simp_all add: log_below_def)
    have l: "snd s1 = snd s @ [ServerSeq m]" using send_log [OF _ send] P w by simp
    have "ServerSeq m \<noteq> - 1" "set rest \<subseteq> set (waitingQueue q)"
      using P mq_Pop_facts [OF pop] by (auto simp: log_below_def)
    then show "?P (mark_sent m (q\<lparr>waitingQueue := rest\<rparr>)) s1"
      unfolding l using P w(1) seq log_below_send [of q "snd s" m rest] by simp
  next
    fix q s m rest s1 e
    assume P: "?P q s" and pop: "mq_Pop (waitingQueue q) = Some (m, rest)"
      and send: "oq_sendMessageDirectly q s m = (s1, Some e)"
    have w: "waiting_ok rest" "\<not> Sent m" "Retries m = 0"
      using P waiting_ok_Pop [OF _ pop] by (simp_all add: log_below_def)
    have "snd s1 = snd s" using send_log [OF _ send] P by simp
    then show "?P (q\<lparr>waitingQueue := mq_Push m rest\<rparr>) s1"
      using P w mq_Pop_facts [OF pop] by (auto simp: waiting_ok_Push log_below_def)
  qed
  then show ?thesis by simp
qed

lemma resync_facts:
  shows "nextExpectedSeq (ResyncSequence a q) = (if nextExpectedSeq q \<le> a then a + 1 else nextExpectedSeq q)"
    "set (waitingQueue (ResyncSequence a q)) \<subseteq> set (waitingQueue q)"
    "sendCallback (ResyncSequence a q) = sendCallback q"
  by (auto simp: ResyncSequence_def Let_def)

lemma log_below_step:
  assumes inv: "oq_inv q" and cb: "sendCallback q = Some (log_cb cb)" and b: "log_below q (snd s)"
    and x: "op_bounded x" and step: "queue_step x (q, s) = (q', s')"
  shows "log_below q' (snd s') \<and> sendCallback q' = Some (log_cb cb)"
proof (cases x)
  case (OpEnqueue seq push data now)
  obtain r where enq: "EnqueueMessage seq push data now q s = (r, q', s')"
    using step OpEnqueue by (cases "EnqueueMessage seq push data now q s") auto
  have "log_below q' (snd s')"
    using enq
  proof (cases rule: Enqueue_cases)
    case (failed e w1 m)
    then show ?thesis using send_log [OF cb failed(5)] b by simp
  next
    case (sent s1 m)
    have l: "snd s1 = snd s @ [ServerSeq m]" using send_log [OF cb sent(6)] sent by simp
    have "log_below (mark_sent m q) (snd s1)"
      unfolding l using log_below_send [OF b, of m "waitingQueue q"] b sent x OpEnqueue
      by (auto simp: log_below_def)
    then show ?thesis using log_below_process [OF _ _ sent(7)] cb by simp
  qed (use b x OpEnqueue in \<open>auto simp: log_below_def waiting_ok_Push\<close>)
  then show ?thesis using enqueue_keeps [OF enq] cb by simp
next
  case (OpResync a)
  then have q': "q' = ResyncSequence a q" "s' = s" using step by auto
  have "nextExpectedSeq q \<le> nextExpectedSeq q'"
    using resync_facts(1) [of a q] x OpResync q' word_less_Suc [of a] by auto
  moreover have "waiting_ok (waitingQueue q')" using oq_inv_Resync [OF inv] q' by (simp add: oq_inv_def)
  ultimately show ?thesis
    using b q' cb resync_facts(2,3) [of a q] by (fastforce simp: log_below_def)
next
  case (OpRound now)
  then have rnd: "cleanupLoop_round now q s = (q', s')" using step by simp
  note r = round_log [OF inv cb rnd]
  have "waiting_ok (waitingQueue q')" using oq_inv_round [OF inv, of now s] rnd by (simp add: oq_inv_def)
  then show ?thesis using r b cb by (auto simp: log_below_def)
qed (use step b cb in \<open>auto simp: oq_AckMessagesUpTo_def oq_Stop_def Let_def log_below_def split: if_splits\<close>)

lemma log_below_run:
  assumes "oq_inv q" "sendCallback q = Some (log_cb cb)" "log_below q (snd s)"
    "\<forall>x \<in> set xs. op_bounded x" "queue_run xs (q, s) = (q', s')"
  shows "log_below q' (snd s')"
  using assms
proof (induction xs arbitrary: q s)
  case (Cons x xs)
  obtain q1 s1 where step: "queue_step x (q, s) = (q1, s1)" by (metis surj_pair)
  have "oq_inv q1" using oq_inv_step [of "(q, s)" x] Cons.prems(1) step by simp
  then show ?case
    using Cons.IH [of q1 s1] log_below_step [OF Cons.prems(1-3) _ step] Cons.prems step by auto
qed simp

section \<open>Properties\<close>

text \<open>C1. Whatever the interleaving of enqueues, acknowledgements, retry rounds and stops, and whichever
  sends fail, the messages reach the stream for the first time in the order 1, 2, 3, ... without a
  gap and without a duplicate, and the expected number is the one after the last sent. \<close>

theorem delivery_in_order:
  assumes "0 \<le> maxq" "\<forall>x \<in> set xs. \<not> is_resync x"
    "queue_run xs (fresh_queue sid maxq cb, (w, [])) = (q', (w', log))"
  shows "log = consec 1 (length log) \<and> nextExpectedSeq q' = 1 + of_nat (length log)"
proof -
  have "advances (fresh_queue sid maxq cb) [] q' log"
    using run_advances [OF _ _ assms(2,3)] assms(1) by simp
  then obtain k where "log = consec 1 k" "nextExpectedSeq q' = 1 + of_nat k"
    by (auto simp: advances_def)
  then show ?thesis by simp
qed

text \<open>With resynchronisations as well (no number being the last of uint64), the numbers still
  reach the stream in strictly increasing order: no message is sent anew after a later one. \<close>

theorem delivery_increasing:
  assumes "0 \<le> maxq" "\<forall>x \<in> set xs. op_bounded x"
    "queue_run xs (fresh_queue sid maxq cb, (w, [])) = (q', (w', log))"
  shows "sorted_wrt (<) log \<and> (\<forall>s \<in> set log. s < nextExpectedSeq q')"
proof -
  have "log_below q' (snd (w', log))"
    using assms by (intro log_below_run [OF _ _ _ assms(2,3)]) (auto simp: log_below_def)
  then show ?thesis by (simp add: log_below_def)
qed

text \<open>C2. Delivery is complete: when no send fails and a burst of messages with distinct nonzero numbers, at
  most as many as the queue has places (and fewer than 2 to the 64th less one), arrives in any order at a
  new queue, then exactly the longest gap-free stretch from 1 has been sent, in order, and the others wait.
  Without the bound it is false: see C36. \<close>

theorem delivery_complete:
  assumes "never_fails cb" "distinct (map fst xs)" "0 \<notin> set (map fst xs)"
    "length xs < 2 ^ 64 - 1" "int (length xs) \<le> maxq"
    "queue_run (enqueue_ops xs) (fresh_queue sid maxq cb, (w, [])) = (q', (w', log))"
  shows "log = prefix_from 1 (map fst xs) \<and>
    ServerSeq ` set (waitingQueue q') = set (map fst xs) - set log"
proof -
  have pos: "\<forall>s \<in> set (map fst xs). 1 \<le> s"
    using assms(3) by (metis word_gt_0 inc_le add_0)
  have d: "delivered 1 (map fst xs) q' log" "\<not> top_is_next q'" "oq_inv q'"
    using enqueue_run_delivered [OF assms(1,2) pos assms(4-6)] by simp_all
  have "log = prefix_from 1 (map fst xs)"
    using d pos assms(2,4) by (intro delivered_prefix(1) [OF d(1)]) (auto simp: oq_inv_def)
  moreover have "ServerSeq ` set (waitingQueue q') = set (map fst xs) - set log"
    using delivered_set [OF d(1)] delivered_disjoint [OF d(1) assms(2)] by blast
  ultimately show ?thesis by simp
qed

text \<open>The queue sorts: if the numbers enqueued are a permutation of 1 to k, the stream gets the
  messages 1 to k in order, whatever the order of arrival. \<close>

theorem delivery_sorts:
  assumes "never_fails cb" "mset (map fst xs) = mset (consec 1 k)"
    "k < 2 ^ 64 - 1" "int k \<le> maxq"
    "queue_run (enqueue_ops xs) (fresh_queue sid maxq cb, (w, [])) = (q', (w', log))"
  shows "log = consec 1 k \<and> waitingQueue q' = []"
proof -
  have len: "length xs = k" using assms(2) by (metis length_consec length_map size_mset)
  have un: "unat (1 :: u64) + k < 2 ^ 64" using assms(3) by simp
  have s: "set (map fst xs) = set (consec 1 k)" using assms(2) by (metis set_mset_mset)
  have dist: "distinct (map fst xs)"
    using assms(2) distinct_consec [OF un] by (metis mset_eq_imp_distinct_iff)
  have pos: "\<forall>s \<in> set (map fst xs). 1 \<le> s" using s in_consec [OF un] by auto
  have d: "delivered 1 (map fst xs) q' log" "\<not> top_is_next q'" "oq_inv q'"
    using enqueue_run_delivered [OF assms(1) dist pos _ _ assms(5)] assms(3,4) len by simp_all
  have "log = prefix_from 1 (map fst xs)"
    using d pos dist assms(3) len by (intro delivered_prefix(1) [OF d(1)]) (auto simp: oq_inv_def)
  moreover have "prefix_from 1 (map fst xs) = consec 1 k"
    using s next_notin_consec(1) [OF un] len assms(3) by (intro prefix_from_unique) auto
  ultimately have "log = consec 1 k" by simp
  moreover have "length (waitingQueue q') = 0"
    using delivered_length [OF d(1)] len calculation by simp
  ultimately show ?thesis by simp
qed

text \<open>A gap stops the queue for good: if the message with the expected number is never offered again (the session never reuses the number of a message whose send failed),
  nothing is sent any more, whatever arrives, until a resynchronisation. \<close>

theorem gap_stops_queue:
  assumes "oq_inv q" "sendCallback q = Some (log_cb cb)"
    "\<forall>x \<in> set xs. \<not> offers (nextExpectedSeq q) x" "queue_run xs (q, (w, log)) = (q', (w', log'))"
  shows "log' = log \<and> nextExpectedSeq q' = nextExpectedSeq q"
  using run_gap [OF assms] by simp

text \<open>Operations before the time \<open>t\<close>, resynchronisations excepted.\<close>

fun early :: "time \<Rightarrow> queue_op \<Rightarrow> bool" where
  "early t (OpResync a) = False"
| "early t (OpRound now) = (now \<le> t)"
| "early t _ = True"

definition clogged :: "time \<Rightarrow> 'w oqueue \<Rightarrow> bool" where
  "clogged t q \<longleftrightarrow> stopped q \<or>
     maxQueueSize q \<le> int (length (waitingQueue q)) \<and> (\<forall>m \<in> set (waitingQueue q). t - Timestamp m \<le> MessageTimeout)"

lemma clogged_round:
  assumes "clogged t q" "now \<le> t" "cleanupLoop_round now q s = (q', s')"
  shows "clogged t q'"
proof -
  have "filter (\<lambda>m. now - Timestamp m \<le> MessageTimeout) (waitingQueue q) = waitingQueue q"
    if "\<forall>m \<in> set (waitingQueue q). t - Timestamp m \<le> MessageTimeout"
    using that assms(2) by (force simp: filter_id_conv)
  then show ?thesis
    using assms(1,3)
    by (auto simp: clogged_def cleanupLoop_round_def retryTimedOutMessages_def cleanupExpiredMessages_def
        split: prod.splits if_splits)
qed

lemma run_clogged:
  assumes "oq_inv q" "sendCallback q = Some (log_cb cb)" "clogged t q" "\<forall>x \<in> set xs. early t x"
    "queue_run xs (q, s) = (q', s')"
  shows "snd s' = snd s \<and> nextExpectedSeq q' = nextExpectedSeq q \<and> clogged t q'"
  using assms
proof (induction xs arbitrary: q s)
  case (Cons x xs)
  obtain q1 s1 where step: "queue_step x (q, s) = (q1, s1)" by (metis surj_pair)
  have inv: "oq_inv q1" using oq_inv_step [of "(q, s)" x] Cons.prems(1) step by simp
  have "snd s1 = snd s \<and> nextExpectedSeq q1 = nextExpectedSeq q \<and> sendCallback q1 = sendCallback q \<and> clogged t q1"
  proof (cases x)
    case (OpEnqueue seq push data now)
    then show ?thesis using step Cons.prems(3) by (auto simp: clogged_def EnqueueMessage_def split: if_splits)
  next
    case (OpRound now)
    then have c: "cleanupLoop_round now q s = (q1, s1)" "now \<le> t" using step Cons.prems(4) by simp_all
    show ?thesis using round_log [OF Cons.prems(1,2) c(1)] clogged_round [OF Cons.prems(3) c(2,1)] by simp
  qed (use step Cons.prems in \<open>auto simp: clogged_def oq_AckMessagesUpTo_def oq_Stop_def Let_def split: if_splits\<close>)
  then show ?case using Cons.IH [OF inv] Cons.prems step by auto
qed simp

text \<open>C36. A full queue is stuck: as long as no waiting message is older than the message timeout and no
  resynchronisation comes, every message is refused, the one with the expected number included, although it would
  let the waiting ones go; whatever is enqueued, acknowledged or resent, nothing is sent for the first time. \<close>

theorem full_queue_stalls:
  assumes "oq_inv q" "sendCallback q = Some (log_cb cb)" "maxQueueSize q \<le> int (length (waitingQueue q))"
    "\<forall>m \<in> set (waitingQueue q). t - Timestamp m \<le> MessageTimeout" "\<forall>x \<in> set xs. early t x"
    "queue_run xs (q, (w, log)) = (q', (w', log'))"
  shows "log' = log \<and> nextExpectedSeq q' = nextExpectedSeq q \<and>
    fst (EnqueueMessage seq push data now q' (w', log')) \<noteq> None \<and>
    (stopped q \<or> EnqueueMessage (nextExpectedSeq q) push data now q (w, log) = (Some (ErrQueueFull (maxQueueSize q)), q, (w, log)))"
proof -
  have "clogged t q" using assms(3,4) by (simp add: clogged_def)
  from run_clogged [OF assms(1,2) this assms(5,6)] have r: "log' = log" "nextExpectedSeq q' = nextExpectedSeq q" "clogged t q'"
    by simp_all
  have "fst (EnqueueMessage seq push data now q' (w', log')) \<noteq> None"
    using r(3) by (auto simp: clogged_def EnqueueMessage_def)
  moreover have "stopped q \<or> EnqueueMessage (nextExpectedSeq q) push data now q (w, log) =
      (Some (ErrQueueFull (maxQueueSize q)), q, (w, log))"
    using assms(3) by (simp add: EnqueueMessage_def)
  ultimately show ?thesis using r by simp
qed

text \<open>C11. Every operation sequence keeps the invariant of the queue: the waiting messages form a
  min-heap of at most maxQueueSize unsent messages, the sent ones are keyed by their numbers and
  have been retried at most three times, a stopped queue is empty with its ticker stopped. \<close>

theorem queue_invariant:
  assumes "0 \<le> maxq" "queue_run xs (SetSendCallback cb (NewOrderedMessageQueue sid maxq), w) = (q', w')"
  shows "oq_inv q'"
  using assms oq_inv_New [of maxq sid] oq_inv_run [of "(SetSendCallback cb (NewOrderedMessageQueue sid maxq), w)" xs]
  by (simp add: SetSendCallback_def oq_inv_def)

text \<open>An acknowledgement removes exactly the messages up to its number, returns how many it
  removed, and never moves lastAckedSeq back. \<close>

theorem ack_exact:
  assumes "oq_inv q" "oq_AckMessagesUpTo ack q = (n, q')"
  shows "(\<forall>k. gm_get (sentMessages q') k = (if k \<le> ack then None else gm_get (sentMessages q) k)) \<and>
    n = int (card {k \<in> fst ` set (sentMessages q). k \<le> ack}) \<and>
    n = oq_GetPendingCount q - oq_GetPendingCount q' \<and>
    lastAckedSeq q' = max (lastAckedSeq q) ack \<and>
    waitingQueue q' = waitingQueue q \<and> nextExpectedSeq q' = nextExpectedSeq q"
proof (intro conjI allI)
  have ok: "gm_ok (sentMessages q)" using assms(1) by (simp add: oq_inv_def sent_ok_def)
  have q': "snd (oq_AckMessagesUpTo ack q) = q'" "fst (oq_AckMessagesUpTo ack q) = n"
    using assms(2) by simp_all
  have sent: "sentMessages q' = gm_drop (\<lambda>(k, _). k \<le> ack) (sentMessages q)"
    unfolding q'(1) [symmetric] by (simp add: oq_AckMessagesUpTo_def Let_def)
  then show "gm_get (sentMessages q') k = (if k \<le> ack then None else gm_get (sentMessages q) k)" for k
    using gm_get_drop [OF ok, of _ k] by (simp split: option.split)
  let ?es = "filter (\<lambda>(k, _). k \<le> ack) (sentMessages q)"
  have n: "n = int (length ?es)" unfolding q'(2) [symmetric] by (simp add: oq_AckMessagesUpTo_def Let_def)
  have "distinct (map fst ?es)"
    using ok unfolding gm_ok_def by (rule distinct_map_filter)
  then have "card (set (map fst ?es)) = length ?es" by (simp only: distinct_card length_map)
  moreover have "fst ` set ?es = {k \<in> fst ` set (sentMessages q). k \<le> ack}" by force
  ultimately show "n = int (card {k \<in> fst ` set (sentMessages q). k \<le> ack})" using n by (simp only: set_map)
  show "n = oq_GetPendingCount q - oq_GetPendingCount q'"
    using n sent gm_len_drop [of "\<lambda>(k, _). k \<le> ack" "sentMessages q"]
    by (simp add: oq_GetPendingCount_def)
  show "lastAckedSeq q' = max (lastAckedSeq q) ack"
    unfolding q'(1) [symmetric] by (auto simp: oq_AckMessagesUpTo_def Let_def max_def)
  show "waitingQueue q' = waitingQueue q" "nextExpectedSeq q' = nextExpectedSeq q"
    unfolding q'(1) [symmetric] by (simp_all add: oq_AckMessagesUpTo_def Let_def)
qed

section \<open>Witnesses\<close>

definition push0 :: server_push where
  "push0 = \<lparr>sp_MsgId = 0, sp_SeqId = 0, sp_Type = PUSH_BUSINESS_DATA, sp_Payload = [], sp_Headers = []\<rparr>"

definition burst :: "(u64 \<times> server_push \<times> bytes \<times> time) list" where
  "burst = [(2, push0, [], 5), (4, push0, [], 6), (1, push0, [], 7)]"

definition good_cb :: "unit \<Rightarrow> omsg \<Rightarrow> unit \<times> err option" where
  "good_cb w m = (w, None)"

definition bad_cb :: "unit \<Rightarrow> omsg \<Rightarrow> unit \<times> err option" where
  "bad_cb w m = (w, if ServerSeq m = 1 then Some ErrStreamNil else None)"

definition run_log :: "queue_op list \<Rightarrow> (unit \<Rightarrow> omsg \<Rightarrow> unit \<times> err option) \<Rightarrow> u64 list" where
  "run_log xs cb = snd (snd (queue_run xs (fresh_queue ''s'' 3 cb, ((), []))))"

abbreviation run0 :: "queue_op list \<Rightarrow> (unit \<Rightarrow> omsg \<Rightarrow> unit \<times> err option) \<Rightarrow>
    (unit \<times> u64 list) oqueue \<times> unit \<times> u64 list" where
  "run0 xs cb \<equiv> queue_run xs (fresh_queue ''s'' 3 cb, ((), []))"

definition retry_ops :: "queue_op list" where
  "retry_ops = enqueue_ops burst @ [OpRound 20000000000, OpAck 1, OpEnqueue 3 push0 [] 20000000000, OpStop]"

theorem delivery_in_order_witness:
  "run_log retry_ops good_cb = consec 1 4 \<and> length (run_log retry_ops good_cb) = 4"
proof -
  obtain q' w' log where r: "run0 retry_ops good_cb = (q', (w', log))" by (metis surj_pair)
  have "log = consec 1 (length log)"
    using delivery_in_order [OF _ _ r] by (simp add: retry_ops_def enqueue_ops_def burst_def)
  moreover have "length (run_log retry_ops good_cb) = 4" by code_simp
  ultimately show ?thesis using r by (simp add: run_log_def)
qed

definition resync_ops :: "queue_op list" where
  "resync_ops = enqueue_ops burst @ [OpResync 4, OpEnqueue 5 push0 [] 9]"

theorem delivery_increasing_witness:
  "sorted_wrt (<) (run_log resync_ops good_cb) \<and> run_log resync_ops good_cb = [1, 2, 5]"
proof -
  obtain q' w' log where r: "run0 resync_ops good_cb = (q', (w', log))" by (metis surj_pair)
  have "sorted_wrt (<) log"
    using delivery_increasing [OF _ _ r] by (simp add: resync_ops_def enqueue_ops_def burst_def)
  moreover have "run_log resync_ops good_cb = [1, 2, 5]" by code_simp
  ultimately show ?thesis using r by (simp add: run_log_def)
qed

theorem delivery_complete_witness:
  "run_log (enqueue_ops burst) good_cb = prefix_from 1 [2, 4, 1] \<and> prefix_from 1 [2, 4, 1] = [1, 2]"
proof -
  obtain q' w' log where r: "run0 (enqueue_ops burst) good_cb = (q', (w', log))" by (metis surj_pair)
  have "never_fails good_cb" by (simp add: never_fails_def good_cb_def)
  then have "log = prefix_from 1 [2, 4, 1]"
    using delivery_complete [OF _ _ _ _ _ r] by (simp add: burst_def)
  moreover have "prefix_from 1 [2, 4, 1] = [1, 2]" by code_simp
  ultimately show ?thesis using r by (simp add: run_log_def)
qed

definition burst3 :: "(u64 \<times> server_push \<times> bytes \<times> time) list" where
  "burst3 = [(3, push0, [], 5), (2, push0, [], 6), (1, push0, [], 7)]"

theorem delivery_sorts_witness: "run_log (enqueue_ops burst3) good_cb = consec 1 3"
proof -
  obtain q' w' log where r: "run0 (enqueue_ops burst3) good_cb = (q', (w', log))" by (metis surj_pair)
  have "never_fails good_cb" by (simp add: never_fails_def good_cb_def)
  moreover have "mset (map fst burst3) = mset (consec 1 3)" by (simp add: burst3_def consec_def upt_rec)
  ultimately have "log = consec 1 3"
    using delivery_sorts [OF _ _ _ _ r, of 3] by simp
  then show ?thesis using r by (simp add: run_log_def)
qed

text \<open>The first send fails; numbers 2 and 3 then wait for ever.\<close>

theorem gap_stops_queue_witness:
  "run_log [OpEnqueue 1 push0 [] 5, OpEnqueue 2 push0 [] 6, OpRound 9, OpEnqueue 3 push0 [] 7] bad_cb = []"
proof -
  let ?q = "fst (run0 [OpEnqueue 1 push0 [] 5] bad_cb)"
  let ?rest = "[OpEnqueue 2 push0 [] 6, OpRound 9, OpEnqueue 3 push0 [] 7]"
  obtain w log where s: "snd (run0 [OpEnqueue 1 push0 [] 5] bad_cb) = (w, log)" by (metis surj_pair)
  have log: "log = []" using s by (simp add: EnqueueMessage_def fresh_queue_def SetSendCallback_def
        NewOrderedMessageQueue_def oq_sendMessageDirectly_def log_cb_def bad_cb_def)
  have q: "?q = fresh_queue ''s'' 3 bad_cb"
    by (simp add: EnqueueMessage_def fresh_queue_def SetSendCallback_def
        NewOrderedMessageQueue_def oq_sendMessageDirectly_def log_cb_def bad_cb_def)
  obtain q' w' log' where r: "queue_run ?rest (?q, (w, log)) = (q', (w', log'))" by (metis surj_pair)
  have "log' = log"
    using gap_stops_queue [OF _ _ _ r] unfolding q by simp
  moreover have "run0 ([OpEnqueue 1 push0 [] 5] @ ?rest) bad_cb = (q', (w', log'))"
    unfolding queue_run_append using r s by (metis prod.collapse)
  ultimately show ?thesis using log by (simp add: run_log_def)
qed

text \<open>The messages 2, 3 and 4 fill the queue of three; then message 1 comes, in time but too late.\<close>

theorem full_queue_stalls_witness:
  "run_log [OpEnqueue 2 push0 [] 5, OpEnqueue 3 push0 [] 6, OpEnqueue 4 push0 [] 7, OpEnqueue 1 push0 [] 8, OpRound 9] good_cb = []"
proof -
  let ?fill = "[OpEnqueue 2 push0 [] 5, OpEnqueue 3 push0 [] 6, OpEnqueue 4 push0 [] 7]"
  let ?q = "fst (run0 ?fill good_cb)"
  have f: "snd (run0 ?fill good_cb) = ((), []) \<and> maxQueueSize ?q \<le> int (length (waitingQueue ?q)) \<and>
    (\<forall>m \<in> set (waitingQueue ?q). 9 - Timestamp m \<le> MessageTimeout)" by code_simp
  have keep: "sendCallback (fst (queue_step (OpEnqueue n p d u) x)) = sendCallback (fst x)"
    for n p d u and x :: "'w oqueue \<times> 'w"
    using enqueue_keeps [of n p d u "fst x" "snd x"] by (cases x) (metis prod.collapse fst_conv snd_conv queue_step.simps(1))
  have cb: "sendCallback ?q = Some (log_cb good_cb)"
    unfolding queue_run.simps keep by (simp add: fresh_queue_def SetSendCallback_def)
  have inv: "oq_inv ?q"
    using oq_inv_run [of "(fresh_queue ''s'' 3 good_cb, ((), []))" ?fill] oq_inv_New [of 3 "''s''"]
    by (simp del: queue_run.simps add: fresh_queue_def SetSendCallback_def oq_inv_def)
  obtain q' w' log' where r: "queue_run [OpEnqueue 1 push0 [] 8, OpRound 9] (?q, ((), [])) = (q', (w', log'))"
    by (metis surj_pair)
  have "log' = []"
    using full_queue_stalls [OF inv cb _ _ _ r, of 9] f by simp
  moreover have "run0 (?fill @ [OpEnqueue 1 push0 [] 8, OpRound 9]) good_cb = (q', (w', log'))"
    unfolding queue_run_append using r f by (metis prod.collapse)
  ultimately show ?thesis by (simp add: run_log_def)
qed

theorem queue_invariant_witness: "oq_inv (fst (run0 retry_ops good_cb))"
  using queue_invariant [of 3 retry_ops "Some (log_cb good_cb)" "''s''" "((), [])"]
  by (metis fresh_queue_def prod.collapse zero_le_numeral)

theorem ack_exact_witness:
  "fst (oq_AckMessagesUpTo 1 (fst (run0 (enqueue_ops burst) good_cb))) = 1"
proof -
  let ?q = "fst (run0 (enqueue_ops burst) good_cb)"
  obtain n q' where a: "oq_AckMessagesUpTo 1 ?q = (n, q')" by (metis surj_pair)
  have "oq_inv ?q"
    by (intro oq_inv_run) simp
  then have "n = int (card {k \<in> fst ` set (sentMessages ?q). k \<le> 1})"
    using ack_exact [OF _ a] by simp
  moreover have "map fst (sentMessages ?q) = [1, 2]" by code_simp
  then have "fst ` set (sentMessages ?q) = {1, 2}" by (metis list.simps(15) set_map empty_set)
  moreover have "{k \<in> {1, 2 :: u64}. k \<le> 1} = {1}" by (auto simp: word_le_nat_alt)
  ultimately show ?thesis using a by simp
qed

end
