(* ===== verification/Manager_Index.thy ===== *)
theory Manager_Index
  imports Session_Manager Queue_Order
begin

text \<open>
  The invariant of the session manager and its indices: every operation, from any reachable state,
  keeps it (\<open>mgr_step\<close>, \<open>mgr_reach\<close>); what creation, reconnection, binding, removal and expiry do to
  the indices.
\<close>

section \<open>Well-formed sessions\<close>

text \<open>What a send callback may do to the session: write to the transport and count.\<close>

definition cb_ok :: "('x link \<Rightarrow> omsg \<Rightarrow> 'x link \<times> err option) \<Rightarrow> bool" where
  "cb_ok cb \<longleftrightarrow> (\<forall>l m. lk_closed (fst (cb l m)) = lk_closed l \<and>
     (lk_transport (fst (cb l m)) = None) = (lk_transport l = None))"

definition queue_ok :: "'x link oqueue \<Rightarrow> bool" where
  "queue_ok q \<longleftrightarrow> oq_inv q \<and> (\<forall>cb. sendCallback q = Some cb \<longrightarrow> cb_ok cb)"

definition sess_ok :: "'x session \<Rightarrow> bool" where
  "sess_ok s \<longleftrightarrow>
     (\<exists>q. s_orderedQueue s = Some q \<and> queue_ok q \<and> (stopped q \<longrightarrow> s_closed s)) \<and>
     (\<exists>o'. s_orderingManager s = Some o' \<and> ordering_ok o') \<and>
     s_transport s \<noteq> None \<and> s_state s \<noteq> SessionClosed"

definition link_same :: "'x link \<Rightarrow> 'x link \<Rightarrow> bool" where
  "link_same l l' \<longleftrightarrow> lk_closed l' = lk_closed l \<and> (lk_transport l' = None) = (lk_transport l = None)"

lemma link_same_refl [simp]: "link_same l l"
  by (simp add: link_same_def)

lemma link_same_trans: "link_same l l1 \<Longrightarrow> link_same l1 l2 \<Longrightarrow> link_same l l2"
  by (simp add: link_same_def)

lemma send_link_same:
  assumes "queue_ok q" "oq_sendMessageDirectly q l m = (l', r)"
  shows "link_same l l'"
proof (cases "sendCallback q")
  case (Some cb)
  then have "cb l m = (l', r)" "cb_ok cb"
    using assms by (simp_all add: oq_sendMessageDirectly_def queue_ok_def)
  then show ?thesis unfolding cb_ok_def link_same_def by (metis fst_conv)
qed (use assms in \<open>simp add: oq_sendMessageDirectly_def\<close>)

lemma process_link_same:
  assumes "queue_ok q" "processWaitingMessages q l = (q', l')"
  shows "link_same l l'"
proof -
  let ?P = "\<lambda>p l1. sendCallback p = sendCallback q \<and> link_same l l1"
  have send: "link_same l l2" if "?P p l1" "oq_sendMessageDirectly p l1 m = (l2, r)" for p l1 l2 m r
  proof -
    have "oq_sendMessageDirectly q l1 m = (l2, r)" using that by (simp add: oq_sendMessageDirectly_def)
    then show ?thesis using that(1) send_link_same [OF assms(1)] link_same_trans by blast
  qed
  have "?P q' l'"
    by (rule processWaitingMessages_rule [where P = ?P, OF _ _ _ assms(2)]) (use send in force)+
  then show ?thesis by simp
qed

lemma enqueue_link_same:
  assumes "queue_ok q" "EnqueueMessage seq push data now q l = (r, q', l')"
  shows "link_same l l' \<and> queue_ok q' \<and> stopped q' = stopped q"
proof -
  have k: "sendCallback q' = sendCallback q" "stopped q' = stopped q"
    using enqueue_keeps [OF assms(2)] by simp_all
  have "oq_inv q'" using oq_inv_Enqueue [OF _ assms(2)] assms(1) by (simp add: queue_ok_def)
  then have "queue_ok q'" using k assms(1) by (simp add: queue_ok_def)
  moreover have "link_same l l'"
    using assms(2)
  proof (cases rule: Enqueue_cases)
    case (failed e l1 m)
    then show ?thesis using send_link_same [OF assms(1) failed(5)] by simp
  next
    case (sent l1 m)
    have "queue_ok (mark_sent m q)"
      using assms(1) oq_inv_mark_sent [of q m] sent by (simp add: queue_ok_def)
    then show ?thesis
      using process_link_same [OF _ sent(7)] send_link_same [OF assms(1) sent(6)] link_same_trans by blast
  qed simp_all
  ultimately show ?thesis using k by simp
qed

lemma retry_link_same:
  assumes "\<forall>f. cb = Some f \<longrightarrow> cb_ok f" "retry_entries now cb es l = (es', l')"
  shows "link_same l l'"
  using assms(2)
proof (induction es arbitrary: l es' l')
  case (Cons x es)
  obtain k m where x: "x = (k, m)" by (metis surj_pair)
  obtain m1 l1 where one: "retry_one now cb m l = (m1, l1)" by (metis surj_pair)
  obtain es2 l2 where rest: "retry_entries now cb es l1 = (es2, l2)" by (metis surj_pair)
  have "link_same l l1"
  proof (cases cb)
    case (Some f)
    then have "cb_ok f" using assms(1) by simp
    then have "link_same l (fst (f l m))" by (simp add: cb_ok_def link_same_def)
    then show ?thesis
      using one Some by (auto simp: retry_one_def split: if_splits prod.splits option.splits)
  qed (use one in \<open>auto simp: retry_one_def split: if_splits\<close>)
  then show ?case using Cons.IH [OF rest] Cons.prems link_same_trans by (auto simp: x one rest)
qed simp

lemma round_link_same:
  assumes "queue_ok q" "cleanupLoop_round now q l = (q', l')"
  shows "link_same l l' \<and> queue_ok q' \<and> stopped q' = stopped q"
proof -
  let ?c = "cleanupExpiredMessages now q"
  obtain es l2 where r: "retry_entries now (sendCallback q) (sentMessages ?c) l = (es, l2)"
    by (metis surj_pair)
  have cb: "\<forall>f. sendCallback q = Some f \<longrightarrow> cb_ok f" using assms(1) by (simp add: queue_ok_def)
  have "link_same l l2" using retry_link_same [OF cb r] .
  moreover have "oq_inv q'" using oq_inv_round [of q now l] assms by (simp add: queue_ok_def)
  moreover have "sendCallback ?c = sendCallback q" by (simp add: cleanupExpiredMessages_def)
  ultimately show ?thesis
    using assms r cb
    by (auto simp: cleanupLoop_round_def retryTimedOutMessages_def queue_ok_def
        cleanupExpiredMessages_def split: if_splits prod.splits)
qed

section \<open>The operations of a session keep it well-formed\<close>

text \<open>
  A session keeps its identifier, once activated it stays activated, once marked closed it stays
  closed.
\<close>

definition mono_sess :: "'x session \<Rightarrow> 'x session \<Rightarrow> bool" where
  "mono_sess s s' \<longleftrightarrow> s_ID s' = s_ID s \<and>
     (s_state s = SessionNormal \<longrightarrow> s_state s' = SessionNormal) \<and> (s_closed s \<longrightarrow> s_closed s')"

lemma mono_sess_refl [simp]: "mono_sess s s"
  by (simp add: mono_sess_def)

lemma mono_sess_trans: "mono_sess s s1 \<Longrightarrow> mono_sess s1 s2 \<Longrightarrow> mono_sess s s2"
  by (simp add: mono_sess_def)

definition keeps :: "('x session \<Rightarrow> 'x session) \<Rightarrow> bool" where
  "keeps f \<longleftrightarrow> (\<forall>s. sess_ok s \<longrightarrow> sess_ok (f s) \<and> mono_sess s (f s))"

lemma keeps_Close: "keeps (session_Close e)"
  by (auto simp: keeps_def mono_sess_def session_Close_def sess_ok_def queue_ok_def oq_inv_Stop)
    (simp add: oq_Stop_def split: if_splits)

lemma keeps_SetClosed: "keeps (\<lambda>s. snd (SetClosed s))"
  by (auto simp: keeps_def mono_sess_def SetClosed_def sess_ok_def)

lemma keeps_Activate: "keeps (\<lambda>s. snd (session_ActivateSession z s))"
  by (auto simp: keeps_def mono_sess_def session_ActivateSession_def sess_ok_def)

lemma keeps_Validate: "keeps (\<lambda>s. snd (ValidateClientSeq n s))"
  by (auto simp: keeps_def mono_sess_def ValidateClientSeq_def sess_ok_def Let_def)

lemma keeps_fields:
  "keeps (UpdateActivity now)" "keeps (\<lambda>s. snd (UpdateAckServerSeq a s))" "keeps (\<lambda>s. snd (NewServerSeq s))"
  "keeps (\<lambda>s. s\<lparr>s_OpenID := oid, s_ClientID := cid\<rparr>)"
  by (auto simp: keeps_def mono_sess_def sess_ok_def UpdateActivity_def UpdateAckServerSeq_def NewServerSeq_def)

lemma sess_ok_ordering:
  "sess_ok s \<Longrightarrow> ordering_ok o' \<Longrightarrow> sess_ok (s\<lparr>s_orderingManager := Some o'\<rparr>)"
  by (simp add: sess_ok_def)

lemma keeps_bind_Before: "keeps (\<lambda>s. snd (AddNotifyBindBeforeRsp g n s))"
  unfolding keeps_def
proof (intro allI impI)
  fix s :: "'a session"
  assume ok: "sess_ok s"
  then obtain o' where o': "s_orderingManager s = Some o'" "ordering_ok o'" by (auto simp: sess_ok_def)
  show "sess_ok (snd (AddNotifyBindBeforeRsp g n s)) \<and> mono_sess s (snd (AddNotifyBindBeforeRsp g n s))"
    using sess_ok_ordering [OF ok ordering_ok_ops(1) [OF o'(2), of g n]]
    by (simp add: AddNotifyBindBeforeRsp_def o' case_prod_beta mono_sess_def)
qed

lemma keeps_bind_After: "keeps (\<lambda>s. snd (AddNotifyBindAfterRsp g n s))"
  unfolding keeps_def
proof (intro allI impI)
  fix s :: "'a session"
  assume ok: "sess_ok s"
  then obtain o' where o': "s_orderingManager s = Some o'" "ordering_ok o'" by (auto simp: sess_ok_def)
  show "sess_ok (snd (AddNotifyBindAfterRsp g n s)) \<and> mono_sess s (snd (AddNotifyBindAfterRsp g n s))"
    using sess_ok_ordering [OF ok ordering_ok_ops(2) [OF o'(2), of g n]]
    by (simp add: AddNotifyBindAfterRsp_def o' case_prod_beta mono_sess_def)
qed

lemma keeps_Ack:
  "keeps (\<lambda>s. case s_orderedQueue s of None \<Rightarrow> s
     | Some q \<Rightarrow> s\<lparr>s_orderedQueue := Some (snd (oq_AckMessagesUpTo a q))\<rparr>)"
  using oq_inv_Ack
  by (auto simp: keeps_def mono_sess_def sess_ok_def queue_ok_def split: option.splits)
    (simp_all add: oq_AckMessagesUpTo_def Let_def split: if_splits)

lemma keeps_Resync:
  "keeps (\<lambda>s. case s_orderedQueue s of None \<Rightarrow> s
     | Some q \<Rightarrow> s\<lparr>s_orderedQueue := Some (ResyncSequence a q)\<rparr>)"
  using oq_inv_Resync
  by (auto simp: keeps_def mono_sess_def sess_ok_def queue_ok_def split: option.splits)
    (simp_all add: ResyncSequence_def Let_def split: if_splits)

lemma session_link_ok:
  "sess_ok s \<Longrightarrow> s_orderedQueue s = Some q \<Longrightarrow> link_same (session_link s ms) l \<Longrightarrow> queue_ok q' \<Longrightarrow>
    stopped q' = stopped q \<Longrightarrow> sess_ok ((put_link l s)\<lparr>s_orderedQueue := Some q'\<rparr>)"
  by (auto simp: sess_ok_def put_link_def link_same_def session_link_def)

lemma link_closed: "link_same (session_link s ms) l \<Longrightarrow> lk_closed l = s_closed s"
  by (simp add: link_same_def session_link_def)

lemma keeps_Enqueue:
  "keeps (\<lambda>s. case s_orderedQueue s of None \<Rightarrow> s
     | Some q \<Rightarrow> fst (snd (session_Enqueue seq push data now q s ms)))"
  unfolding keeps_def
proof (intro allI impI)
  fix s :: "'a session"
  assume ok: "sess_ok s"
  then obtain q where q: "s_orderedQueue s = Some q" "queue_ok q" by (auto simp: sess_ok_def)
  obtain r q' l where enq: "EnqueueMessage seq push data now q (session_link s ms) = (r, q', l)"
    by (metis surj_pair)
  show "sess_ok (case s_orderedQueue s of None \<Rightarrow> s
     | Some q \<Rightarrow> fst (snd (session_Enqueue seq push data now q s ms))) \<and>
     mono_sess s (case s_orderedQueue s of None \<Rightarrow> s
     | Some q \<Rightarrow> fst (snd (session_Enqueue seq push data now q s ms)))"
    using session_link_ok [OF ok q(1), of ms l q'] link_closed [of s ms l] enqueue_link_same [OF q(2) enq]
    by (simp add: q session_Enqueue_def enq put_link_def mono_sess_def)
qed

lemma keeps_round: "keeps (\<lambda>s. fst (session_cleanupRound now s ms))"
  unfolding keeps_def
proof (intro allI impI)
  fix s :: "'a session"
  assume ok: "sess_ok s"
  then obtain q where q: "s_orderedQueue s = Some q" "queue_ok q" by (auto simp: sess_ok_def)
  obtain q' l where r: "cleanupLoop_round now q (session_link s ms) = (q', l)" by (metis surj_pair)
  show "sess_ok (fst (session_cleanupRound now s ms)) \<and> mono_sess s (fst (session_cleanupRound now s ms))"
    using session_link_ok [OF ok q(1), of ms l q'] link_closed [of s ms l] round_link_same [OF q(2) r]
    by (simp add: q session_cleanupRound_def r put_link_def mono_sess_def)
qed

lemma keeps_callback:
  "cb_ok cb \<Longrightarrow> keeps (\<lambda>s. s\<lparr>s_orderedQueue := map_option (SetSendCallback (Some cb)) (s_orderedQueue s)\<rparr>)"
  by (auto simp: keeps_def mono_sess_def sess_ok_def queue_ok_def SetSendCallback_def oq_inv_def)

lemma keeps_take_Before:
  "keeps (\<lambda>s. s\<lparr>s_orderingManager := map_option (\<lambda>m. snd (GetAndRemoveBeforeNotifies g m)) (s_orderingManager s)\<rparr>)"
  by (auto simp: keeps_def mono_sess_def sess_ok_def ordering_ok_ops)

lemma keeps_take_After:
  "keeps (\<lambda>s. s\<lparr>s_orderingManager := map_option (\<lambda>m. snd (GetAndRemoveAfterNotifies g m)) (s_orderingManager s)\<rparr>)"
  by (auto simp: keeps_def mono_sess_def sess_ok_def ordering_ok_ops)

lemma keeps_hangup: "keeps (\<lambda>s. s\<lparr>s_transport := map_option f (s_transport s)\<rparr>)"
  by (auto simp: keeps_def mono_sess_def sess_ok_def)

lemmas keeps_ops = keeps_Close keeps_SetClosed keeps_Activate keeps_Validate keeps_fields keeps_bind_Before
  keeps_bind_After keeps_Ack keeps_Resync keeps_Enqueue keeps_round keeps_callback keeps_take_Before
  keeps_take_After keeps_hangup

section \<open>The invariant of the manager\<close>

definition mgr_inv :: "'x manager \<Rightarrow> bool" where
  "mgr_inv m \<longleftrightarrow> gm_ok (m_sessions m) \<and> gm_ok (m_sessionsByUID m) \<and>
     (\<forall>(sid, r) \<in> set (m_sessions m). r < length (m_store m) \<and> s_ID (sess_at r m) = sid) \<and>
     (\<forall>(u, r) \<in> set (m_sessionsByUID m). r < length (m_store m)) \<and>
     distinct (map s_ID (m_store m)) \<and> (\<forall>s \<in> set (m_store m). sess_ok s) \<and>
     (\<forall>(t, tm) \<in> set (m_timers m). case tm of CloseTimer r \<Rightarrow> r < length (m_store m) | _ \<Rightarrow> True)"

lemma mgr_inv_D:
  assumes "mgr_inv m"
  shows "gm_get (m_sessions m) sid = Some r \<Longrightarrow> r < length (m_store m) \<and> s_ID (sess_at r m) = sid \<and> sess_ok (sess_at r m)"
    "gm_get (m_sessionsByUID m) u = Some r \<Longrightarrow> r < length (m_store m) \<and> sess_ok (sess_at r m)"
  using assms by (auto simp: mgr_inv_def sess_at_def dest!: map_of_SomeD)

lemma upd_sess_simps [simp]:
  "m_sessions (upd_sess r f m) = m_sessions m" "m_sessionsByUID (upd_sess r f m) = m_sessionsByUID m"
  "m_timers (upd_sess r f m) = m_timers m" "length (m_store (upd_sess r f m)) = length (m_store m)"
  "m_stopped (upd_sess r f m) = m_stopped m" "m_sessionTimeout (upd_sess r f m) = m_sessionTimeout m"
  "m_connectionDownDelay (upd_sess r f m) = m_connectionDownDelay m"
  by (simp_all add: upd_sess_def)

lemma sess_at_upd:
  "sess_at r' (upd_sess r f m) = (if r' = r \<and> r < length (m_store m) then f (sess_at r m) else sess_at r' m)"
  by (cases "r < length (m_store m)") (auto simp: sess_at_def upd_sess_def nth_list_update list_update_beyond)

lemma mgr_inv_upd:
  assumes "mgr_inv m" "keeps f"
  shows "mgr_inv (upd_sess r f m)"
proof (cases "r < length (m_store m)")
  case True
  then have ok: "sess_ok (f (m_store m ! r))" "s_ID (f (m_store m ! r)) = s_ID (m_store m ! r)"
    using assms by (auto simp: mgr_inv_def keeps_def mono_sess_def)
  have "map s_ID (m_store (upd_sess r f m)) = map s_ID (m_store m)"
    using ok(2) True by (simp add: upd_sess_def map_update list_update_same_conv)
  moreover have "\<forall>s \<in> set (m_store (upd_sess r f m)). sess_ok s"
    using ok(1) assms(1) by (auto simp: upd_sess_def mgr_inv_def dest!: subsetD [OF set_update_subset_insert])
  moreover have "s_ID (sess_at r' (upd_sess r f m)) = s_ID (sess_at r' m)" for r'
    using ok(2) by (auto simp: sess_at_upd) (simp_all add: sess_at_def)
  ultimately show ?thesis using assms(1) unfolding mgr_inv_def by simp
next
  case False
  then show ?thesis using assms(1) by (simp add: upd_sess_def list_update_beyond)
qed

text \<open>Dropping index entries, adding timers.\<close>

lemma mgr_inv_shrink:
  assumes "mgr_inv m" "m_store m' = m_store m" "gm_ok (m_sessions m')" "gm_ok (m_sessionsByUID m')"
    "set (m_sessions m') \<subseteq> set (m_sessions m)" "set (m_sessionsByUID m') \<subseteq> set (m_sessionsByUID m)"
    "\<forall>(t, tm) \<in> set (m_timers m'). case tm of CloseTimer r \<Rightarrow> r < length (m_store m) | _ \<Rightarrow> True"
  shows "mgr_inv m'"
  using assms unfolding mgr_inv_def sess_at_def by (simp add: subset_iff) blast

lemma del_subset: "set (gm_del k m) \<subseteq> set m"
  by (auto dest: gm_set_del)

lemma mgr_inv_New: "mgr_inv (NewManager st ackt mr)"
  by (simp add: mgr_inv_def NewManager_def)

lemma mgr_inv_immediateRemove:
  assumes "mgr_inv m"
  shows "mgr_inv (immediateRemoveSession e sid m)"
proof (cases "gm_get (m_sessions m) sid")
  case (Some r)
  have "mgr_inv (let m1 = m\<lparr>m_sessions := gm_del sid (m_sessions m)\<rparr>
      in if s_OpenID (sess_at r m) \<noteq> [] then
           m1\<lparr>m_sessionsByUID := gm_del (s_OpenID (sess_at r m)) (m_sessionsByUID m1)\<rparr> else m1)"
    using assms by (intro mgr_inv_shrink [OF assms]) (auto simp: Let_def mgr_inv_def dest: gm_set_del)
  then show ?thesis
    unfolding immediateRemoveSession_def Some option.case Let_def by (rule mgr_inv_upd [OF _ keeps_Close])
qed (use assms in \<open>simp add: immediateRemoveSession_def\<close>)

lemma keeps_const: "keeps f \<Longrightarrow> mgr_inv m \<Longrightarrow> mgr_inv (upd_sess r (\<lambda>_. f (sess_at r m)) m)"
  using mgr_inv_upd [of m f r] by (simp add: upd_sess_def sess_at_def)

lemma mgr_inv_RemoveWithDelay:
  assumes "mgr_inv m"
  shows "mgr_inv (RemoveSessionWithDelay e now sid delay m)"
proof (cases "gm_get (m_sessions m) sid")
  case (Some r)
  let ?m1 = "upd_sess r (\<lambda>_. snd (SetClosed (sess_at r m))) m"
  have inv: "mgr_inv ?m1" using keeps_const [OF keeps_SetClosed assms] .
  have "mgr_inv (?m1\<lparr>m_timers := m_timers ?m1 @ [(now + m_connectionDownDelay ?m1, RemoveTimer sid)]\<rparr>)"
    using inv by (intro mgr_inv_shrink [OF inv]) (auto simp: mgr_inv_def)
  then show ?thesis
    using mgr_inv_immediateRemove [OF inv] by (simp add: RemoveSessionWithDelay_def Some case_prod_beta Let_def)
qed (use assms in \<open>simp add: RemoveSessionWithDelay_def\<close>)

lemma mgr_inv_fire:
  assumes "mgr_inv m"
  shows "mgr_inv (fire_timer e now i m)"
proof (cases "i < length (m_timers m) \<and> fst (m_timers m ! i) \<le> now")
  case True
  let ?m1 = "m\<lparr>m_timers := take i (m_timers m) @ drop (Suc i) (m_timers m)\<rparr>"
  have "mgr_inv ?m1"
    using assms by (intro mgr_inv_shrink [OF assms])
      (auto simp: mgr_inv_def dest: in_set_takeD in_set_dropD)
  then show ?thesis
    using True mgr_inv_immediateRemove [of ?m1] mgr_inv_upd [OF _ keeps_Close, of ?m1]
    by (simp add: fire_timer_def Let_def split: timer.split)
qed (use assms in \<open>auto simp: fire_timer_def\<close>)

lemma mgr_inv_expire_one:
  assumes "mgr_inv m"
  shows "mgr_inv (expire_one e sid m)"
proof (cases "gm_get (m_sessions m) sid")
  case (Some r)
  have "mgr_inv (m\<lparr>m_sessions := gm_del sid (m_sessions m)\<rparr>)"
    using assms by (intro mgr_inv_shrink [OF assms]) (auto simp: mgr_inv_def dest: gm_set_del)
  then show ?thesis by (simp add: expire_one_def Some mgr_inv_upd [OF _ keeps_Close])
qed (use assms in \<open>simp add: expire_one_def\<close>)

lemma mgr_inv_expire: "mgr_inv m \<Longrightarrow> mgr_inv (cleanupExpiredSessions_round e now m)"
proof -
  have "mgr_inv m \<Longrightarrow> mgr_inv (fold (expire_one e) ids m)" for ids
    by (induction ids arbitrary: m) (simp_all add: mgr_inv_expire_one)
  then show "mgr_inv m \<Longrightarrow> mgr_inv (cleanupExpiredSessions_round e now m)"
    by (simp add: cleanupExpiredSessions_round_def removeExpiredSessions_def)
qed

lemma mgr_inv_Stop:
  assumes "mgr_inv m"
  shows "mgr_inv (manager_Stop e m)"
proof -
  let ?close = "\<lambda>(_, r) m. upd_sess r (session_Close e) m"
  have fold: "mgr_inv m \<Longrightarrow> mgr_inv (fold ?close xs m)" for xs :: "(string \<times> nat) list" and m
    by (induction xs arbitrary: m) (auto simp: mgr_inv_upd [OF _ keeps_Close])
  have "mgr_inv (m\<lparr>m_stopped := True\<rparr>)" using assms by (intro mgr_inv_shrink [OF assms]) (auto simp: mgr_inv_def)
  then have inv: "mgr_inv (fold ?close (m_sessions m) (m\<lparr>m_stopped := True\<rparr>))" by (rule fold)
  show ?thesis
    unfolding manager_Stop_def Let_def using inv
    by (intro mgr_inv_shrink [OF inv]) (auto simp: mgr_inv_def)
qed

lemma mgr_inv_Bind:
  assumes "mgr_inv m" "r < length (m_store m)"
  shows "mgr_inv (snd (BindSession r m))"
proof -
  have "mgr_inv (m\<lparr>m_sessionsByUID := gm_put u r (m_sessionsByUID m)\<rparr>)" for u
    using assms unfolding mgr_inv_def sess_at_def by (auto dest!: gm_set_put)
  then show ?thesis using assms by (simp add: BindSession_def Let_def split: option.split)
qed

lemma mgr_inv_Ack: "mgr_inv m \<Longrightarrow> mgr_inv (snd (m_AckMessagesUpTo sid a m))"
proof (cases "gm_get (m_sessions m) sid")
  case (Some r)
  assume inv: "mgr_inv m"
  let ?m1 = "upd_sess r (\<lambda>s. snd (UpdateAckServerSeq a s)) m"
  have i1: "mgr_inv ?m1" using inv keeps_fields(2) by (rule mgr_inv_upd)
  have i2: "mgr_inv (upd_sess r (\<lambda>s. case s_orderedQueue s of None \<Rightarrow> s
     | Some q \<Rightarrow> s\<lparr>s_orderedQueue := Some (snd (oq_AckMessagesUpTo a q))\<rparr>) ?m1)"
    using i1 keeps_Ack by (rule mgr_inv_upd)
  show ?thesis
    using i1 i2 by (auto simp: m_AckMessagesUpTo_def GetSession_def Some Let_def GetOrderedQueue_def
        upd_sess_def sess_at_def split: option.split prod.split)
qed (simp add: m_AckMessagesUpTo_def GetSession_def)

lemma mgr_inv_sync: "mgr_inv m \<Longrightarrow> mgr_inv (EnableSync m)"
  by (rule mgr_inv_shrink [of m]) (auto simp: EnableSync_def mgr_inv_def)

section \<open>Creation and reconnection\<close>

text \<open>What the library documents of \<open>copier.Copy\<close> on maps: the entries of the source are set in the
  destination, the others stay.\<close>

definition copier_law :: "'x ext \<Rightarrow> bool" where
  "copier_law e \<longleftrightarrow> (\<forall>to src. gm_ok to \<longrightarrow> gm_ok src \<longrightarrow> gm_ok (copier_Copy e to src) \<and>
     (\<forall>k. gm_get (copier_Copy e to src) k =
        (case gm_get src k of Some v \<Rightarrow> Some v | None \<Rightarrow> gm_get to k)))"

lemma copier_sent_ok:
  assumes "copier_law e" "sent_ok to" "sent_ok src"
  shows "sent_ok (copier_Copy e to src)"
proof -
  have ok: "gm_ok to" "gm_ok src" using assms by (simp_all add: sent_ok_def)
  then have c: "gm_ok (copier_Copy e to src)" using assms(1) by (simp add: copier_law_def)
  have "ServerSeq m = k \<and> Sent m \<and> 0 \<le> Retries m \<and> Retries m \<le> MaxRetries"
    if "(k, m) \<in> set (copier_Copy e to src)" for k m
  proof -
    have "gm_get src k = Some m \<or> gm_get to k = Some m"
      using that c assms(1) ok by (auto simp: copier_law_def gm_get_in split: option.splits)
    then have "(k, m) \<in> set src \<or> (k, m) \<in> set to" by (auto dest: map_of_SomeD)
    then show ?thesis using assms(2,3) by (auto simp: sent_ok_def)
  qed
  then show ?thesis using c by (auto simp: sent_ok_def)
qed

lemma new_session_ok: "sess_ok (new_session sid now t c u ip)"
  using oq_inv_New [of 1000 sid]
  by (simp add: sess_ok_def new_session_def queue_ok_def) (simp add: NewOrderedMessageQueue_def)

lemma resync_stopped: "stopped (ResyncSequence a q) = stopped q"
  by (simp add: ResyncSequence_def Let_def)

lemma InheritFrom_ok:
  assumes "sess_ok old" "sess_ok s"
  shows "sess_ok (InheritFrom old s)" "s_ID (InheritFrom old s) = s_ID s"
proof -
  obtain qo q where q: "s_orderedQueue old = Some qo" "s_orderedQueue s = Some q" "queue_ok q"
    "stopped q \<longrightarrow> s_closed s"
    using assms by (auto simp: sess_ok_def)
  have "queue_ok (ResyncSequence a q)" "stopped (ResyncSequence a q) = stopped q" for a
    using q oq_inv_Resync [of q a] resync_facts(3) [of a q]
    by (simp_all add: queue_ok_def resync_stopped)
  then show "sess_ok (InheritFrom old s)" "s_ID (InheritFrom old s) = s_ID s"
    using assms q by (auto simp: InheritFrom_def Let_def sess_ok_def SetSuccessor_def SetServerSeq_def
        SetZone_def SetState_def)
qed

lemma copy_sent_ok:
  assumes "copier_law e" "sess_ok old" "sess_ok s" "\<not> s_closed s"
  shows "sess_ok (copy_sent e old s)" "s_ID (copy_sent e old s) = s_ID s"
proof -
  obtain qo q where q: "s_orderedQueue old = Some qo" "s_orderedQueue s = Some q" "queue_ok q"
    "queue_ok qo" "\<not> stopped q"
    using assms by (auto simp: sess_ok_def)
  then have "sent_ok (copier_Copy e (sentMessages q) (sentMessages qo))"
    by (intro copier_sent_ok [OF assms(1)]) (simp_all add: queue_ok_def oq_inv_def)
  then show "sess_ok (copy_sent e old s)" "s_ID (copy_sent e old s) = s_ID s"
    using assms q by (auto simp: copy_sent_def sess_ok_def queue_ok_def oq_inv_def)
qed

lemma mgr_inv_handleOld:
  assumes "mgr_inv m" "r < length (m_store m)"
  shows "mgr_inv (handleOldSessionOnReconnectAtomic now r m)"
proof -
  let ?m1 = "upd_sess r (\<lambda>s. snd (SetClosed s)) m"
  have inv: "mgr_inv ?m1" using assms(1) keeps_SetClosed by (rule mgr_inv_upd)
  show ?thesis
    unfolding handleOldSessionOnReconnectAtomic_def Let_def using inv assms(2)
    by (intro mgr_inv_shrink [OF inv]) (auto simp: mgr_inv_def dest: gm_set_del)
qed

text \<open>Storing a new session under its identifier and its user.\<close>

lemma mgr_inv_store:
  assumes "mgr_inv m" "sess_ok s" "s_ID s = sid" "sid \<notin> s_ID ` set (m_store m)"
    "byUID = m_sessionsByUID m \<or> byUID = gm_put u (length (m_store m)) (m_sessionsByUID m)"
  shows "mgr_inv (m\<lparr>m_store := m_store m @ [s],
           m_sessions := gm_put sid (length (m_store m)) (m_sessions m),
           m_sessionsByUID := byUID\<rparr>)"
proof -
  let ?r = "length (m_store m)"
  have ids: "r < Suc ?r \<and> s_ID ((m_store m @ [s]) ! r) = k"
    if "(k, r) \<in> set (gm_put sid ?r (m_sessions m))" for k r
    using gm_set_put [OF that] assms(1,3) by (auto simp: mgr_inv_def nth_append sess_at_def)
  have uids: "r < Suc ?r" if "(k, r) \<in> set byUID" for k r
    using that assms(1,5) by (fastforce simp: mgr_inv_def dest!: gm_set_put)
  have timers: "\<forall>(t, tm) \<in> set (m_timers m). case tm of CloseTimer r \<Rightarrow> r < Suc ?r | _ \<Rightarrow> True"
    using assms(1) by (fastforce simp: mgr_inv_def split: timer.splits)
  have ok: "gm_ok byUID" using assms(1,5) by (auto simp: mgr_inv_def)
  have new: "distinct (map s_ID (m_store m @ [s]))" "\<forall>x \<in> set (m_store m @ [s]). sess_ok x"
    using assms by (auto simp: mgr_inv_def)
  have sess: "gm_ok (gm_put sid ?r (m_sessions m))" using assms(1) by (simp add: mgr_inv_def)
  have "\<forall>x \<in> set (gm_put sid ?r (m_sessions m)). snd x < Suc ?r \<and> s_ID ((m_store m @ [s]) ! snd x) = fst x"
    "\<forall>x \<in> set byUID. snd x < Suc ?r"
    using ids uids by (metis prod.collapse)+
  then show ?thesis
    unfolding mgr_inv_def sess_at_def using timers ok new sess by (simp add: split_beta)
qed

text \<open>The three outcomes of \<open>CreateOrReconnectSession\<close>.\<close>

lemma create_cases:
  assumes "CreateOrReconnectSession e uuid now t c u ip m = (r, rc, m')"
  obtains (fresh) "r = length (m_store m)" "\<not> rc"
      "m' = m\<lparr>m_store := m_store m @ [new_session uuid now t c u ip],
              m_sessions := gm_put uuid (length (m_store m)) (m_sessions m),
              m_sessionsByUID := (if u = [] then m_sessionsByUID m
                                  else gm_put u (length (m_store m)) (m_sessionsByUID m))\<rparr>"
  | (again) r0 m1 s where "r = length (m_store m)" "rc" "u \<noteq> []" "gm_get (m_sessionsByUID m) u = Some r0"
      "now - s_LastActivity (sess_at r0 m) < m_connectionDownDelay m * 2"
      "gm_get (m_sessions m) (s_ID (sess_at r0 m)) = Some r0"
      "m1 = handleOldSessionOnReconnectAtomic now r0 m"
      "s = copy_sent e (sess_at r0 m1) (InheritFrom (sess_at r0 m) (new_session uuid now t c u ip))"
      "m' = m1\<lparr>m_store := m_store m1 @ [s],
              m_sessions := gm_put uuid (length (m_store m)) (m_sessions m1),
              m_sessionsByUID := gm_put u (length (m_store m)) (m_sessionsByUID m)\<rparr>"
proof (cases "\<exists>r0. reconnect_candidate now u m = Some r0 \<and> gm_get (m_sessions m) (s_ID (sess_at r0 m)) = Some r0")
  case True
  then obtain r0 where r0: "reconnect_candidate now u m = Some r0"
    "gm_get (m_sessions m) (s_ID (sess_at r0 m)) = Some r0" by blast
  have "u \<noteq> []" "gm_get (m_sessionsByUID m) u = Some r0"
    "now - s_LastActivity (sess_at r0 m) < m_connectionDownDelay m * 2"
    using r0(1) by (auto simp: reconnect_candidate_def split: if_splits option.splits)
  then show thesis
    using assms r0 again by (auto simp: CreateOrReconnectSession_def Let_def handleOldSessionOnReconnectAtomic_def)
next
  case False
  then show thesis
    using assms fresh by (auto simp: CreateOrReconnectSession_def Let_def split: option.splits if_splits)
qed

lemma mgr_inv_create:
  assumes "mgr_inv m" "copier_law e" "uuid \<notin> s_ID ` set (m_store m)"
    "CreateOrReconnectSession e uuid now t c u ip m = (r, rc, m')"
  shows "mgr_inv m'"
  using assms(4)
proof (cases rule: create_cases)
  case fresh
  show ?thesis
    unfolding fresh(3) by (intro mgr_inv_store [where u = u, OF assms(1) new_session_ok _ assms(3)])
      (simp_all add: new_session_def)
next
  case (again r0 m1 s)
  have r0: "r0 < length (m_store m)" "sess_ok (sess_at r0 m)"
    using mgr_inv_D(2) [OF assms(1) again(4)] by simp_all
  have inv1: "mgr_inv m1" unfolding again(7) using mgr_inv_handleOld [OF assms(1) r0(1)] .
  have len: "length (m_store m1) = length (m_store m)" "m_sessionsByUID m1 = m_sessionsByUID m"
    by (simp_all add: again(7) handleOldSessionOnReconnectAtomic_def Let_def)
  have ids: "map s_ID (m_store m1) = map s_ID (m_store m)"
    using r0 by (simp add: again(7) handleOldSessionOnReconnectAtomic_def Let_def upd_sess_def map_update
        SetClosed_def list_update_same_conv)
  have new: "sess_ok (InheritFrom (sess_at r0 m) (new_session uuid now t c u ip))"
    "s_ID (InheritFrom (sess_at r0 m) (new_session uuid now t c u ip)) = uuid"
    "\<not> s_closed (InheritFrom (sess_at r0 m) (new_session uuid now t c u ip))"
    using InheritFrom_ok [OF r0(2) new_session_ok]
    by (auto simp: new_session_def InheritFrom_def Let_def SetSuccessor_def SetServerSeq_def SetZone_def
        SetState_def split: option.splits)
  have "sess_ok (sess_at r0 m1)" using inv1 r0 len by (simp add: mgr_inv_def sess_at_def)
  then have s: "sess_ok s" "s_ID s = uuid"
    unfolding again(8) using copy_sent_ok [OF assms(2) _ new(1,3)] new(2) by simp_all
  have "uuid \<notin> s_ID ` set (m_store m1)" using ids assms(3) by (metis set_map)
  then show ?thesis
    unfolding again(9) len(1) [symmetric] len(2) [symmetric] by (intro mgr_inv_store [where u = u, OF inv1 s]) simp_all
qed

section \<open>Reachable states\<close>

text \<open>
  The steps of the manager: its own operations, and what the connection handlers, the gateway's
  senders and the queue's cleanup goroutine do to a stored session. The identifiers \<open>uuid.New\<close>
  returns are assumed new.
\<close>

inductive mgr_step :: "'x ext \<Rightarrow> 'x manager \<Rightarrow> 'x manager \<Rightarrow> bool" for e where
  step_create: "uuid \<notin> s_ID ` set (m_store m) \<Longrightarrow>
    CreateOrReconnectSession e uuid now t c u ip m = (r, rc, m') \<Longrightarrow> mgr_step e m m'"
| step_ack: "mgr_step e m (snd (m_AckMessagesUpTo sid a m))"
| step_activate: "mgr_step e m (snd (m_ActivateSession sid z m))"
| step_validate: "mgr_step e m (snd (ValidateClientSequence sid n m))"
| step_bind: "r < length (m_store m) \<Longrightarrow> mgr_step e m (snd (BindSession r m))"
| step_remove: "mgr_step e m (RemoveSessionWithDelay e now sid delay m)"
| step_timer: "mgr_step e m (fire_timer e now i m)"
| step_expire: "mgr_step e m (cleanupExpiredSessions_round e now m)"
| step_stop: "mgr_step e m (manager_Stop e m)"
| step_identity: "mgr_step e m (upd_sess r (\<lambda>s. s\<lparr>s_OpenID := u, s_ClientID := c\<rparr>) m)"
| step_activity: "mgr_step e m (upd_sess r (UpdateActivity now) m)"
| step_seq: "mgr_step e m (upd_sess r (\<lambda>s. snd (NewServerSeq s)) m)"
| step_bind_before: "mgr_step e m (upd_sess r (\<lambda>s. snd (AddNotifyBindBeforeRsp g n s)) m)"
| step_bind_after: "mgr_step e m (upd_sess r (\<lambda>s. snd (AddNotifyBindAfterRsp g n s)) m)"
| step_resync: "mgr_step e m (upd_sess r (\<lambda>s. case s_orderedQueue s of None \<Rightarrow> s
     | Some q \<Rightarrow> s\<lparr>s_orderedQueue := Some (ResyncSequence a q)\<rparr>) m)"
| step_enqueue: "mgr_step e m (upd_sess r (\<lambda>s. case s_orderedQueue s of None \<Rightarrow> s
     | Some q \<Rightarrow> fst (snd (session_Enqueue seq push data now q s ms))) m)"
| step_round: "mgr_step e m (upd_sess r (\<lambda>s. fst (session_cleanupRound now s ms)) m)"
| step_callback: "cb_ok cb \<Longrightarrow>
    mgr_step e m (upd_sess r (\<lambda>s. s\<lparr>s_orderedQueue := map_option (SetSendCallback (Some cb)) (s_orderedQueue s)\<rparr>) m)"
| step_take_before: "mgr_step e m (upd_sess r
    (\<lambda>s. s\<lparr>s_orderingManager := map_option (\<lambda>m. snd (GetAndRemoveBeforeNotifies g m)) (s_orderingManager s)\<rparr>) m)"
| step_take_after: "mgr_step e m (upd_sess r
    (\<lambda>s. s\<lparr>s_orderingManager := map_option (\<lambda>m. snd (GetAndRemoveAfterNotifies g m)) (s_orderingManager s)\<rparr>) m)"
| step_hangup: "mgr_step e m (upd_sess r (\<lambda>s. s\<lparr>s_transport := map_option f (s_transport s)\<rparr>) m)"
| step_sync: "mgr_step e m (EnableSync m)"

inductive mgr_reach :: "'x ext \<Rightarrow> 'x manager \<Rightarrow> bool" for e where
  reach_New: "mgr_reach e (NewManager st ackt mr)"
| reach_step: "mgr_reach e m \<Longrightarrow> mgr_step e m m' \<Longrightarrow> mgr_reach e m'"

inductive_cases mgr_stepE: "mgr_step e m m'"

lemma step_create_snd:
  "uuid \<notin> s_ID ` set (m_store m) \<Longrightarrow> mgr_step e m (snd (snd (CreateOrReconnectSession e uuid now t c u ip m)))"
  by (metis step_create surj_pair snd_conv)

lemma mgr_inv_activate:
  assumes "mgr_inv m" shows "mgr_inv (snd (m_ActivateSession sid z m))"
proof (cases "GetSession sid m")
  case (Some r)
  obtain b s where a: "session_ActivateSession z (sess_at r m) = (b, s)" by (metis surj_pair)
  have "mgr_inv (upd_sess r (\<lambda>_. s) m)" using keeps_const [OF keeps_Activate assms, of r z] a by simp
  then show ?thesis using assms by (cases b) (simp_all add: m_ActivateSession_def Some a)
qed (use assms in \<open>simp add: m_ActivateSession_def\<close>)

lemma mgr_inv_validate:
  assumes "mgr_inv m" shows "mgr_inv (snd (ValidateClientSequence sid n m))"
proof (cases "GetSession sid m")
  case (Some r)
  obtain b s where v: "ValidateClientSeq n (sess_at r m) = (b, s)" by (metis surj_pair)
  have "mgr_inv (upd_sess r (\<lambda>_. s) m)" using keeps_const [OF keeps_Validate assms, of r n] v by simp
  then show ?thesis by (simp add: ValidateClientSequence_def Some v)
qed (use assms in \<open>simp add: ValidateClientSequence_def\<close>)

lemma mgr_inv_step: "mgr_step e m m' \<Longrightarrow> copier_law e \<Longrightarrow> mgr_inv m \<Longrightarrow> mgr_inv m'"
  by (induction rule: mgr_step.induct)
    (blast intro: mgr_inv_create mgr_inv_Ack mgr_inv_activate mgr_inv_validate mgr_inv_Bind
      mgr_inv_RemoveWithDelay mgr_inv_fire mgr_inv_expire mgr_inv_Stop mgr_inv_upd mgr_inv_sync keeps_ops)+

lemma mgr_inv_reach: "mgr_reach e m \<Longrightarrow> copier_law e \<Longrightarrow> mgr_inv m"
  by (induction rule: mgr_reach.induct) (auto simp: mgr_inv_New intro: mgr_inv_step)

section \<open>What no step undoes\<close>

definition mgr_mono :: "'x manager \<Rightarrow> 'x manager \<Rightarrow> bool" where
  "mgr_mono m m' \<longleftrightarrow> length (m_store m) \<le> length (m_store m') \<and>
     (\<forall>r < length (m_store m). mono_sess (sess_at r m) (sess_at r m'))"

lemma mgr_mono_refl [simp]: "mgr_mono m m"
  by (simp add: mgr_mono_def)

lemma mgr_mono_trans: "mgr_mono m m1 \<Longrightarrow> mgr_mono m1 m2 \<Longrightarrow> mgr_mono m m2"
  unfolding mgr_mono_def by (meson less_le_trans mono_sess_trans order_trans)

lemma mgr_mono_store: "m_store m1 = m_store m \<Longrightarrow> mgr_mono m1 m' = mgr_mono m m'"
  "m_store m1 = m_store m' \<Longrightarrow> mgr_mono m m1 = mgr_mono m m'"
  by (simp_all add: mgr_mono_def sess_at_def)

lemma mgr_mono_upd:
  assumes "mgr_inv m" "keeps f"
  shows "mgr_mono m (upd_sess r f m)"
proof -
  have "mono_sess (sess_at r' m) (f (sess_at r' m))" if "r' < length (m_store m)" for r'
    using assms that by (simp add: keeps_def mgr_inv_def sess_at_def)
  then show ?thesis by (simp add: mgr_mono_def sess_at_upd)
qed

lemma mgr_mono_const: "keeps f \<Longrightarrow> mgr_inv m \<Longrightarrow> mgr_mono m (upd_sess r (\<lambda>_. f (sess_at r m)) m)"
  using mgr_mono_upd [of m f r] by (simp add: upd_sess_def sess_at_def)

text \<open>An update after dropping index entries.\<close>

lemma mgr_mono_upd_after:
  assumes "mgr_inv m" "m_store m1 = m_store m" "keeps f"
  shows "mgr_mono m (upd_sess r f m1)"
proof -
  have "m_store (upd_sess r f m1) = m_store (upd_sess r f m)" using assms(2) by (simp add: upd_sess_def)
  then show ?thesis using mgr_mono_upd [OF assms(1,3), of r] mgr_mono_store(2) by metis
qed

lemma mgr_mono_immediateRemove: "mgr_inv m \<Longrightarrow> mgr_mono m (immediateRemoveSession e sid m)"
  by (simp add: immediateRemoveSession_def Let_def mgr_mono_upd_after keeps_Close split: option.split)

lemma mgr_mono_RemoveWithDelay:
  assumes "mgr_inv m"
  shows "mgr_mono m (RemoveSessionWithDelay e now sid delay m)"
proof (cases "gm_get (m_sessions m) sid")
  case (Some r)
  let ?m1 = "upd_sess r (\<lambda>_. snd (SetClosed (sess_at r m))) m"
  have inv: "mgr_inv ?m1" using keeps_const [OF keeps_SetClosed assms] .
  have "mgr_mono m ?m1" using mgr_mono_const [OF keeps_SetClosed assms] .
  moreover from this have "mgr_mono m (?m1\<lparr>m_timers := ts\<rparr>)" for ts
    by (simp add: mgr_mono_def sess_at_def)
  ultimately show ?thesis
    using mgr_mono_trans [OF _ mgr_mono_immediateRemove [OF inv, of e sid]]
    by (simp add: RemoveSessionWithDelay_def Some case_prod_beta Let_def)
qed (simp add: RemoveSessionWithDelay_def)

lemma mgr_mono_fire: "mgr_inv m \<Longrightarrow> mgr_mono m (fire_timer e now i m)"
proof -
  assume inv: "mgr_inv m"
  let ?m1 = "m\<lparr>m_timers := take i (m_timers m) @ drop (Suc i) (m_timers m)\<rparr>"
  have "mgr_inv ?m1"
    using inv by (intro mgr_inv_shrink [OF inv])
      (auto simp: mgr_inv_def dest: in_set_takeD in_set_dropD)
  then have "mgr_mono ?m1 (immediateRemoveSession e sid ?m1)" for sid
    by (rule mgr_mono_immediateRemove)
  then have "mgr_mono m (immediateRemoveSession e sid ?m1)" for sid
    using mgr_mono_store(1) [of ?m1 m] by simp
  then show ?thesis
    using inv by (simp add: fire_timer_def Let_def mgr_mono_upd_after keeps_Close split: timer.split)
qed

lemma mgr_mono_expire: "mgr_inv m \<Longrightarrow> mgr_mono m (cleanupExpiredSessions_round e now m)"
proof -
  assume inv: "mgr_inv m"
  have one: "mgr_mono m (expire_one e sid m)" if "mgr_inv m" for m sid
    using that by (simp add: expire_one_def mgr_mono_upd_after keeps_Close split: option.split)
  have "mgr_inv m \<Longrightarrow> mgr_mono m (fold (expire_one e) ids m)" for ids
  proof (induction ids arbitrary: m)
    case (Cons sid ids)
    then show ?case using mgr_mono_trans [OF one mgr_inv_expire_one [THEN Cons.IH]] by simp
  qed simp
  then show ?thesis using inv by (simp add: cleanupExpiredSessions_round_def removeExpiredSessions_def)
qed

lemma mgr_mono_Stop:
  assumes "mgr_inv m" shows "mgr_mono m (manager_Stop e m)"
proof -
  let ?close = "\<lambda>(_, r) m. upd_sess r (session_Close e) m"
  have fold: "mgr_inv m \<Longrightarrow> mgr_mono m (fold ?close xs m)" for xs :: "(string \<times> nat) list" and m
  proof (induction xs arbitrary: m)
    case (Cons x xs)
    have "mgr_inv (?close x m)" "mgr_mono m (?close x m)"
      using Cons.prems by (auto simp: case_prod_beta mgr_inv_upd mgr_mono_upd keeps_Close)
    then show ?case using mgr_mono_trans [OF _ Cons.IH [of "?close x m"]] by simp
  qed simp
  have "mgr_inv (m\<lparr>m_stopped := True\<rparr>)" using assms by (intro mgr_inv_shrink [OF assms]) (auto simp: mgr_inv_def)
  from fold [OF this] have "mgr_mono m (fold ?close (m_sessions m) (m\<lparr>m_stopped := True\<rparr>))"
    using mgr_mono_store(1) [of "m\<lparr>m_stopped := True\<rparr>" m] by simp
  then show ?thesis
    unfolding manager_Stop_def Let_def by (subst mgr_mono_store(2)) simp_all
qed

lemma mgr_mono_Ack: "mgr_inv m \<Longrightarrow> mgr_mono m (snd (m_AckMessagesUpTo sid a m))"
proof (cases "gm_get (m_sessions m) sid")
  case (Some r)
  assume inv: "mgr_inv m"
  let ?f = "\<lambda>s. case s_orderedQueue s of None \<Rightarrow> s
     | Some q \<Rightarrow> s\<lparr>s_orderedQueue := Some (snd (oq_AckMessagesUpTo a q))\<rparr>"
  let ?m1 = "upd_sess r (\<lambda>s. snd (UpdateAckServerSeq a s)) m"
  have i1: "mgr_inv ?m1" "mgr_mono m ?m1"
    using mgr_inv_upd [OF inv keeps_fields(2)] mgr_mono_upd [OF inv keeps_fields(2)] by simp_all
  have "mgr_mono m (upd_sess r ?f ?m1)"
    using mgr_mono_trans [OF i1(2) mgr_mono_upd [OF i1(1) keeps_Ack]] .
  then show ?thesis
    using i1 by (auto simp: m_AckMessagesUpTo_def GetSession_def Some Let_def GetOrderedQueue_def
        upd_sess_def sess_at_def split: option.split prod.split)
qed (simp add: m_AckMessagesUpTo_def GetSession_def)

lemma mgr_mono_append: "m_store m' = m_store m1 @ [s] \<Longrightarrow> mgr_mono m m1 \<Longrightarrow> mgr_mono m m'"
  by (auto simp: mgr_mono_def sess_at_def nth_append)

lemma mgr_mono_create:
  assumes "mgr_inv m" "CreateOrReconnectSession e uuid now t c u ip m = (r, rc, m')"
  shows "mgr_mono m m'"
  using assms(2)
proof (cases rule: create_cases)
  case fresh
  then show ?thesis by (intro mgr_mono_append [OF _ mgr_mono_refl]) simp
next
  case (again r0 m1 s)
  have "mgr_mono m (upd_sess r0 (\<lambda>s. snd (SetClosed s)) m)"
    using assms(1) keeps_SetClosed by (rule mgr_mono_upd)
  moreover have "m_store m1 = m_store (upd_sess r0 (\<lambda>s. snd (SetClosed s)) m)"
    by (simp add: again(7) handleOldSessionOnReconnectAtomic_def Let_def)
  ultimately have "mgr_mono m m1" using mgr_mono_store(2) [of m1 "upd_sess r0 (\<lambda>s. snd (SetClosed s)) m" m] by simp
  moreover have "m_store m' = m_store m1 @ [s]" unfolding again(9) by simp
  ultimately show ?thesis using mgr_mono_append by blast
qed

lemma mgr_mono_activate:
  assumes "mgr_inv m" shows "mgr_mono m (snd (m_ActivateSession sid z m))"
proof (cases "GetSession sid m")
  case (Some r)
  obtain b s where a: "session_ActivateSession z (sess_at r m) = (b, s)" by (metis surj_pair)
  have "mgr_mono m (upd_sess r (\<lambda>_. s) m)" using mgr_mono_const [OF keeps_Activate assms, of r z] a by simp
  then show ?thesis by (cases b) (simp_all add: m_ActivateSession_def Some a)
qed (simp add: m_ActivateSession_def)

lemma mgr_mono_validate:
  assumes "mgr_inv m" shows "mgr_mono m (snd (ValidateClientSequence sid n m))"
proof (cases "GetSession sid m")
  case (Some r)
  obtain b s where v: "ValidateClientSeq n (sess_at r m) = (b, s)" by (metis surj_pair)
  have "mgr_mono m (upd_sess r (\<lambda>_. s) m)" using mgr_mono_const [OF keeps_Validate assms, of r n] v by simp
  then show ?thesis by (simp add: ValidateClientSequence_def Some v)
qed (simp add: ValidateClientSequence_def)

lemma mgr_mono_Bind: "mgr_mono m (snd (BindSession r m))"
proof -
  have "m_store (snd (BindSession r m)) = m_store m" by (simp add: BindSession_def Let_def split: option.split)
  then show ?thesis using mgr_mono_store(2) [of "snd (BindSession r m)" m m] by simp
qed

lemma mgr_mono_sync: "mgr_mono m (EnableSync m)"
  by (simp add: EnableSync_def mgr_mono_def sess_at_def)

lemma mgr_mono_step: "mgr_step e m m' \<Longrightarrow> mgr_inv m \<Longrightarrow> mgr_mono m m'"
  by (induction rule: mgr_step.induct)
    (blast intro: mgr_mono_create mgr_mono_Ack mgr_mono_activate mgr_mono_validate mgr_mono_Bind
      mgr_mono_RemoveWithDelay mgr_mono_fire mgr_mono_expire mgr_mono_Stop mgr_mono_upd mgr_mono_sync keeps_ops)+

lemma mgr_mono_steps: "(mgr_step e)\<^sup>*\<^sup>* m m' \<Longrightarrow> copier_law e \<Longrightarrow> mgr_inv m \<Longrightarrow> mgr_inv m' \<and> mgr_mono m m'"
proof (induction rule: rtranclp_induct)
  case (step m1 m2)
  then show ?case using mgr_inv_step mgr_mono_step mgr_mono_trans by blast
qed simp

end
