(* ===== verification/Manager_Props.thy ===== *)
theory Manager_Props
  imports Manager_Index
begin

text \<open>
  The properties of sessions and of their manager: client sequence numbers, the invariant of all
  reachable states, activation, reconnection, and what removal and expiry leave behind.
\<close>

section \<open>An instance of the external code\<close>

definition copy_map :: "('k \<times> 'v) list \<Rightarrow> ('k \<times> 'v) list \<Rightarrow> ('k \<times> 'v) list" where
  "copy_map to src = AList.merge to src"

definition toy_ext :: "bytes ext" where
  "toy_ext = \<lparr>pb = toy_pb, stream_Write = pipe, stream_Close = (\<lambda>t. t), conn_CloseWithError = (\<lambda>_ t. t),
     copier_Copy = copy_map\<rparr>"

lemma toy_copier: "copier_law toy_ext"
  by (auto simp: copier_law_def toy_ext_def copy_map_def gm_ok_def distinct_merge merge_conv'
      map_add_def split: option.splits)

section \<open>Client sequence numbers\<close>

fun validate_all :: "u64 list \<Rightarrow> 'x session \<Rightarrow> u64 list \<times> 'x session" where
  "validate_all [] s = ([], s)"
| "validate_all (n # ns) s =
     (case ValidateClientSeq n s of
        (b, s') \<Rightarrow> (case validate_all ns s' of (acc, s'') \<Rightarrow> ((if b then n # acc else acc), s'')))"

lemma consec_Cons: "consec n (Suc k) = n # consec (n + 1) k"
  using consec_append [of n 1 k] consec_snoc [of n 0] by simp

lemma validate_all_from:
  "unat (s_maxClientSeq s) + length ns < 2 ^ 64 \<Longrightarrow> s_maxClientSeq s \<noteq> 0 \<Longrightarrow> validate_all ns s = (acc, s') \<Longrightarrow>
    acc = consec (s_maxClientSeq s + 1) (length acc) \<and> s_maxClientSeq s' = s_maxClientSeq s + of_nat (length acc)"
proof (induction ns arbitrary: s acc s')
  case (Cons n ns)
  obtain b s1 where v: "ValidateClientSeq n s = (b, s1)" by (metis surj_pair)
  obtain acc1 s2 where r: "validate_all ns s1 = (acc1, s2)" by (metis surj_pair)
  show ?case
  proof (cases "n = s_maxClientSeq s + 1")
    case True
    then have s1: "b" "s_maxClientSeq s1 = n" using v Cons.prems(2) by (auto simp: ValidateClientSeq_def Let_def)
    have n: "unat n = unat (s_maxClientSeq s) + 1" using Cons.prems(1) True by (simp add: unat_word_ariths)
    then have "n \<noteq> 0" by (metis add_is_0 one_neq_zero unat_0)
    then show ?thesis
      using Cons.IH [OF _ _ r] Cons.prems(1,3) n s1 v r True by (auto simp: consec_Cons ac_simps)
  next
    case False
    then have "\<not> b" "s1 = s" using v Cons.prems(2) by (auto simp: ValidateClientSeq_def Let_def)
    then show ?thesis using Cons.IH [OF _ _ r] Cons.prems v r by auto
  qed
qed simp

lemma validate_all_length: "validate_all ns s = (acc, s') \<Longrightarrow> length acc \<le> length ns"
  by (induction ns arbitrary: s acc s') (auto simp: le_SucI split: prod.splits if_splits)

lemma validate_zeros:
  "s_maxClientSeq s = 0 \<Longrightarrow> \<exists>s1. s_maxClientSeq s1 = 0 \<and>
     validate_all (replicate k 0 @ ns) s = (replicate k 0 @ fst (validate_all ns s1), snd (validate_all ns s1))"
proof (induction k arbitrary: s)
  case (Suc k)
  have "s_maxClientSeq (s\<lparr>s_maxClientSeq := 0\<rparr>) = 0" by simp
  from Suc.IH [OF this] show ?case using Suc.prems by (auto simp: ValidateClientSeq_def)
qed auto

text \<open>C8. On a new session the number 0 is accepted as often as it comes (the messages carrying it are not told
  apart, so they can be replayed) until another number comes; that one is accepted whatever it is, and from then on the
  accepted numbers are exactly the consecutive numbers from it, each once, in order, without a gap and without a
  replay; the session remembers the last. The numbers are fewer than would wrap around. \<close>

theorem client_seq_consecutive:
  assumes "s_maxClientSeq s = 0" "n \<noteq> 0" "unat n + length ns < 2 ^ 64"
    "validate_all (replicate k 0 @ n # ns) s = (acc, s')"
  shows "\<exists>j. acc = replicate k 0 @ consec n (Suc j) \<and> s_maxClientSeq s' = n + of_nat j \<and>
    fst (ValidateClientSeq i s') = (i = n + of_nat j + 1)"
proof -
  obtain s0 where z: "s_maxClientSeq s0 = 0"
    "acc = replicate k 0 @ fst (validate_all (n # ns) s0)" "s' = snd (validate_all (n # ns) s0)"
    using validate_zeros [OF assms(1), of k "n # ns"] assms(4) by auto
  obtain s1 where v: "ValidateClientSeq n s0 = (True, s1)" "s_maxClientSeq s1 = n"
    using z(1) by (auto simp: ValidateClientSeq_def Let_def)
  obtain acc1 s2 where r: "validate_all ns s1 = (acc1, s2)" by (metis surj_pair)
  have f: "acc1 = consec (n + 1) (length acc1)" "s_maxClientSeq s2 = n + of_nat (length acc1)"
    using validate_all_from [OF _ _ r] assms(2,3) v(2) by simp_all
  have "length acc1 \<le> length ns" using validate_all_length [OF r] .
  then have "unat (n + of_nat (length acc1)) = unat n + length acc1"
    using assms(3) by (simp add: unat_word_ariths unsigned_of_nat take_bit_nat_eq_self)
  then have "n + of_nat (length acc1) \<noteq> 0"
    using assms(2) by (metis add_is_0 unat_0 unat_eq_zero)
  then show ?thesis
    using z(2,3) v r f by (intro exI [of _ "length acc1"]) (simp add: consec_Cons ValidateClientSeq_def Let_def)
qed

theorem client_seq_consecutive_witness:
  "fst (validate_all [0, 0, 5, 7, 0, 6, 6, 7] (new_session ''s'' 0 () ''c'' ''u'' ''ip'')) = [0, 0] @ consec 5 3"
proof -
  let ?s = "new_session ''s'' 0 () ''c'' ''u'' ''ip''"
  have rep: "replicate 2 (0 :: u64) = [0, 0]" by (simp add: numeral_2_eq_2)
  obtain acc s' where v: "validate_all (replicate 2 0 @ 5 # [7, 0, 6, 6, 7]) ?s = (acc, s')" by (metis surj_pair)
  obtain j where j: "acc = [0, 0] @ consec 5 (Suc j)"
    using client_seq_consecutive [OF _ _ _ v] rep by (auto simp: new_session_def)
  moreover have "length acc = 5" using v unfolding rep by (auto simp: ValidateClientSeq_def new_session_def)
  ultimately show ?thesis using v unfolding rep by simp
qed

section \<open>The invariant\<close>

text \<open>C9. In every reachable state of the manager (the copier copies maps) the index by identifier leads to the one
  session that was created with that identifier; the index by user leads to a session that was created, though not
  always to one that is still stored or of that user (expiry and refused bindings leave entries behind); identifiers are unique; every session
  has a well-formed queue, stopped only if the session is closed, a notification table and a transport; and no session
  is ever in the state SessionClosed, so the checks against that state never fire. \<close>

theorem manager_invariant:
  assumes "mgr_reach e m" "copier_law e"
  shows "mgr_inv m \<and> distinct (map s_ID (m_store m)) \<and>
    (\<forall>sid r. GetSession sid m = Some r \<longrightarrow> r < length (m_store m) \<and> s_ID (sess_at r m) = sid) \<and>
    (\<forall>u r. GetSessionByOpenID u m = Some r \<longrightarrow> r < length (m_store m)) \<and>
    (\<forall>s \<in> set (m_store m). State s \<noteq> SessionClosed \<and> s_transport s \<noteq> None \<and> s_orderingManager s \<noteq> None \<and>
       (\<exists>q. s_orderedQueue s = Some q \<and> oq_inv q \<and> (stopped q \<longrightarrow> IsClosed s)))"
proof -
  have inv: "mgr_inv m" by (rule mgr_inv_reach [OF assms])
  have "\<forall>sid r. GetSession sid m = Some r \<longrightarrow> r < length (m_store m) \<and> s_ID (sess_at r m) = sid"
    "\<forall>u r. GetSessionByOpenID u m = Some r \<longrightarrow> r < length (m_store m)"
    using mgr_inv_D [OF inv] by (auto simp: GetSession_def GetSessionByOpenID_def)
  then show ?thesis using inv by (fastforce simp: mgr_inv_def sess_ok_def queue_ok_def State_def IsClosed_def)
qed

definition two_sessions :: "bytes manager" where
  "two_sessions =
     snd (snd (CreateOrReconnectSession toy_ext ''s2'' 1 [] ''c2'' ''bob'' ''ip''
       (snd (snd (CreateOrReconnectSession toy_ext ''s1'' 0 [] ''c1'' ''ann'' ''ip'' (NewManager 300 10 3))))))"

lemma create_unfold:
  "m_store (snd (snd (CreateOrReconnectSession toy_ext ''s1'' 0 [] ''c1'' ''ann'' ''ip'' (NewManager 300 10 3)))) =
    [new_session ''s1'' 0 [] ''c1'' ''ann'' ''ip'']"
  by (simp add: CreateOrReconnectSession_def NewManager_def reconnect_candidate_def)

lemma two_sessions_reach: "mgr_reach toy_ext two_sessions"
proof -
  let ?m1 = "snd (snd (CreateOrReconnectSession toy_ext ''s1'' 0 [] ''c1'' ''ann'' ''ip'' (NewManager 300 10 3)))"
  have "mgr_step toy_ext (NewManager 300 10 3) ?m1"
    by (rule step_create_snd) (simp add: NewManager_def)
  then have "mgr_reach toy_ext ?m1" by (rule reach_step [OF reach_New])
  moreover have "mgr_step toy_ext ?m1 two_sessions"
    unfolding two_sessions_def
    by (rule step_create_snd) (simp add: create_unfold new_session_def)
  ultimately show ?thesis by (rule reach_step)
qed

theorem manager_invariant_witness: "mgr_inv two_sessions"
  using manager_invariant [OF two_sessions_reach toy_copier] by simp

text \<open>A session keeps its identifier, and no later step takes an activated session back out of the
  normal state or reopens a closed one. \<close>

theorem session_monotone:
  assumes "mgr_reach e m" "copier_law e" "(mgr_step e)\<^sup>*\<^sup>* m m'" "r < length (m_store m)"
  shows "r < length (m_store m') \<and> s_ID (sess_at r m') = s_ID (sess_at r m) \<and>
    (IsNormal (sess_at r m) \<longrightarrow> IsNormal (sess_at r m')) \<and>
    (IsClosed (sess_at r m) \<longrightarrow> IsClosed (sess_at r m'))"
  using mgr_mono_steps [OF assms(3,2) mgr_inv_reach [OF assms(1,2)]] assms(4)
  by (auto simp: mgr_mono_def mono_sess_def IsNormal_def IsClosed_def State_def)

theorem session_monotone_witness:
  "IsClosed (sess_at 0 (manager_Stop toy_ext (RemoveSession toy_ext 5 ''s1'' two_sessions)))"
proof -
  let ?m = "RemoveSession toy_ext 5 ''s1'' two_sessions"
  have m: "mgr_reach toy_ext ?m"
    unfolding RemoveSession_def by (rule reach_step [OF two_sessions_reach step_remove])
  have "m_store ?m \<noteq> [] \<and> IsClosed (sess_at 0 ?m)" by code_simp
  moreover have "(mgr_step toy_ext)\<^sup>*\<^sup>* ?m (manager_Stop toy_ext ?m)"
    using step_stop by (rule r_into_rtranclp)
  ultimately show ?thesis using session_monotone [OF m toy_copier, of _ 0] by simp
qed

section \<open>Activation\<close>

text \<open>Activation succeeds exactly for a stored session in the initial state, records the zone, and
  cannot succeed a second time: a later login of the same session is answered by an error. \<close>

theorem activate_once:
  assumes "mgr_inv m" "m_ActivateSession sid z m = (x, m1)"
  shows "(x = None \<longleftrightarrow> (\<exists>r. GetSession sid m = Some r \<and> IsInited (sess_at r m))) \<and>
    (x = None \<longrightarrow> (\<exists>r. GetSession sid m1 = Some r \<and> IsNormal (sess_at r m1) \<and> Zone (sess_at r m1) = z) \<and>
       (\<forall>z'. m_ActivateSession sid z' m1 = (Some (ErrActivate sid), m1))) \<and>
    (x \<noteq> None \<longrightarrow> m1 = m)"
proof (cases "GetSession sid m")
  case None
  then show ?thesis using assms(2) by (auto simp: m_ActivateSession_def)
next
  case (Some r)
  have len: "r < length (m_store m)" using mgr_inv_D(1) [OF assms(1)] Some by (simp add: GetSession_def)
  show ?thesis
  proof (cases "IsInited (sess_at r m)")
    case True
    then have x: "x = None" and m1: "m1 = upd_sess r (\<lambda>_. (sess_at r m)\<lparr>s_state := SessionNormal, s_zone := z\<rparr>) m"
      using assms(2) Some by (simp_all add: m_ActivateSession_def session_ActivateSession_def IsInited_def State_def)
    have g: "GetSession sid m1 = Some r" using Some by (simp add: m1 GetSession_def)
    have s: "sess_at r m1 = (sess_at r m)\<lparr>s_state := SessionNormal, s_zone := z\<rparr>"
      by (simp add: m1 sess_at_upd len)
    have "m_ActivateSession sid z' m1 = (Some (ErrActivate sid), m1)" for z'
      by (simp add: m_ActivateSession_def g s session_ActivateSession_def)
    then show ?thesis using True Some x g s by (auto simp: IsNormal_def State_def Zone_def)
  next
    case False
    then have "x = Some (ErrActivate sid)" "m1 = m"
      using assms(2) Some by (simp_all add: m_ActivateSession_def session_ActivateSession_def IsInited_def State_def)
    then show ?thesis using False Some by auto
  qed
qed

theorem activate_once_witness:
  "fst (m_ActivateSession ''s1'' 4 two_sessions) = None"
proof -
  obtain x m1 where a: "m_ActivateSession ''s1'' 4 two_sessions = (x, m1)" by (metis surj_pair)
  have "GetSession ''s1'' two_sessions = Some 0 \<and> IsInited (sess_at 0 two_sessions)" by code_simp
  then have "x = None"
    using activate_once [OF mgr_inv_reach [OF two_sessions_reach toy_copier] a] by blast
  then show ?thesis using a by simp
qed

section \<open>Reconnection\<close>

lemma create_refused:
  assumes "CreateOrReconnectSession e uuid now t c u ip m = (r, False, m')"
    "GetSessionByOpenID u m = Some r0" "u \<noteq> []" "GetSession (s_ID (sess_at r0 m)) m = Some r0"
  shows "m_connectionDownDelay m * 2 \<le> now - s_LastActivity (sess_at r0 m)"
proof (rule ccontr)
  assume "\<not> ?thesis"
  then have "reconnect_candidate now u m = Some r0"
    using assms(2,3) by (simp add: reconnect_candidate_def GetSessionByOpenID_def)
  then show False
    using assms(1,4) by (simp add: CreateOrReconnectSession_def GetSession_def Let_def)
qed

lemma resync_new:
  "sentMessages (ResyncSequence a (NewOrderedMessageQueue sid n)) = []"
  "waitingQueue (ResyncSequence a (NewOrderedMessageQueue sid n)) = []"
  "nextExpectedSeq (ResyncSequence a (NewOrderedMessageQueue sid n)) = (if a = 0 then 1 else a + 1)"
  "stopped (ResyncSequence a (NewOrderedMessageQueue sid n)) = False"
  "sendCallback (ResyncSequence a (NewOrderedMessageQueue sid n)) = None"
  "maxQueueSize (ResyncSequence a (NewOrderedMessageQueue sid n)) = n"
proof -
  have "1 \<le> a \<longleftrightarrow> a \<noteq> 0" by (simp add: word_le_nat_alt Suc_le_eq unat_gt_0)
  then show "nextExpectedSeq (ResyncSequence a (NewOrderedMessageQueue sid n)) = (if a = 0 then 1 else a + 1)"
    by (simp add: ResyncSequence_def NewOrderedMessageQueue_def Let_def)
qed (simp_all add: ResyncSequence_def NewOrderedMessageQueue_def Let_def)

text \<open>The session a reconnection makes, from the old one.\<close>

definition resumed ::
  "'x ext \<Rightarrow> 'x session \<Rightarrow> 'x link oqueue \<Rightarrow> 'x session \<Rightarrow> 'x session \<Rightarrow> bool" where
  "resumed e old q0 new s \<longleftrightarrow>
     s = new\<lparr>s_zone := s_zone old, s_serverSeq := s_serverSeq old, s_isSuccessor := True,
             s_state := (if IsNormal old then SessionNormal else s_state new),
             s_clientAckServerSeq := s_clientAckServerSeq old, s_maxClientSeq := s_maxClientSeq old,
             s_orderedQueue := map_option (\<lambda>q. (ResyncSequence (s_clientAckServerSeq old) q)
               \<lparr>sentMessages := copier_Copy e
                  (sentMessages (ResyncSequence (s_clientAckServerSeq old) q)) (sentMessages q0)\<rparr>)
               (s_orderedQueue new)\<rparr>"

lemma again_session:
  assumes "mgr_inv m" "gm_get (m_sessionsByUID m) u = Some r0"
    "s = copy_sent e (sess_at r0 (handleOldSessionOnReconnectAtomic now r0 m))
       (InheritFrom (sess_at r0 m) (new_session uuid now t c u ip))"
  shows "\<exists>q0. s_orderedQueue (sess_at r0 m) = Some q0 \<and> sent_ok (sentMessages q0) \<and>
    resumed e (sess_at r0 m) q0 (new_session uuid now t c u ip) s"
proof -
  have r0: "r0 < length (m_store m)" "sess_ok (sess_at r0 m)"
    using mgr_inv_D(2) [OF assms(1,2)] by simp_all
  then obtain q0 where q0: "s_orderedQueue (sess_at r0 m) = Some q0" "sent_ok (sentMessages q0)"
    by (auto simp: sess_ok_def queue_ok_def oq_inv_def)
  have old: "s_orderedQueue (sess_at r0 (handleOldSessionOnReconnectAtomic now r0 m)) = Some q0"
    using r0 q0 by (simp add: handleOldSessionOnReconnectAtomic_def Let_def sess_at_def upd_sess_def SetClosed_def)
  have "resumed e (sess_at r0 m) q0 (new_session uuid now t c u ip) s"
    unfolding resumed_def assms(3)
    by (simp add: copy_sent_def old q0 InheritFrom_def Let_def new_session_def SetSuccessor_def
        SetServerSeq_def SetZone_def SetState_def Zone_def session_ServerSeq_def ClientAckServerSeq_def
        MaxClientSeq_def)
  then show ?thesis using q0 by blast
qed

text \<open>What a reconnection hands over.\<close>

lemma reconnect_facts:
  assumes "mgr_inv m" "copier_law e" "uuid \<notin> s_ID ` set (m_store m)"
    "CreateOrReconnectSession e uuid now t c u ip m = (r, True, m')" "GetSessionByOpenID u m = Some r0"
  shows "\<exists>q0 q.
      GetSession (s_ID (sess_at r0 m)) m' = None \<and> IsClosed (sess_at r0 m') \<and>
      GetSession uuid m' = Some r \<and> GetSessionByOpenID u m' = Some r \<and>
      IsNormal (sess_at r m') = IsNormal (sess_at r0 m) \<and> Zone (sess_at r m') = Zone (sess_at r0 m) \<and>
      session_ServerSeq (sess_at r m') = session_ServerSeq (sess_at r0 m) \<and>
      MaxClientSeq (sess_at r m') = MaxClientSeq (sess_at r0 m) \<and>
      ClientAckServerSeq (sess_at r m') = ClientAckServerSeq (sess_at r0 m) \<and> s_transport (sess_at r m') = Some t \<and>
      s_orderedQueue (sess_at r0 m) = Some q0 \<and> s_orderedQueue (sess_at r m') = Some q \<and>
      (\<forall>k. gm_get (sentMessages q) k = gm_get (sentMessages q0) k) \<and> waitingQueue q = [] \<and>
      nextExpectedSeq q = (if ClientAckServerSeq (sess_at r0 m) = 0 then 1 else ClientAckServerSeq (sess_at r0 m) + 1)"
  using assms(4)
proof (cases rule: create_cases)
  case (again r1 m1 s)
  then have "r1 = r0" using assms(5) by (simp add: GetSessionByOpenID_def)
  note again = again [unfolded this]
  obtain q0 where q0: "s_orderedQueue (sess_at r0 m) = Some q0" "sent_ok (sentMessages q0)"
    and s: "resumed e (sess_at r0 m) q0 (new_session uuid now t c u ip) s"
    using again_session [OF assms(1) again(4)] again(7,8) by blast
  have r0: "r0 < length (m_store m)" using mgr_inv_D(2) [OF assms(1) again(4)] by simp
  have len: "length (m_store m1) = length (m_store m)"
    by (simp add: again(7) handleOldSessionOnReconnectAtomic_def Let_def)
  have new: "sess_at r m' = s" using again(1,9) len by (simp add: sess_at_def nth_append)
  have old': "IsClosed (sess_at r0 m')"
    using again(7,9) r0 len by (simp add: sess_at_def nth_append IsClosed_def
        handleOldSessionOnReconnectAtomic_def Let_def upd_sess_def SetClosed_def)
  have "s_ID (sess_at r0 m) \<noteq> uuid" using assms(3) r0 by (auto simp: sess_at_def)
  then have gone: "GetSession (s_ID (sess_at r0 m)) m' = None"
    using again(7,9) by (simp add: GetSession_def handleOldSessionOnReconnectAtomic_def Let_def)
  have "gm_ok (sentMessages q0)" using q0(2) by (simp add: sent_ok_def)
  then have "gm_get (copier_Copy e [] (sentMessages q0)) k = gm_get (sentMessages q0) k" for k
    using assms(2) by (simp add: copier_law_def split: option.split)
  then have q: "\<exists>q. s_orderedQueue s = Some q \<and> (\<forall>k. gm_get (sentMessages q) k = gm_get (sentMessages q0) k) \<and>
      waitingQueue q = [] \<and>
      nextExpectedSeq q = (if ClientAckServerSeq (sess_at r0 m) = 0 then 1 else ClientAckServerSeq (sess_at r0 m) + 1)"
    using s by (simp add: resumed_def new_session_def resync_new ClientAckServerSeq_def)
  have idx: "GetSession uuid m' = Some r" "GetSessionByOpenID u m' = Some r" "GetSessionByOpenID u m = Some r0"
    using again(1,4,9) by (simp_all add: GetSession_def GetSessionByOpenID_def)
  have fields: "IsNormal s = IsNormal (sess_at r0 m)" "Zone s = Zone (sess_at r0 m)"
    "session_ServerSeq s = session_ServerSeq (sess_at r0 m)" "MaxClientSeq s = MaxClientSeq (sess_at r0 m)"
    "ClientAckServerSeq s = ClientAckServerSeq (sess_at r0 m)" "s_transport s = Some t"
    using s by (simp_all add: resumed_def new_session_def IsNormal_def State_def Zone_def
        session_ServerSeq_def MaxClientSeq_def ClientAckServerSeq_def)
  show ?thesis
    using q by (elim exE conjE) (rule exI [of _ q0], rule exI, intro conjI, simp_all add: idx gone old' new fields q0(1))
qed simp

lemma reconnect_iff:
  assumes "CreateOrReconnectSession e uuid now t c u ip m = (r, rc, m')"
  shows "rc \<longleftrightarrow> (\<exists>r0. u \<noteq> [] \<and> GetSessionByOpenID u m = Some r0 \<and> GetSession (s_ID (sess_at r0 m)) m = Some r0 \<and>
      now - s_LastActivity (sess_at r0 m) < m_connectionDownDelay m * 2)"
  using assms
proof (cases rule: create_cases)
  case fresh
  then have c: "CreateOrReconnectSession e uuid now t c u ip m = (r, False, m')" using assms by simp
  show ?thesis using fresh(2) create_refused [OF c] by (auto simp: not_less [symmetric])
next
  case (again r0 m1 s)
  then show ?thesis by (auto simp: GetSession_def GetSessionByOpenID_def)
qed

text \<open>C14. A connection that names a user is taken for a reconnection exactly if the index by user leads to a session
  that is still stored and was active within twice the clean-up delay (thirty seconds), even if that session is still
  connected. Then the new session takes over its login state, zone and sequence numbers; the old one is marked closed
  and leaves the index, both indices lead to the new one, the unacknowledged messages are carried over, and the new
  queue expects the number after the last acknowledged one. The manager satisfies its invariant, the new identifier
  is fresh and the copier copies maps. \<close>

theorem reconnect_inherits:
  assumes "mgr_inv m" "copier_law e" "uuid \<notin> s_ID ` set (m_store m)"
    "CreateOrReconnectSession e uuid now t c u ip m = (r, rc, m')"
  shows "(rc \<longleftrightarrow> (\<exists>r0. u \<noteq> [] \<and> GetSessionByOpenID u m = Some r0 \<and> GetSession (s_ID (sess_at r0 m)) m = Some r0 \<and>
      now - s_LastActivity (sess_at r0 m) < m_connectionDownDelay m * 2)) \<and>
    (\<forall>r0. rc \<and> GetSessionByOpenID u m = Some r0 \<longrightarrow> (\<exists>q0 q.
      GetSession (s_ID (sess_at r0 m)) m' = None \<and> IsClosed (sess_at r0 m') \<and>
      GetSession uuid m' = Some r \<and> GetSessionByOpenID u m' = Some r \<and>
      IsNormal (sess_at r m') = IsNormal (sess_at r0 m) \<and> Zone (sess_at r m') = Zone (sess_at r0 m) \<and>
      session_ServerSeq (sess_at r m') = session_ServerSeq (sess_at r0 m) \<and>
      MaxClientSeq (sess_at r m') = MaxClientSeq (sess_at r0 m) \<and>
      ClientAckServerSeq (sess_at r m') = ClientAckServerSeq (sess_at r0 m) \<and> s_transport (sess_at r m') = Some t \<and>
      s_orderedQueue (sess_at r0 m) = Some q0 \<and> s_orderedQueue (sess_at r m') = Some q \<and>
      (\<forall>k. gm_get (sentMessages q) k = gm_get (sentMessages q0) k) \<and> waitingQueue q = [] \<and>
      nextExpectedSeq q = (if ClientAckServerSeq (sess_at r0 m) = 0 then 1 else ClientAckServerSeq (sess_at r0 m) + 1)))"
proof (intro conjI allI impI)
  show "rc \<longleftrightarrow> (\<exists>r0. u \<noteq> [] \<and> GetSessionByOpenID u m = Some r0 \<and> GetSession (s_ID (sess_at r0 m)) m = Some r0 \<and>
      now - s_LastActivity (sess_at r0 m) < m_connectionDownDelay m * 2)"
    by (rule reconnect_iff [OF assms(4)])
qed (rule reconnect_facts [OF assms(1-3)]; use assms(4) in simp)

text \<open>Without such a session (no user, none stored, or the last activity too long ago) the new
  session starts afresh, both indices lead to it, and the other entries stay. \<close>

theorem create_fresh:
  assumes "CreateOrReconnectSession e uuid now t c u ip m = (r, False, m')"
  shows "sess_at r m' = new_session uuid now t c u ip \<and> GetSession uuid m' = Some r \<and>
    (u \<noteq> [] \<longrightarrow> GetSessionByOpenID u m' = Some r) \<and>
    (\<forall>sid. sid \<noteq> uuid \<longrightarrow> GetSession sid m' = GetSession sid m) \<and>
    (\<forall>u'. u' \<noteq> u \<longrightarrow> GetSessionByOpenID u' m' = GetSessionByOpenID u' m) \<and>
    (\<forall>r0. GetSessionByOpenID u m = Some r0 \<and> u \<noteq> [] \<and> GetSession (s_ID (sess_at r0 m)) m = Some r0 \<longrightarrow>
       m_connectionDownDelay m * 2 \<le> now - s_LastActivity (sess_at r0 m))"
  using assms
proof (cases rule: create_cases)
  case fresh
  show ?thesis
    using fresh create_refused [OF assms] by (auto simp: sess_at_def GetSession_def GetSessionByOpenID_def)
qed simp

text \<open>Ann comes back on a new connection while her first session is still stored.\<close>

definition ann_back :: "nat \<times> bool \<times> bytes manager" where
  "ann_back = CreateOrReconnectSession toy_ext ''s3'' 40 [1] ''c1'' ''ann'' ''ip'' two_sessions"

theorem reconnect_inherits_witness:
  "GetSessionByOpenID ''ann'' (snd (snd ann_back)) = Some 2 \<and> IsClosed (sess_at 0 (snd (snd ann_back)))"
proof -
  have f: "fst ann_back = 2 \<and> fst (snd ann_back) = True" by code_simp
  then have a: "CreateOrReconnectSession toy_ext ''s3'' 40 [1] ''c1'' ''ann'' ''ip'' two_sessions =
      (2, True, snd (snd ann_back))" by (metis ann_back_def prod.collapse)
  have "map s_ID (m_store two_sessions) = [''s1'', ''s2'']" by code_simp
  then have "s_ID ` set (m_store two_sessions) = {''s1'', ''s2''}" by (metis list.simps(15) set_map empty_set)
  then have "''s3'' \<notin> s_ID ` set (m_store two_sessions)" by simp
  from reconnect_inherits [OF mgr_inv_reach [OF two_sessions_reach toy_copier] toy_copier this a]
  have "\<forall>r0. GetSessionByOpenID ''ann'' two_sessions = Some r0 \<longrightarrow>
      IsClosed (sess_at r0 (snd (snd ann_back))) \<and> GetSessionByOpenID ''ann'' (snd (snd ann_back)) = Some 2"
    by blast
  moreover have "GetSessionByOpenID ''ann'' two_sessions = Some 0" by code_simp
  ultimately show ?thesis by simp
qed

definition ann_late :: "nat \<times> bool \<times> bytes manager" where
  "ann_late = CreateOrReconnectSession toy_ext ''s3'' (60 * Second) [1] ''c1'' ''ann'' ''ip'' two_sessions"

theorem create_fresh_witness: "GetSession ''s3'' (snd (snd ann_late)) = Some 2"
proof -
  have "fst ann_late = 2 \<and> fst (snd ann_late) = False" by code_simp
  then have "CreateOrReconnectSession toy_ext ''s3'' (60 * Second) [1] ''c1'' ''ann'' ''ip'' two_sessions =
      (2, False, snd (snd ann_late))" by (metis ann_late_def prod.collapse)
  from create_fresh [OF this] show ?thesis by simp
qed

section \<open>Removal and expiry\<close>

text \<open>Removing an open session takes it out of both indices and marks it closed, but its stream,
  connection and message queue are left as they were, and no later Close can end them, because
  the mark makes Close return at once. \<close>

theorem removal_skips_close:
  assumes "mgr_inv m" "GetSession sid m = Some r" "\<not> IsClosed (sess_at r m)"
  shows "let m' = RemoveSession e now sid m; s = sess_at r m; s' = sess_at r m' in
    GetSession sid m' = None \<and>
    (s_OpenID s \<noteq> [] \<longrightarrow> GetSessionByOpenID (s_OpenID s) m' = None) \<and>
    IsClosed s' \<and> s_orderedQueue s' = s_orderedQueue s \<and> s_transport s' = s_transport s \<and>
    session_Close e s' = s'"
proof -
  have r: "r < length (m_store m)" using mgr_inv_D(1) [OF assms(1)] assms(2) by (simp add: GetSession_def)
  let ?s = "(sess_at r m)\<lparr>s_closed := True\<rparr>"
  let ?m1 = "upd_sess r (\<lambda>_. ?s) m"
  have g: "gm_get (m_sessions m) sid = Some r" using assms(2) by (simp add: GetSession_def)
  have rm: "RemoveSession e now sid m = immediateRemoveSession e sid ?m1"
    using assms(3) by (simp add: RemoveSession_def RemoveSessionWithDelay_def g SetClosed_def IsClosed_def Let_def)
  have at1: "sess_at r ?m1 = ?s" by (simp add: sess_at_upd r)
  have "sess_at r (RemoveSession e now sid m) = session_Close e ?s"
    unfolding rm immediateRemoveSession_def
    by (simp add: g at1 Let_def sess_at_upd r) (simp add: sess_at_def upd_sess_def r)
  also have "\<dots> = ?s" by (simp add: session_Close_def)
  finally have at: "sess_at r (RemoveSession e now sid m) = ?s" .
  have "GetSession sid (RemoveSession e now sid m) = None"
    "s_OpenID (sess_at r m) \<noteq> [] \<Longrightarrow> GetSessionByOpenID (s_OpenID (sess_at r m)) (RemoveSession e now sid m) = None"
    unfolding rm by (simp_all add: immediateRemoveSession_def g at1 Let_def GetSession_def GetSessionByOpenID_def)
  then show ?thesis by (simp add: Let_def at IsClosed_def session_Close_def)
qed

theorem removal_skips_close_witness:
  "let s' = sess_at 0 (RemoveSession toy_ext 9 ''s1'' two_sessions)
   in IsClosed s' \<and> map_option stopped (s_orderedQueue s') = Some False"
proof -
  have "GetSession ''s1'' two_sessions = Some 0 \<and> \<not> IsClosed (sess_at 0 two_sessions) \<and>
    map_option stopped (s_orderedQueue (sess_at 0 two_sessions)) = Some False" by code_simp
  then show ?thesis
    using removal_skips_close [OF mgr_inv_reach [OF two_sessions_reach toy_copier], of "''s1''" 0 toy_ext 9]
    by (simp add: Let_def)
qed

lemma expire_fold:
  assumes "mgr_inv m"
  shows "m_sessionsByUID (fold (expire_one e) ids m) = m_sessionsByUID m"
    "GetSession sid (fold (expire_one e) ids m) = (if sid \<in> set ids then None else GetSession sid m)"
    "r < length (m_store m) \<Longrightarrow> sess_at r (fold (expire_one e) ids m) =
       (if \<exists>sid \<in> set ids. gm_get (m_sessions m) sid = Some r then session_Close e (sess_at r m) else sess_at r m)"
proof -
  have close2: "session_Close e (session_Close e s) = session_Close e s" for s :: "'a session"
    by (simp add: session_Close_def)
  have "m_sessionsByUID (fold (expire_one e) ids m) = m_sessionsByUID m \<and>
    GetSession sid (fold (expire_one e) ids m) = (if sid \<in> set ids then None else GetSession sid m) \<and>
    (r < length (m_store m) \<longrightarrow> sess_at r (fold (expire_one e) ids m) =
       (if \<exists>sid \<in> set ids. gm_get (m_sessions m) sid = Some r then session_Close e (sess_at r m) else sess_at r m))"
    using assms
  proof (induction ids arbitrary: m)
    case (Cons i ids)
    have inv: "mgr_inv (expire_one e i m)" using Cons.prems by (rule mgr_inv_expire_one)
    show ?case
    proof (cases "gm_get (m_sessions m) i")
      case None
      then have "expire_one e i m = m" by (simp add: expire_one_def)
      then show ?thesis using Cons.IH [OF Cons.prems] None by (auto simp: GetSession_def)
    next
      case (Some r1)
      have x: "expire_one e i m = upd_sess r1 (session_Close e) (m\<lparr>m_sessions := gm_del i (m_sessions m)\<rparr>)"
        by (simp add: expire_one_def Some)
      have at: "sess_at r' (expire_one e i m) = (if r' = r1 then session_Close e (sess_at r' m) else sess_at r' m)"
        if "r' < length (m_store m)" for r'
        using that mgr_inv_D(1) [OF Cons.prems Some] by (simp add: x sess_at_upd) (simp add: sess_at_def)
      have len: "length (m_store (expire_one e i m)) = length (m_store m)"
        and byu: "m_sessionsByUID (expire_one e i m) = m_sessionsByUID m"
        and ses: "m_sessions (expire_one e i m) = gm_del i (m_sessions m)"
        by (simp_all add: x)
      have "r < length (m_store m) \<longrightarrow> sess_at r (fold (expire_one e) ids (expire_one e i m)) =
       (if \<exists>sid \<in> set (i # ids). gm_get (m_sessions m) sid = Some r then session_Close e (sess_at r m) else sess_at r m)"
        using Cons.IH [OF inv] at [of r] close2 Some by (auto simp: len ses split: if_splits)
      then show ?thesis using Cons.IH [OF inv] byu ses by (auto simp: GetSession_def)
    qed
  qed simp
  then show "m_sessionsByUID (fold (expire_one e) ids m) = m_sessionsByUID m"
    "GetSession sid (fold (expire_one e) ids m) = (if sid \<in> set ids then None else GetSession sid m)"
    "r < length (m_store m) \<Longrightarrow> sess_at r (fold (expire_one e) ids m) =
       (if \<exists>sid \<in> set ids. gm_get (m_sessions m) sid = Some r then session_Close e (sess_at r m) else sess_at r m)"
    by blast+
qed

text \<open>Expiry removes exactly the sessions whose last activity is longer ago than the timeout, and
  closes each of them, queue and connection included; but the index by user keeps leading to them,
  so a lookup by user still finds a session that a lookup by identifier does not. \<close>

theorem expiry_exact:
  assumes "mgr_inv m" "GetSession sid m = Some r"
  shows "let m' = removeExpiredSessions e now m in
    GetSession sid m' = (if IsExpired now (m_sessionTimeout m) (sess_at r m) then None else Some r) \<and>
    sess_at r m' = (if IsExpired now (m_sessionTimeout m) (sess_at r m) then session_Close e (sess_at r m)
                    else sess_at r m) \<and>
    (\<forall>u. GetSessionByOpenID u m' = GetSessionByOpenID u m)"
proof -
  have g: "gm_get (m_sessions m) sid = Some r" and ok: "gm_ok (m_sessions m)"
    using assms by (simp_all add: GetSession_def mgr_inv_def)
  have r: "r < length (m_store m)" "s_ID (sess_at r m) = sid" using mgr_inv_D(1) [OF assms(1) g] by simp_all
  have in_ids: "sid' \<in> set (expired_ids now m) \<longleftrightarrow>
      (\<exists>r'. gm_get (m_sessions m) sid' = Some r' \<and> IsExpired now (m_sessionTimeout m) (sess_at r' m))" for sid'
    using gm_get_in [OF ok] by (force simp: expired_ids_def)
  have "(\<exists>sid' \<in> set (expired_ids now m). gm_get (m_sessions m) sid' = Some r) \<longleftrightarrow>
      IsExpired now (m_sessionTimeout m) (sess_at r m)"
    using in_ids g mgr_inv_D(1) [OF assms(1)] by auto
  then show ?thesis
    using expire_fold [where e = e and ids = "expired_ids now m", OF assms(1)] r in_ids [of sid] g
    by (auto simp: Let_def removeExpiredSessions_def GetSession_def GetSessionByOpenID_def)
qed

theorem expiry_exact_witness:
  "GetSession ''s1'' (removeExpiredSessions toy_ext 301 two_sessions) = None \<and>
   GetSessionByOpenID ''ann'' (removeExpiredSessions toy_ext 301 two_sessions) = Some 0"
proof -
  have "GetSession ''s1'' two_sessions = Some 0 \<and> IsExpired 301 (m_sessionTimeout two_sessions) (sess_at 0 two_sessions) \<and>
    GetSessionByOpenID ''ann'' two_sessions = Some 0" by code_simp
  then show ?thesis
    using expiry_exact [OF mgr_inv_reach [OF two_sessions_reach toy_copier], of "''s1''" 0 toy_ext 301]
    by (simp add: Let_def)
qed

text \<open>The index by user is not safe against a refused binding: a session that announces the user
  of another live session is refused, but it keeps the announced name, and its own removal then
  deletes the other session's entry, so that live user can no longer be found by name. \<close>

theorem refused_binding_unindexes:
  assumes "mgr_inv m" "GetSessionByOpenID u m = Some rA" "GetSession (s_ID (sess_at rA m)) m = Some rA"
    "GetSession sidB m = Some rB" "rA \<noteq> rB" "u \<noteq> []"
  shows "let m1 = upd_sess rB (\<lambda>s. s\<lparr>s_OpenID := u, s_ClientID := c\<rparr>) m;
             m2 = RemoveSession e now sidB (snd (BindSession rB m1)) in
    fst (BindSession rB m1) = Some (ErrOpenIDTaken u (s_ID (sess_at rA m))) \<and>
    GetSessionByOpenID u m2 = None \<and>
    GetSession (s_ID (sess_at rA m)) m2 = Some rA \<and> sess_at rA m2 = sess_at rA m"
proof -
  let ?f = "\<lambda>s. s\<lparr>s_OpenID := u, s_ClientID := c\<rparr>"
  let ?m1 = "upd_sess rB ?f m"
  have rB: "rB < length (m_store m)" "s_ID (sess_at rB m) = sidB"
    using mgr_inv_D(1) [OF assms(1)] assms(4) by (simp_all add: GetSession_def)
  have rA: "rA < length (m_store m)" using mgr_inv_D(2) [OF assms(1)] assms(2) by (simp add: GetSessionByOpenID_def)
  have ids: "s_ID (sess_at rA m) \<noteq> sidB"
    using assms(3,4,5) by (auto simp: GetSession_def)
  have atB: "sess_at rB ?m1 = ?f (sess_at rB m)" and atA: "sess_at rA ?m1 = sess_at rA m"
    using rB assms(5) by (simp_all add: sess_at_upd)
  have bind: "BindSession rB ?m1 = (Some (ErrOpenIDTaken u (s_ID (sess_at rA m))), ?m1)"
    using assms(2,6) ids rB by (simp add: BindSession_def atB atA GetSessionByOpenID_def Let_def)
  have g: "gm_get (m_sessions m) sidB = Some rB" using assms(4) by (simp add: GetSession_def)
  let ?m2 = "upd_sess rB (\<lambda>_. snd (SetClosed (?f (sess_at rB m)))) ?m1"
  have at2: "s_OpenID (sess_at rB ?m2) = u" using rB by (simp add: sess_at_upd SetClosed_def)
  have rm: "RemoveSession e now sidB ?m1 = immediateRemoveSession e sidB ?m2"
    by (simp add: RemoveSession_def RemoveSessionWithDelay_def g atB case_prod_beta Let_def)
  have "GetSessionByOpenID u (RemoveSession e now sidB ?m1) = None"
    "GetSession (s_ID (sess_at rA m)) (RemoveSession e now sidB ?m1) = Some rA"
    unfolding rm using assms(3,5,6) ids
    by (simp_all add: immediateRemoveSession_def g at2 Let_def GetSession_def GetSessionByOpenID_def)
  moreover have "sess_at rA (RemoveSession e now sidB ?m1) = sess_at rA m"
    unfolding rm using assms(5) by (simp add: immediateRemoveSession_def g Let_def sess_at_def upd_sess_def)
  ultimately show ?thesis by (simp add: Let_def bind)
qed

theorem refused_binding_unindexes_witness:
  "GetSessionByOpenID ''ann'' (RemoveSession toy_ext 9 ''s2''
     (snd (BindSession 1 (upd_sess 1 (\<lambda>s. s\<lparr>s_OpenID := ''ann'', s_ClientID := ''x''\<rparr>) two_sessions)))) = None"
proof -
  have "GetSessionByOpenID ''ann'' two_sessions = Some 0 \<and>
    GetSession (s_ID (sess_at 0 two_sessions)) two_sessions = Some 0 \<and>
    GetSession ''s2'' two_sessions = Some 1" by code_simp
  then show ?thesis
    using refused_binding_unindexes [OF mgr_inv_reach [OF two_sessions_reach toy_copier],
        of "''ann''" 0 "''s2''" 1 "''x''" toy_ext 9]
    by (simp add: Let_def)
qed

end
