(* ===== verification/Ordered_Sender.thy ===== *)
theory Ordered_Sender
  imports Manager_Props
begin

text \<open>
  \<open>internal/gateway/ordered_sender.go\<close>: the gateway's sender. It takes the session's next server
  sequence number, encodes the message and puts it into the session's ordered queue, whose callback
  frames it and writes it to the stream. The functions work on one session and the metrics.
\<close>

section \<open>Operations\<close>

text \<open>The send callback. A nil stream cannot occur (\<open>sess_ok\<close>); it is an error here.\<close>

definition oms_sendMessageDirectly :: "'x ext \<Rightarrow> 'x link \<Rightarrow> omsg \<Rightarrow> 'x link \<times> err option" where
  "oms_sendMessageDirectly e l m =
     (if lk_closed l then (l, Some ErrSessionClosed)
      else (case lk_transport l of
              None \<Rightarrow> (l, Some ErrStreamNil)
            | Some t \<Rightarrow>
                (case WriteMessage (stream_Write e) t (Data m) of
                   (t', Some x) \<Rightarrow>
                     (l\<lparr>lk_transport := Some t', lk_metrics := IncError ''send_error'' (lk_metrics l)\<rparr>,
                      Some (ErrWrap ''sendMessageDirectly'' x))
                 | (t', None) \<Rightarrow>
                     (l\<lparr>lk_transport := Some t',
                        lk_metrics := AddThroughput ''outbound'' (int (length (Data m))) (lk_metrics l)\<rparr>,
                      None))))"

definition ensure_callback :: "'x ext \<Rightarrow> 'x link oqueue \<Rightarrow> 'x link oqueue" where
  "ensure_callback e q =
     (case GetSendCallback q of
        None \<Rightarrow> SetSendCallback (Some (oms_sendMessageDirectly e)) q
      | Some _ \<Rightarrow> q)"

definition SendOrderedMessage ::
  "'x ext \<Rightarrow> time \<Rightarrow> server_push \<Rightarrow> 'x session \<Rightarrow> metrics \<Rightarrow> err option \<times> 'x session \<times> metrics" where
  "SendOrderedMessage e now push s ms =
     (case NewServerSeq s of
        (serverSeq, s1) \<Rightarrow>
          let push1 = push\<lparr>sp_SeqId := serverSeq\<rparr> in
          (case EncodeServerPush (pb e) push1 of
             Inl x \<Rightarrow> (Some (ErrWrap ''SendOrderedMessage: encode'' x), s1, IncError ''encode_error'' ms)
           | Inr data \<Rightarrow>
               (case GetOrderedQueue s1 of
                  None \<Rightarrow> (Some (ErrQueueUninit (s_ID s1)), s1, ms)
                | Some q \<Rightarrow>
                    (case session_Enqueue serverSeq push1 data now (ensure_callback e q)
                        (s1\<lparr>s_orderedQueue := Some (ensure_callback e q)\<rparr>) ms of
                       (Some x, s2, ms2) \<Rightarrow> (Some (ErrWrap ''SendOrderedMessage: enqueue'' x), s2, ms2)
                     | (None, s2, ms2) \<Rightarrow> (None, s2, ms2)))))"

definition SendHeartbeatResponse ::
  "'x ext \<Rightarrow> time \<Rightarrow> u32 \<Rightarrow> int \<Rightarrow> 'x session \<Rightarrow> metrics \<Rightarrow> err option \<times> 'x session \<times> metrics" where
  "SendHeartbeatResponse e now msgID clientTimestamp s ms =
     SendOrderedMessage e now (CreateHeartbeatResponse (pb e) now msgID 0 clientTimestamp) s ms"

definition SendBusinessResponse ::
  "'x ext \<Rightarrow> time \<Rightarrow> u32 \<Rightarrow> int \<Rightarrow> msgtext \<Rightarrow> bytes \<Rightarrow> headers \<Rightarrow> 'x session \<Rightarrow> metrics \<Rightarrow>
     err option \<times> 'x session \<times> metrics" where
  "SendBusinessResponse e now msgID code message data hs s ms =
     SendOrderedMessage e now
       ((CreateBusinessResponse (pb e) msgID 0 code message data)\<lparr>sp_Headers := hs\<rparr>) s ms"

definition SendErrorResponse ::
  "'x ext \<Rightarrow> time \<Rightarrow> u32 \<Rightarrow> int \<Rightarrow> msgtext \<Rightarrow> msgtext \<Rightarrow> 'x session \<Rightarrow> metrics \<Rightarrow>
     err option \<times> 'x session \<times> metrics" where
  "SendErrorResponse e now msgID code message detail s ms =
     SendOrderedMessage e now (CreateErrorMessage (pb e) msgID 0 code message detail) s ms"

text \<open>\<open>SendStartResponse\<close> ignores its error argument: the response carries none.\<close>

definition SendStartResponse ::
  "'x ext \<Rightarrow> time \<Rightarrow> u32 \<Rightarrow> bool \<Rightarrow> err option \<Rightarrow> int \<Rightarrow> string \<Rightarrow> 'x session \<Rightarrow> metrics \<Rightarrow>
     err option \<times> 'x session \<times> metrics" where
  "SendStartResponse e now msgID success x heartbeatInterval connectionID s ms =
     SendOrderedMessage e now
       (CreateStartResponse (pb e) msgID 0 success None heartbeatInterval connectionID) s ms"

definition PushBusinessData ::
  "'x ext \<Rightarrow> time \<Rightarrow> bytes \<Rightarrow> 'x session \<Rightarrow> metrics \<Rightarrow> err option \<times> 'x session \<times> metrics" where
  "PushBusinessData e now data s ms =
     SendOrderedMessage e now
       \<lparr>sp_MsgId = 0, sp_SeqId = 0, sp_Type = PUSH_BUSINESS_DATA, sp_Payload = data, sp_Headers = []\<rparr> s ms"

definition sender_GetQueueStats :: "'x session \<Rightarrow> queue_stats option" where
  "sender_GetQueueStats s = map_option GetQueueStats (GetOrderedQueue s)"

definition ResyncSessionSequence :: "u64 \<Rightarrow> 'x session \<Rightarrow> 'x session" where
  "ResyncSessionSequence ack s =
     (case GetOrderedQueue s of
        None \<Rightarrow> s
      | Some q \<Rightarrow> s\<lparr>s_orderedQueue := Some (ResyncSequence ack q)\<rparr>)"

section \<open>A session whose queue is in step\<close>

text \<open>The number the session gives out next is the one the queue expects, and nothing waits.\<close>

definition in_step :: "'x ext \<Rightarrow> 'x link oqueue \<Rightarrow> 'x session \<Rightarrow> bool" where
  "in_step e q s \<longleftrightarrow> s_orderedQueue s = Some q \<and> \<not> stopped q \<and> 0 < maxQueueSize q \<and>
     waitingQueue q = [] \<and> nextExpectedSeq q = s_serverSeq s + 1 \<and>
     sendCallback q \<in> {None, Some (oms_sendMessageDirectly e)}"

text \<open>The frame of a message on the wire.\<close>

definition frame :: "bytes \<Rightarrow> bytes" where
  "frame d = put_be32 (of_nat (length d)) @ d"

lemma ensure_callback_simps:
  "stopped (ensure_callback e q) = stopped q" "maxQueueSize (ensure_callback e q) = maxQueueSize q"
  "waitingQueue (ensure_callback e q) = waitingQueue q" "sentMessages (ensure_callback e q) = sentMessages q"
  "nextExpectedSeq (ensure_callback e q) = nextExpectedSeq q"
  "sendCallback q \<in> {None, Some (oms_sendMessageDirectly e)} \<Longrightarrow>
    sendCallback (ensure_callback e q) = Some (oms_sendMessageDirectly e)"
  by (auto simp: ensure_callback_def GetSendCallback_def SetSendCallback_def split: option.splits)

lemma encode_size: "EncodeServerPush p x = Inr d \<Longrightarrow> length d \<le> MaxMessageSize"
  by (auto simp: EncodeServerPush_def not_less split: sum.splits if_splits)

text \<open>A send in step: the number is used, the frame is written once, the message awaits its
  acknowledgement, and the session is in step again.\<close>

lemma send_in_step:
  assumes st: "in_step e q s" and closed: "\<not> s_closed s" and t: "s_transport s = Some t"
    and enc: "EncodeServerPush (pb e) (push\<lparr>sp_SeqId := s_serverSeq s + 1\<rparr>) = Inr d"
    and wr: "stream_Write e t (frame d) = (t', None)"
  shows "\<exists>q' s'. SendOrderedMessage e now push s ms =
      (None, s', AddThroughput ''outbound'' (int (length d)) ms) \<and>
    s' = s\<lparr>s_serverSeq := s_serverSeq s + 1, s_transport := Some t', s_orderedQueue := Some q'\<rparr> \<and>
    in_step e q' s' \<and>
    gm_get (sentMessages q') = (gm_get (sentMessages q))(s_serverSeq s + 1 \<mapsto>
      \<lparr>ServerSeq = s_serverSeq s + 1, Push = push\<lparr>sp_SeqId := s_serverSeq s + 1\<rparr>, Data = d, Timestamp = now,
       Retries = 0, Sent = True\<rparr>)"
proof -
  let ?n = "s_serverSeq s + 1"
  let ?qc = "ensure_callback e q"
  let ?m = "\<lparr>ServerSeq = ?n, Push = push\<lparr>sp_SeqId := ?n\<rparr>, Data = d, Timestamp = now, Retries = 0, Sent = False\<rparr>"
  let ?s1 = "s\<lparr>s_serverSeq := ?n, s_orderedQueue := Some ?qc\<rparr>"
  let ?l = "session_link ?s1 ms"
  let ?l' = "?l\<lparr>lk_transport := Some t', lk_metrics := AddThroughput ''outbound'' (int (length d)) ms\<rparr>"
  let ?q' = "mark_sent ?m ?qc"
  have cb: "sendCallback ?qc = Some (oms_sendMessageDirectly e)"
    using st by (intro ensure_callback_simps(6)) (simp add: in_step_def)
  have "\<not> MaxMessageSize < length d" using encode_size [OF enc] by simp
  then have send: "oq_sendMessageDirectly ?qc ?l ?m = (?l', None)"
    using closed t wr by (simp add: oq_sendMessageDirectly_def cb oms_sendMessageDirectly_def session_link_def
        WriteMessage_def frame_def)
  have "\<not> top_is_next ?q'" using st by (simp add: top_is_next_def in_step_def ensure_callback_simps)
  then have "EnqueueMessage ?n (push\<lparr>sp_SeqId := ?n\<rparr>) d now ?qc ?l = (None, ?q', ?l')"
    using st send by (simp add: EnqueueMessage_def in_step_def ensure_callback_simps process_stop)
  then have "SendOrderedMessage e now push s ms =
      (None, (put_link ?l' ?s1)\<lparr>s_orderedQueue := Some ?q'\<rparr>, lk_metrics ?l')"
    using st enc by (simp add: SendOrderedMessage_def NewServerSeq_def GetOrderedQueue_def in_step_def
        session_Enqueue_def)
  moreover have "(put_link ?l' ?s1)\<lparr>s_orderedQueue := Some ?q'\<rparr> =
      s\<lparr>s_serverSeq := ?n, s_transport := Some t', s_orderedQueue := Some ?q'\<rparr>"
    by (simp add: put_link_def session_link_def)
  moreover have "in_step e ?q' (s\<lparr>s_serverSeq := ?n, s_transport := Some t', s_orderedQueue := Some ?q'\<rparr>)"
    using st cb by (simp add: in_step_def ensure_callback_simps)
  moreover have "gm_get (sentMessages ?q') = (gm_get (sentMessages q))(?n \<mapsto> ?m\<lparr>Sent := True\<rparr>)"
    by (simp add: fun_eq_iff ensure_callback_simps)
  ultimately show ?thesis by fastforce
qed

section \<open>A session that lost a number\<close>

text \<open>The queue waits for a number the session has already given out and will not give out again.\<close>

definition stuck :: "'x session \<Rightarrow> bool" where
  "stuck s \<longleftrightarrow> (\<exists>q. s_orderedQueue s = Some q \<and> nextExpectedSeq q \<le> s_serverSeq s)"

lemma send_stuck:
  assumes "stuck s" "s_serverSeq s \<noteq> - 1"
    "EncodeServerPush (pb e) (push\<lparr>sp_SeqId := s_serverSeq s + 1\<rparr>) = Inr d"
    "SendOrderedMessage e now push s ms = (r, s', ms')"
  shows "s_transport s' = s_transport s \<and> ms' = ms \<and> stuck s' \<and> s_serverSeq s' = s_serverSeq s + 1 \<and>
    (\<forall>q. s_orderedQueue s = Some q \<and> \<not> stopped q \<and> int (length (waitingQueue q)) < maxQueueSize q \<longrightarrow>
       r = None \<and> (\<exists>q'. s_orderedQueue s' = Some q' \<and> \<not> stopped q' \<and> maxQueueSize q' = maxQueueSize q \<and>
         length (waitingQueue q') = Suc (length (waitingQueue q))))"
proof -
  let ?n = "s_serverSeq s + 1"
  obtain q where q: "s_orderedQueue s = Some q" "nextExpectedSeq q \<le> s_serverSeq s"
    using assms(1) by (auto simp: stuck_def)
  let ?qc = "ensure_callback e q"
  let ?s1 = "s\<lparr>s_serverSeq := ?n, s_orderedQueue := Some ?qc\<rparr>"
  let ?m = "\<lparr>ServerSeq = ?n, Push = push\<lparr>sp_SeqId := ?n\<rparr>, Data = d, Timestamp = now, Retries = 0, Sent = False\<rparr>"
  have gt: "nextExpectedSeq q < ?n" using q(2) word_less_Suc [OF assms(2)] by simp
  obtain x q2 l where enq: "EnqueueMessage ?n (push\<lparr>sp_SeqId := ?n\<rparr>) d now ?qc (session_link ?s1 ms) = (x, q2, l)"
    by (metis surj_pair)
  have l: "l = session_link ?s1 ms" and q2: "q2 = ?qc \<or> q2 = ?qc\<lparr>waitingQueue := mq_Push ?m (waitingQueue ?qc)\<rparr>"
    and acc: "\<not> stopped q \<Longrightarrow> int (length (waitingQueue q)) < maxQueueSize q \<Longrightarrow>
      x = None \<and> q2 = ?qc\<lparr>waitingQueue := mq_Push ?m (waitingQueue ?qc)\<rparr>"
    using enq gt by (auto simp: EnqueueMessage_def ensure_callback_simps Let_def split: if_splits)
  have s': "s' = (put_link l ?s1)\<lparr>s_orderedQueue := Some q2\<rparr>" "ms' = lk_metrics l" "x = None \<longleftrightarrow> r = None"
    using assms(3,4) q(1) enq
    by (auto simp: SendOrderedMessage_def NewServerSeq_def GetOrderedQueue_def session_Enqueue_def
        split: option.splits)
  have "nextExpectedSeq q2 = nextExpectedSeq q" using q2 by (auto simp: ensure_callback_simps)
  then have "stuck s'"
    using gt by (simp add: stuck_def s' l put_link_def session_link_def)
  then show ?thesis
    using s' acc q(1) by (simp add: l put_link_def session_link_def ensure_callback_simps)
qed

section \<open>Sequences of sends\<close>

fun send_all ::
  "'x ext \<Rightarrow> time \<Rightarrow> server_push list \<Rightarrow> 'x session \<Rightarrow> metrics \<Rightarrow> err option list \<times> 'x session \<times> metrics" where
  "send_all e now [] s ms = ([], s, ms)"
| "send_all e now (p # ps) s ms =
     (case SendOrderedMessage e now p s ms of
        (r, s1, ms1) \<Rightarrow> (case send_all e now ps s1 ms1 of (rs, s2, ms2) \<Rightarrow> (r # rs, s2, ms2)))"

text \<open>The encodings of the messages under the numbers they get.\<close>

fun encodings :: "protobuf \<Rightarrow> u64 \<Rightarrow> server_push list \<Rightarrow> bytes list \<Rightarrow> bool" where
  "encodings p n [] ds = (ds = [])"
| "encodings p n (x # xs) ds =
     (case ds of
        [] \<Rightarrow> False
      | d # ds' \<Rightarrow> EncodeServerPush p (x\<lparr>sp_SeqId := n\<rparr>) = Inr d \<and> encodings p (n + 1) xs ds')"

definition writes_ok :: "'x ext \<Rightarrow> ('x \<Rightarrow> bytes \<Rightarrow> 'x) \<Rightarrow> bool" where
  "writes_ok e w \<longleftrightarrow> (\<forall>t d. stream_Write e t d = (w t d, None))"

lemma send_all_in_step:
  assumes "writes_ok e w" "in_step e q s" "\<not> s_closed s" "s_transport s = Some t"
    "encodings (pb e) (s_serverSeq s + 1) ps ds" "send_all e now ps s ms = (rs, s', ms')"
  shows "\<exists>q'. in_step e q' s' \<and> s_transport s' = Some (foldl w t (map frame ds)) \<and>
    s_serverSeq s' = s_serverSeq s + of_nat (length ps) \<and> rs = replicate (length ps) None \<and> \<not> s_closed s' \<and>
    s_orderingManager s' = s_orderingManager s"
  using assms(2-)
proof (induction ps arbitrary: q s t ds rs ms s' ms')
  case (Cons p ps)
  obtain d ds' where ds: "ds = d # ds'" "EncodeServerPush (pb e) (p\<lparr>sp_SeqId := s_serverSeq s + 1\<rparr>) = Inr d"
    "encodings (pb e) (s_serverSeq s + 1 + 1) ps ds'"
    using Cons.prems(4) by (auto split: list.splits)
  have "stream_Write e t (frame d) = (w t (frame d), None)" using assms(1) by (simp add: writes_ok_def)
  from send_in_step [OF Cons.prems(1-3) ds(2) this]
  obtain q1 s1 where s1: "SendOrderedMessage e now p s ms = (None, s1, AddThroughput ''outbound'' (int (length d)) ms)"
    "s1 = s\<lparr>s_serverSeq := s_serverSeq s + 1, s_transport := Some (w t (frame d)), s_orderedQueue := Some q1\<rparr>"
    "in_step e q1 s1"
    by blast
  obtain rs2 s2 ms2 where rest:
    "send_all e now ps s1 (AddThroughput ''outbound'' (int (length d)) ms) = (rs2, s2, ms2)" by (metis surj_pair)
  have "rs = None # rs2" "s' = s2" "ms' = ms2" using Cons.prems(5) s1(1) rest by simp_all
  then show ?case
    using Cons.IH [OF s1(3) _ _ _ rest, of "w t (frame d)" ds'] Cons.prems(2) ds s1(2) by (auto simp: ac_simps)
qed (auto)

lemma new_in_step: "in_step e (NewOrderedMessageQueue sid 1000) (new_session sid now t c u ip)"
  by (simp add: in_step_def new_session_def NewOrderedMessageQueue_def)

text \<open>C10. On a new session whose stream accepts writes, every message handed to the sender is written at
  once, framed, in the order of the calls, with the consecutive server numbers from 1 on, and every
  call reports success. \<close>

theorem sender_writes_in_order:
  assumes "writes_ok e w" "encodings (pb e) 1 ps ds"
    "send_all e now ps (new_session sid now0 t c u ip) ms = (rs, s', ms')"
  shows "s_transport s' = Some (foldl w t (map frame ds)) \<and> session_ServerSeq s' = of_nat (length ps) \<and>
    rs = replicate (length ps) None"
  using send_all_in_step [OF assms(1) new_in_step _ _ _ assms(3), of t ds] assms(2)
  by (auto simp: new_session_def session_ServerSeq_def)

definition push_n :: "u32 \<Rightarrow> server_push" where
  "push_n n = new_push n 0 PUSH_BUSINESS_DATA []"

theorem sender_writes_in_order_witness:
  "s_transport (fst (snd (send_all toy_ext 5 [push_n 7, push_n 9] (new_session ''s'' 0 [] ''c'' ''u'' ''ip'') []))) =
    Some (frame (put_be32 7) @ frame (put_be32 9))"
proof -
  let ?s = "new_session ''s'' 0 [] ''c'' ''u'' ''ip''"
  obtain rs s' ms' where r: "send_all toy_ext 5 [push_n 7, push_n 9] ?s [] = (rs, s', ms')" by (metis surj_pair)
  have w: "writes_ok toy_ext (@)" by (simp add: writes_ok_def toy_ext_def pipe_def)
  have "encodings (pb toy_ext) 1 [push_n 7, push_n 9] [put_be32 7, put_be32 9]"
    by (simp add: toy_ext_def toy_pb_def EncodeServerPush_def push_n_def new_push_def MaxMessageSize_def)
  from sender_writes_in_order [OF w this r] show ?thesis using r by simp
qed

lemma failed_send_stuck:
  assumes "in_step e q s" "s_serverSeq s \<noteq> - 1" "SendOrderedMessage e now push s ms = (Some x, s', ms')"
  shows "stuck s' \<and> s_serverSeq s' = s_serverSeq s + 1 \<and>
    (\<exists>q'. s_orderedQueue s' = Some q' \<and> \<not> stopped q' \<and> waitingQueue q' = [] \<and> maxQueueSize q' = maxQueueSize q)"
proof -
  let ?n = "s_serverSeq s + 1"
  let ?qc = "ensure_callback e q"
  let ?s1 = "s\<lparr>s_serverSeq := ?n, s_orderedQueue := Some ?qc\<rparr>"
  have q: "s_orderedQueue s = Some q" "nextExpectedSeq q = ?n" "\<not> stopped q" "waitingQueue q = []"
    "0 < maxQueueSize q"
    using assms(1) by (simp_all add: in_step_def)
  show ?thesis
  proof (cases "EncodeServerPush (pb e) (push\<lparr>sp_SeqId := ?n\<rparr>)")
    case (Inl y)
    then show ?thesis
      using assms(3) q by (auto simp: SendOrderedMessage_def NewServerSeq_def stuck_def)
  next
    case (Inr d)
    let ?m = "\<lparr>ServerSeq = ?n, Push = push\<lparr>sp_SeqId := ?n\<rparr>, Data = d, Timestamp = now, Retries = 0, Sent = False\<rparr>"
    obtain l y where send: "oq_sendMessageDirectly ?qc (session_link ?s1 ms) ?m = (l, y)" by (metis surj_pair)
    show ?thesis
    proof (cases y)
      case None
      have "\<not> top_is_next (mark_sent ?m ?qc)"
        using q by (simp add: top_is_next_def ensure_callback_simps)
      then have "fst (SendOrderedMessage e now push s ms) = None"
        using q Inr send None by (simp add: SendOrderedMessage_def NewServerSeq_def GetOrderedQueue_def
            session_Enqueue_def EnqueueMessage_def ensure_callback_simps process_stop)
      then show ?thesis using assms(3) by simp
    next
      case (Some z)
      then have "s' = (put_link l ?s1)\<lparr>s_orderedQueue := Some ?qc\<rparr>"
        using assms(3) q Inr send by (simp add: SendOrderedMessage_def NewServerSeq_def GetOrderedQueue_def
            session_Enqueue_def EnqueueMessage_def ensure_callback_simps)
      then show ?thesis using q by (simp add: stuck_def put_link_def ensure_callback_simps)
    qed
  qed
qed

section \<open>Silence\<close>

text \<open>What the gateway and the client do to a session: a send, or an acknowledgement (\<open>handleAck\<close>
  acknowledges and resynchronises).\<close>

datatype talk = TSend server_push | TAck u64

definition session_ack :: "u64 \<Rightarrow> 'x session \<Rightarrow> 'x session" where
  "session_ack a s =
     ResyncSessionSequence a
       (case s_orderedQueue s of None \<Rightarrow> s | Some q \<Rightarrow> s\<lparr>s_orderedQueue := Some (snd (oq_AckMessagesUpTo a q))\<rparr>)"

fun talk_all ::
  "'x ext \<Rightarrow> time \<Rightarrow> talk list \<Rightarrow> 'x session \<Rightarrow> metrics \<Rightarrow> err option list \<times> 'x session \<times> metrics" where
  "talk_all e now [] s ms = ([], s, ms)"
| "talk_all e now (TSend p # xs) s ms =
     (case SendOrderedMessage e now p s ms of
        (r, s1, ms1) \<Rightarrow> (case talk_all e now xs s1 ms1 of (rs, s2, ms2) \<Rightarrow> (r # rs, s2, ms2)))"
| "talk_all e now (TAck a # xs) s ms = talk_all e now xs (session_ack a s) ms"

fun acks_below :: "u64 \<Rightarrow> talk list \<Rightarrow> bool" where
  "acks_below n [] = True"
| "acks_below n (TSend p # xs) = acks_below n xs"
| "acks_below n (TAck a # xs) = (a < n \<and> acks_below n xs)"

fun sends :: "talk list \<Rightarrow> server_push list" where
  "sends [] = []"
| "sends (TSend p # xs) = p # sends xs"
| "sends (TAck a # xs) = sends xs"

definition encodable :: "protobuf \<Rightarrow> server_push \<Rightarrow> bool" where
  "encodable p x \<longleftrightarrow> (\<forall>n. \<exists>d. EncodeServerPush p (x\<lparr>sp_SeqId := n\<rparr>) = Inr d)"

lemma ack_stuck:
  assumes "stuck s" "a < s_serverSeq s"
  shows "stuck (session_ack a s) \<and> s_transport (session_ack a s) = s_transport s \<and>
    s_serverSeq (session_ack a s) = s_serverSeq s"
proof -
  obtain q where q: "s_orderedQueue s = Some q" "nextExpectedSeq q \<le> s_serverSeq s"
    using assms(1) by (auto simp: stuck_def)
  have "nextExpectedSeq (snd (oq_AckMessagesUpTo a q)) = nextExpectedSeq q"
    by (simp add: oq_AckMessagesUpTo_def Let_def)
  then have "nextExpectedSeq (ResyncSequence a (snd (oq_AckMessagesUpTo a q))) \<le> s_serverSeq s"
    using q(2) inc_le [OF assms(2)] resync_facts(1) [of a "snd (oq_AckMessagesUpTo a q)"] by simp
  then show ?thesis
    by (simp add: session_ack_def ResyncSessionSequence_def GetOrderedQueue_def q stuck_def)
qed

lemma not_max: "unat (x :: u64) + 1 < 2 ^ 64 \<Longrightarrow> x \<noteq> - 1"
  by (auto simp: unsigned_minus_1_eq_mask mask_eq_exp_minus_1)

lemma encodableD: "encodable p x \<Longrightarrow> \<exists>d. EncodeServerPush p (x\<lparr>sp_SeqId := n\<rparr>) = Inr d"
  by (simp add: encodable_def)

lemma talk_stuck:
  assumes "stuck s" "unat (s_serverSeq s) + length (sends xs) < 2 ^ 64" "acks_below n xs" "n \<le> s_serverSeq s"
    "\<forall>p \<in> set (sends xs). encodable (pb e) p" "talk_all e now xs s ms = (rs, s', ms')"
  shows "s_transport s' = s_transport s \<and> ms' = ms \<and> stuck s' \<and>
    s_serverSeq s' = s_serverSeq s + of_nat (length (sends xs))"
  using assms
proof (induction e now xs s ms arbitrary: rs s' ms' rule: talk_all.induct)
  case (2 e now p xs s ms)
  obtain r s1 ms1 where send: "SendOrderedMessage e now p s ms = (r, s1, ms1)" by (metis surj_pair)
  obtain rs2 s2 ms2 where rest: "talk_all e now xs s1 ms1 = (rs2, s2, ms2)" by (metis surj_pair)
  obtain d where d: "EncodeServerPush (pb e) (p\<lparr>sp_SeqId := s_serverSeq s + 1\<rparr>) = Inr d"
    using "2.prems"(5) encodableD by fastforce
  have small: "unat (s_serverSeq s) + 1 < 2 ^ 64" using "2.prems"(2) by simp
  then have nomax: "s_serverSeq s \<noteq> - 1" by (rule not_max)
  have un: "unat (s_serverSeq s + 1) = unat (s_serverSeq s) + 1"
    using small by (simp add: unat_word_ariths)
  have s1: "s_transport s1 = s_transport s" "ms1 = ms" "stuck s1" "s_serverSeq s1 = s_serverSeq s + 1"
    using send_stuck [OF "2.prems"(1) nomax d send] by simp_all
  have "n \<le> s_serverSeq s1" using "2.prems"(4) s1(4) un by (simp add: word_le_nat_alt)
  moreover have "unat (s_serverSeq s1) + length (sends xs) < 2 ^ 64" using "2.prems"(2) s1(4) un by simp
  ultimately have "s_transport s2 = s_transport s1 \<and> ms2 = ms1 \<and> stuck s2 \<and>
      s_serverSeq s2 = s_serverSeq s1 + of_nat (length (sends xs))"
    using "2.IH" [OF send [symmetric] refl s1(3) _ _ _ _ rest] "2.prems"(3,5) by simp
  then show ?case using "2.prems"(6) send rest s1 by (auto simp: ac_simps)
next
  case (3 e now a xs s ms)
  have "a < s_serverSeq s" using "3.prems"(3,4) by auto
  note a = ack_stuck [OF "3.prems"(1) this]
  then show ?case using "3.IH" [of rs s' ms'] "3.prems" by simp
qed auto

text \<open>C28. One failed send silences a session for good: if encoding or writing a message fails while the
  queue is in step, its number is used up, the queue waits for it for ever, and whatever is sent or
  acknowledged later (acknowledgements of numbers up to the last one written), nothing reaches the
  stream any more. \<close>

theorem failed_send_silences:
  assumes "in_step e q s" "SendOrderedMessage e now push s ms = (Some x, s1, ms1)"
    "unat (s_serverSeq s) + 1 + length (sends xs) < 2 ^ 64" "acks_below (s_serverSeq s + 1) xs"
    "\<forall>p \<in> set (sends xs). encodable (pb e) p" "talk_all e now xs s1 ms1 = (rs, s2, ms2)"
  shows "s_transport s2 = s_transport s1 \<and> ms2 = ms1"
proof -
  have small: "unat (s_serverSeq s) + 1 < 2 ^ 64" using assms(3) by simp
  then have "s_serverSeq s \<noteq> - 1" by (rule not_max)
  from failed_send_stuck [OF assms(1) this assms(2)] have s1: "stuck s1" "s_serverSeq s1 = s_serverSeq s + 1" by simp_all
  have "unat (s_serverSeq s1) + length (sends xs) < 2 ^ 64"
    using assms(3) small s1(2) by (simp add: unat_word_ariths)
  then show ?thesis
    using talk_stuck [OF s1(1) _ _ _ assms(5,6), of "s_serverSeq s + 1"] assms(4) s1(2) by simp
qed

definition broken_ext :: "bytes ext" where
  "broken_ext = toy_ext\<lparr>stream_Write := (\<lambda>s d. if s = [] then ([1], Some ErrEOF) else (s @ d, None))\<rparr>"

theorem failed_send_silences_witness:
  "let (r, s1, ms1) = SendOrderedMessage broken_ext 5 (push_n 0) (new_session ''s'' 0 [] ''c'' ''u'' ''ip'') [];
       (rs, s2, ms2) = talk_all broken_ext 5 [TSend (push_n 1), TSend (push_n 2)] s1 ms1
   in r \<noteq> None \<and> s_transport s2 = Some [1]"
proof -
  let ?s = "new_session ''s'' 0 [] ''c'' ''u'' ''ip''"
  let ?xs = "[TSend (push_n 1), TSend (push_n 2)]"
  obtain r s1 ms1 where f: "SendOrderedMessage broken_ext 5 (push_n 0) ?s [] = (r, s1, ms1)" by (metis surj_pair)
  have "r \<noteq> None \<and> s_transport s1 = Some [1]"
    using f by (auto simp: SendOrderedMessage_def NewServerSeq_def EncodeServerPush_def broken_ext_def toy_ext_def
        toy_pb_def push_n_def new_push_def MaxMessageSize_def new_session_def GetOrderedQueue_def ensure_callback_def
        GetSendCallback_def SetSendCallback_def NewOrderedMessageQueue_def session_Enqueue_def EnqueueMessage_def
        oq_sendMessageDirectly_def oms_sendMessageDirectly_def session_link_def WriteMessage_def put_link_def)
  then obtain x where x: "r = Some x" "s_transport s1 = Some [1]" by auto
  obtain rs s2 ms2 where t: "talk_all broken_ext 5 ?xs s1 ms1 = (rs, s2, ms2)" by (metis surj_pair)
  have "encodable (pb broken_ext) (push_n k)" for k
    by (simp add: encodable_def EncodeServerPush_def broken_ext_def toy_ext_def toy_pb_def MaxMessageSize_def)
  then have "s_transport s2 = s_transport s1"
    using failed_send_silences [OF new_in_step f [unfolded x(1)] _ _ _ t] by (simp add: new_session_def)
  then show ?thesis using f t x by simp
qed

lemma ack_last_resyncs:
  assumes "stuck s"
  shows "\<exists>q. s_orderedQueue (session_ack (s_serverSeq s) s) = Some q \<and> nextExpectedSeq q = s_serverSeq s + 1"
  using assms by (auto simp: stuck_def session_ack_def ResyncSessionSequence_def GetOrderedQueue_def
      ResyncSequence_def oq_AckMessagesUpTo_def Let_def)

text \<open>C29. A reconnection with unacknowledged messages stalls: the new session takes over the last server
  number but its queue expects the number after the last acknowledged one, which is never given out
  again, so no new message (the answer to the start request included) reaches the new stream as long as
  what the client acknowledges, in its start request or later, stays below the last number of the old session. Only
  the acknowledgement of the last number given out puts the queue in step again. (Messages can be encoded, numbers
  do not wrap around; the manager satisfies its invariant, the identifier is fresh and the copier copies maps.) \<close>

theorem reconnect_stalls:
  assumes "mgr_inv m" "copier_law e" "uuid \<notin> s_ID ` set (m_store m)"
    "CreateOrReconnectSession e uuid now t c u ip m = (r, True, m')"
    "GetSessionByOpenID u m = Some r0" "ClientAckServerSeq (sess_at r0 m) < session_ServerSeq (sess_at r0 m)"
    "unat (session_ServerSeq (sess_at r0 m)) + length (sends xs) < 2 ^ 64"
    "acks_below (session_ServerSeq (sess_at r0 m)) xs" "\<forall>p \<in> set (sends xs). encodable (pb e) p"
    "talk_all e now' xs (sess_at r m') ms = (rs, s', ms')"
  shows "s_transport s' = Some t \<and> ms' = ms \<and>
    (\<exists>q. s_orderedQueue (session_ack (session_ServerSeq s') s') = Some q \<and> nextExpectedSeq q = session_ServerSeq s' + 1)"
proof -
  from reconnect_facts [OF assms(1-5)]
  obtain q where q: "s_orderedQueue (sess_at r m') = Some q" "s_transport (sess_at r m') = Some t"
    "session_ServerSeq (sess_at r m') = session_ServerSeq (sess_at r0 m)"
    "nextExpectedSeq q = (if ClientAckServerSeq (sess_at r0 m) = 0 then 1 else ClientAckServerSeq (sess_at r0 m) + 1)"
    by auto
  have "nextExpectedSeq q \<le> session_ServerSeq (sess_at r0 m)"
    using q(4) inc_le [OF assms(6)] assms(6) by (auto split: if_splits)
  then have "stuck (sess_at r m')" using q(1,3) by (simp add: stuck_def session_ServerSeq_def)
  from talk_stuck [OF this _ assms(8) _ assms(9,10)] have "s_transport s' = Some t \<and> ms' = ms \<and> stuck s'"
    using q(2,3) assms(7) by (simp add: session_ServerSeq_def)
  then show ?thesis using ack_last_resyncs [of s'] by (simp add: session_ServerSeq_def)
qed

definition ann_sent :: "bytes manager" where
  "ann_sent = upd_sess 0 (\<lambda>s. snd (NewServerSeq s)) two_sessions"

definition ann_again :: "nat \<times> bool \<times> bytes manager" where
  "ann_again = CreateOrReconnectSession toy_ext ''s3'' 40 [] ''c1'' ''ann'' ''ip'' ann_sent"

theorem reconnect_stalls_witness:
  "s_transport (fst (snd (talk_all toy_ext 50 [TSend (push_n 1), TAck 0, TSend (push_n 2)]
     (sess_at 2 (snd (snd ann_again))) []))) = Some []"
proof -
  let ?xs = "[TSend (push_n 1), TAck 0, TSend (push_n 2)]"
  have inv: "mgr_inv ann_sent"
    unfolding ann_sent_def by (rule mgr_inv_reach [OF reach_step [OF two_sessions_reach step_seq] toy_copier])
  have f: "fst ann_again = 2 \<and> fst (snd ann_again) = True" by code_simp
  then have a: "CreateOrReconnectSession toy_ext ''s3'' 40 [] ''c1'' ''ann'' ''ip'' ann_sent =
      (2, True, snd (snd ann_again))" by (metis ann_again_def prod.collapse)
  have "map s_ID (m_store ann_sent) = [''s1'', ''s2'']" by code_simp
  then have "s_ID ` set (m_store ann_sent) = {''s1'', ''s2''}" by (metis list.simps(15) set_map empty_set)
  then have fresh: "''s3'' \<notin> s_ID ` set (m_store ann_sent)" by simp
  have old: "GetSessionByOpenID ''ann'' ann_sent = Some 0 \<and> ClientAckServerSeq (sess_at 0 ann_sent) = 0 \<and>
    session_ServerSeq (sess_at 0 ann_sent) = 1" by code_simp
  have enc: "encodable (pb toy_ext) (push_n k)" for k
    by (simp add: encodable_def EncodeServerPush_def toy_ext_def toy_pb_def MaxMessageSize_def)
  obtain rs s' ms' where t: "talk_all toy_ext 50 ?xs (sess_at 2 (snd (snd ann_again))) [] = (rs, s', ms')"
    by (metis surj_pair)
  have "s_transport s' = Some []"
    using reconnect_stalls [OF inv toy_copier fresh a _ _ _ _ _ t, of 0] old enc by simp
  then show ?thesis using t by simp
qed

end
