(* ===== verification/Overload.thy ===== *)
theory Overload
  imports Metrics
begin

text \<open>
  \<open>internal/gateway/overload_protector.go\<close> and \<open>simple_tracker.go\<close>: admission control by connection
  count, request rate and upstream concurrency, and the request counters.

  The \<open>int64\<close> counters are integers wrapped by \<open>i64\<close>. A \<open>float64\<close> rate is the rational it is rounded
  from; with a window of no length it is no number or infinite. \<open>SlidingWindow.Add\<close> divides by the bucket size and indexes the buckets; a run-time panic there
  is \<open>None\<close>. The configuration is a pointer shared with the caller; \<open>SetEnabled\<close> writes through it,
  which is the protector's own copy here. Each method is one step; the atomics make the counter
  updates one.
\<close>

section \<open>Configuration\<close>

record overload_config =
  Enabled :: bool
  MaxConnections :: int
  ConnectionWarningThreshold :: int
  MaxQPS :: int
  QPSWarningThreshold :: int
  QPSWindowSeconds :: int
  MaxUpstreamConcurrent :: int
  UpstreamTimeout :: duration
  UpstreamWarningThreshold :: int

definition DefaultOverloadConfig :: overload_config where
  "DefaultOverloadConfig =
     \<lparr>Enabled = True, MaxConnections = 1000, ConnectionWarningThreshold = 800, MaxQPS = 2000,
      QPSWarningThreshold = 1600, QPSWindowSeconds = 10, MaxUpstreamConcurrent = 100,
      UpstreamTimeout = 30 * Second, UpstreamWarningThreshold = 80\<rparr>"

section \<open>The window\<close>

record window =
  windowSize :: duration
  buckets :: "int list"
  bucketSize :: duration
  current :: nat
  w_startTime :: time

text \<open>Division of durations truncates towards zero; a bucket count of zero would panic.\<close>

definition go_div :: "int \<Rightarrow> int \<Rightarrow> int" where
  "go_div a b = (if (a < 0) = (b < 0) then \<bar>a\<bar> div \<bar>b\<bar> else - (\<bar>a\<bar> div \<bar>b\<bar>))"

definition go_mod :: "int \<Rightarrow> int \<Rightarrow> int" where
  "go_mod a b = a - b * go_div a b"

definition NewSlidingWindow :: "time \<Rightarrow> duration \<Rightarrow> nat \<Rightarrow> window" where
  "NewSlidingWindow now wsize n =
     \<lparr>windowSize = wsize, buckets = replicate n 0, bucketSize = go_div wsize (int n), current = 0,
      w_startTime = now\<rparr>"

text \<open>The inner loop of \<open>Add\<close>, entered only in the branch where its condition is false.\<close>

fun slide :: "nat \<Rightarrow> duration \<Rightarrow> nat \<Rightarrow> window \<Rightarrow> window" where
  "slide 0 elapsed idx sw = sw"
| "slide (Suc fuel) elapsed idx sw =
     (if windowSize sw \<le> elapsed \<and> current sw \<noteq> idx then
        slide fuel elapsed idx
          (sw\<lparr>buckets := (buckets sw)[current sw := 0],
              current := (current sw + 1) mod length (buckets sw)\<rparr>)
      else sw)"

definition window_Add :: "time \<Rightarrow> int \<Rightarrow> window \<Rightarrow> window option" where
  "window_Add now cnt sw =
     (if bucketSize sw = 0 \<or> buckets sw = [] then None
      else
        let elapsed = now - w_startTime sw;
            i = go_mod (go_div elapsed (bucketSize sw)) (int (length (buckets sw)));
            (sw1, idx) =
              (if windowSize sw \<le> elapsed then
                 (sw\<lparr>buckets := replicate (length (buckets sw)) 0, w_startTime := now\<rparr>, 0)
               else (slide (length (buckets sw)) elapsed (nat i) sw, i))
        in if idx < 0 then None
           else Some (sw1\<lparr>current := nat idx,
                         buckets := (buckets sw1)[nat idx := i64 (buckets sw1 ! nat idx + cnt)]\<rparr>))"

definition window_Sum :: "window \<Rightarrow> int" where
  "window_Sum sw = fold (\<lambda>c s. i64 (s + c)) (buckets sw) 0"

definition window_Rate :: "window \<Rightarrow> float64" where
  "window_Rate sw = float_div (Finite (of_int (window_Sum sw))) (of_int (windowSize sw) / of_int Second)"

section \<open>The protector\<close>

record protector =
  op_config :: overload_config
  currentConnections :: int
  qpsWindow :: window
  upstreamActive :: int
  connectionsRejected :: int
  requestsRejected :: int
  upstreamRejected :: int
  op_startTime :: time

definition NewOverloadProtector :: "time \<Rightarrow> overload_config option \<Rightarrow> protector" where
  "NewOverloadProtector now c =
     (let config = (case c of None \<Rightarrow> DefaultOverloadConfig | Some c \<Rightarrow> c) in
      \<lparr>op_config = config, currentConnections = 0,
       qpsWindow = NewSlidingWindow now (i64 (QPSWindowSeconds config * Second)) 10,
       upstreamActive = 0, connectionsRejected = 0, requestsRejected = 0, upstreamRejected = 0,
       op_startTime = now\<rparr>)"

definition AllowNewConnection :: "protector \<Rightarrow> metrics \<Rightarrow> bool \<times> protector \<times> metrics" where
  "AllowNewConnection p ms =
     (if \<not> Enabled (op_config p) then (True, p, ms)
      else if MaxConnections (op_config p) \<le> currentConnections p then
        (False, p\<lparr>connectionsRejected := i64 (connectionsRejected p + 1)\<rparr>,
         IncConnectionsRejected ''max_connections_exceeded'' ms)
      else (True, p, ms))"

definition AllowNewRequest :: "time \<Rightarrow> protector \<Rightarrow> metrics \<Rightarrow> (bool \<times> protector \<times> metrics) option" where
  "AllowNewRequest now p ms =
     (case window_Add now 1 (qpsWindow p) of
        None \<Rightarrow> None
      | Some sw \<Rightarrow>
          let p1 = p\<lparr>qpsWindow := sw\<rparr> in
          if \<not> Enabled (op_config p) then Some (True, p1, ms)
          else
            let q = window_Rate sw;
                ms1 = SetCurrentQPS q ms
            in if at_least q (of_int (MaxQPS (op_config p))) then
                 Some (False, p1\<lparr>requestsRejected := i64 (requestsRejected p1 + 1)\<rparr>,
                       IncRequestsRejected ''max_qps_exceeded'' ms1)
               else Some (True, p1, ms1))"

definition AllowUpstreamRequest :: "protector \<Rightarrow> metrics \<Rightarrow> bool \<times> protector \<times> metrics" where
  "AllowUpstreamRequest p ms =
     (if \<not> Enabled (op_config p) then (True, p, ms)
      else if MaxUpstreamConcurrent (op_config p) \<le> upstreamActive p then
        (False, p\<lparr>upstreamRejected := i64 (upstreamRejected p + 1)\<rparr>,
         IncUpstreamRejected ''max_upstream_concurrent_exceeded'' ms)
      else (True, p, ms))"

definition OnConnectionStart :: "protector \<Rightarrow> metrics \<Rightarrow> protector \<times> metrics" where
  "OnConnectionStart p ms =
     (let c = i64 (currentConnections p + 1)
      in (p\<lparr>currentConnections := c\<rparr>, SetActiveConnections c ms))"

definition OnConnectionEnd :: "protector \<Rightarrow> metrics \<Rightarrow> protector \<times> metrics" where
  "OnConnectionEnd p ms =
     (let c = i64 (currentConnections p - 1);
          c' = (if c < 0 then 0 else c)
      in (p\<lparr>currentConnections := c'\<rparr>, SetActiveConnections c' ms))"

definition OnUpstreamStart :: "protector \<Rightarrow> metrics \<Rightarrow> protector \<times> metrics" where
  "OnUpstreamStart p ms =
     (let c = i64 (upstreamActive p + 1)
      in (p\<lparr>upstreamActive := c\<rparr>, SetUpstreamConcurrent c ms))"

definition OnUpstreamEnd :: "protector \<Rightarrow> metrics \<Rightarrow> protector \<times> metrics" where
  "OnUpstreamEnd p ms =
     (let c = i64 (upstreamActive p - 1);
          c' = (if c < 0 then 0 else c)
      in (p\<lparr>upstreamActive := c'\<rparr>, SetUpstreamConcurrent c' ms))"

record protector_stats =
  st_enabled :: bool
  st_current_connections :: int
  st_max_connections :: int
  st_current_qps :: float64
  st_max_qps :: int
  st_upstream_active :: int
  st_max_upstream :: int
  st_connections_rejected :: int
  st_requests_rejected :: int
  st_upstream_rejected :: int
  st_uptime_seconds :: int

definition protector_GetStats :: "time \<Rightarrow> protector \<Rightarrow> protector_stats" where
  "protector_GetStats now p =
     \<lparr>st_enabled = Enabled (op_config p), st_current_connections = currentConnections p,
      st_max_connections = MaxConnections (op_config p), st_current_qps = window_Rate (qpsWindow p),
      st_max_qps = MaxQPS (op_config p), st_upstream_active = upstreamActive p,
      st_max_upstream = MaxUpstreamConcurrent (op_config p),
      st_connections_rejected = connectionsRejected p, st_requests_rejected = requestsRejected p,
      st_upstream_rejected = upstreamRejected p, st_uptime_seconds = go_div (now - op_startTime p) Second\<rparr>"

definition IsConnectionOverloaded :: "protector \<Rightarrow> bool" where
  "IsConnectionOverloaded p \<longleftrightarrow> Enabled (op_config p) \<and> MaxConnections (op_config p) \<le> currentConnections p"

definition IsQPSOverloaded :: "protector \<Rightarrow> bool" where
  "IsQPSOverloaded p \<longleftrightarrow> Enabled (op_config p) \<and> at_least (window_Rate (qpsWindow p)) (of_int (MaxQPS (op_config p)))"

definition IsUpstreamOverloaded :: "protector \<Rightarrow> bool" where
  "IsUpstreamOverloaded p \<longleftrightarrow> Enabled (op_config p) \<and> MaxUpstreamConcurrent (op_config p) \<le> upstreamActive p"

definition GetCurrentConnections :: "protector \<Rightarrow> int" where
  "GetCurrentConnections p = currentConnections p"

definition GetCurrentQPS :: "protector \<Rightarrow> float64" where
  "GetCurrentQPS p = window_Rate (qpsWindow p)"

definition GetUpstreamActive :: "protector \<Rightarrow> int" where
  "GetUpstreamActive p = upstreamActive p"

definition protector_Reset :: "time \<Rightarrow> protector \<Rightarrow> protector" where
  "protector_Reset now p =
     p\<lparr>currentConnections := 0, upstreamActive := 0, connectionsRejected := 0, requestsRejected := 0,
       upstreamRejected := 0,
       qpsWindow := NewSlidingWindow now (i64 (QPSWindowSeconds (op_config p) * Second)) 10,
       op_startTime := now\<rparr>"

definition SetEnabled :: "bool \<Rightarrow> protector \<Rightarrow> protector" where
  "SetEnabled b p = p\<lparr>op_config := (op_config p)\<lparr>Enabled := b\<rparr>\<rparr>"

definition UpdateConfig :: "time \<Rightarrow> overload_config option \<Rightarrow> protector \<Rightarrow> protector" where
  "UpdateConfig now c p =
     (case c of
        None \<Rightarrow> p
      | Some c \<Rightarrow>
          let p1 = p\<lparr>op_config := c\<rparr> in
          if QPSWindowSeconds c \<noteq> 0 then p1\<lparr>qpsWindow := NewSlidingWindow now (i64 (QPSWindowSeconds c * Second)) 10\<rparr>
          else p1)"

section \<open>The tracker\<close>

record tracker =
  tk_startTime :: time
  tk_totalConnections :: int
  tk_activeConnections :: int
  tk_totalRequests :: int
  tk_totalErrors :: int
  tk_lastQPSTime :: time
  tk_lastTotalReqs :: int
  tk_recentQPS :: rat

definition NewSimpleTracker :: "time \<Rightarrow> tracker" where
  "NewSimpleTracker now =
     \<lparr>tk_startTime = now, tk_totalConnections = 0, tk_activeConnections = 0, tk_totalRequests = 0,
      tk_totalErrors = 0, tk_lastQPSTime = now, tk_lastTotalReqs = 0, tk_recentQPS = 0\<rparr>"

definition RecordConnection :: "tracker \<Rightarrow> tracker" where
  "RecordConnection t = t\<lparr>tk_totalConnections := i64 (tk_totalConnections t + 1),
     tk_activeConnections := i64 (tk_activeConnections t + 1)\<rparr>"
definition RecordDisconnection :: "tracker \<Rightarrow> tracker" where
  "RecordDisconnection t = t\<lparr>tk_activeConnections := i64 (tk_activeConnections t - 1)\<rparr>"
definition RecordRequest :: "tracker \<Rightarrow> tracker" where
  "RecordRequest t = t\<lparr>tk_totalRequests := i64 (tk_totalRequests t + 1)\<rparr>"
definition RecordError :: "tracker \<Rightarrow> tracker" where
  "RecordError t = t\<lparr>tk_totalErrors := i64 (tk_totalErrors t + 1)\<rparr>"

text \<open>\<open>now\<close> is the one clock reading the model takes per call.\<close>

definition calculateLightweightQPS :: "time \<Rightarrow> tracker \<Rightarrow> rat \<times> tracker" where
  "calculateLightweightQPS now t =
     (let total = tk_totalRequests t;
          since = (of_int (now - tk_lastQPSTime t) / of_int Second :: rat);
          t1 = (if 3 \<le> since then
                  t\<lparr>tk_recentQPS := of_int (i64 (total - tk_lastTotalReqs t)) / since,
                    tk_lastQPSTime := now, tk_lastTotalReqs := total\<rparr>
                else t);
          uptime = (of_int (now - tk_startTime t) / of_int Second :: rat)
      in if uptime < 5 \<and> 0 < uptime then (of_int total / uptime, t1) else (tk_recentQPS t1, t1))"

record tracker_stats =
  ts_uptime_seconds :: rat
  ts_total_connections :: int
  ts_active_connections :: int
  ts_total_requests :: int
  ts_total_errors :: int
  ts_qps :: rat
  ts_success_rate :: rat

definition GetBasicStats :: "time \<Rightarrow> tracker \<Rightarrow> tracker_stats \<times> tracker" where
  "GetBasicStats now t =
     (case calculateLightweightQPS now t of
        (qps, t1) \<Rightarrow>
          (\<lparr>ts_uptime_seconds = of_int (now - tk_startTime t) / of_int Second,
            ts_total_connections = tk_totalConnections t,
            ts_active_connections = tk_activeConnections t,
            ts_total_requests = tk_totalRequests t, ts_total_errors = tk_totalErrors t,
            ts_qps = qps,
            ts_success_rate =
              (if tk_totalRequests t = 0 then 100
               else of_int (i64 (tk_totalRequests t - tk_totalErrors t)) / of_int (tk_totalRequests t) * 100)\<rparr>,
           t1))"

section \<open>The window counts a tumbling interval\<close>

definition window_ok :: "window \<Rightarrow> bool" where
  "window_ok sw \<longleftrightarrow> 0 < bucketSize sw \<and> buckets sw \<noteq> [] \<and> (\<forall>c \<in> set (buckets sw). 0 \<le> c) \<and>
     sum_list (buckets sw) < 2 ^ 63"

lemma window_Sum_ok:
  assumes "\<forall>c \<in> set bs. 0 \<le> c" "0 \<le> a" "a + sum_list bs < 2 ^ 63"
  shows "fold (\<lambda>c s. i64 (s + c)) bs a = a + sum_list (bs :: int list)"
  using assms
proof (induction bs arbitrary: a)
  case (Cons b bs)
  have "0 \<le> sum_list bs" using Cons.prems by (intro sum_list_nonneg) auto
  then have "i64 (a + b) = a + b" using Cons.prems by (intro i64_id) (auto simp: in_i64_def)
  then show ?case using Cons by auto
qed simp

lemma window_Sum_sum: "window_ok sw \<Longrightarrow> window_Sum sw = sum_list (buckets sw)"
  using window_Sum_ok [of "buckets sw" 0] by (simp add: window_ok_def window_Sum_def)

lemma slide_dead: "\<not> windowSize sw \<le> elapsed \<Longrightarrow> slide n elapsed idx sw = sw"
  by (cases n) simp_all

lemma go_mod_range:
  assumes "0 \<le> a" "0 < n"
  shows "0 \<le> go_mod a n" "go_mod a n < n"
proof -
  have "go_mod a n = a mod n"
    using assms by (simp add: go_mod_def go_div_def minus_mult_div_eq_mod)
  then show "0 \<le> go_mod a n" "go_mod a n < n" using assms by simp_all
qed

lemma go_div_nonneg: "0 \<le> a \<Longrightarrow> 0 < b \<Longrightarrow> 0 \<le> go_div a b"
  by (simp add: go_div_def pos_imp_zdiv_nonneg_iff)

text \<open>The abstract counter: the interval's start and the events counted in it.\<close>

definition tumble :: "duration \<Rightarrow> time \<Rightarrow> int \<Rightarrow> time \<times> int \<Rightarrow> time \<times> int" where
  "tumble len now cnt c = (if len \<le> now - fst c then (now, cnt) else (fst c, snd c + cnt))"

definition window_abs :: "window \<Rightarrow> time \<times> int" where
  "window_abs sw = (w_startTime sw, window_Sum sw)"

lemma sum_list_update_add:
  "i < length bs \<Longrightarrow> sum_list (bs[i := bs ! i + c]) = sum_list bs + (c :: int)"
proof (induction bs arbitrary: i)
  case (Cons b bs)
  then show ?case by (cases i) simp_all
qed simp

lemma window_Add_abs:
  assumes ok: "window_ok sw" and now: "w_startTime sw \<le> now" and c: "0 \<le> cnt"
    and bound: "sum_list (buckets sw) + cnt < 2 ^ 63"
  shows "\<exists>sw'. window_Add now cnt sw = Some sw' \<and> window_ok sw' \<and>
    window_abs sw' = tumble (windowSize sw) now cnt (window_abs sw) \<and> windowSize sw' = windowSize sw \<and>
    bucketSize sw' = bucketSize sw"
proof -
  let ?i = "go_mod (go_div (now - w_startTime sw) (bucketSize sw)) (int (length (buckets sw)))"
  let ?n = "length (buckets sw)"
  have n: "0 < ?n" using ok by (simp add: window_ok_def)
  have i: "0 \<le> ?i" "?i < int ?n"
    using go_mod_range [of _ "int ?n"] go_div_nonneg ok now n by (simp_all add: window_ok_def)
  define j where "j = nat ?i"
  have j: "j < ?n" using i by (simp add: j_def nat_less_iff)
  have nonneg: "\<forall>c \<in> set (buckets sw). 0 \<le> c" using ok by (simp add: window_ok_def)
  show ?thesis
  proof (cases "windowSize sw \<le> now - w_startTime sw")
    case True
    define sw' where "sw' = sw\<lparr>buckets := (replicate ?n 0)[0 := cnt], w_startTime := now, current := 0\<rparr>"
    have cw: "i64 cnt = cnt" using c bound sum_list_nonneg [of "buckets sw"] nonneg
      by (intro i64_id) (auto simp: in_i64_def)
    have add: "window_Add now cnt sw = Some sw'"
      using ok True n cw by (simp add: window_Add_def window_ok_def Let_def sw'_def)
    have s: "sum_list (buckets sw') = cnt"
      using sum_list_update_add [of 0 "replicate ?n 0" cnt] n by (simp add: sw'_def sum_list_replicate)
    have "\<forall>x \<in> set (buckets sw'). 0 \<le> x"
      using c by (auto simp: sw'_def dest!: subsetD [OF set_update_subset_insert])
    then have ok': "window_ok sw'"
      using ok n s bound sum_list_nonneg [of "buckets sw"] nonneg
      by (auto simp: window_ok_def sw'_def)
    then show ?thesis
      using add s True by (auto simp: window_abs_def tumble_def window_Sum_sum sw'_def)
  next
    case False
    define sw' where "sw' = sw\<lparr>current := j, buckets := (buckets sw)[j := buckets sw ! j + cnt]\<rparr>"
    have le: "buckets sw ! j \<le> sum_list (buckets sw)"
      using nonneg j by (intro member_le_sum_list) auto
    have "0 \<le> buckets sw ! j" using nonneg j by simp
    then have cw: "i64 (buckets sw ! j + cnt) = buckets sw ! j + cnt"
      using c bound le by (intro i64_id) (auto simp: in_i64_def)
    have add: "window_Add now cnt sw = Some sw'"
      using ok False i cw slide_dead [OF False]
      by (simp add: window_Add_def window_ok_def Let_def sw'_def j_def not_less)
    have s: "sum_list (buckets sw') = sum_list (buckets sw) + cnt"
      using sum_list_update_add [OF j] by (simp add: sw'_def)
    have "\<forall>x \<in> set (buckets sw'). 0 \<le> x"
      using c nonneg j by (auto simp: sw'_def dest!: subsetD [OF set_update_subset_insert])
    then have "window_ok sw'" using ok n s bound by (auto simp: window_ok_def sw'_def)
    then show ?thesis
      using add s False ok by (auto simp: window_abs_def tumble_def window_Sum_sum sw'_def)
  qed
qed

section \<open>Properties\<close>

text \<open>The request window is a tumbling interval: from any well-formed window and with a clock that
  does not go back, Add returns without a panic, and the sum it keeps is the number of events since
  the interval began; once a whole window has passed the count starts anew at the new event. \<close>

theorem window_tumbles:
  assumes "window_ok sw" "w_startTime sw \<le> now" "0 \<le> cnt" "sum_list (buckets sw) + cnt < 2 ^ 63"
  shows "\<exists>sw'. window_Add now cnt sw = Some sw' \<and> window_ok sw' \<and>
    window_abs sw' = tumble (windowSize sw) now cnt (window_abs sw)"
  using window_Add_abs [OF assms] by blast

theorem window_tumbles_witness:
  "let sw = NewSlidingWindow 0 (10 * Second) 10
   in \<exists>sw'. window_Add (25 * Second) 1 sw = Some sw' \<and> window_abs sw' = (25 * Second, 1)"
  using window_tumbles [of "NewSlidingWindow 0 (10 * Second) 10" "25 * Second" 1]
  by (auto simp: NewSlidingWindow_def window_ok_def go_div_def Second_def tumble_def window_abs_def
      sum_list_replicate)

text \<open>A request is refused exactly when the requests counted in the current interval, itself
  included, reach the configured rate times the interval's length; a refusal is counted and
  reported, and every request, admitted or not, counts. \<close>

theorem request_admission:
  assumes "Enabled (op_config p)" "window_ok (qpsWindow p)" "w_startTime (qpsWindow p) \<le> now"
    "sum_list (buckets (qpsWindow p)) + 1 < 2 ^ 63" "windowSize (qpsWindow p) = secs * Second" "0 < secs"
  shows "\<exists>ok p' ms'. AllowNewRequest now p ms = Some (ok, p', ms') \<and>
    window_abs (qpsWindow p') = tumble (secs * Second) now 1 (window_abs (qpsWindow p)) \<and>
    (ok \<longleftrightarrow> snd (window_abs (qpsWindow p')) < MaxQPS (op_config p) * secs) \<and>
    (ok \<longrightarrow> requestsRejected p' = requestsRejected p \<and>
       calls_of (RequestsRejectedInc ''max_qps_exceeded'') ms' = calls_of (RequestsRejectedInc ''max_qps_exceeded'') ms) \<and>
    (\<not> ok \<longrightarrow> requestsRejected p' = i64 (requestsRejected p + 1) \<and>
       calls_of (RequestsRejectedInc ''max_qps_exceeded'') ms' = Suc (calls_of (RequestsRejectedInc ''max_qps_exceeded'') ms))"
proof -
  obtain sw where sw: "window_Add now 1 (qpsWindow p) = Some sw" "windowSize sw = secs * Second"
    "window_abs sw = tumble (secs * Second) now 1 (window_abs (qpsWindow p))"
    using window_Add_abs [OF assms(2,3) _ assms(4)] assms(5) by auto
  have rate: "window_Rate sw = Finite (of_int (window_Sum sw) / of_int secs)"
    using assms(6) by (simp add: window_Rate_def sw(2) Second_def)
  have le: "at_least (window_Rate sw) (of_int (MaxQPS (op_config p))) \<longleftrightarrow> MaxQPS (op_config p) * secs \<le> window_Sum sw"
    unfolding rate at_least.simps using assms(6) by (simp add: le_divide_eq flip: of_int_mult)
  show ?thesis
    using sw(3) assms(1) le
    by (auto simp: AllowNewRequest_def sw(1) Let_def metrics_defs window_abs_def not_le)
qed

definition small_config :: overload_config where
  "small_config = DefaultOverloadConfig\<lparr>MaxQPS := 1, QPSWindowSeconds := 1, MaxConnections := 2\<rparr>"

theorem request_admission_witness:
  "\<exists>p' ms'. AllowNewRequest 5 (NewOverloadProtector 0 (Some small_config)) [] = Some (False, p', ms')"
proof -
  let ?p = "NewOverloadProtector 0 (Some small_config)"
  have f: "window_abs (qpsWindow ?p) = (0, 0) \<and> sum_list (buckets (qpsWindow ?p)) = 0 \<and>
    windowSize (qpsWindow ?p) = 1 * Second \<and> w_startTime (qpsWindow ?p) = 0 \<and> window_ok (qpsWindow ?p) \<and>
    MaxQPS (op_config ?p) = 1 \<and> Enabled (op_config ?p)" by code_simp
  then show ?thesis
    using request_admission [of ?p 5 1 "[]"] by (auto simp: tumble_def Second_def)
qed

text \<open>A configured window of zero seconds is fatal: the protector is built, but the first request
  that is checked divides by the zero bucket size and panics, protection enabled or not. \<close>

theorem zero_window_panics:
  assumes "QPSWindowSeconds c = 0"
  shows "AllowNewRequest now (NewOverloadProtector t (Some c)) ms = None \<and>
    AllowNewRequest now (protector_Reset t' (NewOverloadProtector t (Some c))) ms = None"
  using assms by (simp add: AllowNewRequest_def NewOverloadProtector_def NewSlidingWindow_def go_div_def
      window_Add_def protector_Reset_def i64_def)

theorem zero_window_panics_witness:
  "AllowNewRequest 7 (NewOverloadProtector 0 (Some (DefaultOverloadConfig\<lparr>QPSWindowSeconds := 0\<rparr>))) [] = None"
  using zero_window_panics [of "DefaultOverloadConfig\<lparr>QPSWindowSeconds := 0\<rparr>" 7 0 "[]" 0] by simp

section \<open>Connections\<close>

text \<open>
  The accept loop is one goroutine: it asks, then counts the connection and starts its handler; the
  handlers end at any time, in any order. \<open>live\<close> is the number of handlers running, \<open>admitted\<close>
  says that the loop is between the two calls.
\<close>

record conn_state =
  cs_protector :: protector
  cs_metrics :: metrics
  cs_admitted :: bool
  cs_live :: nat

inductive conn_step :: "conn_state \<Rightarrow> conn_state \<Rightarrow> bool" where
  conn_ask: "\<not> cs_admitted c \<Longrightarrow> AllowNewConnection (cs_protector c) (cs_metrics c) = (ok, p, ms) \<Longrightarrow>
    conn_step c (c\<lparr>cs_protector := p, cs_metrics := ms, cs_admitted := ok\<rparr>)"
| conn_start: "cs_admitted c \<Longrightarrow> OnConnectionStart (cs_protector c) (cs_metrics c) = (p, ms) \<Longrightarrow>
    conn_step c (c\<lparr>cs_protector := p, cs_metrics := ms, cs_admitted := False, cs_live := Suc (cs_live c)\<rparr>)"
| conn_end: "cs_live c = Suc n \<Longrightarrow> OnConnectionEnd (cs_protector c) (cs_metrics c) = (p, ms) \<Longrightarrow>
    conn_step c (c\<lparr>cs_protector := p, cs_metrics := ms, cs_live := n\<rparr>)"

inductive_cases conn_stepE: "conn_step c c'"

definition conn_inv :: "overload_config \<Rightarrow> conn_state \<Rightarrow> bool" where
  "conn_inv cfg c \<longleftrightarrow> op_config (cs_protector c) = cfg \<and>
     currentConnections (cs_protector c) = int (cs_live c) \<and>
     int (cs_live c) \<le> MaxConnections cfg \<and>
     (cs_admitted c \<longrightarrow> int (cs_live c) < MaxConnections cfg)"

lemma i64_small: "0 \<le> x \<Longrightarrow> x < 2 ^ 63 \<Longrightarrow> i64 x = x"
  by (rule i64_id) (simp add: in_i64_def)

lemma conn_inv_step:
  assumes "conn_step c c'" "conn_inv cfg c" "Enabled cfg" "MaxConnections cfg < 2 ^ 63"
  shows "conn_inv cfg c'"
  using assms(1)
proof cases
  case (conn_ask ok p ms)
  then show ?thesis
    using assms(2,3) by (auto simp: conn_inv_def AllowNewConnection_def split: if_splits)
next
  case (conn_start p ms)
  have "int (cs_live c) < MaxConnections cfg" using conn_start(2) assms(2) by (simp add: conn_inv_def)
  then have "i64 (int (cs_live c) + 1) = int (cs_live c) + 1"
    using assms(4) by (intro i64_small) auto
  then show ?thesis
    using conn_start assms(2) by (auto simp: conn_inv_def OnConnectionStart_def Let_def)
next
  case (conn_end n p ms)
  have "i64 (int (cs_live c) - 1) = int n"
    using conn_end(2) assms(2,4) by (simp add: conn_inv_def i64_small)
  then show ?thesis
    using conn_end assms(2) by (auto simp: conn_inv_def OnConnectionEnd_def Let_def)
qed

text \<open>C16. The connection limit holds: whatever the order of arrivals and departures, an enabled protector
  counts exactly the handlers that run, and never lets more run than the configured maximum. \<close>

theorem connection_limit:
  assumes "conn_step\<^sup>*\<^sup>* \<lparr>cs_protector = NewOverloadProtector t (Some cfg), cs_metrics = ms, cs_admitted = False,
      cs_live = 0\<rparr> c"
    "Enabled cfg" "0 \<le> MaxConnections cfg" "MaxConnections cfg < 2 ^ 63"
  shows "GetCurrentConnections (cs_protector c) = int (cs_live c) \<and> int (cs_live c) \<le> MaxConnections cfg"
proof -
  have "conn_inv cfg c"
    using assms(1)
  proof (induction rule: rtranclp_induct)
    case base
    then show ?case using assms(3) by (simp add: conn_inv_def NewOverloadProtector_def)
  next
    case (step c1 c2)
    then show ?case using conn_inv_step assms(2,4) by blast
  qed
  then show ?thesis by (simp add: conn_inv_def GetCurrentConnections_def)
qed

theorem connection_limit_witness:
  "\<exists>c. conn_step\<^sup>*\<^sup>* \<lparr>cs_protector = NewOverloadProtector 0 (Some small_config), cs_metrics = [], cs_admitted = False,
      cs_live = 0\<rparr> c \<and> cs_live c = 1 \<and> GetCurrentConnections (cs_protector c) = 1"
proof -
  let ?c0 = "\<lparr>cs_protector = NewOverloadProtector 0 (Some small_config), cs_metrics = [], cs_admitted = False,
      cs_live = 0\<rparr>"
  obtain p ms where a: "AllowNewConnection (cs_protector ?c0) (cs_metrics ?c0) = (True, p, ms)"
    by (simp add: AllowNewConnection_def NewOverloadProtector_def small_config_def DefaultOverloadConfig_def)
  let ?c1 = "?c0\<lparr>cs_protector := p, cs_metrics := ms, cs_admitted := True\<rparr>"
  obtain p2 ms2 where b: "OnConnectionStart (cs_protector ?c1) (cs_metrics ?c1) = (p2, ms2)"
    by (metis surj_pair)
  let ?c2 = "?c1\<lparr>cs_protector := p2, cs_metrics := ms2, cs_admitted := False, cs_live := Suc (cs_live ?c1)\<rparr>"
  have "conn_step ?c0 ?c1" by (rule conn_ask [OF _ a]) simp
  moreover have "conn_step ?c1 ?c2" by (rule conn_start [OF _ b]) simp
  ultimately have "conn_step\<^sup>*\<^sup>* ?c0 ?c2" by (meson rtranclp.rtrancl_into_rtrancl rtranclp.rtrancl_refl)
  moreover from connection_limit [OF this] have "GetCurrentConnections (cs_protector ?c2) = 1"
    by (simp add: small_config_def DefaultOverloadConfig_def)
  ultimately show ?thesis by (intro exI [of _ ?c2]) simp
qed

end
