(* ===== verification/Upstream_Registry.thy ===== *)
theory Upstream_Registry
  imports Proto_Types
begin

text \<open>
  \<open>internal/upstream/services.go\<close> (the table of upstream services), \<open>internal/upstream/manager.go\<close>
  (one client per endpoint) and \<open>internal/gateway/upstream_routerold.go\<close> (which service an action
  goes to).

  Dialing an endpoint and calling a client belong to gRPC: \<open>dial\<close> gives the connection of an
  endpoint or an error, \<open>invoke\<close> is the remote call; both are arguments. A connection and the client
  on it are one value of type \<open>'c\<close>. Each method holds its mutex to the end, so it is one step;
  \<open>GetAllClients\<close> asks for the write lock while it holds the read lock, which is \<open>None\<close>, a deadlock.
\<close>

section \<open>Services\<close>

type_synonym service_type = string

definition ServiceTypeHello :: service_type where "ServiceTypeHello = ''hello''"
definition ServiceTypeBusiness :: service_type where "ServiceTypeBusiness = ''business''"
definition ServiceTypeZone :: service_type where "ServiceTypeZone = ''zone''"

record service_info =
  si_Type :: service_type
  si_Addresses :: "string list"
  si_Enabled :: bool

type_synonym services = "(service_type \<times> service_info) list"

definition NewUpstreamServices :: services where "NewUpstreamServices = []"

definition AddService :: "service_type \<Rightarrow> string list \<Rightarrow> services \<Rightarrow> services" where
  "AddService t as us = gm_put t \<lparr>si_Type = t, si_Addresses = as, si_Enabled = True\<rparr> us"

definition GetService :: "service_type \<Rightarrow> services \<Rightarrow> err + service_info" where
  "GetService t us =
     (case gm_get us t of
        None \<Rightarrow> Inl (ErrNoService t)
      | Some s \<Rightarrow> if \<not> si_Enabled s then Inl (ErrServiceDisabled t) else Inr s)"

definition GetAllServices :: "services \<Rightarrow> services" where
  "GetAllServices us = us"

definition UpdateService :: "service_type \<Rightarrow> string list \<Rightarrow> services \<Rightarrow> err option \<times> services" where
  "UpdateService t as us =
     (case gm_get us t of
        None \<Rightarrow> (Some (ErrNoService t), us)
      | Some s \<Rightarrow> (None, gm_put t (s\<lparr>si_Addresses := as\<rparr>) us))"

definition EnableService :: "service_type \<Rightarrow> services \<Rightarrow> err option \<times> services" where
  "EnableService t us =
     (case gm_get us t of
        None \<Rightarrow> (Some (ErrNoService t), us)
      | Some s \<Rightarrow> (None, gm_put t (s\<lparr>si_Enabled := True\<rparr>) us))"

definition DisableService :: "service_type \<Rightarrow> services \<Rightarrow> err option \<times> services" where
  "DisableService t us =
     (case gm_get us t of
        None \<Rightarrow> (Some (ErrNoService t), us)
      | Some s \<Rightarrow> (None, gm_put t (s\<lparr>si_Enabled := False\<rparr>) us))"

definition RemoveService :: "service_type \<Rightarrow> services \<Rightarrow> services" where
  "RemoveService t us = gm_del t us"

definition GetServiceCount :: "services \<Rightarrow> int" where
  "GetServiceCount us = int (length us)"

definition GetEnabledServiceCount :: "services \<Rightarrow> int" where
  "GetEnabledServiceCount us = int (length (filter (\<lambda>(_, s). si_Enabled s) us))"

definition IsServiceAvailable :: "service_type \<Rightarrow> services \<Rightarrow> bool" where
  "IsServiceAvailable t us =
     (case gm_get us t of None \<Rightarrow> False | Some s \<Rightarrow> si_Enabled s \<and> si_Addresses s \<noteq> [])"

section \<open>Clients\<close>

record 'c service_manager =
  sm_services :: services
  sm_connections :: "(string \<times> 'c) list"
  sm_clients :: "(string \<times> 'c) list"
  sm_cancelled :: bool

definition NewServiceManager :: "services \<Rightarrow> 'c service_manager" where
  "NewServiceManager us = \<lparr>sm_services = us, sm_connections = [], sm_clients = [], sm_cancelled = False\<rparr>"

definition createClient ::
  "(string \<Rightarrow> err + 'c) \<Rightarrow> string \<Rightarrow> 'c service_manager \<Rightarrow> (err + 'c) \<times> 'c service_manager" where
  "createClient dial endpoint sm =
     (case gm_get (sm_clients sm) endpoint of
        Some c \<Rightarrow> (Inr c, sm)
      | None \<Rightarrow>
          (case dial endpoint of
             Inl e \<Rightarrow> (Inl (ErrWrap endpoint e), sm)
           | Inr c \<Rightarrow> (Inr c, sm\<lparr>sm_connections := gm_put endpoint c (sm_connections sm),
                                sm_clients := gm_put endpoint c (sm_clients sm)\<rparr>)))"

definition GetClient ::
  "(string \<Rightarrow> err + 'c) \<Rightarrow> service_type \<Rightarrow> 'c service_manager \<Rightarrow> (err + 'c) \<times> 'c service_manager" where
  "GetClient dial t sm =
     (case GetService t (sm_services sm) of
        Inl e \<Rightarrow> (Inl e, sm)
      | Inr s \<Rightarrow>
          (case si_Addresses s of
             [] \<Rightarrow> (Inl (ErrNoAddress t), sm)
           | endpoint # _ \<Rightarrow>
               (case gm_get (sm_clients sm) endpoint of
                  Some c \<Rightarrow> (Inr c, sm)
                | None \<Rightarrow> createClient dial endpoint sm)))"

text \<open>
  The remote call acts on a world \<open>'w\<close>, what the rest of the program may do meanwhile; \<open>put\<close> stores
  the manager in it before the call.
\<close>

definition CallService ::
  "(string \<Rightarrow> err + 'c) \<Rightarrow> ('c \<Rightarrow> upstream_request \<Rightarrow> 'w \<Rightarrow> (err + upstream_response) \<times> 'w) \<Rightarrow>
     service_type \<Rightarrow> upstream_request \<Rightarrow> 'c service_manager \<Rightarrow> ('c service_manager \<Rightarrow> 'w \<Rightarrow> 'w) \<Rightarrow> 'w \<Rightarrow>
     (err + upstream_response) \<times> 'w" where
  "CallService dial invoke t req sm put w =
     (case GetClient dial t sm of
        (Inl e, sm1) \<Rightarrow> (Inl e, put sm1 w)
      | (Inr c, sm1) \<Rightarrow> invoke c req (put sm1 w))"

text \<open>The loop of \<open>GetAllClients\<close> under the read lock: a missing client needs the write lock.\<close>

fun all_clients ::
  "'c service_manager \<Rightarrow> services \<Rightarrow> (service_type \<times> 'c) list \<Rightarrow> (service_type \<times> 'c) list option" where
  "all_clients sm [] acc = Some acc"
| "all_clients sm ((t, _) # us) acc =
     (case GetService t (sm_services sm) of
        Inl _ \<Rightarrow> all_clients sm us acc
      | Inr s \<Rightarrow>
          (case si_Addresses s of
             [] \<Rightarrow> all_clients sm us acc
           | endpoint # _ \<Rightarrow>
               (case gm_get (sm_clients sm) endpoint of
                  Some c \<Rightarrow> all_clients sm us (gm_put t c acc)
                | None \<Rightarrow> None)))"

definition GetAllClients :: "'c service_manager \<Rightarrow> (service_type \<times> 'c) list option" where
  "GetAllClients sm = all_clients sm (GetAllServices (sm_services sm)) []"

definition IsServiceConnected :: "service_type \<Rightarrow> 'c service_manager \<Rightarrow> bool" where
  "IsServiceConnected t sm =
     (case GetService t (sm_services sm) of
        Inl _ \<Rightarrow> False
      | Inr s \<Rightarrow> (case si_Addresses s of [] \<Rightarrow> False | a # _ \<Rightarrow> gm_get (sm_clients sm) a \<noteq> None))"

text \<open>\<open>Close\<close> logs the errors of closing and forgets every connection.\<close>

definition sm_Close :: "'c service_manager \<Rightarrow> err option \<times> 'c service_manager" where
  "sm_Close sm = (None, sm\<lparr>sm_cancelled := True, sm_connections := [], sm_clients := []\<rparr>)"

section \<open>Routing\<close>

text \<open>\<open>strings.ToLower\<close> on ASCII; other characters are outside the model.\<close>

definition lower_char :: "char \<Rightarrow> char" where
  "lower_char c =
     (if 65 \<le> (of_char c :: nat) \<and> (of_char c :: nat) \<le> 90 then char_of ((of_char c :: nat) + 32) else c)"

definition ToLower :: "string \<Rightarrow> string" where
  "ToLower s = map lower_char s"

text \<open>\<open>strings.Contains\<close>.\<close>

fun Contains :: "string \<Rightarrow> string \<Rightarrow> bool" where
  "Contains [] sub = (sub = [])"
| "Contains (x # xs) sub = (take (length sub) (x # xs) = sub \<or> Contains xs sub)"

definition isHelloAction :: "string \<Rightarrow> bool" where
  "isHelloAction action = (action \<in> set [''hello'', ''logout'', ''status'', ''heartbeat'', ''data_sync''])"

definition isZoneAction :: "string \<Rightarrow> bool" where
  "isZoneAction action =
     list_ex (\<lambda>z. action = z \<or> Contains action z) [''zone'', ''echo'', ''calculate'', ''time'']"

definition determineUpstreamService :: "business_request \<Rightarrow> service_type" where
  "determineUpstreamService req =
     (let action = ToLower (bq_Action req) in
      if isHelloAction action then ServiceTypeHello
      else if isZoneAction action then ServiceTypeZone
      else ServiceTypeBusiness)"

text \<open>\<open>getUpstreamServiceInfo\<close>: the text \<open>type(address)\<close>, for the log only.\<close>

definition getUpstreamServiceInfo :: "service_type \<Rightarrow> services option \<Rightarrow> string" where
  "getUpstreamServiceInfo t us =
     (case us of
        None \<Rightarrow> t @ ''(unconfigured)''
      | Some us \<Rightarrow>
          (case GetService t us of
             Inl _ \<Rightarrow> t @ ''(unconfigured)''
           | Inr s \<Rightarrow> (case si_Addresses s of [] \<Rightarrow> t @ ''(unconfigured)'' | a # _ \<Rightarrow> t @ ''('' @ a @ '')'')))"

section \<open>The registry refines a table of addresses and switches\<close>

datatype reg_op =
  RegAdd service_type "string list" | RegUpdate service_type "string list"
| RegEnable service_type | RegDisable service_type | RegRemove service_type

fun reg_step :: "reg_op \<Rightarrow> services \<Rightarrow> services" where
  "reg_step (RegAdd t as) us = AddService t as us"
| "reg_step (RegUpdate t as) us = snd (UpdateService t as us)"
| "reg_step (RegEnable t) us = snd (EnableService t us)"
| "reg_step (RegDisable t) us = snd (DisableService t us)"
| "reg_step (RegRemove t) us = RemoveService t us"

type_synonym table = "service_type \<Rightarrow> (string list \<times> bool) option"

fun table_step :: "reg_op \<Rightarrow> table \<Rightarrow> table" where
  "table_step (RegAdd t as) f = f(t \<mapsto> (as, True))"
| "table_step (RegUpdate t as) f = (case f t of None \<Rightarrow> f | Some (_, b) \<Rightarrow> f(t \<mapsto> (as, b)))"
| "table_step (RegEnable t) f = (case f t of None \<Rightarrow> f | Some (as, _) \<Rightarrow> f(t \<mapsto> (as, True)))"
| "table_step (RegDisable t) f = (case f t of None \<Rightarrow> f | Some (as, _) \<Rightarrow> f(t \<mapsto> (as, False)))"
| "table_step (RegRemove t) f = f(t := None)"

definition table_of :: "services \<Rightarrow> table" where
  "table_of us t = map_option (\<lambda>s. (si_Addresses s, si_Enabled s)) (gm_get us t)"

lemma table_of_step: "table_of (reg_step x us) = table_step x (table_of us)"
  by (cases x) (auto simp: fun_eq_iff table_of_def AddService_def UpdateService_def EnableService_def
      DisableService_def RemoveService_def split: option.splits)

lemma table_of_run: "table_of (fold reg_step xs us) = fold table_step xs (table_of us)"
  by (induction xs arbitrary: us) (simp_all add: table_of_step)

text \<open>Whatever sequence of registrations, updates, switches and removals, a service is served exactly
  when the table that the sequence describes has it switched on, with the addresses last given; it
  counts as available when it also has an address. \<close>

theorem registry_refines:
  "let us = fold reg_step xs NewUpstreamServices; f = fold table_step xs (\<lambda>_. None) in
   (case f t of
      None \<Rightarrow> GetService t us = Inl (ErrNoService t)
    | Some (as, False) \<Rightarrow> GetService t us = Inl (ErrServiceDisabled t)
    | Some (as, True) \<Rightarrow> (\<exists>s. GetService t us = Inr s \<and> si_Addresses s = as)) \<and>
   (IsServiceAvailable t us \<longleftrightarrow> (\<exists>as. f t = Some (as, True) \<and> as \<noteq> []))"
proof -
  let ?us = "fold reg_step xs NewUpstreamServices"
  have "table_of NewUpstreamServices = (\<lambda>_. None)"
    by (simp add: fun_eq_iff table_of_def NewUpstreamServices_def)
  then have "fold table_step xs (\<lambda>_. None) = table_of ?us"
    using table_of_run [of xs NewUpstreamServices] by simp
  then show ?thesis
    by (auto simp: Let_def table_of_def GetService_def IsServiceAvailable_def split: option.splits bool.splits)
qed

theorem registry_refines_witness:
  "let us = fold reg_step [RegAdd ''zone'' [''a:1''], RegDisable ''zone'', RegUpdate ''zone'' [''b:2''], RegAdd ''hello'' []]
         NewUpstreamServices
   in GetService ''zone'' us = Inl (ErrServiceDisabled ''zone'') \<and> (\<exists>s. GetService ''hello'' us = Inr s \<and> si_Addresses s = []) \<and>
      \<not> IsServiceAvailable ''hello'' us \<and> GetService ''business'' us = Inl (ErrNoService ''business'')"
proof -
  note r = registry_refines [where xs = "[RegAdd ''zone'' [''a:1''], RegDisable ''zone'', RegUpdate ''zone'' [''b:2''], RegAdd ''hello'' []]"]
  show ?thesis using r [where t = "''zone''"] r [where t = "''hello''"] r [where t = "''business''"] by (simp add: Let_def)
qed

section \<open>Routing is total and ignores case\<close>

lemma lower_char_idem [simp]: "lower_char (lower_char c) = lower_char c"
  by (simp add: lower_char_def)

lemma ToLower_idem [simp]: "ToLower (ToLower s) = ToLower s"
  by (simp add: ToLower_def comp_def)

lemma Contains_append: "Contains (xs @ sub @ ys) sub"
  by (induction xs) (cases "sub @ ys"; cases sub; auto)+

lemma Contains_sub: "Contains s sub \<longleftrightarrow> (\<exists>xs ys. s = xs @ sub @ ys)"
proof
  show "Contains s sub \<Longrightarrow> \<exists>xs ys. s = xs @ sub @ ys"
  proof (induction s)
    case (Cons x s)
    show ?case
    proof (cases "take (length sub) (x # s) = sub")
      case True
      then have "x # s = [] @ sub @ drop (length sub) (x # s)" by (metis append_Nil append_take_drop_id)
      then show ?thesis by blast
    next
      case False
      then obtain xs ys where "s = xs @ sub @ ys" using Cons by auto
      then have "x # s = (x # xs) @ sub @ ys" by simp
      then show ?thesis by blast
    qed
  qed simp
qed (auto simp: Contains_append)

text \<open>Every action has exactly one service, whatever its case: the five session actions go to the hello
  service; any other action that is or contains zone, echo, calculate or time goes to the zone service,
  every other one to the business service. \<close>

theorem routing_total:
  "let a = ToLower (bq_Action req);
       hello = (a \<in> {''hello'', ''logout'', ''status'', ''heartbeat'', ''data_sync''});
       zone = (\<exists>z \<in> {''zone'', ''echo'', ''calculate'', ''time''}. \<exists>xs ys. a = xs @ z @ ys)
   in determineUpstreamService req =
        (if hello then ServiceTypeHello else if zone then ServiceTypeZone else ServiceTypeBusiness) \<and>
      determineUpstreamService (req\<lparr>bq_Action := a\<rparr>) = determineUpstreamService req"
proof -
  have z: "isZoneAction a \<longleftrightarrow> (\<exists>z \<in> {''zone'', ''echo'', ''calculate'', ''time''}. \<exists>xs ys. a = xs @ z @ ys)" for a
    unfolding isZoneAction_def Contains_sub by (auto intro: exI [of _ "[]"])
  show ?thesis
    by (simp add: determineUpstreamService_def Let_def isHelloAction_def z)
qed

theorem routing_total_witness:
  "let req = (\<lambda>a. \<lparr>bq_Action = a, bq_Params = [], bq_Data = []\<rparr>)
   in determineUpstreamService (req ''HeLLo'') = ServiceTypeHello \<and>
      determineUpstreamService (req ''TimeZone'') = determineUpstreamService (req ''timezone'') \<and>
      determineUpstreamService (req ''timezone'') = ServiceTypeZone \<and> determineUpstreamService (req ''buy'') = ServiceTypeBusiness"
proof -
  have "ToLower ''HeLLo'' = ''hello''" "ToLower ''TimeZone'' = ''timezone''" by code_simp+
  moreover have "determineUpstreamService \<lparr>bq_Action = ''timezone'', bq_Params = [], bq_Data = []\<rparr> = ServiceTypeZone"
    "determineUpstreamService \<lparr>bq_Action = ''buy'', bq_Params = [], bq_Data = []\<rparr> = ServiceTypeBusiness" by code_simp+
  ultimately show ?thesis
    using routing_total [of "\<lparr>bq_Action = ''HeLLo'', bq_Params = [], bq_Data = []\<rparr>", unfolded Let_def, THEN conjunct1]
      routing_total [of "\<lparr>bq_Action = ''TimeZone'', bq_Params = [], bq_Data = []\<rparr>", unfolded Let_def, THEN conjunct2]
    by (simp add: Let_def)
qed

section \<open>One client per endpoint\<close>

definition clients_ok :: "(string \<Rightarrow> err + 'c) \<Rightarrow> 'c service_manager \<Rightarrow> bool" where
  "clients_ok dial sm \<longleftrightarrow> sm_clients sm = sm_connections sm \<and>
     (\<forall>a c. gm_get (sm_clients sm) a = Some c \<longrightarrow> dial a = Inr c)"

text \<open>A client is created once per endpoint and reused: asking again changes nothing and returns the
  same client, which is the one of the service's first address; an unknown, disabled or addressless
  service is an error and nothing is dialed. \<close>

theorem client_reuse:
  assumes "clients_ok dial sm" "GetClient dial t sm = (r, sm1)"
  shows "clients_ok dial sm1 \<and> sm_services sm1 = sm_services sm \<and>
    (\<forall>c. r = Inr c \<longrightarrow> GetClient dial t sm1 = (Inr c, sm1) \<and> IsServiceConnected t sm1 \<and>
       (\<exists>s. GetService t (sm_services sm) = Inr s \<and> si_Addresses s \<noteq> [] \<and> dial (hd (si_Addresses s)) = Inr c)) \<and>
    (\<not> IsServiceAvailable t (sm_services sm) \<longrightarrow> (\<exists>e. r = Inl e) \<and> sm1 = sm)"
  using assms
  by (auto simp: GetClient_def createClient_def clients_ok_def IsServiceConnected_def IsServiceAvailable_def
      GetService_def split: sum.splits list.splits option.splits if_splits)

definition toy_dial :: "string \<Rightarrow> err + nat" where
  "toy_dial a = (if a = ''down'' then Inl ErrEOF else Inr (length a))"

theorem client_reuse_witness:
  "fst (GetClient toy_dial ''zone'' (NewServiceManager (AddService ''zone'' [''h:1''] NewUpstreamServices))) = Inr 3"
proof -
  let ?sm = "NewServiceManager (AddService ''zone'' [''h:1''] NewUpstreamServices) :: nat service_manager"
  obtain r sm1 where g: "GetClient toy_dial ''zone'' ?sm = (r, sm1)" by (metis surj_pair)
  have "clients_ok toy_dial ?sm" by (simp add: clients_ok_def NewServiceManager_def)
  from client_reuse [OF this g] have "\<forall>c. r = Inr c \<longrightarrow> toy_dial ''h:1'' = Inr c"
    by (auto simp: NewServiceManager_def AddService_def NewUpstreamServices_def GetService_def)
  moreover have "\<exists>c. r = Inr c"
    using g by (auto simp: GetClient_def createClient_def NewServiceManager_def AddService_def
        NewUpstreamServices_def GetService_def toy_dial_def)
  ultimately show ?thesis using g by (auto simp: toy_dial_def)
qed

end
