(* ===== verification/Gateway.thy ===== *)
theory Gateway
  imports Ordered_Sender Overload Upstream_Registry
begin

text \<open>
  The request path of \<open>internal/gateway\<close>: \<open>server_connection.go\<close> (first message, dispatch),
  \<open>handlers.go\<close> (start, stop, heartbeat, business request, acknowledgement), \<open>async_processor.go\<close>
  (the task queue and its workers), \<open>server_push.go\<close> and \<open>unicast_service.go\<close> (pushes from upstream).

  A \<open>server\<close> is the state the \<open>Server\<close> struct points to; a session is a position in the manager's
  store. The code outside the repository is in \<open>env\<close>: the session externals, dialing, and the remote
  call \<open>ev_invoke\<close>, which may change the server, because other goroutines run during the call.
  Apart from that, a handler is one step. Contexts and deadlines belong to the remote call; log
  output is left out. The result \<open>bool\<close> of a handler is its success flag.
\<close>

section \<open>State\<close>

record async_task =
  at_TaskID :: "string \<times> u64"
  at_SessionID :: string
  at_Session :: nat
  at_Request :: client_request
  at_BusinessReq :: business_request
  at_ServiceType :: service_type
  at_UpstreamReq :: upstream_request
  at_IsLogin :: bool

record async_config =
  ac_MaxWorkers :: int
  ac_MaxQueueSize :: int
  ac_TaskTimeout :: duration

record async =
  ap_config :: async_config
  ap_taskQueue :: "async_task list"
  ap_started :: bool
  ap_stopCh_closed :: bool
  ap_workers :: nat

record ('x, 'c) server =
  sv_mgr :: "'x manager"
  sv_metrics :: metrics
  sv_tracker :: tracker
  sv_protector :: protector
  sv_services :: services
  sv_upstream :: "'c service_manager option"
  sv_async :: "async option"
  sv_running :: bool
  sv_stopCh_closed :: bool

record ('x, 'c) env =
  ev_ext :: "'x ext"
  ev_dial :: "string \<Rightarrow> err + 'c"
  ev_invoke :: "'c \<Rightarrow> upstream_request \<Rightarrow> ('x, 'c) server \<Rightarrow> (err + upstream_response) \<times> ('x, 'c) server"

text \<open>An operation of a session and the metrics, run on the session of the store.\<close>

definition on_sess ::
  "nat \<Rightarrow> ('x session \<Rightarrow> metrics \<Rightarrow> 'a \<times> 'x session \<times> metrics) \<Rightarrow> ('x, 'c) server \<Rightarrow> 'a \<times> ('x, 'c) server" where
  "on_sess r f sv =
     (case f (sess_at r (sv_mgr sv)) (sv_metrics sv) of
        (a, s', ms') \<Rightarrow> (a, sv\<lparr>sv_mgr := upd_sess r (\<lambda>_. s') (sv_mgr sv), sv_metrics := ms'\<rparr>))"

definition sess_of :: "nat \<Rightarrow> ('x, 'c) server \<Rightarrow> 'x session" where
  "sess_of r sv = sess_at r (sv_mgr sv)"

section \<open>Upstream calls\<close>

definition callUpstreamService ::
  "('x, 'c) env \<Rightarrow> service_type \<Rightarrow> upstream_request \<Rightarrow> ('x, 'c) server \<Rightarrow>
     (err + upstream_response) \<times> ('x, 'c) server" where
  "callUpstreamService ev t req sv =
     (case sv_upstream sv of
        None \<Rightarrow> (Inl ErrNoUpstream, sv)
      | Some sm \<Rightarrow>
          CallService (ev_dial ev) (ev_invoke ev) t req sm (\<lambda>sm sv. sv\<lparr>sv_upstream := Some sm\<rparr>) sv)"

section \<open>The task queue\<close>

definition NewAsyncRequestProcessor :: "async_config \<Rightarrow> async" where
  "NewAsyncRequestProcessor c =
     \<lparr>ap_config = c, ap_taskQueue = [], ap_started = False, ap_stopCh_closed = False, ap_workers = 0\<rparr>"

definition async_Start :: "async \<Rightarrow> err option \<times> async" where
  "async_Start a =
     (if ap_started a then (Some ErrAlreadyStarted, a)
      else (None, a\<lparr>ap_workers := nat (ac_MaxWorkers (ap_config a)), ap_started := True\<rparr>))"

text \<open>\<open>Stop\<close> waits until every worker has left its loop; tasks still queued stay there. Closing \<open>stopCh\<close>
  again, after a restart, panics.\<close>

definition async_Stop :: "async \<Rightarrow> (err option \<times> async) option" where
  "async_Stop a =
     (if \<not> ap_started a then Some (None, a)
      else if ap_stopCh_closed a then None
      else Some (None, a\<lparr>ap_stopCh_closed := True, ap_workers := 0, ap_started := False\<rparr>))"

text \<open>A send on the buffered channel that does not block (capacity at least one).\<close>

definition SubmitTask :: "async_task \<Rightarrow> async \<Rightarrow> bool \<times> async" where
  "SubmitTask task a =
     (if \<not> ap_started a then (False, a)
      else if int (length (ap_taskQueue a)) < ac_MaxQueueSize (ap_config a) then
        (True, a\<lparr>ap_taskQueue := ap_taskQueue a @ [task]\<rparr>)
      else (False, a))"

definition GetQueueLength :: "async \<Rightarrow> int" where
  "GetQueueLength a = int (length (ap_taskQueue a))"

definition isSessionValid :: "'x session \<Rightarrow> bool" where
  "isSessionValid s \<longleftrightarrow> State s \<noteq> SessionClosed \<and> s_transport s \<noteq> None"

section \<open>Responses\<close>

definition sendErrorResponse ::
  "('x, 'c) env \<Rightarrow> time \<Rightarrow> nat \<Rightarrow> u32 \<Rightarrow> int \<Rightarrow> msgtext \<Rightarrow> msgtext \<Rightarrow> ('x, 'c) server \<Rightarrow> ('x, 'c) server" where
  "sendErrorResponse ev now r msgID code message detail sv =
     snd (on_sess r (SendErrorResponse (ev_ext ev) now msgID code message detail) sv)"

text \<open>The loops of the two \<open>send...Notifies\<close> of the server.\<close>

fun push_items ::
  "('x, 'c) env \<Rightarrow> time \<Rightarrow> nat \<Rightarrow> notify_item list \<Rightarrow> ('x, 'c) server \<Rightarrow> err option \<times> ('x, 'c) server" where
  "push_items ev now r [] sv = (None, sv)"
| "push_items ev now r (n # ns) sv =
     (case on_sess r (PushBusinessData (ev_ext ev) now (NotifyData n)) sv of
        (Some x, sv1) \<Rightarrow> (Some x, sv1)
      | (None, sv1) \<Rightarrow> push_items ev now r ns sv1)"

definition take_notifies ::
  "(ordering \<Rightarrow> notify_item list \<times> ordering) \<Rightarrow> nat \<Rightarrow> ('x, 'c) server \<Rightarrow> notify_item list \<times> ('x, 'c) server" where
  "take_notifies get r sv =
     (case GetOrderingManager (sess_of r sv) of
        None \<Rightarrow> ([], sv)
      | Some m \<Rightarrow>
          (case get m of
             (ns, m') \<Rightarrow>
               (ns, sv\<lparr>sv_mgr := upd_sess r (\<lambda>s. s\<lparr>s_orderingManager := Some m'\<rparr>) (sv_mgr sv)\<rparr>)))"

definition server_sendBeforeNotifies ::
  "('x, 'c) env \<Rightarrow> time \<Rightarrow> nat \<Rightarrow> u32 \<Rightarrow> ('x, 'c) server \<Rightarrow> err option \<times> ('x, 'c) server" where
  "server_sendBeforeNotifies ev now r g sv =
     (case take_notifies (GetAndRemoveBeforeNotifies g) r sv of (ns, sv1) \<Rightarrow> push_items ev now r ns sv1)"

definition server_sendAfterNotifies ::
  "('x, 'c) env \<Rightarrow> time \<Rightarrow> nat \<Rightarrow> u32 \<Rightarrow> ('x, 'c) server \<Rightarrow> err option \<times> ('x, 'c) server" where
  "server_sendAfterNotifies ev now r g sv =
     (case take_notifies (GetAndRemoveAfterNotifies g) r sv of (ns, sv1) \<Rightarrow> push_items ev now r ns sv1)"

definition processBoundNotifies ::
  "('x, 'c) env \<Rightarrow> time \<Rightarrow> nat \<Rightarrow> u32 \<Rightarrow> ('x, 'c) server \<Rightarrow> err option \<times> ('x, 'c) server" where
  "processBoundNotifies ev now r g sv =
     (case server_sendBeforeNotifies ev now r g sv of
        (Some x, sv1) \<Rightarrow> (Some x, sv1)
      | (None, sv1) \<Rightarrow> server_sendAfterNotifies ev now r g sv1)"

section \<open>Login\<close>

text \<open>\<open>strconv.ParseInt(s, 10, 64)\<close>.\<close>

definition digit_of :: "char \<Rightarrow> int option" where
  "digit_of c = (if 48 \<le> (of_char c :: int) \<and> (of_char c :: int) \<le> 57 then Some (of_char c - 48) else None)"

fun digits :: "int \<Rightarrow> string \<Rightarrow> int option" where
  "digits acc [] = Some acc"
| "digits acc (c # cs) = (case digit_of c of None \<Rightarrow> None | Some d \<Rightarrow> digits (acc * 10 + d) cs)"

definition ParseInt :: "string \<Rightarrow> err + int" where
  "ParseInt s =
     (let (neg, body) =
        (case s of c # cs \<Rightarrow> if c = CHR ''-'' then (True, cs) else if c = CHR ''+'' then (False, cs) else (False, s)
                 | [] \<Rightarrow> (False, []))
      in if body = [] then Inl (ErrParseInt s)
         else (case digits 0 body of
                 None \<Rightarrow> Inl (ErrParseInt s)
               | Some n \<Rightarrow> let v = (if neg then - n else n) in if in_i64 v then Inr v else Inl (ErrParseInt s)))"

definition handleLoginSuccess ::
  "nat \<Rightarrow> upstream_response \<Rightarrow> ('x, 'c) server \<Rightarrow> err option \<times> ('x, 'c) server" where
  "handleLoginSuccess r resp sv =
     (let zone =
        (case gm_get (ur_Headers resp) ''zone'' of
           Some z \<Rightarrow> if z \<noteq> [] then ParseInt z else Inr 0
         | None \<Rightarrow> Inr 0)
      in case zone of
           Inl x \<Rightarrow> (Some (ErrWrap ''handleLoginSuccess: zone'' x), sv)
         | Inr z \<Rightarrow>
             (case m_ActivateSession (s_ID (sess_of r sv)) z (sv_mgr sv) of
                (Some x, m) \<Rightarrow> (Some (ErrWrap ''handleLoginSuccess: activate'' x), sv\<lparr>sv_mgr := m\<rparr>)
              | (None, m) \<Rightarrow> (None, sv\<lparr>sv_mgr := m\<rparr>)))"

section \<open>Business requests\<close>

definition handleBusinessRequestSync ::
  "('x, 'c) env \<Rightarrow> time \<Rightarrow> nat \<Rightarrow> client_request \<Rightarrow> service_type \<Rightarrow> upstream_request \<Rightarrow> bool \<Rightarrow>
     ('x, 'c) server \<Rightarrow> bool \<times> ('x, 'c) server" where
  "handleBusinessRequestSync ev now r req t ureq isLogin sv =
     (case callUpstreamService ev t ureq sv of
        (Inl x, sv1) \<Rightarrow>
          (False, sendErrorResponse ev now r (cr_MsgId req) 500 TUpstreamError (ErrText x)
             (sv1\<lparr>sv_metrics := IncError ''upstream_error'' (sv_metrics sv1)\<rparr>))
      | (Inr resp, sv1) \<Rightarrow>
          let (login, sv2) = (if isLogin \<and> ur_Code resp = 200 then handleLoginSuccess r resp sv1 else (None, sv1)) in
          (case login of
             Some x \<Rightarrow> (False, sendErrorResponse ev now r (cr_MsgId req) 500 TLoginFailed (ErrText x) sv2)
           | None \<Rightarrow>
               (case on_sess r (SendBusinessResponse (ev_ext ev) now (cr_MsgId req) (ur_Code resp) (ur_Message resp)
                       (ur_Data resp) (ur_Headers resp)) sv2 of
                  (Some x, sv3) \<Rightarrow> (False, sv3)
                | (None, sv3) \<Rightarrow>
                    (True, snd (processBoundNotifies ev now r (grid_of (cr_SeqId req)) sv3)))))"

definition upstream_req :: "'x session \<Rightarrow> client_request \<Rightarrow> business_request \<Rightarrow> upstream_request" where
  "upstream_req s req breq =
     \<lparr>uq_SessionId = s_ID s, uq_Openid = s_OpenID s, uq_Action = bq_Action breq, uq_Params = bq_Params breq,
      uq_Data = bq_Data breq, uq_Headers = cr_Headers req, uq_ClientSeqId = cr_SeqId req\<rparr>"

definition server_OnUpstreamEnd :: "('x, 'c) server \<Rightarrow> ('x, 'c) server" where
  "server_OnUpstreamEnd sv =
     (case OnUpstreamEnd (sv_protector sv) (sv_metrics sv) of
        (p, ms) \<Rightarrow> sv\<lparr>sv_protector := p, sv_metrics := ms\<rparr>)"

text \<open>The end of \<open>handleBusinessRequest\<close>: a login waits for the answer, another request becomes a task.\<close>

definition forward_request ::
  "('x, 'c) env \<Rightarrow> time \<Rightarrow> nat \<Rightarrow> client_request \<Rightarrow> business_request \<Rightarrow> bool \<Rightarrow> ('x, 'c) server \<Rightarrow>
     bool \<times> ('x, 'c) server" where
  "forward_request ev now r req breq isLogin sv =
     (let s = sess_of r sv; ureq = upstream_req s req breq; t = determineUpstreamService breq in
      if isLogin then handleBusinessRequestSync ev now r req t ureq isLogin sv
      else (case sv_async sv of
              None \<Rightarrow> handleBusinessRequestSync ev now r req t ureq isLogin sv
            | Some a \<Rightarrow>
                (case SubmitTask
                    \<lparr>at_TaskID = (s_ID s, cr_SeqId req), at_SessionID = s_ID s, at_Session = r,
                     at_Request = req, at_BusinessReq = breq, at_ServiceType = t, at_UpstreamReq = ureq,
                     at_IsLogin = isLogin\<rparr> a of
                   (False, a') \<Rightarrow>
                     (False, sendErrorResponse ev now r (cr_MsgId req) 503 TServiceBusy TAsyncFullDetail
                        (sv\<lparr>sv_async := Some a'\<rparr>))
                 | (True, a') \<Rightarrow> (True, sv\<lparr>sv_async := Some a'\<rparr>))))"

definition handleBusinessRequest ::
  "('x, 'c) env \<Rightarrow> time \<Rightarrow> nat \<Rightarrow> client_request \<Rightarrow> ('x, 'c) server \<Rightarrow> bool \<times> ('x, 'c) server" where
  "handleBusinessRequest ev now r req sv =
     (let sid = s_ID (sess_of r sv); fail = sendErrorResponse ev now r (cr_MsgId req) in
      case ValidateClientSequence sid (cr_SeqId req) (sv_mgr sv) of
        (False, m) \<Rightarrow>
          (False, fail 400 TInvalidSeq (TSeqDetail (GetExpectedClientSequence sid m) (cr_SeqId req)) (sv\<lparr>sv_mgr := m\<rparr>))
      | (True, m) \<Rightarrow>
          let sv1 = sv\<lparr>sv_mgr := m\<rparr> in
          (case UnmarshalBusinessRequest (pb (ev_ext ev)) (cr_Payload req) of
             Inl x \<Rightarrow> (False, fail 400 TParseFailed (ErrText x) sv1)
           | Inr breq \<Rightarrow>
               let isLogin = (ToLower (bq_Action breq) = ''hello''); s = sess_of r sv1 in
               if isLogin \<and> \<not> CanProcessLoginRequest s then (False, fail 403 TBadState TLoginNotAllowed sv1)
               else if \<not> isLogin \<and> \<not> CanProcessBusinessRequest s then (False, fail 401 TNotLoggedIn TLoginFirst sv1)
               else
                 (case AllowUpstreamRequest (sv_protector sv1) (sv_metrics sv1) of
                    (False, p, ms) \<Rightarrow>
                      (False, fail 503 TUpstreamBusy TUpstreamBusyDetail (sv1\<lparr>sv_protector := p, sv_metrics := ms\<rparr>))
                  | (True, p, ms) \<Rightarrow>
                      (case OnUpstreamStart p ms of
                         (p2, ms2) \<Rightarrow>
                           (case forward_request ev now r req breq isLogin (sv1\<lparr>sv_protector := p2, sv_metrics := ms2\<rparr>) of
                              (ok, sv2) \<Rightarrow> (ok, server_OnUpstreamEnd sv2))))))"

section \<open>Workers\<close>

definition processTask ::
  "('x, 'c) env \<Rightarrow> time \<Rightarrow> async_task \<Rightarrow> ('x, 'c) server \<Rightarrow> ('x, 'c) server" where
  "processTask ev now task sv =
     (let r = at_Session task; req = at_Request task in
      if \<not> isSessionValid (sess_of r sv) then sv
      else (case callUpstreamService ev (at_ServiceType task) (at_UpstreamReq task) sv of
              (Inl x, sv1) \<Rightarrow>
                sendErrorResponse ev now r (cr_MsgId req) 500 TUpstreamError (ErrText x)
                  (sv1\<lparr>sv_metrics := IncError ''upstream_error'' (sv_metrics sv1)\<rparr>)
            | (Inr resp, sv1) \<Rightarrow>
                let g = grid_of (cr_SeqId req); sv2 = snd (server_sendBeforeNotifies ev now r g sv1) in
                (case on_sess r (SendBusinessResponse (ev_ext ev) now (cr_MsgId req) (ur_Code resp) (ur_Message resp)
                        (ur_Data resp) (ur_Headers resp)) sv2 of
                   (Some x, sv3) \<Rightarrow> sv3
                 | (None, sv3) \<Rightarrow> snd (server_sendAfterNotifies ev now r g sv3))))"

text \<open>A worker takes the oldest task off the channel and processes it.\<close>

definition take_task :: "async \<Rightarrow> (async_task \<times> async) option" where
  "take_task a =
     (if ap_workers a = 0 then None
      else (case ap_taskQueue a of [] \<Rightarrow> None | task # rest \<Rightarrow> Some (task, a\<lparr>ap_taskQueue := rest\<rparr>)))"

definition worker_step :: "('x, 'c) env \<Rightarrow> time \<Rightarrow> ('x, 'c) server \<Rightarrow> ('x, 'c) server option" where
  "worker_step ev now sv =
     (case sv_async sv of
        None \<Rightarrow> None
      | Some a \<Rightarrow>
          (case take_task a of
             None \<Rightarrow> None
           | Some (task, a') \<Rightarrow> Some (processTask ev now task (sv\<lparr>sv_async := Some a'\<rparr>))))"

section \<open>The other requests\<close>

definition handleHeartbeat ::
  "('x, 'c) env \<Rightarrow> time \<Rightarrow> nat \<Rightarrow> client_request \<Rightarrow> ('x, 'c) server \<Rightarrow> bool \<times> ('x, 'c) server" where
  "handleHeartbeat ev now r req sv =
     (if cr_SeqId req \<noteq> 0 then (False, sv)
      else (case UnmarshalHeartbeatRequest (pb (ev_ext ev)) (cr_Payload req) of
              Inl _ \<Rightarrow> (False, sv)
            | Inr h \<Rightarrow>
                (case on_sess r (SendHeartbeatResponse (ev_ext ev) now (cr_MsgId req) (hq_ClientTimestamp h)) sv of
                   (Some _, sv1) \<Rightarrow> (False, sv1)
                 | (None, sv1) \<Rightarrow> (True, sv1))))"

definition handleAck ::
  "('x, 'c) env \<Rightarrow> nat \<Rightarrow> client_request \<Rightarrow> ('x, 'c) server \<Rightarrow> bool \<times> ('x, 'c) server" where
  "handleAck ev r req sv =
     (if cr_SeqId req \<noteq> 0 then (False, sv)
      else (case UnmarshalClientAck (pb (ev_ext ev)) (cr_Payload req) of
              Inl _ \<Rightarrow> (False, sv)
            | Inr ack \<Rightarrow>
                let sid = s_ID (sess_of r sv) in
                (case m_AckMessagesUpTo sid (ca_AckedSeqId ack) (sv_mgr sv) of
                   (k, m1) \<Rightarrow>
                     let m2 = upd_sess r (ResyncSessionSequence (ca_AckedSeqId ack)) m1
                     in (0 < k, sv\<lparr>sv_mgr := m2,
                                  sv_metrics := SetOutboundQueueSize sid (m_GetPendingCount sid m2) (sv_metrics sv)\<rparr>))))"

definition handleStartSync ::
  "('x, 'c) env \<Rightarrow> time \<Rightarrow> nat \<Rightarrow> client_request \<Rightarrow> ('x, 'c) server \<Rightarrow> bool \<times> ('x, 'c) server" where
  "handleStartSync ev now r req sv =
     (let fail = sendErrorResponse ev now r (cr_MsgId req); sid = s_ID (sess_of r sv) in
      if cr_SeqId req \<noteq> 0 then (False, fail 400 TInvalidSeq TStartSeqZero sv)
      else (case UnmarshalStartRequest (pb (ev_ext ev)) (cr_Payload req) of
              Inl x \<Rightarrow> (False, fail 400 TParseFailed (ErrText x) sv)
            | Inr st \<Rightarrow>
                if st_Openid st = [] then (False, fail 400 TNoOpenID TOpenIDEmpty sv)
                else
                  let m1 = upd_sess r (\<lambda>s. s\<lparr>s_OpenID := st_Openid st, s_ClientID := cr_Openid req\<rparr>) (sv_mgr sv) in
                  (case BindSession r m1 of
                     (Some x, m2) \<Rightarrow> (False, fail 500 TBindFailed (ErrText x) (sv\<lparr>sv_mgr := m2\<rparr>))
                   | (None, m2) \<Rightarrow>
                       let m3 = (if 0 < st_LastAckedSeqId st then
                                   upd_sess r (ResyncSessionSequence (st_LastAckedSeqId st))
                                     (snd (m_AckMessagesUpTo sid (st_LastAckedSeqId st) m2))
                                 else m2)
                       in (case on_sess r (SendStartResponse (ev_ext ev) now (cr_MsgId req) True None 30 sid)
                               (sv\<lparr>sv_mgr := m3\<rparr>) of
                             (Some _, sv1) \<Rightarrow> (False, sv1)
                           | (None, sv1) \<Rightarrow> (True, sv1)))))"

definition handleStop ::
  "('x, 'c) env \<Rightarrow> time \<Rightarrow> nat \<Rightarrow> client_request \<Rightarrow> ('x, 'c) server \<Rightarrow> bool \<times> ('x, 'c) server" where
  "handleStop ev now r req sv =
     (case UnmarshalStopRequest (pb (ev_ext ev)) (cr_Payload req) of
        Inl _ \<Rightarrow> (False, sv)
      | Inr _ \<Rightarrow>
          (False, sv\<lparr>sv_mgr := RemoveSessionWithDelay (ev_ext ev) now (s_ID (sess_of r sv)) False (sv_mgr sv)\<rparr>))"

section \<open>Dispatch\<close>

text \<open>The errors of these responses are only logged.\<close>

definition sendOverloadErrorResponse ::
  "('x, 'c) env \<Rightarrow> time \<Rightarrow> nat \<Rightarrow> client_request \<Rightarrow> ('x, 'c) server \<Rightarrow> ('x, 'c) server" where
  "sendOverloadErrorResponse ev now r req sv =
     (case cr_Type req of
        REQUEST_START \<Rightarrow> snd (on_sess r (SendStartResponse (ev_ext ev) now (cr_MsgId req) False None 0 []) sv)
      | REQUEST_STOP \<Rightarrow> sv
      | _ \<Rightarrow> snd (on_sess r (SendErrorResponse (ev_ext ev) now (cr_MsgId req) 503 TOverloaded TOverloadedDetail) sv))"

definition record_error :: "('x, 'c) server \<Rightarrow> ('x, 'c) server" where
  "record_error sv = sv\<lparr>sv_tracker := RecordError (sv_tracker sv)\<rparr>"

definition count_error :: "string \<Rightarrow> ('x, 'c) server \<Rightarrow> ('x, 'c) server" where
  "count_error t sv = record_error (sv\<lparr>sv_metrics := IncError t (sv_metrics sv)\<rparr>)"

text \<open>The \<open>switch\<close> on the type.\<close>

definition dispatch ::
  "('x, 'c) env \<Rightarrow> time \<Rightarrow> nat \<Rightarrow> client_request \<Rightarrow> ('x, 'c) server \<Rightarrow> bool \<times> ('x, 'c) server" where
  "dispatch ev now r req sv =
     (case cr_Type req of
        REQUEST_START \<Rightarrow> handleStartSync ev now r req sv
      | REQUEST_STOP \<Rightarrow> handleStop ev now r req sv
      | REQUEST_HEARTBEAT \<Rightarrow> handleHeartbeat ev now r req sv
      | REQUEST_BUSINESS \<Rightarrow> handleBusinessRequest ev now r req sv
      | REQUEST_ACK \<Rightarrow> handleAck ev r req sv
      | _ \<Rightarrow> (False, count_error ''unknown_message_type'' sv))"

text \<open>The part before decoding: activity, request counter, tracker.\<close>

definition note_request :: "time \<Rightarrow> nat \<Rightarrow> ('x, 'c) server \<Rightarrow> ('x, 'c) server" where
  "note_request now r sv =
     sv\<lparr>sv_mgr := upd_sess r (UpdateActivity now) (sv_mgr sv), sv_metrics := IncQPS (sv_metrics sv),
        sv_tracker := RecordRequest (sv_tracker sv)\<rparr>"

text \<open>\<open>None\<close> is the panic of the rate window (\<open>zero_window_panics\<close>).\<close>

definition handleMessageEvent ::
  "('x, 'c) env \<Rightarrow> time \<Rightarrow> nat \<Rightarrow> bytes \<Rightarrow> ('x, 'c) server \<Rightarrow> ('x, 'c) server option" where
  "handleMessageEvent ev now r data sv =
     (let sv1 = note_request now r sv in
      case DecodeClientRequest (pb (ev_ext ev)) data of
        Inl _ \<Rightarrow> Some (count_error ''decode_error'' sv1)
      | Inr req \<Rightarrow>
          if cr_Type req \<noteq> REQUEST_HEARTBEAT \<and> cr_Type req \<noteq> REQUEST_ACK then
            (case AllowNewRequest now (sv_protector sv1) (sv_metrics sv1) of
               None \<Rightarrow> None
             | Some (ok, p, ms) \<Rightarrow>
                 let sv2 = sv1\<lparr>sv_protector := p, sv_metrics := ms\<rparr> in
                 if \<not> ok then Some (record_error (sendOverloadErrorResponse ev now r req sv2))
                 else Some (snd (dispatch ev now r req sv2)))
          else Some (snd (dispatch ev now r req sv1)))"

section \<open>Connections\<close>

text \<open>
  What happens to one accepted stream: the bytes its client sends are the reader, the transport is
  \<open>'x\<close>. Reading runs ahead of handling by a channel of 32 events in order, and only the reading takes
  bytes from the reader, so each message is read when it is handled. A schedule says, for each turn of
  the loop, the time, whether the loop ends there (context cancelled or server stopping), and what the
  other goroutines do before the turn.
\<close>

record ('x, 'c) schedule =
  sc_time :: "nat \<Rightarrow> time"
  sc_done :: "nat \<Rightarrow> bool"
  sc_others :: "nat \<Rightarrow> ('x, 'c) server \<Rightarrow> ('x, 'c) server"

text \<open>OpenID and client identifier of the first message; a payload that does not parse gives none.\<close>

definition first_identity :: "protobuf \<Rightarrow> client_request \<Rightarrow> string \<times> string" where
  "first_identity p req =
     (case cr_Type req of
        REQUEST_START \<Rightarrow>
          (case UnmarshalStartRequest p (cr_Payload req) of
             Inl _ \<Rightarrow> ([], [])
           | Inr st \<Rightarrow> (st_Openid st, st_ClientId st))
      | REQUEST_BUSINESS \<Rightarrow>
          (case UnmarshalBusinessRequest p (cr_Payload req) of
             Inl _ \<Rightarrow> ([], [])
           | Inr b \<Rightarrow> (gm_getd [] (bq_Params b) ''Openid'', gm_getd [] (bq_Params b) ''clientId''))
      | _ \<Rightarrow> ([], []))"

definition handleFirstMessage ::
  "('x, 'c) env \<Rightarrow> time \<Rightarrow> string \<Rightarrow> string \<Rightarrow> 'x \<Rightarrow> bytes \<Rightarrow> ('x, 'c) server \<Rightarrow>
     (err + nat \<times> bytes) \<times> bytes \<times> ('x, 'c) server" where
  "handleFirstMessage ev now uuid userIP t reader sv =
     (case ReadMessage reader of
        (Inl x, rd) \<Rightarrow> (Inl x, rd, record_error sv)
      | (Inr data, rd) \<Rightarrow>
          (case DecodeClientRequest (pb (ev_ext ev)) data of
             Inl x \<Rightarrow> (Inl x, rd, record_error sv)
           | Inr req \<Rightarrow>
               (case first_identity (pb (ev_ext ev)) req of
                  (openID, clientID) \<Rightarrow>
                    (case CreateOrReconnectSession (ev_ext ev) uuid now t clientID openID userIP (sv_mgr sv) of
                       (r, _, m) \<Rightarrow> (Inr (r, data), rd, sv\<lparr>sv_mgr := m\<rparr>)))))"

text \<open>A successful read takes the four bytes of the header at least.\<close>

lemma ReadMessage_shorter: "ReadMessage rd = (Inr d, rd') \<Longrightarrow> length rd' < length rd"
  by (auto simp: ReadMessage_def ReadFull_def MessageHeaderSize_def Let_def split: if_splits sum.splits)

function handleSubsequentMessages ::
  "('x, 'c) env \<Rightarrow> ('x, 'c) schedule \<Rightarrow> nat \<Rightarrow> nat \<Rightarrow> bytes \<Rightarrow> ('x, 'c) server \<Rightarrow> ('x, 'c) server option" where
  "handleSubsequentMessages ev sc i r reader sv =
     (let sv1 = sc_others sc i sv in
      if sc_done sc i then Some sv1
      else (case ReadMessage reader of
              (Inl x, _) \<Rightarrow> Some (if x = ErrEOF then sv1 else count_error ''read_error'' sv1)
            | (Inr data, rd) \<Rightarrow>
                (case handleMessageEvent ev (sc_time sc i) r data sv1 of
                   None \<Rightarrow> None
                 | Some sv2 \<Rightarrow> handleSubsequentMessages ev sc (Suc i) r rd sv2)))"
  by pat_completeness auto
termination
  by (relation "measure (\<lambda>(_, _, _, _, reader, _). length reader)") (auto dest!: ReadMessage_shorter [OF sym])

declare handleSubsequentMessages.simps [simp del]

definition end_connection :: "('x, 'c) server \<Rightarrow> ('x, 'c) server" where
  "end_connection sv =
     (case OnConnectionEnd (sv_protector sv) (sv_metrics sv) of
        (p, ms) \<Rightarrow>
          sv\<lparr>sv_protector := p, sv_metrics := ms, sv_tracker := RecordDisconnection (sv_tracker sv)\<rparr>)"

text \<open>
  \<open>handleConnection\<close>; the stream (or the error of \<open>AcceptStream\<close>) is an argument. The deferred calls close
  the stream and the connection; the session stays in the manager.
\<close>

definition handleConnection ::
  "('x, 'c) env \<Rightarrow> ('x, 'c) schedule \<Rightarrow> string \<Rightarrow> string \<Rightarrow> err + 'x \<times> bytes \<Rightarrow> ('x, 'c) server \<Rightarrow>
     ('x, 'c) server option" where
  "handleConnection ev sc uuid userIP accepted sv =
     (case accepted of
        Inl _ \<Rightarrow> Some (end_connection (record_error sv))
      | Inr (t, reader) \<Rightarrow>
          (case handleFirstMessage ev (sc_time sc 0) uuid userIP t reader sv of
             (Inl _, _, sv1) \<Rightarrow> Some (end_connection sv1)
           | (Inr (r, data), rd, sv1) \<Rightarrow>
               let sv2 = sv1\<lparr>sv_metrics := SetActiveConnections (GetSessionCount (sv_mgr sv1)) (sv_metrics sv1)\<rparr> in
               (case handleMessageEvent ev (sc_time sc 0) r data sv2 of
                  None \<Rightarrow> None
                | Some sv3 \<Rightarrow>
                    (case handleSubsequentMessages ev sc 1 r rd sv3 of
                       None \<Rightarrow> None
                     | Some sv4 \<Rightarrow>
                         Some (end_connection
                           (sv4\<lparr>sv_mgr := upd_sess r (\<lambda>s. s\<lparr>s_transport :=
                              map_option (\<lambda>t. conn_CloseWithError (ev_ext ev) 0 (stream_Close (ev_ext ev) t)) (s_transport s)\<rparr>)
                              (sv_mgr sv4)\<rparr>))))))"

text \<open>One turn of the loop of \<open>acceptConnections\<close>.\<close>

datatype 'x accept_outcome = AcceptExit | AcceptFailed | AcceptRefused 'x | AcceptStarted 'x

definition acceptConnections_round ::
  "('x, 'c) env \<Rightarrow> err + 'x \<Rightarrow> ('x, 'c) server \<Rightarrow> 'x accept_outcome \<times> ('x, 'c) server" where
  "acceptConnections_round ev conn sv =
     (case conn of
        Inl _ \<Rightarrow> if \<not> sv_running sv then (AcceptExit, sv) else (AcceptFailed, record_error sv)
      | Inr t \<Rightarrow>
          (case AllowNewConnection (sv_protector sv) (sv_metrics sv) of
             (False, p, ms) \<Rightarrow>
               (AcceptRefused (conn_CloseWithError (ev_ext ev) 503 t), sv\<lparr>sv_protector := p, sv_metrics := ms\<rparr>)
           | (True, p, ms) \<Rightarrow>
               (case OnConnectionStart p ms of
                  (p', ms') \<Rightarrow>
                    (AcceptStarted t,
                     sv\<lparr>sv_protector := p', sv_metrics := ms', sv_tracker := RecordConnection (sv_tracker sv)\<rparr>))))"

end
