(* ===== verification/Gateway_Push.thy ===== *)
theory Gateway_Push
  imports Gateway
begin

text \<open>
  Pushes from the upstream services (\<open>internal/gateway/server_push.go\<close>, \<open>unicast_service.go\<close>), and the
  construction, start and stop of the server (\<open>server.go\<close>, \<open>server_start.go\<close>).

  The remote procedures \<open>PushToClient\<close> and \<open>BroadcastToClients\<close> answer with a response and never with an
  error of the call. The order in which a broadcast visits the sessions is that of the session map.
\<close>

section \<open>Pushes by identifier\<close>

definition PushToSession ::
  "('x, 'c) env \<Rightarrow> time \<Rightarrow> string \<Rightarrow> bytes \<Rightarrow> ('x, 'c) server \<Rightarrow> err option \<times> ('x, 'c) server" where
  "PushToSession ev now sid data sv =
     (case GetSession sid (sv_mgr sv) of
        None \<Rightarrow> (Some (ErrSessionNotFound sid), sv)
      | Some r \<Rightarrow>
          if IsClosed (sess_of r sv) then (Some ErrSessionClosed, sv)
          else (case on_sess r (PushBusinessData (ev_ext ev) now data) sv of
                  (Some x, sv1) \<Rightarrow> (Some (ErrWrap ''PushToSession'' x), sv1)
                | (None, sv1) \<Rightarrow> (None, sv1)))"

definition PushToOpenID ::
  "('x, 'c) env \<Rightarrow> time \<Rightarrow> string \<Rightarrow> bytes \<Rightarrow> ('x, 'c) server \<Rightarrow> err option \<times> ('x, 'c) server" where
  "PushToOpenID ev now openID data sv =
     (case GetSessionByOpenID openID (sv_mgr sv) of
        None \<Rightarrow> (Some (ErrOpenIDNotFound openID), sv)
      | Some r \<Rightarrow> PushToSession ev now (s_ID (sess_of r sv)) data sv)"

text \<open>The type, title and content are only logged.\<close>

definition HandleUnicastPushRequest ::
  "('x, 'c) env \<Rightarrow> time \<Rightarrow> string \<Rightarrow> string \<Rightarrow> bytes \<Rightarrow> ('x, 'c) server \<Rightarrow> err option \<times> ('x, 'c) server" where
  "HandleUnicastPushRequest ev now targetType targetID data sv =
     (if targetType = ''session'' then PushToSession ev now targetID data sv
      else if targetType = ''openid'' then PushToOpenID ev now targetID data sv
      else (Some (ErrTargetType targetType), sv))"

section \<open>Unicast with ordering\<close>

text \<open>\<open>createNotifyBindMsgItem\<close>: a request that does not marshal leaves its data.\<close>

definition createNotifyBindMsgItem :: "protobuf \<Rightarrow> time \<Rightarrow> unicast_push_request \<Rightarrow> notify_item" where
  "createNotifyBindMsgItem p now req =
     \<lparr>NotifyData = (case Marshal p (PUnicastPushRequest req) of Inl _ \<Rightarrow> up_Data req | Inr d \<Rightarrow> d),
      MsgType = up_MsgType req, Title = up_Title req, Content = up_Content req, Metadata = up_Metadata req,
      SyncHint = up_SyncHint req, BindGrid = grid_of (up_BindClientSeqId req), CreateTime = Unix now\<rparr>"

text \<open>Adding to the ordering manager of a session of the store.\<close>

definition bind_notify ::
  "('x session \<Rightarrow> bool \<times> 'x session) \<Rightarrow> nat \<Rightarrow> ('x, 'c) server \<Rightarrow> bool \<times> ('x, 'c) server" where
  "bind_notify f r sv =
     (case f (sess_of r sv) of (b, s) \<Rightarrow> (b, sv\<lparr>sv_mgr := upd_sess r (\<lambda>_. s) (sv_mgr sv)\<rparr>))"

definition processNotifyMessage ::
  "('x, 'c) env \<Rightarrow> time \<Rightarrow> nat \<Rightarrow> unicast_push_request \<Rightarrow> ('x, 'c) server \<Rightarrow> err option \<times> ('x, 'c) server" where
  "processNotifyMessage ev now r req sv =
     (let g = grid_of (up_BindClientSeqId req); item = createNotifyBindMsgItem (pb (ev_ext ev)) now req in
      case up_SyncHint req of
        NSH_BEFORE_RESPONSE \<Rightarrow>
          if g = 0 then (Some (ErrBindRequired ''NSH_BEFORE_RESPONSE''), sv)
          else (case bind_notify (AddNotifyBindBeforeRsp g (Some item)) r sv of
                  (False, sv1) \<Rightarrow> (Some (ErrBindFailed ''before'' g), sv1)
                | (True, sv1) \<Rightarrow> (None, sv1))
      | NSH_AFTER_RESPONSE \<Rightarrow>
          if g = 0 then (Some (ErrBindRequired ''NSH_AFTER_RESPONSE''), sv)
          else (case bind_notify (AddNotifyBindAfterRsp g (Some item)) r sv of
                  (False, sv1) \<Rightarrow> (Some (ErrBindFailed ''after'' g), sv1)
                | (True, sv1) \<Rightarrow> (None, sv1))
      | _ \<Rightarrow>
          (case Marshal (pb (ev_ext ev)) (PBusinessResponse
               \<lparr>br_Code = 200, br_Message = TitleText (up_MsgType req) (up_Title req), br_Data = up_Data req\<rparr>) of
             Inl x \<Rightarrow> (Some (ErrWrap ''notify: marshal'' x), sv)
           | Inr payload \<Rightarrow>
               (case on_sess r (PushBusinessData (ev_ext ev) now payload) sv of
                  (Some x, sv1) \<Rightarrow> (Some (ErrWrap ''notify: send'' x), sv1)
                | (None, sv1) \<Rightarrow> (None, sv1))))"

definition handleUnicastToSessionWithOrdering ::
  "('x, 'c) env \<Rightarrow> time \<Rightarrow> unicast_push_request \<Rightarrow> ('x, 'c) server \<Rightarrow> err option \<times> ('x, 'c) server" where
  "handleUnicastToSessionWithOrdering ev now req sv =
     (case GetSession (up_TargetId req) (sv_mgr sv) of
        None \<Rightarrow> (Some (ErrSessionNotFound (up_TargetId req)), sv)
      | Some r \<Rightarrow>
          if \<not> IsNormal (sess_of r sv) then (Some ErrSessionNotNormal, sv)
          else processNotifyMessage ev now r req sv)"

definition handleUnicastToOpenIDWithOrdering ::
  "('x, 'c) env \<Rightarrow> time \<Rightarrow> unicast_push_request \<Rightarrow> ('x, 'c) server \<Rightarrow> err option \<times> ('x, 'c) server" where
  "handleUnicastToOpenIDWithOrdering ev now req sv =
     (case GetSessionByOpenID (up_TargetId req) (sv_mgr sv) of
        None \<Rightarrow> (Some ErrNoSession, sv)
      | Some r \<Rightarrow>
          if \<not> IsNormal (sess_of r sv) then (Some ErrSessionNotNormal, sv)
          else processNotifyMessage ev now r req sv)"

definition PushToClient ::
  "('x, 'c) env \<Rightarrow> time \<Rightarrow> unicast_push_request \<Rightarrow> ('x, 'c) server \<Rightarrow> unicast_push_response \<times> ('x, 'c) server" where
  "PushToClient ev now req sv =
     (case (if up_TargetType req = ''session'' then handleUnicastToSessionWithOrdering ev now req sv
            else if up_TargetType req = ''openid'' then handleUnicastToOpenIDWithOrdering ev now req sv
            else (Some (ErrTargetType (up_TargetType req)), sv)) of
        (None, sv1) \<Rightarrow> (\<lparr>ps_Success = True, ps_Message = TPushOK, ps_ErrorCode = []\<rparr>, sv1)
      | (Some x, sv1) \<Rightarrow> (\<lparr>ps_Success = False, ps_Message = ErrText x, ps_ErrorCode = ''PUSH_FAILED''\<rparr>, sv1))"

section \<open>Broadcast\<close>

definition sendBroadcastMessage ::
  "('x, 'c) env \<Rightarrow> time \<Rightarrow> nat \<Rightarrow> broadcast_request \<Rightarrow> ('x, 'c) server \<Rightarrow> err option \<times> ('x, 'c) server" where
  "sendBroadcastMessage ev now r req sv =
     (if IsClosed (sess_of r sv) then (Some ErrSessionClosed, sv)
      else (case Marshal (pb (ev_ext ev)) (PBusinessResponse
                \<lparr>br_Code = 200, br_Message = TitleText (bc_MsgType req) (bc_Title req), br_Data = bc_Data req\<rparr>) of
              Inl x \<Rightarrow> (Some (ErrWrap ''broadcast: marshal'' x), sv)
            | Inr payload \<Rightarrow>
                (case on_sess r (PushBusinessData (ev_ext ev) now payload) sv of
                   (Some x, sv1) \<Rightarrow> (Some (ErrWrap ''broadcast: send'' x), sv1)
                 | (None, sv1) \<Rightarrow> (None, sv1))))"

text \<open>The loop; the counter is an \<open>int32\<close> that never exceeds the number of sessions.\<close>

fun broadcast_loop ::
  "('x, 'c) env \<Rightarrow> time \<Rightarrow> broadcast_request \<Rightarrow> nat list \<Rightarrow> int \<Rightarrow> ('x, 'c) server \<Rightarrow> int \<times> ('x, 'c) server" where
  "broadcast_loop ev now req [] n sv = (n, sv)"
| "broadcast_loop ev now req (r # rs) n sv =
     (if \<not> IsNormal (sess_of r sv) \<or> IsClosed (sess_of r sv) then broadcast_loop ev now req rs n sv
      else (case sendBroadcastMessage ev now r req sv of
              (Some _, sv1) \<Rightarrow> broadcast_loop ev now req rs n sv1
            | (None, sv1) \<Rightarrow> broadcast_loop ev now req rs (n + 1) sv1))"

definition BroadcastToClients ::
  "('x, 'c) env \<Rightarrow> time \<Rightarrow> broadcast_request \<Rightarrow> ('x, 'c) server \<Rightarrow> broadcast_response \<times> ('x, 'c) server" where
  "BroadcastToClients ev now req sv =
     (let sessions = GetAllSessions (sv_mgr sv) in
      case broadcast_loop ev now req sessions 0 sv of
        (n, sv1) \<Rightarrow> (\<lparr>bp_SentCount = n, bp_Message = TSentTo n (int (length sessions))\<rparr>, sv1))"

section \<open>Construction, start and stop\<close>

text \<open>The part of the \<open>Config\<close> struct the modelled components read.\<close>

record config =
  cfg_UpstreamAddr :: string
  cfg_UpstreamServices :: "(string \<times> string list) list"
  cfg_SessionTimeout :: duration
  cfg_AckTimeout :: duration
  cfg_MaxRetries :: int
  cfg_Sync :: bool
  cfg_Overload :: "overload_config option"
  cfg_Async :: "async_config option"

definition initUpstreamServices :: "config \<Rightarrow> services \<Rightarrow> services" where
  "initUpstreamServices c us = fold (\<lambda>(t, as) us. AddService t as us) (cfg_UpstreamServices c) us"

text \<open>\<open>NewServer\<close>; \<open>cpus\<close> is \<open>runtime.NumCPU\<close>. The backup manager is not part of the server here.\<close>

definition DefaultAsyncConfig :: "int \<Rightarrow> async_config" where
  "DefaultAsyncConfig cpus = \<lparr>ac_MaxWorkers = cpus * 4, ac_MaxQueueSize = 10000, ac_TaskTimeout = 30 * Second\<rparr>"

definition NewServer :: "int \<Rightarrow> time \<Rightarrow> config \<Rightarrow> ('x, 'c) server" where
  "NewServer cpus now c =
     (let m = NewManager (cfg_SessionTimeout c) (cfg_AckTimeout c) (cfg_MaxRetries c) in
      \<lparr>sv_mgr = (if cfg_Sync c then EnableSync m else m),
       sv_metrics = NewGateServerMetrics,
       sv_tracker = NewSimpleTracker now,
       sv_protector = NewOverloadProtector now (cfg_Overload c),
       sv_services = initUpstreamServices c NewUpstreamServices,
       sv_upstream = None,
       sv_async = Some (NewAsyncRequestProcessor
         (case cfg_Async c of None \<Rightarrow> DefaultAsyncConfig cpus | Some a \<Rightarrow> a)),
       sv_running = False, sv_stopCh_closed = False\<rparr>)"

text \<open>
  \<open>initUpstreamConnections\<close>; the dialing in the background is \<open>preconnect\<close>, one service at a time. With no
  service configured but an upstream address the code returns nil and leaves the manager nil.
\<close>

definition initUpstreamConnections :: "config \<Rightarrow> ('x, 'c) server \<Rightarrow> err option \<times> ('x, 'c) server" where
  "initUpstreamConnections c sv =
     (if GetServiceCount (sv_services sv) = 0 \<and> cfg_UpstreamAddr c \<noteq> [] then (None, sv)
      else let sv1 = sv\<lparr>sv_upstream := Some (NewServiceManager (sv_services sv))\<rparr>;
               connectedCount = length (filter (\<lambda>(t, _). IsServiceAvailable t (sv_services sv))
                                         (GetAllServices (sv_services sv)))
           in if connectedCount = 0 then (Some ErrNoServices, sv1) else (None, sv1))"

definition preconnect :: "('x, 'c) env \<Rightarrow> service_type \<Rightarrow> ('x, 'c) server \<Rightarrow> ('x, 'c) server" where
  "preconnect ev t sv =
     (case sv_upstream sv of
        None \<Rightarrow> sv
      | Some sm \<Rightarrow> sv\<lparr>sv_upstream := Some (snd (GetClient (ev_dial ev) t sm))\<rparr>)"

text \<open>
  The listeners (QUIC, HTTP, metrics, gRPC) may fail to start; their joint result is an argument of
  \<open>server_Start\<close>. A failed start of the task queue is only logged.
\<close>

definition server_Start ::
  "config \<Rightarrow> err option \<Rightarrow> ('x, 'c) server \<Rightarrow> err option \<times> ('x, 'c) server" where
  "server_Start c listeners sv =
     (case initUpstreamConnections c (sv\<lparr>sv_running := True\<rparr>) of
        (Some x, sv1) \<Rightarrow> (Some (ErrWrap ''Start: upstream'' x), sv1)
      | (None, sv1) \<Rightarrow>
          (case listeners of
             Some x \<Rightarrow> (Some (ErrWrap ''Start: listen'' x), sv1)
           | None \<Rightarrow> (None, sv1\<lparr>sv_async := map_option (\<lambda>a. snd (async_Start a)) (sv_async sv1)\<rparr>)))"

definition isRunning :: "('x, 'c) server \<Rightarrow> bool" where
  "isRunning sv = sv_running sv"

text \<open>
  \<open>Stop\<close>, the state it leaves behind. A second call closes a closed channel and panics (\<open>None\<close>), as does
  stopping a task queue that was stopped before and restarted.
\<close>

definition server_Stop :: "('x, 'c) env \<Rightarrow> ('x, 'c) server \<Rightarrow> ('x, 'c) server option" where
  "server_Stop ev sv =
     (if sv_stopCh_closed sv then None
      else (case (case sv_async sv of None \<Rightarrow> Some None | Some a \<Rightarrow> map_option (\<lambda>(_, a). Some a) (async_Stop a)) of
              None \<Rightarrow> None
            | Some a \<Rightarrow> Some (sv\<lparr>sv_running := False, sv_stopCh_closed := True, sv_async := a,
                                  sv_mgr := manager_Stop (ev_ext ev) (sv_mgr sv)\<rparr>)))"

end
