(* ===== verification/Gateway_Steps.thy ===== *)
theory Gateway_Steps
  imports Gateway_Push
begin

text \<open>
  What the handlers of the gateway may do to the server. The locale \<open>manager_steps\<close> is what they ask of
  the session manager: a step relation that has the changes they make to sessions, the sending of a message
  among them. \<open>server_rel\<close> extends it by a relation between server states that every elementary change
  of the code respects (a step of the manager, a metrics call, the task queue, the protector apart from its
  connection counter, ...); inside it every handler is shown to respect the relation, once. The first is
  interpreted by \<open>mgr_step\<close> here and by the finer \<open>wire_step\<close> in \<open>Gateway_Stream\<close>, the second by \<open>mgr_rel\<close> (the
  manager moves only by its own steps), \<open>conn_rel\<close> (the connection counter is untouched) and \<open>wire_rel\<close>.
\<close>

section \<open>Changes of one session\<close>

definition sess_funs :: "'x ext \<Rightarrow> ('x session \<Rightarrow> 'x session) \<Rightarrow> bool" where
  "sess_funs e f \<longleftrightarrow> (\<forall>r m. (mgr_step e)\<^sup>*\<^sup>* m (upd_sess r f m))"

definition sess_ops :: "'x ext \<Rightarrow> 'x session \<Rightarrow> 'x session \<Rightarrow> bool" where
  "sess_ops e s s' \<longleftrightarrow> (\<exists>f. sess_funs e f \<and> s' = f s)"

lemma sess_funsI: "(\<And>r m. mgr_step e m (upd_sess r f m)) \<Longrightarrow> sess_funs e f"
  by (auto simp: sess_funs_def)

lemma upd_sess_comp: "upd_sess r g (upd_sess r f m) = upd_sess r (\<lambda>s. g (f s)) m"
  by (cases "r < length (m_store m)") (simp_all add: upd_sess_def list_update_beyond)

lemma upd_sess_at: "upd_sess r (\<lambda>_. f (sess_at r m)) m = upd_sess r f m"
  by (simp add: upd_sess_def sess_at_def)

lemma sess_ops_refl [simp]: "sess_ops e s s"
proof -
  have "sess_funs e (\<lambda>s. s)" by (simp add: sess_funs_def upd_sess_def)
  then show ?thesis by (auto simp: sess_ops_def)
qed

lemma sess_ops_trans:
  assumes "sess_ops e s s1" "sess_ops e s1 s2"
  shows "sess_ops e s s2"
proof -
  obtain f g where f: "sess_funs e f" "s1 = f s" and g: "sess_funs e g" "s2 = g s1"
    using assms by (auto simp: sess_ops_def)
  have "(mgr_step e)\<^sup>*\<^sup>* m (upd_sess r (\<lambda>s. g (f s)) m)" for r m
    using f(1) g(1) rtranclp_trans unfolding sess_funs_def upd_sess_comp [symmetric] by fastforce
  then show ?thesis using f(2) g(2) by (auto simp: sess_ops_def sess_funs_def)
qed

lemma sess_ops_steps: "sess_ops e (sess_at r m) s' \<Longrightarrow> (mgr_step e)\<^sup>*\<^sup>* m (upd_sess r (\<lambda>_. s') m)"
  by (auto simp: sess_ops_def sess_funs_def upd_sess_at)

lemma sess_op: "(\<And>r m. mgr_step e m (upd_sess r f m)) \<Longrightarrow> sess_ops e s (f s)"
  unfolding sess_ops_def using sess_funsI by blast

lemma sender_cb_ok: "cb_ok (oms_sendMessageDirectly e)"
  by (auto simp: cb_ok_def oms_sendMessageDirectly_def split: option.split prod.split)

lemma callback_ops:
  assumes "s_orderedQueue s = Some q"
  shows "sess_ops e s (s\<lparr>s_orderedQueue := Some (ensure_callback e q)\<rparr>)"
proof (cases "GetSendCallback q")
  case None
  then show ?thesis
    using sess_op [OF step_callback [OF sender_cb_ok], of e s] assms by (simp add: ensure_callback_def)
next
  case (Some cb)
  then have "s\<lparr>s_orderedQueue := Some (ensure_callback e q)\<rparr> = s" using assms by (simp add: ensure_callback_def)
  then show ?thesis by simp
qed

lemma send_ops: "sess_ops e s (fst (snd (SendOrderedMessage e now push s ms)))"
proof -
  let ?s1 = "snd (NewServerSeq s)"
  let ?push = "push\<lparr>sp_SeqId := s_serverSeq s + 1\<rparr>"
  have s1: "sess_ops e s ?s1" by (rule sess_op) (rule step_seq)
  show ?thesis
  proof (cases "EncodeServerPush (pb e) ?push")
    case (Inl x)
    then show ?thesis using s1 by (simp add: SendOrderedMessage_def NewServerSeq_def)
  next
    case (Inr d)
    show ?thesis
    proof (cases "s_orderedQueue s")
      case None
      then show ?thesis using s1 Inr by (simp add: SendOrderedMessage_def NewServerSeq_def GetOrderedQueue_def)
    next
      case (Some q)
      let ?qc = "ensure_callback e q"
      let ?s2 = "?s1\<lparr>s_orderedQueue := Some ?qc\<rparr>"
      have "sess_ops e ?s1 ?s2" by (rule callback_ops) (simp add: NewServerSeq_def Some)
      moreover have "sess_ops e ?s2 (fst (snd (session_Enqueue (s_serverSeq s + 1) ?push d now ?qc ?s2 ms)))"
        using sess_op [OF step_enqueue, of e ?s2 "s_serverSeq s + 1" ?push d now ms] by simp
      ultimately have "sess_ops e s (fst (snd (session_Enqueue (s_serverSeq s + 1) ?push d now ?qc ?s2 ms)))"
        using s1 sess_ops_trans by blast
      then show ?thesis
        using Inr Some by (auto simp: SendOrderedMessage_def NewServerSeq_def GetOrderedQueue_def split: prod.split option.split)
    qed
  qed
qed

text \<open>Every message goes through \<open>SendOrderedMessage\<close>.\<close>

lemma senders:
  "SendHeartbeatResponse e now i t = SendOrderedMessage e now (CreateHeartbeatResponse (pb e) now i 0 t)"
  "SendBusinessResponse e now i c msg d hs =
     SendOrderedMessage e now ((CreateBusinessResponse (pb e) i 0 c msg d)\<lparr>sp_Headers := hs\<rparr>)"
  "SendErrorResponse e now i c msg dt = SendOrderedMessage e now (CreateErrorMessage (pb e) i 0 c msg dt)"
  "SendStartResponse e now i ok x hb cid = SendOrderedMessage e now (CreateStartResponse (pb e) i 0 ok None hb cid)"
  "PushBusinessData e now d = SendOrderedMessage e now
     \<lparr>sp_MsgId = 0, sp_SeqId = 0, sp_Type = PUSH_BUSINESS_DATA, sp_Payload = d, sp_Headers = []\<rparr>"
  by (simp_all add: fun_eq_iff SendHeartbeatResponse_def SendBusinessResponse_def SendErrorResponse_def
      SendStartResponse_def PushBusinessData_def)

lemma resync_fun:
  "ResyncSessionSequence a = (\<lambda>s. case s_orderedQueue s of None \<Rightarrow> s
     | Some q \<Rightarrow> s\<lparr>s_orderedQueue := Some (ResyncSequence a q)\<rparr>)"
  by (simp add: ResyncSessionSequence_def GetOrderedQueue_def fun_eq_iff)

lemma resync_step: "mgr_step e m (upd_sess r (ResyncSessionSequence a) m)"
  unfolding resync_fun by (rule step_resync)

section \<open>No step forgets a session\<close>

lemma fold_len:
  assumes "\<And>x m. length (m_store (f x m)) = length (m_store m)"
  shows "length (m_store (fold f xs m)) = length (m_store m)"
  by (induction xs arbitrary: m) (simp_all add: assms)

lemma mgr_step_len: "mgr_step e m m' \<Longrightarrow> length (m_store m) \<le> length (m_store m')"
proof (induction rule: mgr_step.induct)
  case (step_create uuid m now t c u ip r rc m')
  from step_create(2) show ?case
    by (cases rule: create_cases) (auto simp: handleOldSessionOnReconnectAtomic_def Let_def)
next
  case (step_expire now m)
  have "length (m_store (expire_one e sid m)) = length (m_store m)" for sid m
    by (simp add: expire_one_def split: option.split)
  then show ?case by (simp add: cleanupExpiredSessions_round_def removeExpiredSessions_def fold_len)
next
  case (step_stop m)
  have "length (m_store (fold (\<lambda>(_, r). upd_sess r (session_Close e)) (m_sessions m) (m\<lparr>m_stopped := True\<rparr>))) =
      length (m_store m)"
    by (subst fold_len) (simp_all add: case_prod_beta)
  then show ?case by (simp add: manager_Stop_def)
qed (auto simp: m_AckMessagesUpTo_def m_ActivateSession_def ValidateClientSequence_def BindSession_def
    RemoveSessionWithDelay_def immediateRemoveSession_def fire_timer_def EnableSync_def Let_def
    split: option.split prod.split bool.split timer.split)

lemma mgr_steps_len: "(mgr_step e)\<^sup>*\<^sup>* m m' \<Longrightarrow> length (m_store m) \<le> length (m_store m')"
  by (induction rule: rtranclp_induct) (auto dest: mgr_step_len)

section \<open>The interface of the handlers\<close>

locale manager_steps =
  fixes e :: "'x ext" and mstep :: "'x manager \<Rightarrow> 'x manager \<Rightarrow> bool"
  assumes st_create: "uuid \<notin> s_ID ` set (m_store m) \<Longrightarrow>
      CreateOrReconnectSession e uuid now t c u ip m = (r, rc, m') \<Longrightarrow> mstep m m'"
    and st_send: "mstep\<^sup>*\<^sup>* m (upd_sess r (\<lambda>_. fst (snd (SendOrderedMessage e now push (sess_at r m) ms))) m)"
    and st_ack: "mstep m (snd (m_AckMessagesUpTo sid a m))"
    and st_resync: "mstep m (upd_sess r (ResyncSessionSequence a) m)"
    and st_activate: "mstep m (snd (m_ActivateSession sid z m))"
    and st_validate: "mstep m (snd (ValidateClientSequence sid n m))"
    and st_bind: "r < length (m_store m) \<Longrightarrow> mstep m (snd (BindSession r m))"
    and st_remove: "mstep m (RemoveSessionWithDelay e now sid delay m)"
    and st_identity: "mstep m (upd_sess r (\<lambda>s. s\<lparr>s_OpenID := u, s_ClientID := c\<rparr>) m)"
    and st_activity: "mstep m (upd_sess r (UpdateActivity now) m)"
    and st_bind_before: "mstep m (upd_sess r (\<lambda>s. snd (AddNotifyBindBeforeRsp g note s)) m)"
    and st_bind_after: "mstep m (upd_sess r (\<lambda>s. snd (AddNotifyBindAfterRsp g note s)) m)"
    and st_take_before: "mstep m (upd_sess r
      (\<lambda>s. s\<lparr>s_orderingManager := map_option (\<lambda>o'. snd (GetAndRemoveBeforeNotifies g o')) (s_orderingManager s)\<rparr>) m)"
    and st_take_after: "mstep m (upd_sess r
      (\<lambda>s. s\<lparr>s_orderingManager := map_option (\<lambda>o'. snd (GetAndRemoveAfterNotifies g o')) (s_orderingManager s)\<rparr>) m)"
    and st_hangup: "mstep m (upd_sess r (\<lambda>s. s\<lparr>s_transport :=
      map_option (\<lambda>t. conn_CloseWithError e 0 (stream_Close e t)) (s_transport s)\<rparr>) m)"

locale server_rel = manager_steps e mstep
  for e :: "'x ext" and mstep :: "'x manager \<Rightarrow> 'x manager \<Rightarrow> bool" +
  fixes R :: "('x, 'c) server \<Rightarrow> ('x, 'c) server \<Rightarrow> bool"
  assumes R_refl: "R sv sv"
    and R_trans: "R sv sv1 \<Longrightarrow> R sv1 sv2 \<Longrightarrow> R sv sv2"
    and R_mgr: "mstep (sv_mgr sv) m \<Longrightarrow> R sv (sv\<lparr>sv_mgr := m\<rparr>)"
    and R_metrics: "R sv (sv\<lparr>sv_metrics := ms\<rparr>)"
    and R_tracker: "R sv (sv\<lparr>sv_tracker := tk\<rparr>)"
    and R_upstream: "R sv (sv\<lparr>sv_upstream := u\<rparr>)"
    and R_async: "R sv (sv\<lparr>sv_async := a\<rparr>)"
    and R_protector: "currentConnections p = currentConnections (sv_protector sv) \<Longrightarrow> R sv (sv\<lparr>sv_protector := p\<rparr>)"
    and R_store: "R sv sv1 \<Longrightarrow> length (m_store (sv_mgr sv)) \<le> length (m_store (sv_mgr sv1))"
begin

text \<open>The environment: the same external code, and a remote call during which only such changes happen.\<close>

definition env_ok :: "('x, 'c) env \<Rightarrow> bool" where
  "env_ok ev \<longleftrightarrow> ev_ext ev = e \<and> (\<forall>c req sv. R sv (snd (ev_invoke ev c req sv)))"

lemma R_mgrs: "(mstep)\<^sup>*\<^sup>* (sv_mgr sv) m \<Longrightarrow> R sv (sv\<lparr>sv_mgr := m\<rparr>)"
proof (induction rule: rtranclp_induct)
  case base
  have "sv\<lparr>sv_mgr := sv_mgr sv\<rparr> = sv" by simp
  then show ?case using R_refl by metis
next
  case (step m1 m2)
  then have "R (sv\<lparr>sv_mgr := m1\<rparr>) (sv\<lparr>sv_mgr := m1, sv_mgr := m2\<rparr>)" by (intro R_mgr) simp
  then show ?case using step.IH R_trans by simp
qed

lemma R_mgr_metrics: "(mstep)\<^sup>*\<^sup>* (sv_mgr sv) m \<Longrightarrow> R sv (sv\<lparr>sv_mgr := m, sv_metrics := ms\<rparr>)"
  using R_trans [OF R_mgrs R_metrics] .

lemma R_prot_metrics:
  "currentConnections p = currentConnections (sv_protector sv) \<Longrightarrow> R sv (sv\<lparr>sv_protector := p, sv_metrics := ms\<rparr>)"
  using R_trans [OF R_protector R_metrics] .

lemma R_send: "R sv (snd (on_sess r (SendOrderedMessage e now push) sv))"
  using R_mgr_metrics [OF st_send] by (simp add: on_sess_def case_prod_beta)

lemma R_sends:
  assumes "env_ok ev"
  shows "R sv (snd (on_sess r (SendHeartbeatResponse (ev_ext ev) now i t) sv))"
    "R sv (snd (on_sess r (SendBusinessResponse (ev_ext ev) now i c msg d hs) sv))"
    "R sv (snd (on_sess r (SendStartResponse (ev_ext ev) now i b x hb cid) sv))"
    "R sv (snd (on_sess r (PushBusinessData (ev_ext ev) now d) sv))"
    "R sv (snd (on_sess r (SendErrorResponse (ev_ext ev) now i c msg dt) sv))"
  using assms R_send by (simp_all add: senders env_ok_def)

lemma R_send_error: "env_ok ev \<Longrightarrow> R sv (sendErrorResponse ev now r i c t d sv)"
  unfolding sendErrorResponse_def by (rule R_sends)

lemma R_call:
  assumes "env_ok ev"
  shows "R sv (snd (callUpstreamService ev t req sv))"
proof (cases "sv_upstream sv")
  case None
  then show ?thesis by (simp add: callUpstreamService_def R_refl)
next
  case (Some sm)
  obtain r sm1 where g: "GetClient (ev_dial ev) t sm = (r, sm1)" by (metis surj_pair)
  have "R (sv\<lparr>sv_upstream := Some sm1\<rparr>) (snd (ev_invoke ev c req (sv\<lparr>sv_upstream := Some sm1\<rparr>)))" for c
    using assms by (simp add: env_ok_def)
  then have "R sv (snd (ev_invoke ev c req (sv\<lparr>sv_upstream := Some sm1\<rparr>)))" for c
    by (rule R_trans [OF R_upstream])
  then show ?thesis
    using R_upstream by (cases r) (simp_all add: callUpstreamService_def CallService_def Some g)
qed

lemma R_push_items: "env_ok ev \<Longrightarrow> R sv (snd (push_items ev now r ns sv))"
proof (induction ns arbitrary: sv)
  case (Cons n ns)
  obtain x sv1 where p: "on_sess r (PushBusinessData (ev_ext ev) now (NotifyData n)) sv = (x, sv1)" by (metis surj_pair)
  have "R sv sv1"
    using R_sends(4) [OF Cons.prems, of sv r now "NotifyData n"] p by simp
  then show ?case using Cons R_trans p by (auto split: option.split)
qed (simp add: R_refl)

text \<open>Taking notifications, for either table.\<close>

lemma R_take:
  assumes "\<And>r m. mstep m (upd_sess r (\<lambda>s. s\<lparr>s_orderingManager :=
      map_option (\<lambda>o'. snd (get o')) (s_orderingManager s)\<rparr>) m)"
  shows "R sv (snd (take_notifies get r sv))"
proof (cases "s_orderingManager (sess_of r sv)")
  case (Some o')
  let ?f = "\<lambda>s. s\<lparr>s_orderingManager := map_option (\<lambda>o'. snd (get o')) (s_orderingManager s)\<rparr>"
  let ?g = "\<lambda>s. s\<lparr>s_orderingManager := Some (snd (get o'))\<rparr>"
  have "upd_sess r ?f (sv_mgr sv) = upd_sess r ?g (sv_mgr sv)"
    using Some by (simp add: upd_sess_def sess_of_def sess_at_def)
  then have "R sv (sv\<lparr>sv_mgr := upd_sess r ?g (sv_mgr sv)\<rparr>)" using R_mgr [OF assms, of sv r] by simp
  then show ?thesis by (simp add: take_notifies_def GetOrderingManager_def Some case_prod_beta)
qed (simp add: take_notifies_def GetOrderingManager_def R_refl)

lemma R_before: "env_ok ev \<Longrightarrow> R sv (snd (server_sendBeforeNotifies ev now r g sv))"
  using R_trans [OF R_take [OF st_take_before] R_push_items]
  by (simp add: server_sendBeforeNotifies_def case_prod_beta)

lemma R_after: "env_ok ev \<Longrightarrow> R sv (snd (server_sendAfterNotifies ev now r g sv))"
  using R_trans [OF R_take [OF st_take_after] R_push_items]
  by (simp add: server_sendAfterNotifies_def case_prod_beta)

lemma R_bound: "env_ok ev \<Longrightarrow> R sv (snd (processBoundNotifies ev now r g sv))"
  using R_before [of ev sv now r g] R_trans R_after
  by (fastforce simp: processBoundNotifies_def split: prod.split option.split)

lemma R_login: "R sv (snd (handleLoginSuccess r resp sv))"
proof -
  have "R sv (sv\<lparr>sv_mgr := snd (m_ActivateSession sid z (sv_mgr sv))\<rparr>)" for sid z by (rule R_mgr [OF st_activate])
  then have "R sv (sv\<lparr>sv_mgr := m\<rparr>)" if "m_ActivateSession sid z (sv_mgr sv) = (x, m)" for sid z x m
    using that by (metis snd_conv)
  then show ?thesis
    by (auto simp: handleLoginSuccess_def Let_def R_refl split: sum.split prod.split option.split)
qed

lemma R_sync:
  assumes "env_ok ev"
  shows "R sv (snd (handleBusinessRequestSync ev now r req t ureq isLogin sv))"
proof -
  obtain y sv1 where c: "callUpstreamService ev t ureq sv = (y, sv1)" by (metis surj_pair)
  have r1: "R sv sv1" using R_call [OF assms, of sv t ureq] c by simp
  show ?thesis
  proof (cases y)
    case (Inl x)
    have "R sv (sv1\<lparr>sv_metrics := ms\<rparr>)" for ms using R_trans [OF r1 R_metrics] .
    then show ?thesis
      using R_trans [OF _ R_send_error [OF assms]] by (simp add: handleBusinessRequestSync_def c Inl)
  next
    case (Inr resp)
    obtain login sv2 where l: "(if isLogin \<and> ur_Code resp = 200 then handleLoginSuccess r resp sv1 else (None, sv1)) =
        (login, sv2)" by (metis surj_pair)
    have "R sv1 sv2" using l R_login [of sv1 r resp] R_refl by (auto split: if_splits)
    then have r2: "R sv sv2" using r1 R_trans by blast
    let ?send = "SendBusinessResponse (ev_ext ev) now (cr_MsgId req) (ur_Code resp) (ur_Message resp)
      (ur_Data resp) (ur_Headers resp)"
    obtain x sv3 where s: "on_sess r ?send sv2 = (x, sv3)" by (metis surj_pair)
    have "R sv2 sv3" using R_sends(2) [OF assms, of sv2 r] s by (metis snd_conv)
    then have r3: "R sv sv3" using r2 R_trans by blast
    then show ?thesis
      using R_trans [OF r2 R_send_error [OF assms]] R_trans [OF r3 R_bound [OF assms]]
      by (simp add: handleBusinessRequestSync_def c Inr l s split: option.split)
  qed
qed

lemma protector_conn:
  "AllowUpstreamRequest p ms = (b, p1, ms1) \<Longrightarrow> currentConnections p1 = currentConnections p"
  "AllowNewRequest now p ms = Some (b, p1, ms1) \<Longrightarrow> currentConnections p1 = currentConnections p"
  "OnUpstreamStart p ms = (p1, ms1) \<Longrightarrow> currentConnections p1 = currentConnections p"
  "OnUpstreamEnd p ms = (p1, ms1) \<Longrightarrow> currentConnections p1 = currentConnections p"
  by (auto simp: AllowUpstreamRequest_def AllowNewRequest_def OnUpstreamStart_def OnUpstreamEnd_def Let_def
      split: if_splits option.splits)

lemma R_upstream_end: "R sv (server_OnUpstreamEnd sv)"
  using R_prot_metrics protector_conn(4) by (auto simp: server_OnUpstreamEnd_def split: prod.split)

lemma R_forward:
  assumes "env_ok ev"
  shows "R sv (snd (forward_request ev now r req breq isLogin sv))"
proof (cases "isLogin \<or> sv_async sv = None")
  case True
  then show ?thesis using R_sync [OF assms] by (auto simp: forward_request_def Let_def)
next
  case False
  then obtain a where a: "\<not> isLogin" "sv_async sv = Some a" by auto
  show ?thesis
    using a R_async R_trans [OF R_async R_send_error [OF assms]]
    by (simp add: forward_request_def Let_def split: prod.split bool.split)
qed

lemma R_business:
  assumes "env_ok ev"
  shows "R sv (snd (handleBusinessRequest ev now r req sv))"
proof -
  let ?sid = "s_ID (sess_of r sv)"
  obtain ok m where v: "ValidateClientSequence ?sid (cr_SeqId req) (sv_mgr sv) = (ok, m)" by (metis surj_pair)
  let ?sv1 = "sv\<lparr>sv_mgr := m\<rparr>"
  have "mstep (sv_mgr sv) m" using st_validate [of "sv_mgr sv" ?sid "cr_SeqId req"] v by simp
  then have r1: "R sv ?sv1" by (rule R_mgr)
  note fail1 = R_trans [OF r1 R_send_error [OF assms]]
  show ?thesis
  proof (cases ok)
    case False
    then show ?thesis by (simp add: handleBusinessRequest_def v fail1)
  next
    case True
    show ?thesis
    proof (cases "UnmarshalBusinessRequest (pb (ev_ext ev)) (cr_Payload req)")
      case (Inl x)
      then show ?thesis using True by (simp add: handleBusinessRequest_def v fail1)
    next
      case (Inr breq)
      obtain allow p ms where a: "AllowUpstreamRequest (sv_protector sv) (sv_metrics sv) = (allow, p, ms)"
        by (metis surj_pair)
      obtain p2 ms2 where st: "OnUpstreamStart p ms = (p2, ms2)" by (metis surj_pair)
      have "R ?sv1 (?sv1\<lparr>sv_protector := p, sv_metrics := ms\<rparr>)" "R ?sv1 (?sv1\<lparr>sv_protector := p2, sv_metrics := ms2\<rparr>)"
        using protector_conn(1) [OF a] protector_conn(3) [OF st] by (auto intro: R_prot_metrics)
      then have r2: "R sv (?sv1\<lparr>sv_protector := p, sv_metrics := ms\<rparr>)" "R sv (?sv1\<lparr>sv_protector := p2, sv_metrics := ms2\<rparr>)"
        using R_trans [OF r1] by blast+
      note fail2 = R_trans [OF r2(1) R_send_error [OF assms]]
      let ?fwd = "\<lambda>b. forward_request ev now r req breq b (?sv1\<lparr>sv_protector := p2, sv_metrics := ms2\<rparr>)"
      have "R sv (server_OnUpstreamEnd (snd (?fwd b)))" for b
        using R_trans [OF R_trans [OF r2(2) R_forward [OF assms]] R_upstream_end] .
      then show ?thesis
        using True by (simp add: handleBusinessRequest_def v Inr Let_def a st fail1 fail2 case_prod_beta split: bool.split)
    qed
  qed
qed

lemma R_heartbeat:
  assumes "env_ok ev"
  shows "R sv (snd (handleHeartbeat ev now r req sv))"
proof -
  have "R sv sv1" if "on_sess r (SendHeartbeatResponse (ev_ext ev) now i t) sv = (x, sv1)" for i t x sv1
    using R_sends(1) [OF assms, of sv r now i t] that by simp
  then show ?thesis by (auto simp: handleHeartbeat_def R_refl split: sum.split prod.split option.split)
qed

lemma R_ack: "R sv (snd (handleAck ev r req sv))"
proof -
  have "R sv (sv\<lparr>sv_mgr := upd_sess r (ResyncSessionSequence a) (snd (m_AckMessagesUpTo sid a (sv_mgr sv))), sv_metrics := ms\<rparr>)"
    for sid a ms
    by (rule R_mgr_metrics) (blast intro: rtranclp.intros st_ack st_resync)
  then show ?thesis
    by (simp add: handleAck_def Let_def R_refl case_prod_beta split: sum.split)
qed

lemma R_start:
  assumes "env_ok ev" "r < length (m_store (sv_mgr sv))"
  shows "R sv (snd (handleStartSync ev now r req sv))"
proof (cases "cr_SeqId req = 0")
  case True
  show ?thesis
  proof (cases "UnmarshalStartRequest (pb (ev_ext ev)) (cr_Payload req)")
    case (Inl x)
    then show ?thesis using True by (simp add: handleStartSync_def Let_def R_send_error [OF assms(1)])
  next
    case (Inr st)
    let ?sid = "s_ID (sess_of r sv)"
    let ?m1 = "upd_sess r (\<lambda>s. s\<lparr>s_OpenID := st_Openid st, s_ClientID := cr_Openid req\<rparr>) (sv_mgr sv)"
    obtain x m2 where b: "BindSession r ?m1 = (x, m2)" by (metis surj_pair)
    let ?m3 = "if 0 < st_LastAckedSeqId st then upd_sess r (ResyncSessionSequence (st_LastAckedSeqId st))
       (snd (m_AckMessagesUpTo ?sid (st_LastAckedSeqId st) m2)) else m2"
    have "mstep ?m1 m2" using st_bind [of r ?m1] assms(2) b by simp
    then have m2: "(mstep)\<^sup>*\<^sup>* (sv_mgr sv) m2"
      using st_identity [of "sv_mgr sv" r] by (blast intro: rtranclp.intros)
    have "(mstep)\<^sup>*\<^sup>* m2 ?m3" by (auto intro: rtranclp.intros st_ack st_resync)
    then have m3: "(mstep)\<^sup>*\<^sup>* (sv_mgr sv) ?m3" using m2 by simp
    note fail = R_trans [OF R_mgrs [OF m2] R_send_error [OF assms(1)]]
    note ok = R_trans [OF R_mgrs [OF m3] R_sends(3) [OF assms(1)]]
    have "R sv sv1" if "on_sess r (SendStartResponse (ev_ext ev) now (cr_MsgId req) True None 30 ?sid)
        (sv\<lparr>sv_mgr := ?m3\<rparr>) = (y, sv1)" for y sv1
      using ok [of r now "cr_MsgId req" True None 30 ?sid] that by (metis snd_conv)
    then show ?thesis
      using True Inr fail R_send_error [OF assms(1)]
      by (auto simp: handleStartSync_def Let_def b split: option.split prod.split)
  qed
qed (simp add: handleStartSync_def Let_def R_send_error [OF assms(1)])

lemma R_stop: "env_ok ev \<Longrightarrow> R sv (snd (handleStop ev now r req sv))"
  using R_mgr [OF st_remove] by (auto simp: handleStop_def env_ok_def R_refl split: sum.split)

lemma R_error: "R sv (record_error sv)" "R sv (count_error t sv)"
  using R_tracker R_trans [OF R_metrics R_tracker] by (simp_all add: record_error_def count_error_def)

lemma R_dispatch:
  assumes "env_ok ev" "r < length (m_store (sv_mgr sv))"
  shows "R sv (snd (dispatch ev now r req sv))"
  using R_start [OF assms] R_stop [OF assms(1)] R_heartbeat [OF assms(1)] R_business [OF assms(1)] R_ack R_error
  by (simp add: dispatch_def split: request_type.split)

lemma R_note: "R sv (note_request now r sv)"
  using R_trans [OF R_trans [OF R_mgr [OF st_activity] R_metrics] R_tracker] by (simp add: note_request_def)

lemma R_overload: "env_ok ev \<Longrightarrow> R sv (sendOverloadErrorResponse ev now r req sv)"
  using R_sends by (simp add: sendOverloadErrorResponse_def R_refl split: request_type.split)

text \<open>The handling of one event.\<close>

lemma R_event:
  assumes "env_ok ev" "r < length (m_store (sv_mgr sv))" "handleMessageEvent ev now r data sv = Some sv'"
  shows "R sv sv'"
proof -
  let ?sv1 = "note_request now r sv"
  have r1: "R sv ?sv1" by (rule R_note)
  have len1: "r < length (m_store (sv_mgr ?sv1))" using assms(2) by (simp add: note_request_def)
  show ?thesis
  proof (cases "DecodeClientRequest (pb (ev_ext ev)) data")
    case (Inl x)
    then show ?thesis using assms(3) R_trans [OF r1 R_error(2)] by (auto simp: handleMessageEvent_def Let_def)
  next
    case (Inr req)
    show ?thesis
    proof (cases "cr_Type req \<noteq> REQUEST_HEARTBEAT \<and> cr_Type req \<noteq> REQUEST_ACK")
      case True
      then obtain ok p ms where a: "AllowNewRequest now (sv_protector ?sv1) (sv_metrics ?sv1) = Some (ok, p, ms)"
        using assms(3) Inr by (auto simp: handleMessageEvent_def Let_def split: option.splits)
      let ?sv2 = "?sv1\<lparr>sv_protector := p, sv_metrics := ms\<rparr>"
      have r2: "R sv ?sv2" using R_trans [OF r1 R_prot_metrics [OF protector_conn(2) [OF a]]] .
      note r3 = R_trans [OF r2 R_trans [OF R_overload [OF assms(1)] R_error(1)]]
      have "R ?sv2 (snd (dispatch ev now r req ?sv2))" using len1 by (intro R_dispatch [OF assms(1)]) simp
      then show ?thesis
        using assms(3) True Inr a r3 R_trans [OF r2] by (auto simp: handleMessageEvent_def Let_def split: if_splits)
    next
      case False
      then show ?thesis
        using assms(3) Inr R_trans [OF r1 R_dispatch [OF assms(1) len1]]
        by (auto simp: handleMessageEvent_def Let_def)
    qed
  qed
qed

lemma R_task:
  assumes "env_ok ev"
  shows "R sv (processTask ev now task sv)"
proof (cases "isSessionValid (sess_of (at_Session task) sv)")
  case True
  let ?r = "at_Session task"
  let ?g = "grid_of (cr_SeqId (at_Request task))"
  obtain y sv1 where c: "callUpstreamService ev (at_ServiceType task) (at_UpstreamReq task) sv = (y, sv1)" by (metis surj_pair)
  have r1: "R sv sv1" using R_call [OF assms, of sv "at_ServiceType task" "at_UpstreamReq task"] c by simp
  show ?thesis
  proof (cases y)
    case (Inl x)
    then show ?thesis
      using True R_trans [OF R_trans [OF r1 R_metrics] R_send_error [OF assms]] by (simp add: processTask_def Let_def c)
  next
    case (Inr resp)
    let ?sv2 = "snd (server_sendBeforeNotifies ev now ?r ?g sv1)"
    let ?send = "SendBusinessResponse (ev_ext ev) now (cr_MsgId (at_Request task)) (ur_Code resp) (ur_Message resp)
      (ur_Data resp) (ur_Headers resp)"
    obtain x sv3 where s: "on_sess ?r ?send ?sv2 = (x, sv3)" by (metis surj_pair)
    have r2: "R sv ?sv2" by (rule R_trans [OF r1 R_before [OF assms]])
    have "R ?sv2 sv3" using R_sends(2) [OF assms, of ?sv2 ?r] s by (metis snd_conv)
    then have r3: "R sv sv3" using r2 R_trans by blast
    show ?thesis
      using True r3 R_trans [OF r3 R_after [OF assms]]
      by (simp add: processTask_def Let_def c Inr s split: option.split)
  qed
qed (simp add: processTask_def Let_def R_refl)

lemma R_worker: "env_ok ev \<Longrightarrow> worker_step ev now sv = Some sv' \<Longrightarrow> R sv sv'"
  using R_trans [OF R_async R_task] by (auto simp: worker_step_def split: option.splits)

lemma R_pushed: "env_ok ev \<Longrightarrow> on_sess r (PushBusinessData (ev_ext ev) now d) sv = (x, sv1) \<Longrightarrow> R sv sv1"
  using R_sends(4) [of ev sv r now d] by simp

lemma R_push_session: "env_ok ev \<Longrightarrow> R sv (snd (PushToSession ev now sid d sv))"
  using R_pushed by (auto simp: PushToSession_def R_refl split: option.split prod.split)

lemma R_push_request: "env_ok ev \<Longrightarrow> R sv (snd (HandleUnicastPushRequest ev now tt tid d sv))"
  by (simp add: HandleUnicastPushRequest_def PushToOpenID_def R_push_session R_refl split: option.split)

lemma R_bind_notify:
  assumes "\<And>r m. mstep m (upd_sess r (\<lambda>s. snd (f s)) m)"
  shows "R sv (snd (bind_notify f r sv))"
proof -
  have "upd_sess r (\<lambda>s. snd (f s)) (sv_mgr sv) = upd_sess r (\<lambda>_. snd (f (sess_of r sv))) (sv_mgr sv)"
    by (simp add: upd_sess_def sess_of_def sess_at_def)
  then show ?thesis using R_mgr [OF assms, of sv r] by (simp add: bind_notify_def case_prod_beta)
qed

lemma R_notify:
  assumes "env_ok ev"
  shows "R sv (snd (processNotifyMessage ev now r req sv))"
proof -
  have b: "R sv sv1" if "bind_notify (AddNotifyBindBeforeRsp g n) r sv = (x, sv1)" for g n x sv1
    using R_bind_notify [OF st_bind_before, of sv g n r] that by simp
  have a: "R sv sv1" if "bind_notify (AddNotifyBindAfterRsp g n) r sv = (x, sv1)" for g n x sv1
    using R_bind_notify [OF st_bind_after, of sv g n r] that by simp
  show ?thesis
    using a b R_pushed [OF assms] by (auto simp: processNotifyMessage_def Let_def R_refl split: sync_hint.split prod.split option.split
        bool.split sum.split)
qed

lemma R_push_client: "env_ok ev \<Longrightarrow> R sv (snd (PushToClient ev now req sv))"
proof -
  assume ev: "env_ok ev"
  let ?h = "if up_TargetType req = ''session'' then handleUnicastToSessionWithOrdering ev now req sv
    else if up_TargetType req = ''openid'' then handleUnicastToOpenIDWithOrdering ev now req sv
    else (Some (ErrTargetType (up_TargetType req)), sv)"
  have "R sv (snd ?h)"
    by (simp add: handleUnicastToSessionWithOrdering_def handleUnicastToOpenIDWithOrdering_def R_notify [OF ev] R_refl
        split: option.split)
  then show ?thesis by (cases ?h) (simp add: PushToClient_def del: if_split split: option.split)
qed

lemma R_broadcast: "env_ok ev \<Longrightarrow> R sv (snd (BroadcastToClients ev now req sv))"
proof -
  assume ev: "env_ok ev"
  have one: "R sv sv1" if "sendBroadcastMessage ev now r req sv = (x, sv1)" for r sv sv1 x
    using that R_pushed [OF ev]
    by (auto simp: sendBroadcastMessage_def R_refl split: if_splits sum.splits prod.splits option.splits)
  have "R sv (snd (broadcast_loop ev now req rs n sv))" for rs n
  proof (induction rs arbitrary: n sv)
    case (Cons r rs)
    obtain x sv1 where s: "sendBroadcastMessage ev now r req sv = (x, sv1)" by (metis surj_pair)
    then show ?case using Cons.IH R_trans [OF one [OF s] Cons.IH] by (simp split: option.split)
  qed (simp add: R_refl)
  then show ?thesis by (simp add: BroadcastToClients_def Let_def case_prod_beta)
qed

text \<open>A whole connection. The other goroutines make only such changes too.\<close>

definition sched_ok :: "('x, 'c) schedule \<Rightarrow> bool" where
  "sched_ok sc \<longleftrightarrow> (\<forall>i sv. R sv (sc_others sc i sv))"

lemma R_loop:
  assumes "env_ok ev" "sched_ok sc" "r < length (m_store (sv_mgr sv))"
    "handleSubsequentMessages ev sc i r rd sv = Some sv'"
  shows "R sv sv'"
  using assms
proof (induction ev sc i r rd sv rule: handleSubsequentMessages.induct)
  case (1 ev sc i r rd sv)
  let ?sv1 = "sc_others sc i sv"
  have r1: "R sv ?sv1" using "1.prems"(2) by (simp add: sched_ok_def)
  obtain y rd1 where rm: "ReadMessage rd = (y, rd1)" by (metis surj_pair)
  note loop = "1.prems"(4) [unfolded handleSubsequentMessages.simps [of ev sc i r rd sv]]
  show ?case
  proof (cases "sc_done sc i")
    case True
    then show ?thesis using loop r1 by simp
  next
    case False
    show ?thesis
    proof (cases y)
      case (Inl x)
      then show ?thesis using loop False rm r1 R_trans [OF r1 R_error(2)] by (auto simp: Let_def split: if_splits)
    next
      case (Inr data)
      obtain sv2 where e: "handleMessageEvent ev (sc_time sc i) r data ?sv1 = Some sv2"
        and rest: "handleSubsequentMessages ev sc (Suc i) r rd1 sv2 = Some sv'"
        using loop False rm Inr by (auto simp: Let_def split: option.splits)
      have len1: "r < length (m_store (sv_mgr ?sv1))" using "1.prems"(3) R_store [OF r1] by simp
      have r2: "R ?sv1 sv2" by (rule R_event [OF "1.prems"(1) len1 e])
      have "r < length (m_store (sv_mgr sv2))" using len1 R_store [OF r2] by simp
      from "1.IH" [OF refl False rm [symmetric] Inr e "1.prems"(1,2) this rest] show ?thesis
        using R_trans [OF R_trans [OF r1 r2]] by blast
    qed
  qed
qed

lemma R_first:
  assumes "env_ok ev" "handleFirstMessage ev now uuid ip t rd sv = (y, rd', sv')"
    "uuid \<notin> s_ID ` set (m_store (sv_mgr sv))"
  shows "R sv sv'" and "y = Inr (r, d) \<Longrightarrow> r < length (m_store (sv_mgr sv'))"
proof -
  have e: "ev_ext ev = e" using assms(1) by (simp add: env_ok_def)
  have "R sv (sv\<lparr>sv_mgr := m\<rparr>)" if "CreateOrReconnectSession e uuid now t c u ip (sv_mgr sv) = (r, rc, m)" for c u r rc m
    using R_mgr st_create [OF assms(3) that] by blast
  then show "R sv sv'"
    using assms(2) R_error(1) by (auto simp: handleFirstMessage_def e split: sum.splits prod.splits)
  have len: "r < length (m_store m)" if "CreateOrReconnectSession e uuid now t c u ip (sv_mgr sv) = (r, rc, m)" for c u r rc m
    using that by (cases rule: create_cases) (auto simp: handleOldSessionOnReconnectAtomic_def Let_def)
  show "y = Inr (r, d) \<Longrightarrow> r < length (m_store (sv_mgr sv'))"
    using assms(2) by (auto simp: handleFirstMessage_def e split: sum.splits prod.splits dest: len)
qed

text \<open>A connection changes the server in this way, until its deferred calls release its slot.\<close>

lemma R_connected:
  assumes "env_ok ev" "sched_ok sc" "uuid \<notin> s_ID ` set (m_store (sv_mgr sv))"
    "handleFirstMessage ev (sc_time sc 0) uuid ip t rd sv = (Inr (r, data), rd1, sv1)"
    "handleConnection ev sc uuid ip (Inr (t, rd)) sv = Some sv'"
  shows "\<exists>sv2. R sv1 sv2 \<and> sv' = end_connection sv2"
proof -
  let ?sv2 = "sv1\<lparr>sv_metrics := SetActiveConnections (GetSessionCount (sv_mgr sv1)) (sv_metrics sv1)\<rparr>"
  have len: "r < length (m_store (sv_mgr sv1))" using R_first(2) [OF assms(1,4,3)] by simp
  obtain sv3 sv4 where e: "handleMessageEvent ev (sc_time sc 0) r data ?sv2 = Some sv3"
    and l: "handleSubsequentMessages ev sc 1 r rd1 sv3 = Some sv4"
    and sv': "sv' = end_connection (sv4\<lparr>sv_mgr := upd_sess r (\<lambda>s. s\<lparr>s_transport :=
      map_option (\<lambda>t. conn_CloseWithError (ev_ext ev) 0 (stream_Close (ev_ext ev) t)) (s_transport s)\<rparr>) (sv_mgr sv4)\<rparr>)"
    using assms(4,5) by (auto simp: handleConnection_def split: option.splits)
  have r2: "R ?sv2 sv3" using len by (intro R_event [OF assms(1) _ e]) simp
  have "r < length (m_store (sv_mgr sv3))" using len R_store [OF r2] by simp
  then have r3: "R sv3 sv4" by (rule R_loop [OF assms(1,2) _ l])
  have "R sv1 sv4" using R_trans [OF R_metrics] R_trans [OF r2 r3] .
  moreover have "ev_ext ev = e" using assms(1) by (simp add: env_ok_def)
  ultimately show ?thesis using R_trans [OF _ R_mgr [OF st_hangup]] sv' by blast
qed

lemma R_connection:
  assumes "env_ok ev" "sched_ok sc" "uuid \<notin> s_ID ` set (m_store (sv_mgr sv))"
    "handleConnection ev sc uuid ip acc sv = Some sv'"
  shows "\<exists>sv1. R sv sv1 \<and> sv' = end_connection sv1"
proof (cases acc)
  case (Inl x)
  then show ?thesis using assms(4) R_error(1) by (auto simp: handleConnection_def)
next
  case (Inr a)
  obtain t rd where a: "a = (t, rd)" by (metis surj_pair)
  obtain y rd1 sv1 where f: "handleFirstMessage ev (sc_time sc 0) uuid ip t rd sv = (y, rd1, sv1)" by (metis surj_pair)
  have r1: "R sv sv1" by (rule R_first(1) [OF assms(1) f assms(3)])
  show ?thesis
  proof (cases y)
    case (Inl x)
    then show ?thesis using assms(4) r1 Inr a f by (auto simp: handleConnection_def)
  next
    case y: (Inr rdata)
    obtain r data where rd: "rdata = (r, data)" by (metis surj_pair)
    then obtain sv2 where "R sv1 sv2" "sv' = end_connection sv2"
      using R_connected [OF assms(1-3) f [unfolded y rd]] assms(4) Inr a by auto
    then show ?thesis using R_trans [OF r1] by blast
  qed
qed

end

interpretation mgr_steps: manager_steps e "mgr_step e" for e
proof
  show "(mgr_step e)\<^sup>*\<^sup>* m (upd_sess r (\<lambda>_. fst (snd (SendOrderedMessage e now push (sess_at r m) ms))) m)"
    for m r now push ms by (rule sess_ops_steps [OF send_ops])
qed (rule step_create step_ack resync_step step_activate step_validate step_bind step_remove step_identity step_activity
  step_bind_before step_bind_after step_take_before step_take_after step_hangup; assumption?)+

end
