(* ===== verification/Gateway_Props.thy ===== *)
theory Gateway_Props
  imports Gateway_Steps
begin

text \<open>
  Properties of the gateway: the handlers move the session manager only by its own steps, whatever
  the clients send; a connection gives its slot back; which requests never leave the gateway.
\<close>

section \<open>The two readings of the interface\<close>

interpretation mgr_rel: server_rel e "mgr_step e" "\<lambda>sv sv1. (mgr_step e)\<^sup>*\<^sup>* (sv_mgr sv) (sv_mgr sv1)" for e
  by unfold_locales (auto dest: mgr_steps_len intro: rtranclp_trans)

interpretation conn_rel: server_rel e "mgr_step e" "\<lambda>sv sv1.
    currentConnections (sv_protector sv1) = currentConnections (sv_protector sv) \<and>
    length (m_store (sv_mgr sv)) \<le> length (m_store (sv_mgr sv1))" for e
  by unfold_locales (auto dest: mgr_step_len)

text \<open>The remote call, and the other goroutines of a schedule, move the manager by its steps only.\<close>

definition calls_by_steps :: "('x, 'c) env \<Rightarrow> bool" where
  "calls_by_steps ev \<longleftrightarrow>
     (\<forall>c req sv. (mgr_step (ev_ext ev))\<^sup>*\<^sup>* (sv_mgr sv) (sv_mgr (snd (ev_invoke ev c req sv))))"

definition others_by_steps :: "'x ext \<Rightarrow> ('x, 'c) schedule \<Rightarrow> bool" where
  "others_by_steps e sc \<longleftrightarrow> (\<forall>i sv. (mgr_step e)\<^sup>*\<^sup>* (sv_mgr sv) (sv_mgr (sc_others sc i sv)))"

lemma mgr_rel_ok:
  "calls_by_steps ev \<Longrightarrow> mgr_rel.env_ok (ev_ext ev) ev"
  "others_by_steps e sc \<Longrightarrow> mgr_rel.sched_ok e sc"
  by (simp_all add: calls_by_steps_def mgr_rel.env_ok_def others_by_steps_def mgr_rel.sched_ok_def)

lemma mgr_reach_steps: "(mgr_step e)\<^sup>*\<^sup>* m m' \<Longrightarrow> mgr_reach e m \<Longrightarrow> mgr_reach e m'"
  by (induction rule: rtranclp_induct) (auto intro: reach_step)

lemma end_connection_mgr [simp]: "sv_mgr (end_connection sv) = sv_mgr sv"
  by (simp add: end_connection_def split: prod.split)

section \<open>What a client can do to the sessions\<close>

text \<open>C4. Whatever bytes a client sends over a connection, in whatever interleaving with the other
  goroutines, the sessions stay well formed, and no session loses its identifier, its activation or its
  closed mark. \<close>

theorem connection_keeps_sessions:
  assumes "mgr_reach (ev_ext ev) (sv_mgr sv)" "copier_law (ev_ext ev)" "calls_by_steps ev"
    "others_by_steps (ev_ext ev) sc" "uuid \<notin> s_ID ` set (m_store (sv_mgr sv))"
    "handleConnection ev sc uuid ip acc sv = Some sv'"
  shows "mgr_reach (ev_ext ev) (sv_mgr sv') \<and> mgr_inv (sv_mgr sv') \<and> mgr_mono (sv_mgr sv) (sv_mgr sv')"
proof -
  obtain sv1 where "(mgr_step (ev_ext ev))\<^sup>*\<^sup>* (sv_mgr sv) (sv_mgr sv1)" "sv' = end_connection sv1"
    using mgr_rel.R_connection [OF mgr_rel_ok(1) [OF assms(3)] mgr_rel_ok(2) [OF assms(4)] assms(5,6)] by blast
  then have s: "(mgr_step (ev_ext ev))\<^sup>*\<^sup>* (sv_mgr sv) (sv_mgr sv')" by simp
  show ?thesis
    using mgr_reach_steps [OF s assms(1)] mgr_mono_steps [OF s assms(2) mgr_inv_reach [OF assms(1,2)]] by simp
qed

text \<open>A gateway whose upstream service answers every call with 200 and the zone 7, and whose client
  messages are decoded from one byte: 0 is a START, 1 a login, any other a heartbeat.\<close>

definition gw_pb :: protobuf where
  "gw_pb = toy_pb\<lparr>
     UnmarshalClientRequest := (\<lambda>d. case d of [] \<Rightarrow> Inl ErrEOF | b # _ \<Rightarrow>
       Inr (new_request 9 (if b = 1 then 5 else 0)
         (if b = 0 then REQUEST_START else if b = 1 then REQUEST_BUSINESS else REQUEST_HEARTBEAT) d [])),
     UnmarshalStartRequest := (\<lambda>d. Inr \<lparr>st_Openid = ''ann'', st_ClientId = ''c'', st_AuthToken = [], st_LastAckedSeqId = 0\<rparr>),
     UnmarshalBusinessRequest := (\<lambda>d. Inr \<lparr>bq_Action = ''HELLO'', bq_Params = [], bq_Data = []\<rparr>),
     UnmarshalHeartbeatRequest := (\<lambda>d. Inr \<lparr>hq_ClientTimestamp = 3\<rparr>)\<rparr>"

definition gw_ext :: "bytes ext" where
  "gw_ext = toy_ext\<lparr>pb := gw_pb\<rparr>"

definition gw_env :: "(bytes, nat) env" where
  "gw_env = \<lparr>ev_ext = gw_ext, ev_dial = toy_dial,
     ev_invoke = (\<lambda>c req sv. (Inr \<lparr>ur_Code = 200, ur_Message = Raw ''ok'', ur_Data = [], ur_Headers = [(''zone'', ''7'')],
       ur_ClientSeqId = uq_ClientSeqId req\<rparr>, sv))\<rparr>"

definition gw_server :: "(bytes, nat) server" where
  "gw_server = snd (server_Start
     \<lparr>cfg_UpstreamAddr = [], cfg_UpstreamServices = [(''hello'', [''h:1'']), (''business'', [''b:1''])],
      cfg_SessionTimeout = 300 * Second, cfg_AckTimeout = 10, cfg_MaxRetries = 3, cfg_Sync = False,
      cfg_Overload = None, cfg_Async = None\<rparr> None
     (NewServer 1 0
        \<lparr>cfg_UpstreamAddr = [], cfg_UpstreamServices = [(''hello'', [''h:1'']), (''business'', [''b:1''])],
         cfg_SessionTimeout = 300 * Second, cfg_AckTimeout = 10, cfg_MaxRetries = 3, cfg_Sync = False,
         cfg_Overload = None, cfg_Async = None\<rparr>))"

definition gw_sched :: "(bytes, nat) schedule" where
  "gw_sched = \<lparr>sc_time = int, sc_done = (\<lambda>_. False), sc_others = (\<lambda>_ sv. sv)\<rparr>"

definition client_bytes :: bytes where
  "client_bytes = frame [0] @ frame [1] @ frame [2]"

lemma gw_copier: "copier_law gw_ext"
  using toy_copier by (simp add: copier_law_def gw_ext_def)

lemma gw_server_mgr: "sv_mgr gw_server = NewManager (300 * Second) 10 3"
  by (simp add: gw_server_def server_Start_def initUpstreamConnections_def NewServer_def Let_def
      split: prod.split option.split)

lemma gw_ok: "calls_by_steps gw_env" "others_by_steps (ev_ext gw_env) gw_sched" "ev_ext gw_env = gw_ext"
  by (simp_all add: calls_by_steps_def others_by_steps_def gw_env_def gw_sched_def)

definition gw_after :: "(bytes, nat) server option" where
  "gw_after = handleConnection gw_env gw_sched ''s1'' ''ip'' (Inr ([], client_bytes)) gw_server"

lemma gw_after_Some: "gw_after \<noteq> None"
  by code_simp

theorem connection_keeps_sessions_witness: "mgr_inv (sv_mgr (the gw_after))"
proof -
  obtain sv' where sv': "gw_after = Some sv'" using gw_after_Some by blast
  have "mgr_reach (ev_ext gw_env) (sv_mgr gw_server)" by (simp add: gw_server_mgr reach_New)
  moreover have "''s1'' \<notin> s_ID ` set (m_store (sv_mgr gw_server))" by (simp add: gw_server_mgr NewManager_def)
  moreover have "copier_law (ev_ext gw_env)" using gw_copier gw_ok(3) by simp
  ultimately show ?thesis
    using connection_keeps_sessions [OF _ _ gw_ok(1,2) _ sv' [unfolded gw_after_def]] unfolding sv' by simp
qed

section \<open>Connection slots\<close>

text \<open>During the remote calls, and while other goroutines run, no other connection comes or goes.\<close>

definition keeps_connections :: "(('x, 'c) server \<Rightarrow> ('x, 'c) server) \<Rightarrow> bool" where
  "keeps_connections f \<longleftrightarrow>
     (\<forall>sv. currentConnections (sv_protector (f sv)) = currentConnections (sv_protector sv) \<and>
        length (m_store (sv_mgr sv)) \<le> length (m_store (sv_mgr (f sv))))"

text \<open>C17. Every accepted connection takes one slot of the connection limit and gives it back when its handler
  returns, however it ends: no stream, an unreadable or undecodable first message, an error or the end
  of the stream later on, or a shutdown. \<close>

theorem connection_slot_released:
  assumes "\<forall>c req. keeps_connections (\<lambda>sv. snd (ev_invoke ev c req sv))" "\<forall>i. keeps_connections (sc_others sc i)"
    "0 \<le> GetCurrentConnections (sv_protector sv)" "GetCurrentConnections (sv_protector sv) + 1 < 2 ^ 63"
    "acceptConnections_round ev (Inr t) sv = (AcceptStarted t', sv1)"
    "uuid \<notin> s_ID ` set (m_store (sv_mgr sv))" "handleConnection ev sc uuid ip acc sv1 = Some sv2"
  shows "GetCurrentConnections (sv_protector sv1) = GetCurrentConnections (sv_protector sv) + 1 \<and>
    GetCurrentConnections (sv_protector sv2) = GetCurrentConnections (sv_protector sv)"
proof -
  have ev: "conn_rel.env_ok (ev_ext ev) ev" and sc: "conn_rel.sched_ok sc"
    using assms(1,2) by (simp_all add: conn_rel.env_ok_def conn_rel.sched_ok_def keeps_connections_def)
  let ?n = "currentConnections (sv_protector sv)"
  have n: "0 \<le> ?n" "?n + 1 < 2 ^ 63" using assms(3,4) by (simp_all add: GetCurrentConnections_def)
  have sv1: "currentConnections (sv_protector sv1) = ?n + 1" "sv_mgr sv1 = sv_mgr sv"
    using assms(5) n i64_small [of "?n + 1"]
    by (auto simp: acceptConnections_round_def AllowNewConnection_def OnConnectionStart_def Let_def split: if_splits)
  then have "uuid \<notin> s_ID ` set (m_store (sv_mgr sv1))" using assms(6) by simp
  from conn_rel.R_connection [OF ev sc this assms(7)]
  obtain sv3 where "currentConnections (sv_protector sv3) = ?n + 1" "sv2 = end_connection sv3"
    using sv1 by auto
  then have "currentConnections (sv_protector sv2) = ?n"
    using n i64_small [of ?n] by (simp add: end_connection_def OnConnectionEnd_def Let_def)
  then show ?thesis using sv1 by (simp add: GetCurrentConnections_def)
qed

definition gw_accepted :: "bytes accept_outcome \<times> (bytes, nat) server" where
  "gw_accepted = acceptConnections_round gw_env (Inr []) gw_server"

definition gw_gone :: "(bytes, nat) server option" where
  "gw_gone = handleConnection gw_env gw_sched ''s1'' ''ip'' (Inr ([], frame [0] @ [1, 2])) (snd gw_accepted)"

theorem connection_slot_released_witness:
  "GetCurrentConnections (sv_protector (snd gw_accepted)) = 1 \<and>
   GetCurrentConnections (sv_protector (the gw_gone)) = 0"
proof -
  have "gw_gone \<noteq> None \<and> fst gw_accepted = AcceptStarted [] \<and> currentConnections (sv_protector gw_server) = 0"
    by code_simp
  then obtain sv2 where f: "gw_gone = Some sv2" "fst gw_accepted = AcceptStarted []"
    "currentConnections (sv_protector gw_server) = 0" by blast
  have a: "acceptConnections_round gw_env (Inr []) gw_server = (AcceptStarted [], snd gw_accepted)"
    using f(2) by (simp add: gw_accepted_def prod_eq_iff)
  have k: "\<forall>c req. keeps_connections (\<lambda>sv. snd (ev_invoke gw_env c req sv))" "\<forall>i. keeps_connections (sc_others gw_sched i)"
    by (simp_all add: gw_env_def gw_sched_def keeps_connections_def)
  show ?thesis
    using connection_slot_released [OF k _ _ a _ f(1) [unfolded gw_gone_def]] f(3)
    unfolding f(1) option.sel by (simp add: GetCurrentConnections_def gw_server_mgr NewManager_def)
qed

section \<open>Requests that stay in the gateway\<close>

definition refused :: "('x, 'c) env \<Rightarrow> nat \<Rightarrow> client_request \<Rightarrow> ('x, 'c) server \<Rightarrow> bool" where
  "refused ev r req sv \<longleftrightarrow>
     \<not> fst (ValidateClientSequence (s_ID (sess_of r sv)) (cr_SeqId req) (sv_mgr sv)) \<or>
     (case UnmarshalBusinessRequest (pb (ev_ext ev)) (cr_Payload req) of
        Inl _ \<Rightarrow> True
      | Inr breq \<Rightarrow>
          ToLower (bq_Action breq) = ''hello'' \<and> \<not> CanProcessLoginRequest (sess_of r sv) \<or>
          ToLower (bq_Action breq) \<noteq> ''hello'' \<and> \<not> IsNormal (sess_of r sv)) \<or>
     \<not> fst (AllowUpstreamRequest (sv_protector sv) (sv_metrics sv))"

lemma validate_state:
  "State (sess_at r (snd (ValidateClientSequence sid n m))) = State (sess_at r m)"
  by (auto simp: ValidateClientSequence_def ValidateClientSeq_def State_def sess_at_upd Let_def
      split: option.split prod.split)

lemma send_error_frame:
  "sv_async (sendErrorResponse ev now r i c t d sv) = sv_async sv"
  "sv_upstream (sendErrorResponse ev now r i c t d sv) = sv_upstream sv"
  "sv_protector (sendErrorResponse ev now r i c t d sv) = sv_protector sv"
  by (simp_all add: sendErrorResponse_def on_sess_def split: prod.split)

text \<open>A refused request does not depend on any upstream service, queues no task, takes no upstream slot and opens no
  client.\<close>

lemma refused_local:
  assumes "refused ev r req sv"
  shows "\<not> fst (handleBusinessRequest ev now r req sv) \<and>
    handleBusinessRequest (ev\<lparr>ev_dial := dial, ev_invoke := invoke\<rparr>) now r req sv = handleBusinessRequest ev now r req sv \<and>
    sv_async (snd (handleBusinessRequest ev now r req sv)) = sv_async sv \<and>
    sv_upstream (snd (handleBusinessRequest ev now r req sv)) = sv_upstream sv \<and>
    GetUpstreamActive (sv_protector (snd (handleBusinessRequest ev now r req sv))) = GetUpstreamActive (sv_protector sv)"
proof -
  obtain ok m where v: "ValidateClientSequence (s_ID (sess_of r sv)) (cr_SeqId req) (sv_mgr sv) = (ok, m)" by (metis surj_pair)
  obtain allow p ms where a: "AllowUpstreamRequest (sv_protector sv) (sv_metrics sv) = (allow, p, ms)" by (metis surj_pair)
  have p: "upstreamActive p = upstreamActive (sv_protector sv)"
    using a by (auto simp: AllowUpstreamRequest_def split: if_splits)
  have st: "State (sess_at r m) = State (sess_of r sv)"
    using validate_state [of r "s_ID (sess_of r sv)" "cr_SeqId req" "sv_mgr sv"] v by (simp add: sess_of_def)
  have at: "sess_of r (sv\<lparr>sv_mgr := m\<rparr>) = sess_at r m" by (simp add: sess_of_def)
  have e: "sendErrorResponse (ev\<lparr>ev_dial := dial, ev_invoke := invoke\<rparr>) = sendErrorResponse ev"
    by (simp add: fun_eq_iff sendErrorResponse_def)
  show ?thesis
    using assms st p
    by (cases ok; cases allow; cases "UnmarshalBusinessRequest (pb (ev_ext ev)) (cr_Payload req)")
      (auto simp: refused_def handleBusinessRequest_def v a e at Let_def send_error_frame GetUpstreamActive_def
        CanProcessBusinessRequest_def CanProcessLoginRequest_def IsNormal_def)
qed

definition early_request :: client_request where
  "early_request = new_request 4 1 REQUEST_BUSINESS [9] []"

definition eager_env :: "(bytes, nat) env" where
  "eager_env = gw_env\<lparr>ev_ext := gw_ext\<lparr>pb := gw_pb\<lparr>UnmarshalBusinessRequest :=
     (\<lambda>d. Inr \<lparr>bq_Action = ''Buy'', bq_Params = [], bq_Data = []\<rparr>)\<rparr>\<rparr>\<rparr>"

definition gw_fresh :: "(bytes, nat) server" where
  "gw_fresh = gw_server\<lparr>sv_mgr := snd (snd (CreateOrReconnectSession gw_ext ''s1'' 0 [] ''c'' ''ann'' ''ip'' (sv_mgr gw_server)))\<rparr>"

end
