(* ===== verification/Gateway_Order.thy ===== *)
theory Gateway_Order
  imports Gateway_Props
begin

text \<open>
  What reaches the clients, and in which order: responses with the notifications bound to them (by a
  worker and by the synchronous path), pushes and broadcasts, logins, acknowledgements, and the queue
  of the tasks. \<open>ready\<close> is a session whose queue is in step; \<open>only_sess\<close> says that a single session
  changed.
\<close>

section \<open>Responses and their notifications\<close>

text \<open>The pushes of the notifications and of a response.\<close>

definition note_push :: "notify_item \<Rightarrow> server_push" where
  "note_push n =
     \<lparr>sp_MsgId = 0, sp_SeqId = 0, sp_Type = PUSH_BUSINESS_DATA, sp_Payload = NotifyData n, sp_Headers = []\<rparr>"

definition response_push :: "protobuf \<Rightarrow> client_request \<Rightarrow> upstream_response \<Rightarrow> server_push" where
  "response_push p req resp =
     (CreateBusinessResponse p (cr_MsgId req) 0 (ur_Code resp) (ur_Message resp) (ur_Data resp))\<lparr>sp_Headers := ur_Headers resp\<rparr>"

lemma encodings_length: "encodings p n xs ds \<Longrightarrow> length ds = length xs"
  by (induction p n xs ds rule: encodings.induct) (auto split: list.splits)

lemma encodings_append:
  "encodings p n (xs @ ys) ds \<longleftrightarrow>
    encodings p n xs (take (length xs) ds) \<and> encodings p (n + of_nat (length xs)) ys (drop (length xs) ds)"
proof (induction xs arbitrary: n ds)
  case (Cons x xs)
  then show ?case by (cases ds) (simp_all add: ac_simps)
qed simp

text \<open>A session in step, as one predicate over the server.\<close>

definition ready :: "('x, 'c) env \<Rightarrow> nat \<Rightarrow> 'x \<Rightarrow> ('x, 'c) server \<Rightarrow> bool" where
  "ready ev r t sv \<longleftrightarrow> r < length (m_store (sv_mgr sv)) \<and> (\<exists>q. in_step (ev_ext ev) q (sess_of r sv)) \<and>
     \<not> s_closed (sess_of r sv) \<and> s_transport (sess_of r sv) = Some t"

text \<open>At most that session and the metrics changed.\<close>

definition only_sess :: "nat \<Rightarrow> ('x, 'c) server \<Rightarrow> ('x, 'c) server \<Rightarrow> bool" where
  "only_sess r sv sv' \<longleftrightarrow> (\<exists>s ms. sv' = sv\<lparr>sv_mgr := upd_sess r (\<lambda>_. s) (sv_mgr sv), sv_metrics := ms\<rparr>)"

lemma only_sessI: "only_sess r sv (sv\<lparr>sv_mgr := upd_sess r (\<lambda>_. s) (sv_mgr sv), sv_metrics := ms\<rparr>)"
  unfolding only_sess_def by blast

lemma only_sess_trans:
  assumes "only_sess r sv sv1" "only_sess r sv1 sv2"
  shows "only_sess r sv sv2"
proof -
  obtain s ms s' ms' where "sv1 = sv\<lparr>sv_mgr := upd_sess r (\<lambda>_. s) (sv_mgr sv), sv_metrics := ms\<rparr>"
    "sv2 = sv1\<lparr>sv_mgr := upd_sess r (\<lambda>_. s') (sv_mgr sv1), sv_metrics := ms'\<rparr>"
    using assms unfolding only_sess_def by blast
  then have "sv2 = sv\<lparr>sv_mgr := upd_sess r (\<lambda>_. s') (sv_mgr sv), sv_metrics := ms'\<rparr>"
    by (simp add: upd_sess_comp)
  then show ?thesis using only_sessI by metis
qed

text \<open>What sending a list of pushes to one session leaves: only that session and the metrics changed.\<close>

definition sent_to ::
  "('x \<Rightarrow> bytes \<Rightarrow> 'x) \<Rightarrow> ('x, 'c) env \<Rightarrow> nat \<Rightarrow> 'x \<Rightarrow> bytes list \<Rightarrow> ('x, 'c) server \<Rightarrow> ('x, 'c) server \<Rightarrow> bool" where
  "sent_to w ev r t ds sv sv' \<longleftrightarrow>
     ready ev r (foldl w t (map frame ds)) sv' \<and>
     s_serverSeq (sess_of r sv') = s_serverSeq (sess_of r sv) + of_nat (length ds) \<and>
     s_orderingManager (sess_of r sv') = s_orderingManager (sess_of r sv) \<and>
     only_sess r sv sv'"

lemma sess_of_upd:
  "r < length (m_store (sv_mgr sv)) \<Longrightarrow>
    sess_of r (sv\<lparr>sv_mgr := upd_sess r (\<lambda>_. s) (sv_mgr sv), sv_metrics := ms\<rparr>) = s"
  by (simp add: sess_of_def sess_at_upd)

lemma sent_to_trans:
  assumes "sent_to w ev r t ds sv sv1" "sent_to w ev r (foldl w t (map frame ds)) ds' sv1 sv2"
  shows "sent_to w ev r t (ds @ ds') sv sv2"
  using assms only_sess_trans [of r sv sv1 sv2] by (simp add: sent_to_def)

text \<open>One send through the server.\<close>

lemma on_sess_send:
  assumes "writes_ok (ev_ext ev) w" "ready ev r t sv"
    "EncodeServerPush (pb (ev_ext ev)) (p\<lparr>sp_SeqId := s_serverSeq (sess_of r sv) + 1\<rparr>) = Inr d"
    "f = SendOrderedMessage (ev_ext ev) now p"
  shows "\<exists>sv1. on_sess r f sv = (None, sv1) \<and> sent_to w ev r t [d] sv sv1"
proof -
  let ?s = "sess_of r sv"
  obtain q where q: "in_step (ev_ext ev) q ?s" "\<not> s_closed ?s" "s_transport ?s = Some t" "r < length (m_store (sv_mgr sv))"
    using assms(2) by (auto simp: ready_def)
  have "stream_Write (ev_ext ev) t (frame d) = (w t (frame d), None)" using assms(1) by (simp add: writes_ok_def)
  from send_in_step [OF q(1-3) assms(3) this, of now "sv_metrics sv"] obtain q' s' where
    s': "SendOrderedMessage (ev_ext ev) now p ?s (sv_metrics sv) = (None, s', AddThroughput ''outbound'' (int (length d)) (sv_metrics sv))"
      "s' = ?s\<lparr>s_serverSeq := s_serverSeq ?s + 1, s_transport := Some (w t (frame d)), s_orderedQueue := Some q'\<rparr>"
      "in_step (ev_ext ev) q' s'" by blast
  let ?sv1 = "sv\<lparr>sv_mgr := upd_sess r (\<lambda>_. s') (sv_mgr sv),
    sv_metrics := AddThroughput ''outbound'' (int (length d)) (sv_metrics sv)\<rparr>"
  have "on_sess r f sv = (None, ?sv1)" using s'(1) by (simp add: on_sess_def assms(4) sess_of_def)
  moreover have at: "sess_of r ?sv1 = s'" by (rule sess_of_upd [OF q(4)])
  have "sent_to w ev r t [d] sv ?sv1"
    unfolding sent_to_def ready_def at using s'(2,3) q(2,4) only_sessI by auto
  ultimately show ?thesis by blast
qed

lemma only_sess_refl [simp]: "only_sess r sv sv"
proof -
  have "sv = sv\<lparr>sv_mgr := upd_sess r (\<lambda>_. sess_at r (sv_mgr sv)) (sv_mgr sv), sv_metrics := sv_metrics sv\<rparr>"
    by (simp add: upd_sess_def sess_at_def)
  then show ?thesis using only_sessI by metis
qed

lemma push_items_sent:
  assumes "writes_ok (ev_ext ev) w"
  shows "ready ev r t sv \<Longrightarrow> encodings (pb (ev_ext ev)) (s_serverSeq (sess_of r sv) + 1) (map note_push ns) ds \<Longrightarrow>
    \<exists>sv1. push_items ev now r ns sv = (None, sv1) \<and> sent_to w ev r t ds sv sv1"
proof (induction ns arbitrary: t sv ds)
  case Nil
  then show ?case by (simp add: sent_to_def)
next
  case (Cons n ns)
  let ?p = "pb (ev_ext ev)" and ?k = "s_serverSeq (sess_of r sv) + 1"
  obtain d ds' where ds: "ds = d # ds'" "EncodeServerPush ?p (note_push n\<lparr>sp_SeqId := ?k\<rparr>) = Inr d"
    "encodings ?p (?k + 1) (map note_push ns) ds'" using Cons.prems(2) by (auto split: list.splits)
  have "PushBusinessData (ev_ext ev) now (NotifyData n) = SendOrderedMessage (ev_ext ev) now (note_push n)"
    by (simp add: fun_eq_iff PushBusinessData_def note_push_def)
  from on_sess_send [OF assms Cons.prems(1) ds(2) this] obtain sv1 where
    sv1: "on_sess r (PushBusinessData (ev_ext ev) now (NotifyData n)) sv = (None, sv1)" "sent_to w ev r t [d] sv sv1"
    by blast
  have "ready ev r (foldl w t (map frame [d])) sv1" "s_serverSeq (sess_of r sv1) + 1 = ?k + 1"
    using sv1(2) unfolding sent_to_def by simp_all
  from Cons.IH [OF this(1)] this(2) ds(3) obtain sv2 where
    sv2: "push_items ev now r ns sv1 = (None, sv2)" "sent_to w ev r (foldl w t (map frame [d])) ds' sv1 sv2"
    by auto
  have "sent_to w ev r t ([d] @ ds') sv sv2" by (rule sent_to_trans [OF sv1(2) sv2(2)])
  then show ?case using sv1(1) sv2(1) ds(1) by simp
qed

text \<open>Taking notifications from a table \<open>fld\<close> of the ordering manager, and sending them.\<close>

lemma take_ready:
  assumes "ready ev r t sv" "GetOrderingManager (sess_of r sv) = Some o'" "get o' = (ns, o1)"
  shows "\<exists>sv1. take_notifies get r sv = (ns, sv1) \<and> ready ev r t sv1 \<and> only_sess r sv sv1 \<and>
    s_serverSeq (sess_of r sv1) = s_serverSeq (sess_of r sv) \<and> GetOrderingManager (sess_of r sv1) = Some o1"
proof -
  let ?s = "(sess_of r sv)\<lparr>s_orderingManager := Some o1\<rparr>"
  let ?sv1 = "sv\<lparr>sv_mgr := upd_sess r (\<lambda>s. s\<lparr>s_orderingManager := Some o1\<rparr>) (sv_mgr sv)\<rparr>"
  have take: "take_notifies get r sv = (ns, ?sv1)" using assms(2,3) by (simp add: take_notifies_def)
  have eq: "?sv1 = sv\<lparr>sv_mgr := upd_sess r (\<lambda>_. ?s) (sv_mgr sv), sv_metrics := sv_metrics sv\<rparr>"
    by (simp add: upd_sess_def sess_of_def sess_at_def)
  have len: "r < length (m_store (sv_mgr sv))" using assms(1) by (simp add: ready_def)
  have "in_step e q ?s = in_step e q (sess_of r sv)" for e q by (simp add: in_step_def)
  then have "ready ev r t ?sv1" using assms(1) len unfolding ready_def eq sess_of_upd [OF len] by simp
  moreover have "only_sess r sv ?sv1" unfolding eq by (rule only_sessI)
  moreover have "sess_of r ?sv1 = ?s" unfolding eq by (rule sess_of_upd [OF len])
  ultimately show ?thesis using take by (simp add: GetOrderingManager_def)
qed

lemma notifies_sent:
  assumes "writes_ok (ev_ext ev) w" "ready ev r t sv" "GetOrderingManager (sess_of r sv) = Some o'"
    "get o' = (ns, o1)" "encodings (pb (ev_ext ev)) (s_serverSeq (sess_of r sv) + 1) (map note_push ns) ds"
    "f = (\<lambda>sv. case take_notifies get r sv of (ns, sv1) \<Rightarrow> push_items ev now r ns sv1)"
  shows "\<exists>sv1. f sv = (None, sv1) \<and> ready ev r (foldl w t (map frame ds)) sv1 \<and> only_sess r sv sv1 \<and>
    s_serverSeq (sess_of r sv1) = s_serverSeq (sess_of r sv) + of_nat (length ns) \<and>
    GetOrderingManager (sess_of r sv1) = Some o1"
proof -
  obtain sv1 where sv1: "take_notifies get r sv = (ns, sv1)" "ready ev r t sv1" "only_sess r sv sv1"
    "s_serverSeq (sess_of r sv1) = s_serverSeq (sess_of r sv)" "GetOrderingManager (sess_of r sv1) = Some o1"
    using take_ready [where get = get, OF assms(2-4)] by blast
  obtain sv2 where sv2: "push_items ev now r ns sv1 = (None, sv2)" "sent_to w ev r t ds sv1 sv2"
    using push_items_sent [OF assms(1) sv1(2), of ns ds now] assms(5) sv1(4) by auto
  have "length ds = length ns" using encodings_length [OF assms(5)] by simp
  then show ?thesis
    using sv1 sv2 only_sess_trans [OF sv1(3)] by (auto simp: assms(6) sent_to_def GetOrderingManager_def)
qed

text \<open>The tables after a number was taken.\<close>

lemma get_before: "GetAndRemoveBeforeNotifies g o' =
    (bound_view (beforeRspNotifies o') g, o'\<lparr>beforeRspNotifies := gm_del g (beforeRspNotifies o')\<rparr>)"
  and get_after: "GetAndRemoveAfterNotifies g o' =
    (bound_view (afterRspNotifies o') g, o'\<lparr>afterRspNotifies := gm_del g (afterRspNotifies o')\<rparr>)"
  by (simp_all add: GetAndRemoveBeforeNotifies_def GetAndRemoveAfterNotifies_def take_at_def bound_view_def)

lemma view_del: "bound_view (gm_del g b) = (bound_view b)(g := [])"
  by (simp add: fun_eq_iff bound_view_def gm_getd_del)

definition notified :: "u32 \<Rightarrow> ordering \<Rightarrow> ordering \<Rightarrow> bool" where
  "notified g o' o1 \<longleftrightarrow> bound_view (beforeRspNotifies o1) = (bound_view (beforeRspNotifies o'))(g := []) \<and>
     bound_view (afterRspNotifies o1) = (bound_view (afterRspNotifies o'))(g := [])"

lemma response_sent:
  assumes "writes_ok (ev_ext ev) w" "ready ev r t sv"
    "EncodeServerPush (pb (ev_ext ev)) ((response_push (pb (ev_ext ev)) req resp)\<lparr>sp_SeqId := s_serverSeq (sess_of r sv) + 1\<rparr>) = Inr d"
  shows "\<exists>sv1. on_sess r (SendBusinessResponse (ev_ext ev) now (cr_MsgId req) (ur_Code resp) (ur_Message resp)
      (ur_Data resp) (ur_Headers resp)) sv = (None, sv1) \<and> sent_to w ev r t [d] sv sv1"
  by (rule on_sess_send [where now = now, OF assms]) (simp add: fun_eq_iff SendBusinessResponse_def response_push_def)

text \<open>C5. A request handled by a worker is answered in order: the notifications bound before it, in the order
  they were bound, then the response, then the notifications bound after it, each written once as a frame;
  those notifications are gone afterwards, the ones bound to other requests stay, and no other session
  changes. \<close>

theorem worker_response_order:
  assumes "writes_ok (ev_ext ev) w" "isSessionValid (sess_of (at_Session task) sv)"
    "callUpstreamService ev (at_ServiceType task) (at_UpstreamReq task) sv = (Inr resp, sv1)"
    "ready ev (at_Session task) t sv1" "GetOrderingManager (sess_of (at_Session task) sv1) = Some o'"
    "g = grid_of (cr_SeqId (at_Request task))"
    "encodings (pb (ev_ext ev)) (s_serverSeq (sess_of (at_Session task) sv1) + 1)
       (map note_push (bound_view (beforeRspNotifies o') g) @ response_push (pb (ev_ext ev)) (at_Request task) resp #
        map note_push (bound_view (afterRspNotifies o') g)) ds"
    "sv' = processTask ev now task sv"
  shows "s_transport (sess_of (at_Session task) sv') = Some (foldl w t (map frame ds)) \<and>
    only_sess (at_Session task) sv1 sv' \<and>
    (\<exists>o1. GetOrderingManager (sess_of (at_Session task) sv') = Some o1 \<and> notified g o' o1)"
proof -
  let ?r = "at_Session task" and ?p = "pb (ev_ext ev)"
  let ?bs = "bound_view (beforeRspNotifies o') g" and ?as = "bound_view (afterRspNotifies o') g"
  let ?ob = "o'\<lparr>beforeRspNotifies := gm_del g (beforeRspNotifies o')\<rparr>"
  let ?oa = "?ob\<lparr>afterRspNotifies := gm_del g (afterRspNotifies o')\<rparr>"
  let ?d1 = "take (length ?bs) ds" and ?d2 = "drop (length ?bs) ds"
  have e1: "encodings ?p (s_serverSeq (sess_of ?r sv1) + 1) (map note_push ?bs) ?d1"
    and e2: "encodings ?p (s_serverSeq (sess_of ?r sv1) + 1 + of_nat (length ?bs))
      (response_push ?p (at_Request task) resp # map note_push ?as) ?d2"
    using assms(7) by (simp_all add: encodings_append)
  from e2 obtain d d3 where d: "?d2 = d # d3" by (cases ?d2) simp_all
  obtain sv2 where sv2: "server_sendBeforeNotifies ev now ?r g sv1 = (None, sv2)" "only_sess ?r sv1 sv2"
    "ready ev ?r (foldl w t (map frame ?d1)) sv2"
    "s_serverSeq (sess_of ?r sv2) = s_serverSeq (sess_of ?r sv1) + of_nat (length ?bs)"
    "GetOrderingManager (sess_of ?r sv2) = Some ?ob"
    using notifies_sent [where get = "GetAndRemoveBeforeNotifies g" and now = now and
        f = "server_sendBeforeNotifies ev now ?r g", OF assms(1,4,5) get_before e1]
    by (auto simp: fun_eq_iff server_sendBeforeNotifies_def)
  have "EncodeServerPush ?p ((response_push ?p (at_Request task) resp)\<lparr>sp_SeqId := s_serverSeq (sess_of ?r sv2) + 1\<rparr>) = Inr d"
    using e2 d sv2(4) by (simp add: ac_simps)
  from response_sent [OF assms(1) sv2(3) this, of now] obtain sv3 where
    sv3: "on_sess ?r (SendBusinessResponse (ev_ext ev) now (cr_MsgId (at_Request task)) (ur_Code resp) (ur_Message resp)
      (ur_Data resp) (ur_Headers resp)) sv2 = (None, sv3)" "sent_to w ev ?r (foldl w t (map frame ?d1)) [d] sv2 sv3"
    by blast
  have r3: "ready ev ?r (foldl w t (map frame (?d1 @ [d]))) sv3" "only_sess ?r sv2 sv3"
    "s_serverSeq (sess_of ?r sv3) = s_serverSeq (sess_of ?r sv2) + 1" "GetOrderingManager (sess_of ?r sv3) = Some ?ob"
    using sv3(2) sv2(5) by (simp_all add: sent_to_def GetOrderingManager_def)
  have e3: "encodings ?p (s_serverSeq (sess_of ?r sv3) + 1) (map note_push ?as) d3"
    using e2 d sv2(4) r3(3) by (simp add: ac_simps)
  have ga: "GetAndRemoveAfterNotifies g ?ob = (?as, ?oa)" by (simp add: get_after)
  obtain sv4 where sv4: "server_sendAfterNotifies ev now ?r g sv3 = (None, sv4)" "only_sess ?r sv3 sv4"
    "ready ev ?r (foldl w (foldl w t (map frame (?d1 @ [d]))) (map frame d3)) sv4"
    "GetOrderingManager (sess_of ?r sv4) = Some ?oa"
    using notifies_sent [where get = "GetAndRemoveAfterNotifies g" and now = now and
        f = "server_sendAfterNotifies ev now ?r g", OF assms(1) r3(1,4) ga e3]
    by (auto simp: fun_eq_iff server_sendAfterNotifies_def)
  have sv': "sv' = sv4"
    using assms(2,3,6,8) sv2(1) sv3(1) sv4(1) by (simp add: processTask_def Let_def)
  have "foldl w (foldl w t (map frame (?d1 @ [d]))) (map frame d3) = foldl w t (map frame (?d1 @ ?d2))"
    by (simp add: d)
  moreover have "only_sess ?r sv1 sv4" using only_sess_trans [OF only_sess_trans [OF sv2(2) r3(2)] sv4(2)] .
  ultimately show ?thesis using sv4(3,4) sv' by (simp add: ready_def notified_def view_del)
qed

lemma gw_writes: "writes_ok (ev_ext gw_env) (@)"
  by (simp add: writes_ok_def gw_env_def gw_ext_def toy_ext_def pipe_def)

text \<open>A logged-in session with a notification bound before request 5 and two bound after it.\<close>

definition gw_note :: "byte \<Rightarrow> notify_item" where
  "gw_note b = (note0 0)\<lparr>NotifyData := [b], BindGrid := 5\<rparr>"

definition gw_bound :: ordering where
  "gw_bound = om_binds [(True, 5, gw_note 1), (False, 5, gw_note 2), (True, 6, gw_note 3), (False, 5, gw_note 4)]
     NewMessageOrderingManager"

definition gw_busy :: "(bytes, nat) server" where
  "gw_busy = gw_fresh\<lparr>sv_mgr := upd_sess 0 (\<lambda>s. s\<lparr>s_state := SessionNormal, s_maxClientSeq := 4,
     s_orderingManager := Some gw_bound\<rparr>) (sv_mgr gw_fresh)\<rparr>"

definition gw_request :: client_request where
  "gw_request = new_request 9 5 REQUEST_BUSINESS [7] []"

definition gw_task :: async_task where
  "gw_task = \<lparr>at_TaskID = (''s1'', 5), at_SessionID = ''s1'', at_Session = 0, at_Request = gw_request,
     at_BusinessReq = \<lparr>bq_Action = ''buy'', bq_Params = [], bq_Data = []\<rparr>, at_ServiceType = ''business'',
     at_UpstreamReq = upstream_req (sess_of 0 gw_busy) gw_request \<lparr>bq_Action = ''buy'', bq_Params = [], bq_Data = []\<rparr>,
     at_IsLogin = False\<rparr>"

definition gw_called :: "(err + upstream_response) \<times> (bytes, nat) server" where
  "gw_called = callUpstreamService gw_env (at_ServiceType gw_task) (at_UpstreamReq gw_task) gw_busy"

definition gw_reply :: upstream_response where
  "gw_reply = (case fst gw_called of Inr x \<Rightarrow> x | Inl _ \<Rightarrow> undefined)"

lemma gw_call_mgr: "sv_mgr (snd (callUpstreamService gw_env ty q sv)) = sv_mgr sv"
  by (auto simp: callUpstreamService_def CallService_def gw_env_def split: option.split prod.split sum.split)

lemma gw_busy_session: "m_store (sv_mgr gw_busy) = [(new_session ''s1'' 0 [] ''c'' ''ann'' ''ip'')\<lparr>s_state := SessionNormal,
    s_maxClientSeq := 4, s_orderingManager := Some gw_bound\<rparr>]"
  by (simp add: gw_busy_def gw_fresh_def gw_server_mgr CreateOrReconnectSession_def NewManager_def
      reconnect_candidate_def upd_sess_def)

lemma gw_called_session: "sess_of 0 (snd gw_called) = (new_session ''s1'' 0 [] ''c'' ''ann'' ''ip'')\<lparr>s_state := SessionNormal,
    s_maxClientSeq := 4, s_orderingManager := Some gw_bound\<rparr>"
  by (simp add: gw_called_def sess_of_def sess_at_def gw_call_mgr gw_busy_session)

lemma gw_ready: "ready gw_env 0 [] (snd gw_called)"
proof -
  have "in_step (ev_ext gw_env) (NewOrderedMessageQueue ''s1'' 1000) (sess_of 0 (snd gw_called))"
    unfolding gw_called_session by (simp add: in_step_def new_session_def NewOrderedMessageQueue_def)
  moreover have "s_transport (sess_of 0 (snd gw_called)) = Some []" "\<not> s_closed (sess_of 0 (snd gw_called))"
    by (simp_all add: gw_called_session new_session_def)
  moreover have "0 < length (m_store (sv_mgr (snd gw_called)))" by (simp add: gw_called_def gw_call_mgr gw_busy_session)
  ultimately show ?thesis unfolding ready_def by blast
qed

lemma gw_call: "callUpstreamService gw_env ''business'' (at_UpstreamReq gw_task) gw_busy = (Inr gw_reply, snd gw_called)"
proof -
  have "(case fst gw_called of Inr _ \<Rightarrow> True | Inl _ \<Rightarrow> False)" by code_simp
  then show ?thesis by (cases "fst gw_called") (auto simp: gw_reply_def gw_called_def prod_eq_iff gw_task_def)
qed

theorem worker_response_order_witness:
  "s_transport (sess_of 0 (processTask gw_env 3 gw_task gw_busy)) =
     Some (concat (map (\<lambda>n. frame (put_be32 n)) [0, 9, 0, 0]))"
proof -
  let ?ds = "map put_be32 [0, 9, 0, 0]"
  have c: "callUpstreamService gw_env (at_ServiceType gw_task) (at_UpstreamReq gw_task) gw_busy = (Inr gw_reply, snd gw_called)"
    using gw_call by (simp add: gw_task_def)
  have v: "isSessionValid (sess_of (at_Session gw_task) gw_busy)" by code_simp
  have o': "GetOrderingManager (sess_of (at_Session gw_task) (snd gw_called)) = Some gw_bound"
    by (simp add: gw_task_def gw_called_session GetOrderingManager_def)
  have r: "ready gw_env (at_Session gw_task) [] (snd gw_called)" using gw_ready by (simp add: gw_task_def)
  have "encodings (pb (ev_ext gw_env)) (s_serverSeq (sess_of (at_Session gw_task) (snd gw_called)) + 1)
       (map note_push (bound_view (beforeRspNotifies gw_bound) 5) @ response_push (pb (ev_ext gw_env)) (at_Request gw_task) gw_reply #
        map note_push (bound_view (afterRspNotifies gw_bound) 5)) ?ds" by code_simp
  from worker_response_order [OF gw_writes v c r o' _ this refl, of 3] show ?thesis
    by (simp add: gw_task_def gw_request_def new_request_def grid_of_def)
qed

text \<open>A login that is activated leaves the session in step.\<close>

lemma login_ready:
  assumes "handleLoginSuccess r resp sv = (None, sv1)" "GetSession (s_ID (sess_of r sv)) (sv_mgr sv) = Some r"
    "ready ev r t sv"
  shows "ready ev r t sv1 \<and> only_sess r sv sv1 \<and> s_serverSeq (sess_of r sv1) = s_serverSeq (sess_of r sv) \<and>
    GetOrderingManager (sess_of r sv1) = GetOrderingManager (sess_of r sv)"
proof -
  obtain z m where m: "m_ActivateSession (s_ID (sess_of r sv)) z (sv_mgr sv) = (None, m)" "sv1 = sv\<lparr>sv_mgr := m\<rparr>"
    using assms(1) by (auto simp: handleLoginSuccess_def Let_def split: sum.splits prod.splits option.splits)
  let ?s = "(sess_of r sv)\<lparr>s_state := SessionNormal, s_zone := z\<rparr>"
  have "m = upd_sess r (\<lambda>_. ?s) (sv_mgr sv)"
    using m(1) assms(2) by (auto simp: m_ActivateSession_def session_ActivateSession_def sess_of_def split: if_splits)
  then have sv1: "sv1 = sv\<lparr>sv_mgr := upd_sess r (\<lambda>_. ?s) (sv_mgr sv), sv_metrics := sv_metrics sv\<rparr>"
    using m(2) by simp
  have len: "r < length (m_store (sv_mgr sv))" using assms(3) by (simp add: ready_def)
  have at: "sess_of r sv1 = ?s" unfolding sv1 by (rule sess_of_upd [OF len])
  have "in_step e q ?s = in_step e q (sess_of r sv)" for e q by (simp add: in_step_def)
  then have "ready ev r t sv1" using assms(3) unfolding ready_def at by (simp add: sv1)
  moreover have "only_sess r sv sv1" unfolding sv1 by (rule only_sessI)
  ultimately show ?thesis by (simp add: at GetOrderingManager_def)
qed

text \<open>C30. The synchronous path answers in another order than the workers: the response goes out first, and the
  notifications bound before it follow it, then those bound after it, each written once. It is the path of a login
  (whose activation at the gateway succeeds, for a stored session), and of every request of a server without task
  queue. The upstream call succeeds, the session is in step, writes succeed and the messages can be encoded. \<close>

theorem sync_response_order:
  assumes "writes_ok (ev_ext ev) w" "callUpstreamService ev ty ureq sv = (Inr resp, sv1)" "ready ev r t sv1"
    "GetOrderingManager (sess_of r sv1) = Some o'" "g = grid_of (cr_SeqId req)"
    "encodings (pb (ev_ext ev)) (s_serverSeq (sess_of r sv1) + 1) (response_push (pb (ev_ext ev)) req resp #
       map note_push (bound_view (beforeRspNotifies o') g) @ map note_push (bound_view (afterRspNotifies o') g)) ds"
    "isLogin \<and> ur_Code resp = 200 \<longrightarrow>
       fst (handleLoginSuccess r resp sv1) = None \<and> GetSession (s_ID (sess_of r sv1)) (sv_mgr sv1) = Some r"
    "handleBusinessRequestSync ev now r req ty ureq isLogin sv = (ok, sv')"
  shows "ok \<and> s_transport (sess_of r sv') = Some (foldl w t (map frame ds)) \<and> only_sess r sv1 sv' \<and>
    (\<exists>o1. GetOrderingManager (sess_of r sv') = Some o1 \<and> notified g o' o1)"
proof -
  let ?p = "pb (ev_ext ev)"
  let ?bs = "bound_view (beforeRspNotifies o') g" and ?as = "bound_view (afterRspNotifies o') g"
  let ?ob = "o'\<lparr>beforeRspNotifies := gm_del g (beforeRspNotifies o')\<rparr>"
  let ?oa = "?ob\<lparr>afterRspNotifies := gm_del g (afterRspNotifies o')\<rparr>"
  obtain d ds2 where d: "ds = d # ds2" using assms(6) by (cases ds) simp_all
  let ?d2 = "take (length ?bs) ds2" and ?d3 = "drop (length ?bs) ds2"
  have e: "EncodeServerPush ?p ((response_push ?p req resp)\<lparr>sp_SeqId := s_serverSeq (sess_of r sv1) + 1\<rparr>) = Inr d"
    "encodings ?p (s_serverSeq (sess_of r sv1) + 1 + 1) (map note_push ?bs) ?d2"
    "encodings ?p (s_serverSeq (sess_of r sv1) + 1 + 1 + of_nat (length ?bs)) (map note_push ?as) ?d3"
    using assms(6) d by (simp_all add: encodings_append)
  obtain svl where login: "(if isLogin \<and> ur_Code resp = 200 then handleLoginSuccess r resp sv1 else (None, sv1)) = (None, svl)"
    and l: "ready ev r t svl" "only_sess r sv1 svl" "s_serverSeq (sess_of r svl) = s_serverSeq (sess_of r sv1)"
      "GetOrderingManager (sess_of r svl) = Some o'"
  proof (cases "isLogin \<and> ur_Code resp = 200")
    case True
    then obtain svl where "handleLoginSuccess r resp sv1 = (None, svl)" using assms(7) by (metis prod.collapse)
    then show ?thesis using that [of svl] login_ready [OF _ _ assms(3)] True assms(4,7) by auto
  next
    case False
    then show ?thesis using that [of sv1] assms(3,4) by auto
  qed
  obtain sv2 where sv2: "on_sess r (SendBusinessResponse (ev_ext ev) now (cr_MsgId req) (ur_Code resp) (ur_Message resp)
      (ur_Data resp) (ur_Headers resp)) svl = (None, sv2)" "sent_to w ev r t [d] svl sv2"
    using response_sent [OF assms(1) l(1) e(1) [folded l(3)]] by blast
  have r2: "ready ev r (foldl w t (map frame [d])) sv2" "only_sess r sv1 sv2"
    "s_serverSeq (sess_of r sv2) = s_serverSeq (sess_of r sv1) + 1" "GetOrderingManager (sess_of r sv2) = Some o'"
    using sv2(2) l only_sess_trans [OF l(2)] by (simp_all add: sent_to_def GetOrderingManager_def)
  obtain sv3 where sv3: "server_sendBeforeNotifies ev now r g sv2 = (None, sv3)" "only_sess r sv2 sv3"
    "ready ev r (foldl w (foldl w t (map frame [d])) (map frame ?d2)) sv3"
    "s_serverSeq (sess_of r sv3) = s_serverSeq (sess_of r sv2) + of_nat (length ?bs)"
    "GetOrderingManager (sess_of r sv3) = Some ?ob"
    using notifies_sent [where get = "GetAndRemoveBeforeNotifies g" and now = now and
        f = "server_sendBeforeNotifies ev now r g", OF assms(1) r2(1,4) get_before e(2) [folded r2(3)]]
    by (auto simp: fun_eq_iff server_sendBeforeNotifies_def)
  have ga: "GetAndRemoveAfterNotifies g ?ob = (?as, ?oa)" by (simp add: get_after)
  have e3: "encodings ?p (s_serverSeq (sess_of r sv3) + 1) (map note_push ?as) ?d3"
    using e(3) sv3(4) r2(3) by (simp add: ac_simps)
  obtain sv4 where sv4: "server_sendAfterNotifies ev now r g sv3 = (None, sv4)" "only_sess r sv3 sv4"
    "ready ev r (foldl w (foldl w (foldl w t (map frame [d])) (map frame ?d2)) (map frame ?d3)) sv4"
    "GetOrderingManager (sess_of r sv4) = Some ?oa"
    using notifies_sent [where get = "GetAndRemoveAfterNotifies g" and now = now and
        f = "server_sendAfterNotifies ev now r g", OF assms(1) sv3(3,5) ga e3]
    by (auto simp: fun_eq_iff server_sendAfterNotifies_def)
  have "ok" "sv' = sv4"
    using assms(2,5,8) login sv2(1) sv3(1) sv4(1) by (simp_all add: handleBusinessRequestSync_def processBoundNotifies_def)
  moreover have "foldl w (foldl w (foldl w t (map frame [d])) (map frame ?d2)) (map frame ?d3) = foldl w t (map frame ds)"
    unfolding d by (simp flip: foldl_append map_append)
  moreover have "only_sess r sv1 sv4" using only_sess_trans [OF only_sess_trans [OF r2(2) sv3(2)] sv4(2)] .
  ultimately show ?thesis using sv4(3,4) by (simp add: ready_def notified_def view_del)
qed

text \<open>A login that finds notifications bound to its number.\<close>

definition gw_login :: "(bytes, nat) server" where
  "gw_login = gw_fresh\<lparr>sv_mgr := upd_sess 0 (\<lambda>s. s\<lparr>s_orderingManager := Some gw_bound\<rparr>) (sv_mgr gw_fresh)\<rparr>"

definition gw_hello :: upstream_request where
  "gw_hello = upstream_req (sess_of 0 gw_login) gw_request \<lparr>bq_Action = ''hello'', bq_Params = [], bq_Data = []\<rparr>"

definition gw_welcome :: "(err + upstream_response) \<times> (bytes, nat) server" where
  "gw_welcome = callUpstreamService gw_env ''hello'' gw_hello gw_login"

lemma gw_welcome_session: "sess_of 0 (snd gw_welcome) = (new_session ''s1'' 0 [] ''c'' ''ann'' ''ip'')\<lparr>s_orderingManager := Some gw_bound\<rparr>"
  "0 < length (m_store (sv_mgr (snd gw_welcome)))" "GetSession ''s1'' (sv_mgr (snd gw_welcome)) = Some 0"
  by (simp_all add: gw_welcome_def sess_of_def sess_at_def gw_call_mgr gw_login_def gw_fresh_def gw_server_mgr
      CreateOrReconnectSession_def NewManager_def reconnect_candidate_def upd_sess_def GetSession_def)

theorem sync_response_order_witness:
  "s_transport (sess_of 0 (snd (handleBusinessRequestSync gw_env 3 0 gw_request ''hello'' gw_hello True gw_login))) =
     Some (concat (map (\<lambda>n. frame (put_be32 n)) [9, 0, 0, 0]))"
proof -
  let ?ds = "map put_be32 [9, 0, 0, 0]"
  obtain ok sv' where h: "handleBusinessRequestSync gw_env 3 0 gw_request ''hello'' gw_hello True gw_login = (ok, sv')"
    by (metis surj_pair)
  have "case fst gw_welcome of Inl _ \<Rightarrow> False | Inr resp \<Rightarrow> fst (handleLoginSuccess 0 resp (snd gw_welcome)) = None \<and>
      encodings (pb (ev_ext gw_env)) (s_serverSeq (sess_of 0 (snd gw_welcome)) + 1) (response_push (pb (ev_ext gw_env)) gw_request resp #
       map note_push (bound_view (beforeRspNotifies gw_bound) 5) @ map note_push (bound_view (afterRspNotifies gw_bound) 5)) ?ds"
    by code_simp
  then obtain resp where resp: "fst gw_welcome = Inr resp" "fst (handleLoginSuccess 0 resp (snd gw_welcome)) = None"
      "encodings (pb (ev_ext gw_env)) (s_serverSeq (sess_of 0 (snd gw_welcome)) + 1) (response_push (pb (ev_ext gw_env)) gw_request resp #
       map note_push (bound_view (beforeRspNotifies gw_bound) 5) @ map note_push (bound_view (afterRspNotifies gw_bound) 5)) ?ds"
    by (auto split: sum.splits)
  have call: "callUpstreamService gw_env ''hello'' gw_hello gw_login = (Inr resp, snd gw_welcome)"
    using resp(1) by (simp add: gw_welcome_def prod_eq_iff)
  have "in_step (ev_ext gw_env) (NewOrderedMessageQueue ''s1'' 1000) (sess_of 0 (snd gw_welcome))"
    unfolding gw_welcome_session by (simp add: in_step_def new_session_def NewOrderedMessageQueue_def)
  then have r: "ready gw_env 0 [] (snd gw_welcome)"
    unfolding ready_def gw_welcome_session(1) using gw_welcome_session(2) by (auto simp: new_session_def)
  have n: "gw_bound = gw_bound" "grid_of (cr_SeqId gw_request) = 5" by (simp_all add: gw_request_def new_request_def grid_of_def)
  have o': "GetOrderingManager (sess_of 0 (snd gw_welcome)) = Some gw_bound"
    by (simp add: gw_welcome_session(1) GetOrderingManager_def)
  have act: "True \<and> ur_Code resp = 200 \<longrightarrow> fst (handleLoginSuccess 0 resp (snd gw_welcome)) = None \<and>
      GetSession (s_ID (sess_of 0 (snd gw_welcome))) (sv_mgr (snd gw_welcome)) = Some 0"
    using resp(2) gw_welcome_session(3) by (simp add: gw_welcome_session(1) new_session_def)
  from sync_response_order [OF gw_writes call r o' n(2) [symmetric] resp(3) act h] show ?thesis
    using h by simp
qed

section \<open>Requests that are refused\<close>








end
