(* ===== verification/Gateway_Stream.thy ===== *)
theory Gateway_Stream
  imports Gateway_Props
begin

text \<open>
  What the stream of a client carries, for a whole connection in any interleaving with the workers, the pushes, the
  timers and the retry rounds of the queues: frames whose messages are numbered consecutively, apart from
  repetitions of messages not yet acknowledged and from numbers the client itself acknowledged early.

  \<open>wire_step\<close> are the steps of the session manager at the grain of the locks: a number is given out, the callback set,
  a message with a number given out queued under the lock of the queue, the queue cleaned, timed-out messages sent
  again, and so on, each a step that others may come before. Sending a message (\<open>SendOrderedMessage\<close>) is a run of
  them, so the handlers are runs too. It interprets the interface of the handlers (\<open>manager_steps\<close>, \<open>server_rel\<close>); the theorem then follows from what one
  step does to one session.
\<close>

section \<open>The frames on a stream\<close>

text \<open>The bytes are the encoding of a push with this number.\<close>

definition numbered :: "protobuf \<Rightarrow> u64 \<Rightarrow> bytes \<Rightarrow> bool" where
  "numbered p n d \<longleftrightarrow> (\<exists>x. sp_SeqId x = n \<and> EncodeServerPush p x = Inr d)"

text \<open>When the number \<open>n\<close> is due, a later number \<open>k\<close> may only follow if the client, whose highest acknowledgement is
  \<open>a\<close>, has acknowledged everything below \<open>k\<close>; after an acknowledgement of the largest number of all, any.\<close>

definition hop :: "u64 \<Rightarrow> u64 \<Rightarrow> u64 \<Rightarrow> bool" where
  "hop a n k \<longleftrightarrow> k = n \<or> n \<le> k - 1 \<and> k - 1 \<le> a \<or> a = - 1"

text \<open>The frames of a stream: \<open>True\<close> marks a message written for the first time. \<open>J\<close> are the messages that may be
  repeated, \<open>n\<close> is the number due first and \<open>n'\<close> the one due next.\<close>

fun stream_frames ::
  "protobuf \<Rightarrow> u64 \<Rightarrow> (u64 \<times> bytes) set \<Rightarrow> u64 \<Rightarrow> (bool \<times> u64 \<times> bytes) list \<Rightarrow> u64 \<Rightarrow> bool" where
  "stream_frames p a J n [] n' \<longleftrightarrow> hop a n n'"
| "stream_frames p a J n ((first, k, d) # fs) n' \<longleftrightarrow>
     (if first then hop a n k \<and> numbered p k d \<and> stream_frames p a (insert (k, d) J) (k + 1) fs n'
      else (k, d) \<in> J \<and> stream_frames p a J n fs n')"

definition frames_bytes :: "(bool \<times> u64 \<times> bytes) list \<Rightarrow> bytes" where
  "frames_bytes fs = concat (map (\<lambda>(_, _, d). frame d) fs)"

definition firsts :: "(bool \<times> u64 \<times> bytes) list \<Rightarrow> (u64 \<times> bytes) set" where
  "firsts fs = {(k, d). (True, k, d) \<in> set fs}"

lemma frames_bytes_snoc [simp]: "frames_bytes [] = []" "frames_bytes (fs @ [(b, k, d)]) = frames_bytes fs @ frame d"
  by (simp_all add: frames_bytes_def)

lemma firsts_simps [simp]:
  "firsts [] = {}" "firsts ((b, k, d) # fs) = (if b then insert (k, d) (firsts fs) else firsts fs)"
  "firsts (fs @ [(b, k, d)]) = (if b then insert (k, d) (firsts fs) else firsts fs)"
  by (auto simp: firsts_def)

lemma hop_refl [simp]: "hop a n n"
  by (simp add: hop_def)

lemma hop_trans:
  assumes "hop a n k" "hop a k l"
  shows "hop a n l"
proof (cases "k = n \<or> l = k \<or> a = - 1")
  case False
  then have b: "n \<le> k - 1" "k - 1 \<le> a" "k \<le> l - 1" "l - 1 \<le> a" using assms by (auto simp: hop_def)
  have "k \<noteq> 0" using b(2) False by (auto simp: word_order.extremum_unique)
  then have "k - 1 \<le> k" by unat_arith
  then have "n \<le> l - 1" using b(1,3) by simp
  then show ?thesis using b(4) by (simp add: hop_def)
qed (use assms in \<open>auto simp: hop_def\<close>)

lemma hop_mono: "hop a n k \<Longrightarrow> a \<le> b \<Longrightarrow> hop b n k"
  by (auto simp: hop_def word_order.extremum_unique)

lemma frames_mono: "stream_frames p a J n fs n' \<Longrightarrow> a \<le> b \<Longrightarrow> stream_frames p b J n fs n'"
  by (induction fs arbitrary: J n) (auto intro: hop_mono split: if_splits)

lemma frames_hop: "stream_frames p a J n fs k \<Longrightarrow> hop a k l \<Longrightarrow> stream_frames p a J n fs l"
  by (induction fs arbitrary: J n) (auto intro: hop_trans split: if_splits)

lemma frames_first:
  "stream_frames p a J n fs k \<Longrightarrow> numbered p k d \<Longrightarrow> stream_frames p a J n (fs @ [(True, k, d)]) (k + 1)"
  by (induction fs arbitrary: J n) (auto split: if_splits)

lemma frames_again:
  "stream_frames p a J n fs l \<Longrightarrow> (k, d) \<in> J \<union> firsts fs \<Longrightarrow> stream_frames p a J n (fs @ [(False, k, d)]) l"
proof (induction fs arbitrary: J n)
  case (Cons f fs)
  obtain b k' d' where "f = (b, k', d')" by (metis surj_pair)
  then show ?case using Cons by (cases b) auto
qed simp

section \<open>A queue and its stream\<close>

text \<open>\<open>obs\<close> is what the client has received of a stream: a write that succeeds adds its bytes, one that fails and the
  closing add nothing.\<close>

definition carries :: "'x ext \<Rightarrow> ('x \<Rightarrow> bytes) \<Rightarrow> bool" where
  "carries e obs \<longleftrightarrow>
     (\<forall>t d. obs (fst (stream_Write e t d)) = (if snd (stream_Write e t d) = None then obs t @ d else obs t)) \<and>
     (\<forall>t. obs (stream_Close e t) = obs t) \<and> (\<forall>c t. obs (conn_CloseWithError e c t) = obs t)"

text \<open>From where the frames are read: what the stream carried then, the number due then, and the messages that may be
  repeated.\<close>

record base =
  bs_written :: bytes
  bs_next :: u64
  bs_repeat :: "(u64 \<times> bytes) set"

definition wired ::
  "'x ext \<Rightarrow> ('x \<Rightarrow> bytes) \<Rightarrow> base \<Rightarrow> 'x link oqueue \<Rightarrow> 'x option \<Rightarrow> bool" where
  "wired e obs b q tr \<longleftrightarrow>
     sendCallback q \<in> {None, Some (oms_sendMessageDirectly e)} \<and>
     (\<forall>m \<in> set (waitingQueue q). numbered (pb e) (ServerSeq m) (Data m)) \<and>
     (\<exists>T fs. tr = Some T \<and> obs T = bs_written b @ frames_bytes fs \<and>
        stream_frames (pb e) (lastAckedSeq q) (bs_repeat b) (bs_next b) fs (nextExpectedSeq q) \<and>
        (\<forall>(k, m) \<in> set (sentMessages q). (k, Data m) \<in> bs_repeat b \<union> firsts fs))"

lemma send_carries:
  assumes "carries e obs" "sendCallback q \<in> {None, Some (oms_sendMessageDirectly e)}" "lk_transport l = Some T"
    "oq_sendMessageDirectly q l m = (l', r)"
  shows "\<exists>T'. lk_transport l' = Some T' \<and> obs T' = (if r = None then obs T @ frame (Data m) else obs T)"
proof (cases "sendCallback q = None")
  case True
  then show ?thesis using assms by (auto simp: oq_sendMessageDirectly_def)
next
  case False
  then have "oms_sendMessageDirectly e l m = (l', r)" using assms(2,4) by (auto simp: oq_sendMessageDirectly_def)
  moreover have "obs (fst (stream_Write e T d)) = (if snd (stream_Write e T d) = None then obs T @ d else obs T)" for d
    using assms(1) by (simp add: carries_def)
  ultimately show ?thesis
    using assms(3) unfolding frame_def
    by (auto simp: oms_sendMessageDirectly_def WriteMessage_def split: if_splits prod.splits option.splits)
      (metis fst_conv snd_conv option.distinct(1))+
qed

text \<open>The message that is due is written, or the write fails.\<close>

lemma wired_send:
  assumes "carries e obs" "wired e obs b q (lk_transport l)" "ServerSeq m = nextExpectedSeq q"
    "numbered (pb e) (ServerSeq m) (Data m)" "set ws \<subseteq> set (waitingQueue q)" "oq_sendMessageDirectly q l m = (l', None)"
  shows "wired e obs b (mark_sent m (q\<lparr>waitingQueue := ws\<rparr>)) (lk_transport l')"
proof -
  obtain T fs where t: "lk_transport l = Some T" "obs T = bs_written b @ frames_bytes fs"
    "stream_frames (pb e) (lastAckedSeq q) (bs_repeat b) (bs_next b) fs (nextExpectedSeq q)"
    "\<forall>(k, m) \<in> set (sentMessages q). (k, Data m) \<in> bs_repeat b \<union> firsts fs"
    using assms(2) by (auto simp: wired_def)
  have cb: "sendCallback q \<in> {None, Some (oms_sendMessageDirectly e)}" using assms(2) by (simp add: wired_def)
  obtain T' where t': "lk_transport l' = Some T'" "obs T' = obs T @ frame (Data m)"
    using send_carries [OF assms(1) cb t(1) assms(6)] by auto
  let ?fs = "fs @ [(True, ServerSeq m, Data m)]"
  have "stream_frames (pb e) (lastAckedSeq q) (bs_repeat b) (bs_next b) ?fs (nextExpectedSeq q + 1)"
    using frames_first [OF t(3)] assms(3,4) by simp
  moreover have "\<forall>(k, m') \<in> set (gm_put (ServerSeq m) (m\<lparr>Sent := True\<rparr>) (sentMessages q)). (k, Data m') \<in> bs_repeat b \<union> firsts ?fs"
    using t(4) by (auto dest!: gm_set_put)
  ultimately show ?thesis
    using assms(2,5) t' t(2) unfolding wired_def by (auto intro!: exI [of _ ?fs])
qed

lemma wired_failed:
  assumes "carries e obs" "wired e obs b q (lk_transport l)" "oq_sendMessageDirectly q l m = (l', Some x)"
    "set ws \<subseteq> insert m (set (waitingQueue q))" "numbered (pb e) (ServerSeq m) (Data m)"
  shows "wired e obs b (q\<lparr>waitingQueue := ws\<rparr>) (lk_transport l')"
proof -
  obtain T where t: "lk_transport l = Some T" using assms(2) by (auto simp: wired_def)
  have "sendCallback q \<in> {None, Some (oms_sendMessageDirectly e)}" using assms(2) by (simp add: wired_def)
  then obtain T' where "lk_transport l' = Some T'" "obs T' = obs T"
    using send_carries [OF assms(1) _ t assms(3)] by auto
  then show ?thesis using assms(2,4,5) t by (auto simp: wired_def)
qed

lemma wired_process:
  assumes "carries e obs" "wired e obs b q (lk_transport l)" "processWaitingMessages q l = (q', l')"
  shows "wired e obs b q' (lk_transport l')"
proof (rule processWaitingMessages_rule [where P = "\<lambda>q l. wired e obs b q (lk_transport l)", OF assms(2) _ _ assms(3)])
  fix q and l :: "'a link" and m rest and l1 :: "'a link"
  assume w: "wired e obs b q (lk_transport l)" and pop: "mq_Pop (waitingQueue q) = Some (m, rest)"
  have sub: "set rest \<subseteq> set (waitingQueue q)" "m \<in> set (waitingQueue q)" using mq_Pop_facts [OF pop] by auto
  then have n: "numbered (pb e) (ServerSeq m) (Data m)" using w by (simp add: wired_def)
  show "wired e obs b (mark_sent m (q\<lparr>waitingQueue := rest\<rparr>)) (lk_transport l1)"
    if "ServerSeq m = nextExpectedSeq q" "oq_sendMessageDirectly q l m = (l1, None)"
    using wired_send [OF assms(1) w that(1) n sub(1) that(2)] .
  show "wired e obs b (q\<lparr>waitingQueue := mq_Push m rest\<rparr>) (lk_transport l1)"
    if "oq_sendMessageDirectly q l m = (l1, Some x)" for x
    by (rule wired_failed [OF assms(1) w that _ n]) (use sub in auto)
qed

lemma wired_enqueue:
  assumes "carries e obs" "wired e obs b q (lk_transport l)" "numbered (pb e) n d"
    "EnqueueMessage n push d now q l = (r, q', l')"
  shows "wired e obs b q' (lk_transport l')"
proof -
  let ?m = "\<lparr>ServerSeq = n, Push = push, Data = d, Timestamp = now, Retries = 0, Sent = False\<rparr>"
  obtain l1 x where s: "oq_sendMessageDirectly q l ?m = (l1, x)" by (metis surj_pair)
  obtain q2 l2 where p: "processWaitingMessages (mark_sent ?m q) l1 = (q2, l2)" by (metis surj_pair)
  have same: "q\<lparr>waitingQueue := waitingQueue q\<rparr> = q" by simp
  have sent: "wired e obs b q2 (lk_transport l2)" if "n = nextExpectedSeq q" "x = None"
    using wired_process [OF assms(1) _ p] wired_send [OF assms(1,2), of ?m "waitingQueue q" l1] that s assms(3)
    by (simp add: same)
  have failed: "wired e obs b q (lk_transport l1)" if "x = Some y" for y
    using wired_failed [OF assms(1,2), of ?m l1 y "waitingQueue q"] s that assms(3) by (simp add: same) blast
  have wait: "wired e obs b (q\<lparr>waitingQueue := mq_Push ?m (waitingQueue q)\<rparr>) (lk_transport l)"
    using assms(2,3) by (auto simp: wired_def)
  show ?thesis
    using assms(2,4) sent failed wait s p
    by (auto simp: EnqueueMessage_def Let_def split: if_splits option.splits)
qed

lemma wired_fewer:
  assumes "wired e obs b q tr" "sendCallback q' = sendCallback q" "set (waitingQueue q') \<subseteq> set (waitingQueue q)"
    "set (sentMessages q') \<subseteq> set (sentMessages q)" "lastAckedSeq q \<le> lastAckedSeq q'"
    "hop (lastAckedSeq q') (nextExpectedSeq q) (nextExpectedSeq q')"
  shows "wired e obs b q' tr"
proof -
  obtain T fs where t: "tr = Some T" "obs T = bs_written b @ frames_bytes fs"
    "stream_frames (pb e) (lastAckedSeq q) (bs_repeat b) (bs_next b) fs (nextExpectedSeq q)"
    "\<forall>(k, m) \<in> set (sentMessages q). (k, Data m) \<in> bs_repeat b \<union> firsts fs"
    using assms(1) by (auto simp: wired_def)
  have "stream_frames (pb e) (lastAckedSeq q') (bs_repeat b) (bs_next b) fs (nextExpectedSeq q')"
    using frames_hop [OF frames_mono [OF t(3) assms(5)] assms(6)] .
  moreover have "\<forall>(k, m) \<in> set (sentMessages q'). (k, Data m) \<in> bs_repeat b \<union> firsts fs" using t(4) assms(4) by blast
  moreover have "sendCallback q' \<in> {None, Some (oms_sendMessageDirectly e)}"
    "\<forall>m \<in> set (waitingQueue q'). numbered (pb e) (ServerSeq m) (Data m)"
    using assms(1-3) by (auto simp: wired_def)
  ultimately show ?thesis using t(1,2) unfolding wired_def by blast
qed

lemma wired_ack: "wired e obs b q tr \<Longrightarrow> wired e obs b (snd (oq_AckMessagesUpTo a q)) tr"
  by (erule wired_fewer) (auto simp: oq_AckMessagesUpTo_def Let_def)

lemma wired_resync:
  assumes "wired e obs b q tr"
  shows "wired e obs b (ResyncSequence a q) tr"
proof -
  have "hop (lastAckedSeq (ResyncSequence a q)) (nextExpectedSeq q) (nextExpectedSeq (ResyncSequence a q))"
    by (auto simp: hop_def ResyncSequence_def Let_def)
  then show ?thesis
    by (rule wired_fewer [OF assms, rotated -1]) (auto simp: ResyncSequence_def Let_def)
qed

lemma wired_stop: "wired e obs b q tr \<Longrightarrow> wired e obs b (oq_Stop q) tr"
  by (erule wired_fewer) (auto simp: oq_Stop_def)

lemma wired_callback: "wired e obs b q tr \<Longrightarrow> wired e obs b (ensure_callback e q) tr"
  by (auto simp: wired_def ensure_callback_def GetSendCallback_def SetSendCallback_def split: option.splits)

text \<open>A retry round writes messages again, or nothing.\<close>

lemma wired_retry:
  assumes "carries e obs" "cb \<in> {None, Some (oms_sendMessageDirectly e)}"
    "lk_transport l = Some T" "obs T = bs_written b @ frames_bytes fs" "stream_frames p a (bs_repeat b) (bs_next b) fs n"
    "\<forall>(k, m) \<in> set es. (k, Data m) \<in> bs_repeat b \<union> firsts fs" "retry_entries now cb es l = (es', l')"
  shows "\<exists>T' fs'. lk_transport l' = Some T' \<and> obs T' = bs_written b @ frames_bytes fs' \<and> stream_frames p a (bs_repeat b) (bs_next b) fs' n \<and>
    firsts fs' = firsts fs \<and> (\<forall>(k, m) \<in> set es'. (k, Data m) \<in> bs_repeat b \<union> firsts fs)"
  using assms(3-)
proof (induction es arbitrary: l T fs es' l')
  case (Cons x es)
  obtain k m where x: "x = (k, m)" by (metis surj_pair)
  obtain m1 l1 where one: "retry_one now cb m l = (m1, l1)" by (metis surj_pair)
  obtain es2 l2 where rest: "retry_entries now cb es l1 = (es2, l2)" by (metis surj_pair)
  have km: "(k, Data m) \<in> bs_repeat b \<union> firsts fs" using Cons.prems(4) by (simp add: x)
  have m1: "Data m1 = Data m" using one by (auto simp: retry_one_def split: if_splits option.splits prod.splits)
  have "\<exists>T1 fs1. lk_transport l1 = Some T1 \<and> obs T1 = bs_written b @ frames_bytes fs1 \<and> stream_frames p a (bs_repeat b) (bs_next b) fs1 n \<and> firsts fs1 = firsts fs"
  proof (cases "l1 = l")
    case True
    then show ?thesis using Cons.prems by blast
  next
    case False
    then have cb: "cb = Some (oms_sendMessageDirectly e)" and snd: "\<exists>r. oms_sendMessageDirectly e l m = (l1, r)"
      using one assms(2) by (auto simp: retry_one_def split: if_splits option.splits prod.splits)
    obtain r where r: "oms_sendMessageDirectly e l m = (l1, r)" using snd by blast
    let ?q = "(NewOrderedMessageQueue [] 0)\<lparr>sendCallback := Some (oms_sendMessageDirectly e)\<rparr>"
    have "oq_sendMessageDirectly ?q l m = (l1, r)" using r by (simp add: oq_sendMessageDirectly_def)
    from send_carries [OF assms(1) _ Cons.prems(1) this] obtain T1 where
      "lk_transport l1 = Some T1" "obs T1 = (if r = None then obs T @ frame (Data m) else obs T)" by auto
    then show ?thesis
      using Cons.prems(2,3) frames_again [OF Cons.prems(3) km]
      by (intro exI [of _ T1] exI [of _ "if r = None then fs @ [(False, k, Data m)] else fs"]) simp
  qed
  then obtain T1 fs1 where l1: "lk_transport l1 = Some T1" "obs T1 = bs_written b @ frames_bytes fs1" "stream_frames p a (bs_repeat b) (bs_next b) fs1 n"
    "firsts fs1 = firsts fs" by blast
  from Cons.IH [OF l1(1-3) _ rest] Cons.prems(4) l1(4)
  obtain T' fs' where "lk_transport l2 = Some T'" "obs T' = bs_written b @ frames_bytes fs'" "stream_frames p a (bs_repeat b) (bs_next b) fs' n"
    "firsts fs' = firsts fs" "\<forall>(k, m) \<in> set es2. (k, Data m) \<in> bs_repeat b \<union> firsts fs" by auto
  then show ?case using Cons.prems(5) km by (auto simp: x one rest m1)
qed auto

lemma wired_cleanup: "wired e obs b q tr \<Longrightarrow> wired e obs b (cleanupExpiredMessages now q) tr"
  by (erule wired_fewer) (auto simp: cleanupExpiredMessages_def)

lemma wired_retries:
  assumes "carries e obs" "wired e obs b q (lk_transport l)" "retryTimedOutMessages now q l = (q', l')"
  shows "wired e obs b q' (lk_transport l')"
proof -
  obtain es l1 where r: "retry_entries now (sendCallback q) (sentMessages q) l = (es, l1)" by (metis surj_pair)
  obtain T fs where t: "lk_transport l = Some T" "obs T = bs_written b @ frames_bytes fs"
    "stream_frames (pb e) (lastAckedSeq q) (bs_repeat b) (bs_next b) fs (nextExpectedSeq q)"
    "\<forall>(k, m) \<in> set (sentMessages q). (k, Data m) \<in> bs_repeat b \<union> firsts fs"
    and cb: "sendCallback q \<in> {None, Some (oms_sendMessageDirectly e)}"
    using assms(2) by (auto simp: wired_def)
  have q': "q' = q\<lparr>sentMessages := es\<rparr>" "l' = l1"
    using assms(3) r by (simp_all add: retryTimedOutMessages_def)
  show ?thesis
    using wired_retry [OF assms(1) cb t r] assms(2) unfolding wired_def q' by fastforce
qed

section \<open>A session and the manager\<close>

text \<open>The messages of a session that were written and are not acknowledged.\<close>

definition unacked :: "'x session \<Rightarrow> (u64 \<times> bytes) set" where
  "unacked s = (case s_orderedQueue s of None \<Rightarrow> {} | Some q \<Rightarrow> (\<lambda>(k, m). (k, Data m)) ` set (sentMessages q))"

text \<open>The steps of a message through a session, each atomic by itself: the number is given out, the callback is set, the
  encoded message is handed to the queue under its lock; and the two halves of a round of the cleaning goroutine, which
  take the lock separately.\<close>

definition session_offer ::
  "u64 \<Rightarrow> server_push \<Rightarrow> bytes \<Rightarrow> time \<Rightarrow> metrics \<Rightarrow> 'x session \<Rightarrow> 'x session" where
  "session_offer n push d now ms s =
     (case s_orderedQueue s of None \<Rightarrow> s | Some q \<Rightarrow> fst (snd (session_Enqueue n push d now q s ms)))"

definition session_retry :: "time \<Rightarrow> metrics \<Rightarrow> 'x session \<Rightarrow> 'x session" where
  "session_retry now ms s =
     (case s_orderedQueue s of
        None \<Rightarrow> s
      | Some q \<Rightarrow> (case retryTimedOutMessages now q (session_link s ms) of (q', l) \<Rightarrow> (put_link l s)\<lparr>s_orderedQueue := Some q'\<rparr>))"


definition good :: "'x ext \<Rightarrow> ('x \<Rightarrow> bytes) \<Rightarrow> base \<Rightarrow> 'x session \<Rightarrow> bool" where
  "good e obs b s \<longleftrightarrow> (\<exists>q. s_orderedQueue s = Some q \<and> wired e obs b q (s_transport s))"

lemma good_same:
  "good e obs b s \<Longrightarrow> s_orderedQueue s' = s_orderedQueue s \<Longrightarrow> s_transport s' = s_transport s \<Longrightarrow> good e obs b s'"
  by (simp add: good_def)

lemma good_close: "carries e obs \<Longrightarrow> good e obs b s \<Longrightarrow> good e obs b (session_Close e s)"
  using wired_stop by (fastforce simp: good_def session_Close_def wired_def carries_def)

lemma good_hangup:
  "carries e obs \<Longrightarrow> good e obs b s \<Longrightarrow>
     good e obs b (s\<lparr>s_transport := map_option (\<lambda>t. conn_CloseWithError e 0 (stream_Close e t)) (s_transport s)\<rparr>)"
  by (fastforce simp: good_def wired_def carries_def)

lemma good_resync: "good e obs b s \<Longrightarrow> good e obs b (ResyncSessionSequence a s)"
  using wired_resync by (fastforce simp: good_def ResyncSessionSequence_def GetOrderedQueue_def)

lemma good_queue:
  assumes "good e obs b s" "\<And>q. wired e obs b q (s_transport s) \<Longrightarrow> wired e obs b (f q) (s_transport s)"
  shows "good e obs b (s\<lparr>s_orderedQueue := map_option f (s_orderedQueue s)\<rparr>)"
  using assms by (auto simp: good_def)

lemma good_retry:
  assumes "carries e obs" "good e obs b s"
  shows "good e obs b (session_retry now ms s)"
proof -
  obtain q where q: "s_orderedQueue s = Some q" "wired e obs b q (s_transport s)" using assms(2) by (auto simp: good_def)
  obtain q' l where r: "retryTimedOutMessages now q (session_link s ms) = (q', l)" by (metis surj_pair)
  have "wired e obs b q' (lk_transport l)"
    by (rule wired_retries [OF assms(1) _ r]) (simp add: q session_link_def)
  then show ?thesis by (simp add: session_retry_def q r good_def put_link_def)
qed

lemma good_enqueue:
  assumes "carries e obs" "good e obs b s" "numbered (pb e) n d"
  shows "good e obs b (session_offer n push d now ms s)"
proof -
  obtain q where q: "s_orderedQueue s = Some q" "wired e obs b q (s_transport s)" using assms(2) by (auto simp: good_def)
  obtain r q' l where en: "EnqueueMessage n push d now q (session_link s ms) = (r, q', l)" by (metis surj_pair)
  have "wired e obs b q' (lk_transport l)"
    by (rule wired_enqueue [OF assms(1) _ assms(3) en]) (simp add: q session_link_def)
  then show ?thesis by (simp add: session_offer_def session_Enqueue_def q en good_def put_link_def)
qed

text \<open>The frames can be read from any later moment on: what is repeated then was not acknowledged at that moment.\<close>

lemma good_rebase:
  assumes "good e obs b s"
  shows "\<exists>T q. s_transport s = Some T \<and> s_orderedQueue s = Some q \<and>
    good e obs \<lparr>bs_written = obs T, bs_next = nextExpectedSeq q, bs_repeat = unacked s\<rparr> s"
proof -
  obtain q T where q: "s_orderedQueue s = Some q" "wired e obs b q (Some T)" "s_transport s = Some T"
    using assms by (auto simp: good_def wired_def)
  have "wired e obs \<lparr>bs_written = obs T, bs_next = nextExpectedSeq q, bs_repeat = unacked s\<rparr> q (Some T)"
    using q(2) unfolding wired_def by (auto simp: unacked_def q(1) intro!: exI [of _ "[]"])
  then show ?thesis using q by (simp add: good_def)
qed

text \<open>A property of sessions that a change of the manager keeps for every session there is.\<close>

definition kept :: "('x session \<Rightarrow> bool) \<Rightarrow> 'x manager \<Rightarrow> 'x manager \<Rightarrow> bool" where
  "kept P m m' \<longleftrightarrow> length (m_store m) \<le> length (m_store m') \<and>
     (\<forall>r < length (m_store m). P (sess_at r m) \<longrightarrow> P (sess_at r m'))"

lemma kept_refl [simp]: "kept P m m"
  by (simp add: kept_def)

lemma kept_trans: "kept P m m1 \<Longrightarrow> kept P m1 m2 \<Longrightarrow> kept P m m2"
  by (auto simp: kept_def)

lemma kept_store: "m_store m1 = m_store m' \<Longrightarrow> kept P m m1 = kept P m m'" "m_store m1 = m_store m' \<Longrightarrow> kept P m1 m = kept P m' m"
  by (simp_all add: kept_def sess_at_def)

lemma kept_at: "(P (sess_at r m) \<Longrightarrow> P (f (sess_at r m))) \<Longrightarrow> kept P m (upd_sess r f m)"
  by (simp add: kept_def sess_at_def upd_sess_def) (metis nth_list_update_eq nth_list_update_neq)

lemma kept_upd: "(\<And>s. P s \<Longrightarrow> P (f s)) \<Longrightarrow> m_store m1 = m_store m \<Longrightarrow> kept P m (upd_sess r f m1)"
  using kept_at [of P r m1 f] kept_store(2) by blast

lemma kept_append: "m_store m' = m_store m1 @ [s] \<Longrightarrow> kept P m m1 \<Longrightarrow> kept P m m'"
  by (auto simp: kept_def sess_at_def nth_append)

lemma kept_fold: "(\<And>x m. kept P m (f x m)) \<Longrightarrow> kept P m (fold f xs m)"
  by (induction xs arbitrary: m) (auto intro: kept_trans)

section \<open>The steps\<close>

inductive wire_step :: "'x ext \<Rightarrow> 'x manager \<Rightarrow> 'x manager \<Rightarrow> bool" for e where
  w_create: "uuid \<notin> s_ID ` set (m_store m) \<Longrightarrow>
    CreateOrReconnectSession e uuid now t c u ip m = (r, rc, m') \<Longrightarrow> wire_step e m m'"
| w_number: "wire_step e m (upd_sess r (\<lambda>s. snd (NewServerSeq s)) m)"
| w_callback: "wire_step e m (upd_sess r (\<lambda>s. s\<lparr>s_orderedQueue := map_option (ensure_callback e) (s_orderedQueue s)\<rparr>) m)"
| w_enqueue: "numbered (pb e) n d \<Longrightarrow> wire_step e m (upd_sess r (session_offer n push d now ms) m)"
| w_cleanup: "wire_step e m (upd_sess r
    (\<lambda>s. s\<lparr>s_orderedQueue := map_option (cleanupExpiredMessages now) (s_orderedQueue s)\<rparr>) m)"
| w_retry: "wire_step e m (upd_sess r (session_retry now ms) m)"
| w_ack_number: "wire_step e m (upd_sess r (\<lambda>s. snd (UpdateAckServerSeq a s)) m)"
| w_ack_queue: "wire_step e m (upd_sess r
    (\<lambda>s. s\<lparr>s_orderedQueue := map_option (\<lambda>q. snd (oq_AckMessagesUpTo a q)) (s_orderedQueue s)\<rparr>) m)"
| w_ack: "wire_step e m (snd (m_AckMessagesUpTo sid a m))"
| w_resync: "wire_step e m (upd_sess r (ResyncSessionSequence a) m)"
| w_activate: "wire_step e m (snd (m_ActivateSession sid z m))"
| w_validate: "wire_step e m (snd (ValidateClientSequence sid n m))"
| w_bind: "r < length (m_store m) \<Longrightarrow> wire_step e m (snd (BindSession r m))"
| w_remove: "wire_step e m (RemoveSessionWithDelay e now sid delay m)"
| w_timer: "wire_step e m (fire_timer e now i m)"
| w_expire: "wire_step e m (cleanupExpiredSessions_round e now m)"
| w_stop: "wire_step e m (manager_Stop e m)"
| w_identity: "wire_step e m (upd_sess r (\<lambda>s. s\<lparr>s_OpenID := u, s_ClientID := c\<rparr>) m)"
| w_activity: "wire_step e m (upd_sess r (UpdateActivity now) m)"
| w_bind_before: "wire_step e m (upd_sess r (\<lambda>s. snd (AddNotifyBindBeforeRsp g note s)) m)"
| w_bind_after: "wire_step e m (upd_sess r (\<lambda>s. snd (AddNotifyBindAfterRsp g note s)) m)"
| w_take_before: "wire_step e m (upd_sess r
    (\<lambda>s. s\<lparr>s_orderingManager := map_option (\<lambda>o'. snd (GetAndRemoveBeforeNotifies g o')) (s_orderingManager s)\<rparr>) m)"
| w_take_after: "wire_step e m (upd_sess r
    (\<lambda>s. s\<lparr>s_orderingManager := map_option (\<lambda>o'. snd (GetAndRemoveAfterNotifies g o')) (s_orderingManager s)\<rparr>) m)"
| w_hangup: "wire_step e m (upd_sess r (\<lambda>s. s\<lparr>s_transport :=
    map_option (\<lambda>t. conn_CloseWithError e 0 (stream_Close e t)) (s_transport s)\<rparr>) m)"
| w_sync: "wire_step e m (EnableSync m)"

text \<open>Sending a message is at most three of these steps, between which any others may come.\<close>

lemma upd_upd:
  "upd_sess r (\<lambda>_. h (g (f (sess_at r m)))) m = upd_sess r h (upd_sess r g (upd_sess r f m))"
  using upd_sess_at [of r "\<lambda>s. h (g (f s))" m] by (simp add: upd_sess_comp)

lemma send_parts:
  assumes "EncodeServerPush (pb e) (push\<lparr>sp_SeqId := s_serverSeq s + 1\<rparr>) = Inr d"
  shows "fst (snd (SendOrderedMessage e now push s ms)) =
    session_offer (s_serverSeq s + 1) (push\<lparr>sp_SeqId := s_serverSeq s + 1\<rparr>) d now ms
      ((snd (NewServerSeq s))\<lparr>s_orderedQueue := map_option (ensure_callback e) (s_orderedQueue (snd (NewServerSeq s)))\<rparr>)"
proof (cases "s_orderedQueue s")
  case (Some q)
  let ?n = "s_serverSeq s + 1"
  let ?s2 = "s\<lparr>s_serverSeq := ?n, s_orderedQueue := Some (ensure_callback e q)\<rparr>"
  obtain r s2 ms2 where en: "session_Enqueue ?n (push\<lparr>sp_SeqId := ?n\<rparr>) d now (ensure_callback e q) ?s2 ms = (r, s2, ms2)"
    by (metis surj_pair)
  then show ?thesis
    using Some assms by (cases r) (simp_all add: SendOrderedMessage_def NewServerSeq_def GetOrderedQueue_def session_offer_def)
qed (use assms in \<open>simp add: SendOrderedMessage_def NewServerSeq_def GetOrderedQueue_def session_offer_def\<close>)

lemma send_steps: "(wire_step e)\<^sup>*\<^sup>* m (upd_sess r (\<lambda>_. fst (snd (SendOrderedMessage e now push (sess_at r m) ms))) m)"
proof -
  let ?num = "\<lambda>s. snd (NewServerSeq s)"
  let ?cb = "\<lambda>s. s\<lparr>s_orderedQueue := map_option (ensure_callback e) (s_orderedQueue s)\<rparr>"
  let ?s = "sess_at r m"
  let ?n = "s_serverSeq ?s + 1"
  let ?push = "push\<lparr>sp_SeqId := ?n\<rparr>"
  let ?m1 = "upd_sess r ?num m"
  let ?m2 = "upd_sess r ?cb ?m1"
  have m1: "wire_step e m ?m1" by (rule w_number)
  have m2: "wire_step e ?m1 ?m2" by (rule w_callback)
  show ?thesis
  proof (cases "EncodeServerPush (pb e) ?push")
    case (Inl x)
    then have "fst (snd (SendOrderedMessage e now push ?s ms)) = ?num ?s"
      by (simp add: SendOrderedMessage_def NewServerSeq_def)
    then show ?thesis using m1 upd_sess_at [of r ?num m] by simp
  next
    case (Inr d)
    let ?off = "session_offer ?n ?push d now ms"
    have "numbered (pb e) ?n d" using Inr unfolding numbered_def by (intro exI [of _ ?push]) simp
    then have m3: "wire_step e ?m2 (upd_sess r ?off ?m2)" by (rule w_enqueue)
    have "upd_sess r (\<lambda>_. fst (snd (SendOrderedMessage e now push ?s ms))) m = upd_sess r ?off ?m2"
      unfolding send_parts [OF Inr] by (rule upd_upd)
    moreover have "(wire_step e)\<^sup>*\<^sup>* m (upd_sess r ?off ?m2)"
      by (rule converse_rtranclp_into_rtranclp [where r = "wire_step e", OF m1],
        rule converse_rtranclp_into_rtranclp [where r = "wire_step e", OF m2],
        rule r_into_rtranclp [where r = "wire_step e", OF m3])
    ultimately show ?thesis by (simp only:)
  qed
qed

interpretation wire_steps: manager_steps e "wire_step e" for e
proof
  show "(wire_step e)\<^sup>*\<^sup>* m (upd_sess r (\<lambda>_. fst (snd (SendOrderedMessage e now push (sess_at r m) ms))) m)"
    for m r now push ms by (rule send_steps)
qed (rule w_create w_ack w_resync w_activate w_validate w_bind w_remove w_identity w_activity w_bind_before w_bind_after
  w_take_before w_take_after w_hangup; assumption?)+

text \<open>Every step keeps what the stream of a session carries.\<close>

lemma ack_good:
  assumes "carries e obs"
  shows "kept (good e obs b) m (snd (m_AckMessagesUpTo sid a m))"
proof (cases "GetSession sid m")
  case (Some r)
  let ?m1 = "upd_sess r (\<lambda>s. snd (UpdateAckServerSeq a s)) m"
  let ?f = "\<lambda>s. case s_orderedQueue s of None \<Rightarrow> s | Some q \<Rightarrow> s\<lparr>s_orderedQueue := Some (snd (oq_AckMessagesUpTo a q))\<rparr>"
  have k1: "kept (good e obs b) m ?m1" by (rule kept_upd) (auto simp: UpdateAckServerSeq_def intro: good_same)
  have "kept (good e obs b) ?m1 (upd_sess r ?f ?m1)"
    by (rule kept_upd) (use wired_ack in \<open>auto simp: good_def split: option.splits\<close>)
  then have k2: "kept (good e obs b) m (upd_sess r ?f ?m1)" using k1 kept_trans by blast
  show ?thesis
    using k1 k2 by (auto simp: m_AckMessagesUpTo_def Some Let_def GetOrderedQueue_def
        upd_sess_def sess_at_def split: option.split prod.split)
qed (simp add: m_AckMessagesUpTo_def)

lemma remove_good:
  assumes "carries e obs"
  shows "kept (good e obs b) m (immediateRemoveSession e sid m)"
    "kept (good e obs b) m (RemoveSessionWithDelay e now sid delay m)" "kept (good e obs b) m (fire_timer e now i m)"
proof -
  note c = kept_upd [of "good e obs b" "session_Close e", OF good_close [OF assms]]
  have i: "kept (good e obs b) m (immediateRemoveSession e sid m)" for m sid
    by (auto simp: immediateRemoveSession_def Let_def intro: c split: option.split)
  show "kept (good e obs b) m (immediateRemoveSession e sid m)" by (rule i)
  have s: "kept (good e obs b) m (upd_sess r (\<lambda>_. snd (SetClosed (sess_at r m))) m)" for r
    by (rule kept_at) (auto simp: SetClosed_def intro: good_same)
  have ts: "kept (good e obs b) m (m1\<lparr>m_timers := ts\<rparr>) = kept (good e obs b) m m1" for m1 ts by (rule kept_store) simp
  show "kept (good e obs b) m (RemoveSessionWithDelay e now sid delay m)"
    using s kept_trans [OF s i] by (auto simp: RemoveSessionWithDelay_def Let_def case_prod_beta ts split: option.split)
  have "kept (good e obs b) m (immediateRemoveSession e sid (m\<lparr>m_timers := ts\<rparr>))" for sid ts
    using i [of "m\<lparr>m_timers := ts\<rparr>" sid] kept_store(2) [of "m\<lparr>m_timers := ts\<rparr>" m] by simp
  then show "kept (good e obs b) m (fire_timer e now i m)"
    by (auto simp: fire_timer_def Let_def intro: c split: timer.split)
qed

lemma end_good:
  assumes "carries e obs"
  shows "kept (good e obs b) m (cleanupExpiredSessions_round e now m)" "kept (good e obs b) m (manager_Stop e m)"
proof -
  note c = kept_upd [of "good e obs b" "session_Close e", OF good_close [OF assms]]
  have "kept (good e obs b) m (expire_one e sid m)" for sid m
    by (auto simp: expire_one_def intro: c split: option.split)
  then show "kept (good e obs b) m (cleanupExpiredSessions_round e now m)"
    by (simp add: cleanupExpiredSessions_round_def removeExpiredSessions_def kept_fold)
  have "kept (good e obs b) m (fold (\<lambda>(_, r). upd_sess r (session_Close e)) xs m)" for xs :: "(string \<times> nat) list" and m
    by (rule kept_fold) (auto intro: c)
  from this [of "m\<lparr>m_stopped := True\<rparr>"] have "kept (good e obs b) m (fold (\<lambda>(_, r). upd_sess r (session_Close e)) xs (m\<lparr>m_stopped := True\<rparr>))"
    for xs :: "(string \<times> nat) list" using kept_store(2) [of "m\<lparr>m_stopped := True\<rparr>" m] by simp
  then show "kept (good e obs b) m (manager_Stop e m)"
    unfolding manager_Stop_def Let_def by (subst kept_store(1)) simp_all
qed

lemma create_keeps:
  assumes "CreateOrReconnectSession e uuid now t c u ip m = (r, rc, m')"
  shows "kept (good e obs b) m m'"
  using assms
proof (cases rule: create_cases)
  case fresh
  then show ?thesis by (intro kept_append [OF _ kept_refl]) simp
next
  case (again r0 m1 s)
  have "kept (good e obs b) m (upd_sess r0 (\<lambda>s. snd (SetClosed s)) m)"
    by (rule kept_upd) (auto simp: SetClosed_def intro: good_same)
  moreover have "m_store m1 = m_store (upd_sess r0 (\<lambda>s. snd (SetClosed s)) m)"
    by (simp add: again(7) handleOldSessionOnReconnectAtomic_def Let_def)
  ultimately have "kept (good e obs b) m m1" using kept_store(1) by blast
  moreover have "m_store m' = m_store m1 @ [s]" unfolding again(9) by simp
  ultimately show ?thesis using kept_append by blast
qed

lemma wire_step_good:
  assumes "carries e obs" "wire_step e m m'"
  shows "kept (good e obs b) m m'"
  using assms(2)
proof (cases rule: wire_step.cases)
  case (w_create uuid now t c u ip r rc)
  show ?thesis using w_create(2) by (rule create_keeps)
next
  case (w_number r)
  show ?thesis unfolding w_number by (rule kept_upd) (auto simp: NewServerSeq_def intro: good_same)
next
  case (w_callback r)
  show ?thesis unfolding w_callback by (rule kept_upd) (auto intro: good_queue wired_callback)
next
  case (w_enqueue n d r push now ms)
  show ?thesis unfolding w_enqueue(1) by (rule kept_upd) (simp_all add: good_enqueue [OF assms(1) _ w_enqueue(2)])
next
  case (w_cleanup r now)
  show ?thesis unfolding w_cleanup by (rule kept_upd) (auto intro: good_queue wired_cleanup)
next
  case (w_retry r now ms)
  show ?thesis unfolding w_retry by (rule kept_upd) (simp_all add: good_retry [OF assms(1)])
next
  case (w_ack_number r a)
  show ?thesis unfolding w_ack_number by (rule kept_upd) (auto simp: UpdateAckServerSeq_def intro: good_same)
next
  case (w_ack_queue r a)
  show ?thesis unfolding w_ack_queue by (rule kept_upd) (auto intro: good_queue wired_ack)
next
  case (w_ack sid a)
  then show ?thesis by (simp add: ack_good [OF assms(1)])
next
  case (w_resync r a)
  show ?thesis unfolding w_resync by (rule kept_upd) (simp_all add: good_resync)
next
  case (w_activate sid z)
  have "kept (good e obs b) m (upd_sess r (\<lambda>_. snd (session_ActivateSession z (sess_at r m))) m)" for r
    by (rule kept_at) (auto simp: session_ActivateSession_def intro: good_same)
  then show ?thesis unfolding w_activate
    by (auto simp: m_ActivateSession_def split: option.split prod.split bool.split) (metis snd_conv)+
next
  case (w_validate sid n)
  have "kept (good e obs b) m (upd_sess r (\<lambda>_. snd (ValidateClientSeq n (sess_at r m))) m)" for r
    by (rule kept_at) (auto simp: ValidateClientSeq_def Let_def intro: good_same)
  then show ?thesis unfolding w_validate by (auto simp: ValidateClientSequence_def case_prod_beta split: option.split)
next
  case (w_bind r)
  have "m_store (snd (BindSession r m)) = m_store m" by (simp add: BindSession_def Let_def split: option.split)
  then show ?thesis unfolding w_bind using kept_store(1) kept_refl by blast
next
  case w_sync
  have "m_store (EnableSync m) = m_store m" by (simp add: EnableSync_def)
  then show ?thesis unfolding w_sync using kept_store(1) kept_refl by blast
next
  case (w_hangup r)
  show ?thesis unfolding w_hangup by (rule kept_upd) (simp_all add: good_hangup [OF assms(1)])
qed (auto simp: UpdateActivity_def AddNotifyBindBeforeRsp_def AddNotifyBindAfterRsp_def remove_good [OF assms(1)]
    end_good [OF assms(1)] case_prod_beta intro!: kept_upd intro: good_same split: option.splits)

lemma wire_steps_good: "(wire_step e)\<^sup>*\<^sup>* m m' \<Longrightarrow> carries e obs \<Longrightarrow> kept (good e obs b) m m'"
  by (induction rule: rtranclp_induct) (auto intro: kept_trans wire_step_good)

text \<open>Sessions are never taken back.\<close>

lemma wire_step_len: "wire_step e m m' \<Longrightarrow> length (m_store m) \<le> length (m_store m')"
  by (erule wire_step.cases) (auto intro: mgr_step_len mgr_step.intros)

lemma wire_steps_len: "(wire_step e)\<^sup>*\<^sup>* m m' \<Longrightarrow> length (m_store m) \<le> length (m_store m')"
  by (induction rule: rtranclp_induct) (auto dest: wire_step_len)

section \<open>A whole connection\<close>

interpretation wire_rel: server_rel e "wire_step e" "\<lambda>sv sv1. (wire_step e)\<^sup>*\<^sup>* (sv_mgr sv) (sv_mgr sv1)" for e
  by unfold_locales (auto dest: wire_steps_len intro: rtranclp_trans)

text \<open>What happens during a remote call, and what other goroutines do, is made of such steps.\<close>

definition calls_by_wire :: "('x, 'c) env \<Rightarrow> bool" where
  "calls_by_wire ev \<longleftrightarrow>
     (\<forall>c req sv. (wire_step (ev_ext ev))\<^sup>*\<^sup>* (sv_mgr sv) (sv_mgr (snd (ev_invoke ev c req sv))))"

definition others_by_wire :: "'x ext \<Rightarrow> ('x, 'c) schedule \<Rightarrow> bool" where
  "others_by_wire e sc \<longleftrightarrow> (\<forall>i sv. (wire_step e)\<^sup>*\<^sup>* (sv_mgr sv) (sv_mgr (sc_others sc i sv)))"

lemma created_good:
  fixes e :: "'x ext"
  assumes "copier_law e" "mgr_inv m" "obs t = []" "CreateOrReconnectSession e uuid now t c u ip m = (r, rc, m')"
  shows "r = length (m_store m) \<and> (\<exists>J. good e obs \<lparr>bs_written = [], bs_next = 1, bs_repeat = J\<rparr> (sess_at r m') \<and> (J = {} \<or> (\<exists>r0 < r. J = unacked (sess_at r0 m))))"
  using assms(4)
proof (cases rule: create_cases)
  case fresh
  have "stream_frames (pb e) 0 {} 1 [] 1" by simp
  then have "good e obs \<lparr>bs_written = [], bs_next = 1, bs_repeat = {}\<rparr> (new_session uuid now t c u ip)"
    using assms(3) by (auto simp: good_def new_session_def wired_def NewOrderedMessageQueue_def intro!: exI [of _ "[]"])
  then show ?thesis using fresh by (auto simp: sess_at_def)
next
  case (again r0 m1 s)
  let ?old = "sess_at r0 m"
  have r0: "r0 < length (m_store m)" using mgr_inv_D(2) [OF assms(2)] again(4) by (auto dest: map_of_SomeD)
  then have "sess_ok ?old" using assms(2) by (auto simp: mgr_inv_def sess_at_def)
  then obtain qo where qo: "s_orderedQueue ?old = Some qo" "gm_ok (sentMessages qo)"
    by (auto simp: sess_ok_def queue_ok_def oq_inv_def sent_ok_def)
  have m1: "s_orderedQueue (sess_at r0 m1) = Some qo"
    using qo(1) r0 by (simp add: again(7) handleOldSessionOnReconnectAtomic_def Let_def upd_sess_def sess_at_def SetClosed_def)
  let ?q = "ResyncSequence (ClientAckServerSeq ?old) (NewOrderedMessageQueue uuid 1000 :: 'x link oqueue)"
  let ?sent = "copier_Copy e (sentMessages ?q) (sentMessages qo)"
  have "sentMessages ?q = []" by (simp add: ResyncSequence_def NewOrderedMessageQueue_def Let_def gm_drop_def)
  then have sent: "gm_ok ?sent" "gm_get ?sent k = gm_get (sentMessages qo) k" for k
    using assms(1) qo(2) by (auto simp: copier_law_def gm_ok_def split: option.split)
  have sub: "(k, m) \<in> set (sentMessages qo)" if "(k, m) \<in> set ?sent" for k m
    using that sent qo(2) by (simp add: gm_get_in)
  have s: "s_orderedQueue s = Some (?q\<lparr>sentMessages := ?sent\<rparr>)" "s_transport s = Some t"
    using qo(1) m1 by (simp_all add: again(8) copy_sent_def InheritFrom_def new_session_def SetSuccessor_def SetServerSeq_def
        SetZone_def SetState_def Let_def)
  have "wired e obs \<lparr>bs_written = [], bs_next = 1, bs_repeat = {}\<rparr> (NewOrderedMessageQueue uuid 1000) (Some t)"
    using assms(3) by (auto simp: wired_def NewOrderedMessageQueue_def intro!: exI [of _ "[]"])
  then have w: "wired e obs \<lparr>bs_written = [], bs_next = 1, bs_repeat = {}\<rparr> ?q (Some t)" by (rule wired_resync)
  have pos: "1 \<le> a \<Longrightarrow> 0 < a" for a :: u64 by unat_arith
  have "stream_frames (pb e) (lastAckedSeq ?q) (unacked ?old) 1 [] (nextExpectedSeq ?q)"
    using pos by (auto simp: hop_def ResyncSequence_def NewOrderedMessageQueue_def Let_def)
  moreover have "\<forall>(k, m) \<in> set ?sent. (k, Data m) \<in> unacked ?old" using sub by (force simp: unacked_def qo(1))
  ultimately have "good e obs \<lparr>bs_written = [], bs_next = 1, bs_repeat = unacked ?old\<rparr> s"
    using w assms(3) by (auto simp: good_def s wired_def intro!: exI [of _ "[]"])
  moreover have "sess_at r m' = s" "r = length (m_store m)"
    using again(1) by (simp_all add: again(9) sess_at_def nth_append again(7) handleOldSessionOnReconnectAtomic_def Let_def)
  ultimately show ?thesis using r0 by auto
qed

text \<open>What a session's stream carries from one state of the session to a later one: frames whose messages that are
  written for the first time go on with the number that was due, and whose repetitions were unacknowledged in the
  first state, or written since.\<close>

definition stream_grows :: "'x ext \<Rightarrow> ('x \<Rightarrow> bytes) \<Rightarrow> 'x session \<Rightarrow> 'x session \<Rightarrow> bool" where
  "stream_grows e obs s s' \<longleftrightarrow>
     (\<exists>T q T' q' fs. s_transport s = Some T \<and> s_orderedQueue s = Some q \<and> s_transport s' = Some T' \<and> s_orderedQueue s' = Some q' \<and>
        obs T' = obs T @ frames_bytes fs \<and>
        stream_frames (pb e) (lastAckedSeq q') (unacked s) (nextExpectedSeq q) fs (nextExpectedSeq q'))"

lemma good_grows:
  assumes "carries e obs" "good e obs b (sess_at r m)" "r < length (m_store m)" "(wire_step e)\<^sup>*\<^sup>* m m'"
  shows "stream_grows e obs (sess_at r m) (sess_at r m')"
proof -
  obtain T q where q: "s_transport (sess_at r m) = Some T" "s_orderedQueue (sess_at r m) = Some q"
    "good e obs \<lparr>bs_written = obs T, bs_next = nextExpectedSeq q, bs_repeat = unacked (sess_at r m)\<rparr> (sess_at r m)"
    using good_rebase [OF assms(2)] by blast
  then have "good e obs \<lparr>bs_written = obs T, bs_next = nextExpectedSeq q, bs_repeat = unacked (sess_at r m)\<rparr> (sess_at r m')"
    using wire_steps_good [OF assms(4,1)] assms(3) by (simp add: kept_def)
  then show ?thesis using q(1,2) by (auto simp: good_def wired_def stream_grows_def)
qed

lemma acked_gone:
  assumes "GetSession sid m = Some r" "r < length (m_store m)" "(k, d) \<in> unacked (sess_at r (snd (m_AckMessagesUpTo sid a m)))"
  shows "a < k"
proof (cases "s_orderedQueue (sess_at r m)")
  case None
  then show ?thesis
    using assms by (simp add: m_AckMessagesUpTo_def GetOrderedQueue_def sess_at_upd UpdateAckServerSeq_def unacked_def)
next
  case (Some q)
  then show ?thesis
    using assms by (auto simp: m_AckMessagesUpTo_def GetOrderedQueue_def sess_at_upd UpdateAckServerSeq_def unacked_def
        oq_AckMessagesUpTo_def Let_def split: if_splits)
qed

lemma connection_run:
  assumes "calls_by_wire ev" "others_by_wire (ev_ext ev) sc" "uuid \<notin> s_ID ` set (m_store (sv_mgr sv))"
    "handleConnection ev sc uuid ip (Inr (t, rd)) sv = Some sv'"
    "r = length (m_store (sv_mgr sv))" "r < length (m_store (sv_mgr sv'))"
  shows "\<exists>c u rc m1. CreateOrReconnectSession (ev_ext ev) uuid (sc_time sc 0) t c u ip (sv_mgr sv) = (r, rc, m1) \<and>
    r < length (m_store m1) \<and> (wire_step (ev_ext ev))\<^sup>*\<^sup>* m1 (sv_mgr sv')"
proof -
  have ok: "wire_rel.env_ok (ev_ext ev) ev" "wire_rel.sched_ok (ev_ext ev) sc"
    using assms(1,2) by (simp_all add: wire_rel.env_ok_def wire_rel.sched_ok_def calls_by_wire_def others_by_wire_def)
  obtain y rd1 sv1 where f: "handleFirstMessage ev (sc_time sc 0) uuid ip t rd sv = (y, rd1, sv1)" by (metis surj_pair)
  have "y = Inl x \<Longrightarrow> sv_mgr sv' = sv_mgr sv" for x
    using assms(4) f by (auto simp: handleConnection_def handleFirstMessage_def record_error_def split: sum.splits prod.splits)
  then obtain r1 d where y: "y = Inr (r1, d)" using assms(5,6) by (cases y) auto
  obtain c u rc where cr: "CreateOrReconnectSession (ev_ext ev) uuid (sc_time sc 0) t c u ip (sv_mgr sv) = (r1, rc, sv_mgr sv1)"
    using f y by (auto simp: handleFirstMessage_def split: sum.splits prod.splits)
  have "r1 = r" using cr assms(5) by (cases rule: create_cases) simp_all
  moreover have "r1 < length (m_store (sv_mgr sv1))" using wire_rel.R_first(2) [OF ok(1) f assms(3)] y by simp
  moreover obtain sv2 where "(wire_step (ev_ext ev))\<^sup>*\<^sup>* (sv_mgr sv1) (sv_mgr sv2)" "sv' = end_connection sv2"
    using wire_rel.R_connected [OF ok assms(3) f [unfolded y] assms(4)] by blast
  ultimately show ?thesis using cr by auto
qed

text \<open>C3. What the client of a connection receives, in whatever interleaving of the atomic steps of all goroutines
  (giving out a number, setting the callback, queueing under the lock, cleaning, retrying, acknowledging, timers, other
  connections): from its start, and from every moment of a run on, whole frames, of messages encoded with their
  numbers. The messages written for the first time have each the number one above the last, apart from numbers the
  client had itself acknowledged by then; a frame that repeats a message repeats one written since that moment, or one
  that was unacknowledged at that moment (for the start: in one earlier session, taken over). An acknowledgement leaves
  no message up to its number unacknowledged, so none of those written before is ever repeated after it. The connection
  itself is such a run. A failed write leaves nothing on the stream, an identifier is fresh, the copier copies maps. \<close>

theorem client_stream_order:
  assumes "carries (ev_ext ev) obs" "obs t = []" "copier_law (ev_ext ev)" "mgr_reach (ev_ext ev) (sv_mgr sv)"
    "calls_by_wire ev" "others_by_wire (ev_ext ev) sc" "uuid \<notin> s_ID ` set (m_store (sv_mgr sv))"
    "handleConnection ev sc uuid ip (Inr (t, rd)) sv = Some sv'"
    "r = length (m_store (sv_mgr sv))" "r < length (m_store (sv_mgr sv'))"
  shows "\<exists>c u rc m1. CreateOrReconnectSession (ev_ext ev) uuid (sc_time sc 0) t c u ip (sv_mgr sv) = (r, rc, m1) \<and>
    (wire_step (ev_ext ev))\<^sup>*\<^sup>* m1 (sv_mgr sv') \<and>
    (\<exists>J. (J = {} \<or> (\<exists>r0 < r. J = unacked (sess_of r0 sv))) \<and>
      (\<forall>m. (wire_step (ev_ext ev))\<^sup>*\<^sup>* m1 m \<longrightarrow>
        (\<exists>T q fs. s_transport (sess_at r m) = Some T \<and> s_orderedQueue (sess_at r m) = Some q \<and>
          obs T = frames_bytes fs \<and> stream_frames (pb (ev_ext ev)) (lastAckedSeq q) J 1 fs (nextExpectedSeq q)))) \<and>
    (\<forall>m m'. (wire_step (ev_ext ev))\<^sup>*\<^sup>* m1 m \<and> (wire_step (ev_ext ev))\<^sup>*\<^sup>* m m' \<longrightarrow>
      stream_grows (ev_ext ev) obs (sess_at r m) (sess_at r m')) \<and>
    (\<forall>m sid a k d. (wire_step (ev_ext ev))\<^sup>*\<^sup>* m1 m \<and> GetSession sid m = Some r \<and>
      (k, d) \<in> unacked (sess_at r (snd (m_AckMessagesUpTo sid a m))) \<longrightarrow> a < k)"
proof -
  obtain c u rc m1 where
    cr: "CreateOrReconnectSession (ev_ext ev) uuid (sc_time sc 0) t c u ip (sv_mgr sv) = (r, rc, m1)"
    and len: "r < length (m_store m1)" and run: "(wire_step (ev_ext ev))\<^sup>*\<^sup>* m1 (sv_mgr sv')"
    using connection_run [OF assms(5-10)] by blast
  obtain J where J: "good (ev_ext ev) obs \<lparr>bs_written = [], bs_next = 1, bs_repeat = J\<rparr> (sess_at r m1)"
    "J = {} \<or> (\<exists>r0 < r. J = unacked (sess_of r0 sv))"
    using created_good [where obs = obs, OF assms(3) mgr_inv_reach [OF assms(4,3)] assms(2) cr] by (auto simp: sess_of_def)
  have at: "good (ev_ext ev) obs \<lparr>bs_written = [], bs_next = 1, bs_repeat = J\<rparr> (sess_at r m)" "r < length (m_store m)"
    if "(wire_step (ev_ext ev))\<^sup>*\<^sup>* m1 m" for m
    using wire_steps_good [OF that assms(1)] wire_steps_len [OF that] J(1) len by (simp_all add: kept_def)
  have "\<forall>m. (wire_step (ev_ext ev))\<^sup>*\<^sup>* m1 m \<longrightarrow>
        (\<exists>T q fs. s_transport (sess_at r m) = Some T \<and> s_orderedQueue (sess_at r m) = Some q \<and>
          obs T = frames_bytes fs \<and> stream_frames (pb (ev_ext ev)) (lastAckedSeq q) J 1 fs (nextExpectedSeq q))"
    using at(1) by (fastforce simp: good_def wired_def)
  moreover have "\<forall>m m'. (wire_step (ev_ext ev))\<^sup>*\<^sup>* m1 m \<and> (wire_step (ev_ext ev))\<^sup>*\<^sup>* m m' \<longrightarrow>
      stream_grows (ev_ext ev) obs (sess_at r m) (sess_at r m')"
    using good_grows [OF assms(1) at] by blast
  moreover have "\<forall>m sid a k d. (wire_step (ev_ext ev))\<^sup>*\<^sup>* m1 m \<and> GetSession sid m = Some r \<and>
      (k, d) \<in> unacked (sess_at r (snd (m_AckMessagesUpTo sid a m))) \<longrightarrow> a < k"
    using acked_gone at(2) by blast
  ultimately show ?thesis using cr run J(2) by blast
qed

lemma gw_carries: "carries (ev_ext gw_env) (\<lambda>t. t)"
  by (auto simp: carries_def gw_env_def gw_ext_def toy_ext_def pipe_def)

theorem client_stream_order_witness:
  "\<exists>q fs. s_transport (sess_of 0 (the gw_after)) = Some (frames_bytes fs) \<and> s_orderedQueue (sess_of 0 (the gw_after)) = Some q \<and>
     nextExpectedSeq q = 4 \<and> stream_frames gw_pb (lastAckedSeq q) {} 1 fs (nextExpectedSeq q)"
proof -
  obtain sv' where sv': "gw_after = Some sv'" using gw_after_Some by blast
  have m: "mgr_reach (ev_ext gw_env) (sv_mgr gw_server)" "m_store (sv_mgr gw_server) = []"
    by (simp_all add: gw_server_mgr reach_New) (simp add: NewManager_def)
  have n: "map_option (\<lambda>sv. map_option nextExpectedSeq (s_orderedQueue (sess_of 0 sv))) gw_after = Some (Some 4)" by code_simp
  have len: "map_option (\<lambda>sv. length (m_store (sv_mgr sv))) gw_after = Some 1" by code_simp
  have ok: "calls_by_wire gw_env" "others_by_wire (ev_ext gw_env) gw_sched" "pb (ev_ext gw_env) = gw_pb"
    by (simp_all add: calls_by_wire_def others_by_wire_def gw_env_def gw_sched_def gw_ext_def)
  have cp: "copier_law (ev_ext gw_env)" using gw_copier gw_ok(3) by simp
  have l: "0 = length (m_store (sv_mgr gw_server))" "0 < length (m_store (sv_mgr sv'))"
    "''s1'' \<notin> s_ID ` set (m_store (sv_mgr gw_server))" using len m(2) by (simp_all add: sv')
  from client_stream_order [OF gw_carries refl cp m(1) ok(1,2) l(3) sv' [unfolded gw_after_def] l(1,2)]
  obtain T q fs where "s_transport (sess_of 0 sv') = Some T" "s_orderedQueue (sess_of 0 sv') = Some q" "T = frames_bytes fs"
    "stream_frames (pb (ev_ext gw_env)) (lastAckedSeq q) {} 1 fs (nextExpectedSeq q)"
    unfolding sess_of_def by (elim exE conjE) blast
  then show ?thesis using n ok(3) unfolding sv' by (intro exI [of _ q] exI [of _ fs]) simp
qed

end
