(* ===== verification/Backup_Data.thy ===== *)
theory Backup_Data
  imports Session_Manager
begin

text \<open>
  \<open>internal/backup/types.go\<close> and \<open>data_validator.go\<close>: what the primary sends to the backup server, the
  checks of the receiver and the checksum.

  Pointers that may be nil are options; \<open>int32\<close> and \<open>int64\<close> fields are \<open>int\<close>, the sequence numbers are
  64-bit words. Strings are byte strings, so the bytes of a Go string are its characters. The
  checksum is the CRC-32 of \<open>hash/crc32\<close> with the IEEE polynomial, one bit at a time where the library
  looks eight bits up in a table. Its second part proves what the checksum detects.
\<close>

section \<open>Types\<close>

datatype sync_type =
  SyncTypeCreateSession | SyncTypeUpdateSession | SyncTypeDeleteSession | SyncTypeSyncQueue
| SyncTypeSyncMessages | SyncTypeHeartbeat | SyncTypeFullSync | SyncTypeOther int

datatype server_mode = ModePrimary | ModeBackup | ModeOther int

record queue_meta =
  NextExpectedSeq :: u64
  LastSentSeq :: u64
  LastAckedSeq :: u64
  PendingCount :: int
  QueueSize :: int

record session_sync =
  sd_SessionID :: string
  sd_OpenID :: string
  sd_ClientID :: string
  sd_AccessToken :: string
  sd_UserIP :: string
  sd_State :: int
  sd_Gid :: int
  sd_Zone :: int
  sd_ServerSeq :: u64
  sd_MaxClientSeq :: u64
  sd_CreateTime :: time
  sd_LastActivity :: time
  sd_QueueMeta :: "queue_meta option"
  sd_PendingMsgs :: "omsg option list"

record heartbeat_data =
  hd_ServerID :: string
  hd_Mode :: server_mode
  hd_Timestamp :: int
  hd_SessionCount :: int
  hd_QueueCount :: int
  hd_IsHealthy :: bool
  hd_LastSyncTime :: int

record full_sync =
  fs_ServerID :: string
  fs_Timestamp :: int
  fs_Sessions :: "session_sync option list"
  fs_TotalCount :: int
  fs_BatchIndex :: int
  fs_TotalBatches :: int

text \<open>The payload of a message: a Go value of the sender.\<close>

datatype sync_data =
  NoData
| SessionData session_sync
| QueueData queue_meta
| MessagesData "omsg option list"
| HeartbeatData heartbeat_data

record 'd sync_message =
  sm_Type :: sync_type
  sm_SessionID :: string
  sm_Timestamp :: int
  sm_Data :: 'd
  sm_Checksum :: u32

record sync_config =
  sc_Enabled :: bool
  sc_Mode :: server_mode
  sc_PeerAddr :: string
  sc_HeartbeatInterval :: duration
  sc_SyncBatchSize :: int
  sc_SyncTimeout :: duration
  sc_ReadOnly :: bool
  sc_BufferSize :: int

record failover_config =
  fc_DetectionTimeout :: duration
  fc_SwitchTimeout :: duration
  fc_RecoveryTimeout :: duration
  fc_MaxRetries :: int

record backup_config =
  bc_Sync :: sync_config
  bc_Failover :: failover_config
  bc_HeartbeatAddr :: string
  bc_SyncAddr :: string

record sync_stats =
  SentCount :: int
  ReceivedCount :: int
  ErrorCount :: int
  LastSyncTime :: time
  AvgLatency :: duration
  st_IsConnected :: bool

text \<open>The zero value of \<open>time.Time\<close>: the first second of the year 1.\<close>

definition ZeroTime :: time where "ZeroTime = - 62135596800 * Second"

definition zero_stats :: sync_stats where
  "zero_stats = \<lparr>SentCount = 0, ReceivedCount = 0, ErrorCount = 0, LastSyncTime = ZeroTime, AvgLatency = 0,
     st_IsConnected = False\<rparr>"

section \<open>Errors\<close>

datatype backup_error =
  BExternal err                      \<comment> \<open>of the network, the JSON library or the listener\<close>
| BWrap string backup_error          \<comment> \<open>\<open>fmt.Errorf("...: %w", err)\<close>, named by its place\<close>
| BNil string                        \<comment> \<open>the named value is nil\<close>
| BEmpty string                      \<comment> \<open>the named field must be set\<close>
| BInvalid string int                \<comment> \<open>the named field has a value out of range\<close>
| BSeqWithoutServer
| BAckAhead u64 u64
| BPendingGap int u64
| BMessage nat backup_error          \<comment> \<open>the message or session at an index\<close>
| BDuplicate u64
| BBatch int int
| BNotConnected
| BBufferFull
| BTooLarge nat
| BChecksum
| BAlready server_mode
| BDisabled
| BNotPrimary
| BNoManager
| BNoFailover
| BNoSync

section \<open>Validation\<close>

definition ValidateQueue :: "queue_meta option \<Rightarrow> backup_error option" where
  "ValidateQueue meta =
     (case meta of
        None \<Rightarrow> Some (BNil ''QueueMeta'')
      | Some m \<Rightarrow>
          if LastSentSeq m < LastAckedSeq m then Some (BAckAhead (LastAckedSeq m) (LastSentSeq m))
          else if NextExpectedSeq m = 0 then Some (BEmpty ''NextExpectedSeq'')
          else if PendingCount m < 0 then Some (BInvalid ''PendingCount'' (PendingCount m))
          else if QueueSize m < 0 then Some (BInvalid ''QueueSize'' (QueueSize m))
          else
            let expectedPending = LastSentSeq m - LastAckedSeq m in
            if sint (expectedPending + 10) < PendingCount m then Some (BPendingGap (PendingCount m) expectedPending)
            else None)"

text \<open>One turn of the loop of \<open>ValidateMessages\<close>: the numbers seen so far, or the error.\<close>

definition validate_message :: "u64 list \<Rightarrow> omsg option \<Rightarrow> backup_error + u64 list" where
  "validate_message seqNumbers msg =
     (case msg of
        None \<Rightarrow> Inl (BNil ''msg'')
      | Some m \<Rightarrow>
          if ServerSeq m = 0 then Inl (BEmpty ''ServerSeq'')
          else if ServerSeq m \<in> set seqNumbers then Inl (BDuplicate (ServerSeq m))
          else if Timestamp m = ZeroTime then Inl (BEmpty ''Timestamp'')
          else if Retries m < 0 then Inl (BInvalid ''Retries'' (Retries m))
          else if Data m = [] then Inl (BEmpty ''Data'')
          else if 1024 * 1024 < length (Data m) then Inl (BTooLarge (length (Data m)))
          else Inr (ServerSeq m # seqNumbers))"

fun validate_loop :: "nat \<Rightarrow> u64 list \<Rightarrow> omsg option list \<Rightarrow> backup_error option" where
  "validate_loop i seqNumbers [] = None"
| "validate_loop i seqNumbers (msg # msgs) =
     (case validate_message seqNumbers msg of
        Inl e \<Rightarrow> Some (BMessage i e)
      | Inr seen \<Rightarrow> validate_loop (Suc i) seen msgs)"

definition ValidateMessages :: "omsg option list \<Rightarrow> backup_error option" where
  "ValidateMessages msgs = validate_loop 0 [] msgs"

definition ValidateSession :: "session_sync option \<Rightarrow> backup_error option" where
  "ValidateSession data =
     (case data of
        None \<Rightarrow> Some (BNil ''SessionSyncData'')
      | Some d \<Rightarrow>
          if sd_SessionID d = [] then Some (BEmpty ''SessionID'')
          else if sd_OpenID d = [] then Some (BEmpty ''OpenID'')
          else if sd_State d < 0 \<or> 3 < sd_State d then Some (BInvalid ''State'' (sd_State d))
          else if sd_CreateTime d = ZeroTime then Some (BEmpty ''CreateTime'')
          else if sd_LastActivity d = ZeroTime then Some (BEmpty ''LastActivity'')
          else if 0 < sd_MaxClientSeq d \<and> sd_ServerSeq d = 0 then Some BSeqWithoutServer
          else (case (if sd_QueueMeta d = None then None else ValidateQueue (sd_QueueMeta d)) of
                  Some e \<Rightarrow> Some (BWrap ''ValidateSession: queue'' e)
                | None \<Rightarrow> map_option (BWrap ''ValidateSession: messages'') (ValidateMessages (sd_PendingMsgs d))))"

definition ValidateHeartbeat :: "heartbeat_data option \<Rightarrow> backup_error option" where
  "ValidateHeartbeat data =
     (case data of
        None \<Rightarrow> Some (BNil ''HeartbeatData'')
      | Some d \<Rightarrow>
          if hd_ServerID d = [] then Some (BEmpty ''ServerID'')
          else if hd_Timestamp d \<le> 0 then Some (BInvalid ''Timestamp'' (hd_Timestamp d))
          else if hd_Mode d \<noteq> ModePrimary \<and> hd_Mode d \<noteq> ModeBackup then Some (BEmpty ''Mode'')
          else if hd_SessionCount d < 0 then Some (BInvalid ''SessionCount'' (hd_SessionCount d))
          else if hd_QueueCount d < 0 then Some (BInvalid ''QueueCount'' (hd_QueueCount d))
          else None)"

fun validate_sessions :: "nat \<Rightarrow> session_sync option list \<Rightarrow> backup_error option" where
  "validate_sessions i [] = None"
| "validate_sessions i (d # ds) =
     (case ValidateSession d of Some e \<Rightarrow> Some (BMessage i e) | None \<Rightarrow> validate_sessions (Suc i) ds)"

definition ValidateFullSync :: "full_sync option \<Rightarrow> backup_error option" where
  "ValidateFullSync data =
     (case data of
        None \<Rightarrow> Some (BNil ''FullSyncData'')
      | Some d \<Rightarrow>
          if fs_ServerID d = [] then Some (BEmpty ''ServerID'')
          else if fs_Timestamp d \<le> 0 then Some (BInvalid ''Timestamp'' (fs_Timestamp d))
          else if fs_TotalBatches d \<le> 0 then Some (BInvalid ''TotalBatches'' (fs_TotalBatches d))
          else if fs_BatchIndex d < 0 \<or> fs_TotalBatches d \<le> fs_BatchIndex d then
            Some (BBatch (fs_BatchIndex d) (fs_TotalBatches d))
          else if fs_TotalCount d < 0 then Some (BInvalid ''TotalCount'' (fs_TotalCount d))
          else if 1000 < length (fs_Sessions d) then Some (BTooLarge (length (fs_Sessions d)))
          else validate_sessions 0 (fs_Sessions d))"

definition ValidateSyncMessage :: "'d sync_message option \<Rightarrow> backup_error option" where
  "ValidateSyncMessage msg =
     (case msg of
        None \<Rightarrow> Some (BNil ''SyncMessage'')
      | Some m \<Rightarrow>
          (case sm_Type m of
             SyncTypeOther n \<Rightarrow> Some (BInvalid ''Type'' n)
           | t \<Rightarrow>
               if sm_Timestamp m \<le> 0 then Some (BInvalid ''Timestamp'' (sm_Timestamp m))
               else if t \<noteq> SyncTypeHeartbeat \<and> t \<noteq> SyncTypeFullSync \<and> sm_SessionID m = [] then
                 Some (BEmpty ''SessionID'')
               else None))"

section \<open>Checksum\<close>

text \<open>\<open>strconv\<close>'s decimal numerals, as \<open>%d\<close> prints them.\<close>

fun show_nat :: "nat \<Rightarrow> string" where
  "show_nat n = (if n < 10 then [char_of (48 + n)] else show_nat (n div 10) @ [char_of (48 + n mod 10)])"

declare show_nat.simps [simp del]

definition show_int :: "int \<Rightarrow> string" where
  "show_int i = (if i < 0 then ''-'' @ show_nat (nat (- i)) else show_nat (nat i))"

definition string_bytes :: "string \<Rightarrow> bytes" where
  "string_bytes s = map of_char s"

text \<open>\<open>hash/crc32\<close>: one bit, one byte, and the checksum of a byte slice.\<close>

definition crc_bit :: "u32 \<Rightarrow> u32" where
  "crc_bit c = (if bit c 0 then xor (drop_bit 1 c) 0xEDB88320 else drop_bit 1 c)"

definition crc_byte :: "u32 \<Rightarrow> byte \<Rightarrow> u32" where
  "crc_byte c b = (crc_bit ^^ 8) (xor c (ucast b))"

definition crc32 :: "bytes \<Rightarrow> u32" where
  "crc32 bs = not (foldl crc_byte (not 0) bs)"

text \<open>
  The texts of which \<open>CalculateChecksum\<close> takes the checksum, for the three kinds of data the program
  gives it; \<open>OtherData\<close> stands for any other value by its \<open>%v\<close> text.
\<close>

datatype checked =
  CheckSession session_sync | CheckQueue queue_meta | CheckMessages "omsg option list" | OtherData string

fun checksum_key :: "checked \<Rightarrow> string" where
  "checksum_key (CheckSession d) =
     sd_SessionID d @ ''|'' @ sd_OpenID d @ ''|'' @ show_int (sd_State d) @ ''|'' @ show_int (sd_Gid d) @ ''|'' @
     show_int (uint (sd_ServerSeq d))"
| "checksum_key (CheckQueue m) =
     show_int (uint (NextExpectedSeq m)) @ ''|'' @ show_int (uint (LastSentSeq m)) @ ''|'' @
     show_int (uint (LastAckedSeq m)) @ ''|'' @ show_int (PendingCount m)"
| "checksum_key (CheckMessages ms) =
     concat (map (\<lambda>m. case m of None \<Rightarrow> [] | Some x \<Rightarrow> show_int (uint (ServerSeq x)) @ ''|'') ms)"
| "checksum_key (OtherData s) = s"

definition CalculateChecksum :: "checked \<Rightarrow> u32" where
  "CalculateChecksum d = crc32 (string_bytes (checksum_key d))"

definition VerifyChecksum :: "checked \<Rightarrow> u32 \<Rightarrow> bool" where
  "VerifyChecksum d c \<longleftrightarrow> CalculateChecksum d = c"

section \<open>What the checksum detects\<close>

lemma crc_bit_xor: "crc_bit (xor a b) = xor (crc_bit a) (crc_bit b)"
  by (rule bit_word_eqI) (auto simp: crc_bit_def bit_simps)

lemma crc_bit_0: "crc_bit c = 0 \<Longrightarrow> c = 0"
proof (rule bit_word_eqI)
  fix n assume z: "crc_bit c = 0" and n: "n < LENGTH(32)"
  have top: "bit (0xEDB88320 :: u32) 31" by simp
  have "bit (crc_bit c) 31 = bit c 0" using top by (auto simp: crc_bit_def bit_simps dest: bit_imp_le_length)
  then have c0: "\<not> bit c 0" using z by simp
  then have "bit c (Suc m) = bit (crc_bit c) m" for m by (simp add: crc_bit_def bit_simps)
  then show "bit c n = bit (0 :: u32) n" using c0 z by (cases n) simp_all
qed

lemma inj_if_linear:
  fixes f :: "u32 \<Rightarrow> u32"
  assumes "\<And>a b. f (xor a b) = xor (f a) (f b)" "\<And>c. f c = 0 \<Longrightarrow> c = 0"
  shows "inj f"
proof (rule injI)
  fix a b assume "f a = f b"
  then have "f (xor a b) = 0" by (simp add: assms(1))
  then have "xor a b = 0" by (rule assms(2))
  then have "xor (xor a b) b = xor 0 b" by simp
  then show "a = b" by (simp add: xor.assoc)
qed

lemma crc_bits_xor: "(crc_bit ^^ n) (xor a b) = xor ((crc_bit ^^ n) a) ((crc_bit ^^ n) b)"
  by (induction n) (simp_all add: crc_bit_xor)

lemma inj_crc_bits: "inj (crc_bit ^^ n)"
  using inj_if_linear [of crc_bit] crc_bit_xor crc_bit_0 by (simp add: inj_fn)

lemma crc_bit_push: "\<not> bit c 31 \<Longrightarrow> crc_bit (push_bit (Suc 0) c) = c"
proof (rule bit_word_eqI)
  fix n assume "\<not> bit c 31" "n < LENGTH(32)"
  then show "bit (crc_bit (push_bit (Suc 0) c)) n = bit c n"
    by (cases "n = 31") (auto simp: crc_bit_def bit_simps simp del: push_bit_Suc)
qed

lemma crc_bits_push: "(\<And>i. bit c i \<Longrightarrow> i + n < 32) \<Longrightarrow> (crc_bit ^^ n) (push_bit n c) = c"
proof (induction n)
  case (Suc n)
  have "crc_bit (push_bit (Suc 0) (push_bit n c)) = push_bit n c"
    by (rule crc_bit_push) (use Suc.prems [of "31 - n"] in \<open>auto simp: bit_simps simp del: push_bit_Suc\<close>)
  then have "(crc_bit ^^ Suc n) (push_bit (Suc n) c) = (crc_bit ^^ n) (push_bit n c)"
    by (simp add: funpow_swap1 push_bit_push_bit del: push_bit_Suc)
  also have "\<dots> = c" by (rule Suc.IH) (use Suc.prems in fastforce)
  finally show ?case .
qed simp

text \<open>The first bytes of a text, least significant first, in one word.\<close>

fun pack :: "bytes \<Rightarrow> u32" where
  "pack [] = 0"
| "pack (b # bs) = xor (ucast b) (push_bit 8 (pack bs))"

lemma bit_pack: "bit (pack bs) i \<Longrightarrow> i < 8 * length bs"
proof (induction bs arbitrary: i)
  case (Cons b bs)
  have "bit b i \<or> 8 \<le> i \<and> bit (pack bs) (i - 8)" using Cons.prems by (auto simp: bit_simps)
  then show ?case
  proof
    assume "bit b i"
    then have "i < 8" using bit_imp_le_length [of b i] by simp
    then show ?thesis by simp
  next
    assume "8 \<le> i \<and> bit (pack bs) (i - 8)"
    then show ?thesis using Cons.IH [of "i - 8"] by simp
  qed
qed simp

lemma pack_drop: "length bs \<le> 3 \<Longrightarrow> drop_bit 8 (pack (b # bs)) = pack bs"
  by (rule bit_word_eqI) (auto simp: bit_simps dest: bit_imp_le_length bit_pack)

lemma pack_low: "ucast (pack (b # bs)) = b"
  by (rule bit_word_eqI) (auto simp: bit_simps)

lemma pack_inj: "length as = length bs \<Longrightarrow> length bs \<le> 4 \<Longrightarrow> pack as = pack bs \<Longrightarrow> as = bs"
proof (induction as bs rule: list_induct2)
  case (Cons a as b bs)
  have "pack as = pack bs"
    using pack_drop [of as a] pack_drop [of bs b] Cons.prems Cons.hyps by (simp del: pack.simps)
  moreover have "a = b" using pack_low [of a as] pack_low [of b bs] Cons.prems(2) by (simp del: pack.simps)
  ultimately show ?case using Cons by simp
qed simp

lemma crc_pack: "length bs \<le> 4 \<Longrightarrow> foldl crc_byte c bs = ((crc_bit ^^ 8) ^^ length bs) (xor c (pack bs))"
proof (induction bs arbitrary: c)
  case (Cons b bs)
  have "(crc_bit ^^ 8) (push_bit 8 (pack bs)) = pack bs"
    by (rule crc_bits_push) (use Cons.prems in \<open>auto dest: bit_pack\<close>)
  then have "xor (crc_byte c b) (pack bs) = (crc_bit ^^ 8) (xor c (pack (b # bs)))"
    by (simp add: crc_byte_def crc_bits_xor ac_simps)
  then show ?case using Cons by (simp add: funpow_swap1)
qed simp

lemma crc_byte_inj: "crc_byte c b = crc_byte c' b \<Longrightarrow> c = c'"
  unfolding crc_byte_def by (drule inj_crc_bits [THEN injD]) (metis bit.xor_left_self xor.commute)

lemma crc_suffix: "foldl crc_byte c bs = foldl crc_byte c' bs \<Longrightarrow> c = c'"
  by (induction bs arbitrary: c c') (auto dest: crc_byte_inj)

lemma crc32_burst:
  assumes "length as = length bs" "length bs \<le> 4" "crc32 (pre @ as @ suf) = crc32 (pre @ bs @ suf)"
  shows "as = bs"
proof -
  let ?c = "foldl crc_byte (not 0) pre"
  have "foldl crc_byte (foldl crc_byte ?c as) suf = foldl crc_byte (foldl crc_byte ?c bs) suf"
    using assms(3) by (simp add: crc32_def)
  then have "foldl crc_byte ?c as = foldl crc_byte ?c bs" by (rule crc_suffix)
  then have "((crc_bit ^^ 8) ^^ length bs) (xor ?c (pack as)) = ((crc_bit ^^ 8) ^^ length bs) (xor ?c (pack bs))"
    using assms(1,2) by (simp add: crc_pack)
  then have "xor ?c (pack as) = xor ?c (pack bs)"
    using inj_fn [OF inj_crc_bits [of 8], of "length bs"] by (simp add: inj_eq)
  then have "pack as = pack bs" by (metis bit.xor_left_self)
  then show ?thesis using pack_inj assms(1,2) by simp
qed

text \<open>The CRC-32 of the letter a, from the published table.\<close>

lemma crc32_a: "crc32 [97] = 0xE8B7BE43"
  by code_simp

lemma inj_of_char: "inj (of_char :: char \<Rightarrow> byte)"
proof (rule injI)
  fix a b :: char assume "(of_char a :: byte) = of_char b"
  then have "(of_nat (of_char a) :: byte) = of_nat (of_char b)" by (simp add: of_nat_of_char)
  then have "(of_char a :: nat) mod 256 = of_char b mod 256" by (simp add: unsigned_of_nat take_bit_nat_def word_of_nat_eq_iff)
  then have "(of_char a :: nat) = of_char b" by (simp add: of_char_mod_256)
  then show "a = b" by simp
qed

text \<open>The checksum detects every corruption of up to four neighbouring characters of the text it covers:
  data whose text differs from the sender's in such a stretch is refused by the receiver. \<close>

theorem checksum_detects:
  assumes "checksum_key a = pre @ as @ suf" "checksum_key b = pre @ bs @ suf"
    "length as = length bs" "length bs \<le> 4" "as \<noteq> bs"
  shows "\<not> VerifyChecksum b (CalculateChecksum a)"
proof
  assume "VerifyChecksum b (CalculateChecksum a)"
  then have "crc32 (string_bytes pre @ string_bytes as @ string_bytes suf) =
      crc32 (string_bytes pre @ string_bytes bs @ string_bytes suf)"
    using assms(1,2) by (simp add: VerifyChecksum_def CalculateChecksum_def string_bytes_def)
  then have "string_bytes as = string_bytes bs"
    by (rule crc32_burst [rotated 2]) (use assms(3,4) in \<open>simp_all add: string_bytes_def\<close>)
  then have "as = bs" by (simp add: string_bytes_def inj_map_eq_map inj_of_char)
  then show False using assms(5) by simp
qed

text \<open>What the text does not cover goes unnoticed: the zone and the client of a session, the content of a message.\<close>

lemma checksum_blind:
  "CalculateChecksum (CheckSession (d\<lparr>sd_Zone := z, sd_ClientID := c, sd_MaxClientSeq := n\<rparr>)) = CalculateChecksum (CheckSession d)"
  "CalculateChecksum (CheckMessages [Some (x\<lparr>Data := bs\<rparr>)]) = CalculateChecksum (CheckMessages [Some x])"
  by (simp_all add: CalculateChecksum_def)

definition some_sync :: "u64 \<Rightarrow> session_sync" where
  "some_sync n = \<lparr>sd_SessionID = ''s1'', sd_OpenID = ''ann'', sd_ClientID = ''c'', sd_AccessToken = [], sd_UserIP = [],
     sd_State = 1, sd_Gid = 0, sd_Zone = 7, sd_ServerSeq = n, sd_MaxClientSeq = 3, sd_CreateTime = 1,
     sd_LastActivity = 2, sd_QueueMeta = None, sd_PendingMsgs = []\<rparr>"

theorem checksum_detects_witness:
  "\<not> VerifyChecksum (CheckSession (some_sync 52)) (CalculateChecksum (CheckSession (some_sync 51)))"
  by (rule checksum_detects [where pre = "''s1|ann|1|0|5''" and as = "''1''" and bs = "''2''" and suf = "[]"])
    (simp_all add: some_sync_def show_int_def show_nat.simps char_of_def bit_Suc_0_iff)

section \<open>What the validator accepts\<close>

definition message_fine :: "omsg option \<Rightarrow> bool" where
  "message_fine m \<longleftrightarrow> (\<exists>x. m = Some x \<and> ServerSeq x \<noteq> 0 \<and> Timestamp x \<noteq> ZeroTime \<and> 0 \<le> Retries x \<and>
     Data x \<noteq> [] \<and> length (Data x) \<le> 1024 * 1024)"

definition seq_of :: "omsg option \<Rightarrow> u64" where
  "seq_of m = (case m of None \<Rightarrow> 0 | Some x \<Rightarrow> ServerSeq x)"

lemma validate_message_ok:
  "validate_message seen m = Inr seen' \<longleftrightarrow> message_fine m \<and> seq_of m \<notin> set seen \<and> seen' = seq_of m # seen"
  by (auto simp: validate_message_def message_fine_def seq_of_def split: option.splits)

lemma validate_loop_ok:
  "validate_loop i seen ms = None \<longleftrightarrow>
     (\<forall>m \<in> set ms. message_fine m) \<and> distinct (map seq_of ms) \<and> set (map seq_of ms) \<inter> set seen = {}"
proof (induction ms arbitrary: i seen)
  case (Cons m ms)
  show ?case
  proof (cases "validate_message seen m")
    case (Inl e)
    then have "\<not> (message_fine m \<and> seq_of m \<notin> set seen)" using validate_message_ok [of seen m] by fastforce
    then show ?thesis using Inl by auto
  next
    case (Inr seen')
    then have v: "validate_loop i seen (m # ms) = validate_loop (Suc i) seen' ms" by simp
    from Inr have m: "message_fine m" "seq_of m \<notin> set seen" "seen' = seq_of m # seen" by (simp_all add: validate_message_ok)
    show ?thesis unfolding v Cons.IH using m by auto
  qed
qed simp

definition queue_fine :: "queue_meta \<Rightarrow> bool" where
  "queue_fine m \<longleftrightarrow> LastAckedSeq m \<le> LastSentSeq m \<and> NextExpectedSeq m \<noteq> 0 \<and> 0 \<le> PendingCount m \<and> 0 \<le> QueueSize m \<and>
     PendingCount m \<le> sint (LastSentSeq m - LastAckedSeq m + 10)"

lemma ValidateQueue_ok: "ValidateQueue m = None \<longleftrightarrow> (\<exists>q. m = Some q \<and> queue_fine q)"
  by (auto simp: ValidateQueue_def queue_fine_def not_less Let_def split: option.splits if_splits)

text \<open>C37. The receiver's validation accepts exactly the session data that is named, of a known state, dated,
  numbered by the server once the client is, with a consistent queue and with complete, distinctly
  numbered messages. \<close>

theorem validation_exact:
  "ValidateSession (Some d) = None \<longleftrightarrow>
     sd_SessionID d \<noteq> [] \<and> sd_OpenID d \<noteq> [] \<and> sd_State d \<in> {0, 1, 2, 3} \<and> sd_CreateTime d \<noteq> ZeroTime \<and>
     sd_LastActivity d \<noteq> ZeroTime \<and> (sd_MaxClientSeq d = 0 \<or> sd_ServerSeq d \<noteq> 0) \<and>
     (\<forall>q. sd_QueueMeta d = Some q \<longrightarrow> queue_fine q) \<and>
     (\<forall>m \<in> set (sd_PendingMsgs d). message_fine m) \<and> distinct (map seq_of (sd_PendingMsgs d))"
proof -
  have st: "\<not> (s < 0 \<or> 3 < s) \<longleftrightarrow> s \<in> {0, 1, 2, 3}" for s :: int by auto
  have seq: "\<not> (0 < c \<and> n = 0) \<longleftrightarrow> c = 0 \<or> n \<noteq> 0" for c n :: u64 by (auto simp: word_gt_0)
  have q: "(if m = None then None else ValidateQueue m) = None \<longleftrightarrow> (\<forall>q. m = Some q \<longrightarrow> queue_fine q)" for m
    using ValidateQueue_ok [of m] by (cases m) simp_all
  have guard: "(if b then Some e else x) = None \<longleftrightarrow> \<not> b \<and> x = None" for b and e :: backup_error and x by simp
  have wrap: "(case o' of None \<Rightarrow> map_option f x | Some e \<Rightarrow> Some (g e)) = None \<longleftrightarrow> o' = None \<and> x = None"
    for o' x :: "backup_error option" and f g :: "backup_error \<Rightarrow> backup_error" by (simp split: option.split)
  show ?thesis
    unfolding ValidateSession_def ValidateMessages_def option.case guard wrap st seq q validate_loop_ok by simp
qed

theorem validation_exact_witness:
  "ValidateSession (Some (some_sync 5)) = None \<and> ValidateSession (Some (some_sync 0)) \<noteq> None"
  using validation_exact [of "some_sync 5"] validation_exact [of "some_sync 0"] by (simp add: some_sync_def ZeroTime_def Second_def)

end
