(* ===== verification/Backup_Json.thy ===== *)
theory Backup_Json
  imports Backup_Data
begin

text \<open>
  The JSON form of the messages between primary and backup server: what \<open>encoding/json\<close> makes of the
  structs of \<open>types.go\<close> by their field tags, and what it reads back.

  A JSON document is a tree. Its text (\<open>jl_text\<close>, \<open>jl_parse\<close>) is left to the library; a string that holds a
  time (RFC 3339) or bytes (base64) is kept as the value it stands for. The receiver decodes the field
  \<open>data\<close> twice: first into an \<open>interface{}\<close>, where every number becomes a \<open>float64\<close>, then, written out
  again, into the struct. \<open>jl_float\<close> is what a number is after that detour; the numbers up to \<open>2 ^ 53\<close>
  survive it. Missing fields and nulls leave the zero value. (The library also accepts field names in
  another case; the sender writes them as they are.) The struct that \<open>protoc\<close> generates for a push has
  a JSON form of its own, \<open>jl_push\<close>.
\<close>

section \<open>Documents\<close>

datatype json =
  JNull | JBool bool | JNum int | JStr string | JTime time | JBytes bytes
| JArr "json list" | JObj "(string \<times> json) list"

record json_lib =
  jl_text :: "json \<Rightarrow> bytes"
  jl_parse :: "bytes \<Rightarrow> err + json"
  jl_float :: "int \<Rightarrow> int"
  jl_push :: "server_push \<Rightarrow> json"
  jl_unpush :: "json \<Rightarrow> err + server_push"

text \<open>Decoding into an \<open>interface{}\<close> and encoding again.\<close>

fun via_any :: "(int \<Rightarrow> int) \<Rightarrow> json \<Rightarrow> json" where
  "via_any f (JNum n) = JNum (f n)"
| "via_any f (JArr vs) = JArr (map (via_any f) vs)"
| "via_any f (JObj o') = JObj (map (\<lambda>(k, v). (k, via_any f v)) o')"
| "via_any f v = v"

section \<open>Encoding\<close>

definition num_type :: "sync_type \<Rightarrow> int" where
  "num_type t =
     (case t of SyncTypeCreateSession \<Rightarrow> 1 | SyncTypeUpdateSession \<Rightarrow> 2 | SyncTypeDeleteSession \<Rightarrow> 3
      | SyncTypeSyncQueue \<Rightarrow> 4 | SyncTypeSyncMessages \<Rightarrow> 5 | SyncTypeHeartbeat \<Rightarrow> 6 | SyncTypeFullSync \<Rightarrow> 7
      | SyncTypeOther n \<Rightarrow> n)"

definition type_num :: "int \<Rightarrow> sync_type" where
  "type_num n =
     (if n = 1 then SyncTypeCreateSession else if n = 2 then SyncTypeUpdateSession
      else if n = 3 then SyncTypeDeleteSession else if n = 4 then SyncTypeSyncQueue
      else if n = 5 then SyncTypeSyncMessages else if n = 6 then SyncTypeHeartbeat
      else if n = 7 then SyncTypeFullSync else SyncTypeOther n)"

definition num_mode :: "server_mode \<Rightarrow> int" where
  "num_mode m = (case m of ModePrimary \<Rightarrow> 1 | ModeBackup \<Rightarrow> 2 | ModeOther n \<Rightarrow> n)"

definition mode_num :: "int \<Rightarrow> server_mode" where
  "mode_num n = (if n = 1 then ModePrimary else if n = 2 then ModeBackup else ModeOther n)"

definition enc_queue :: "queue_meta \<Rightarrow> json" where
  "enc_queue m = JObj
     [(''next_expected_seq'', JNum (uint (NextExpectedSeq m))), (''last_sent_seq'', JNum (uint (LastSentSeq m))),
      (''last_acked_seq'', JNum (uint (LastAckedSeq m))), (''pending_count'', JNum (PendingCount m)),
      (''queue_size'', JNum (QueueSize m))]"

definition enc_message :: "json_lib \<Rightarrow> omsg option \<Rightarrow> json" where
  "enc_message L m =
     (case m of
        None \<Rightarrow> JNull
      | Some x \<Rightarrow> JObj
          [(''ServerSeq'', JNum (uint (ServerSeq x))), (''Push'', jl_push L (Push x)), (''Data'', JBytes (Data x)),
           (''Timestamp'', JTime (Timestamp x)), (''Retries'', JNum (Retries x)), (''Sent'', JBool (Sent x))])"

definition enc_session :: "json_lib \<Rightarrow> session_sync \<Rightarrow> json" where
  "enc_session L d = JObj
     ([(''session_id'', JStr (sd_SessionID d)), (''open_id'', JStr (sd_OpenID d)), (''client_id'', JStr (sd_ClientID d)),
       (''access_token'', JStr (sd_AccessToken d)), (''user_ip'', JStr (sd_UserIP d)), (''state'', JNum (sd_State d)),
       (''gid'', JNum (sd_Gid d)), (''zone'', JNum (sd_Zone d)), (''server_seq'', JNum (uint (sd_ServerSeq d))),
       (''max_client_seq'', JNum (uint (sd_MaxClientSeq d))), (''create_time'', JTime (sd_CreateTime d)),
       (''last_activity'', JTime (sd_LastActivity d)),
       (''queue_meta'', case sd_QueueMeta d of None \<Rightarrow> JNull | Some q \<Rightarrow> enc_queue q)] @
      (if sd_PendingMsgs d = [] then []
       else [(''pending_msgs'', JArr (map (enc_message L) (sd_PendingMsgs d)))]))"

definition enc_heartbeat :: "heartbeat_data \<Rightarrow> json" where
  "enc_heartbeat d = JObj
     [(''server_id'', JStr (hd_ServerID d)), (''mode'', JNum (num_mode (hd_Mode d))),
      (''timestamp'', JNum (hd_Timestamp d)), (''session_count'', JNum (hd_SessionCount d)),
      (''queue_count'', JNum (hd_QueueCount d)), (''is_healthy'', JBool (hd_IsHealthy d)),
      (''last_sync_time'', JNum (hd_LastSyncTime d))]"

definition enc_data :: "json_lib \<Rightarrow> sync_data \<Rightarrow> json" where
  "enc_data L d =
     (case d of NoData \<Rightarrow> JNull | SessionData x \<Rightarrow> enc_session L x | QueueData x \<Rightarrow> enc_queue x
      | MessagesData ms \<Rightarrow> JArr (map (enc_message L) ms) | HeartbeatData x \<Rightarrow> enc_heartbeat x)"

definition enc_sync :: "json_lib \<Rightarrow> sync_data sync_message \<Rightarrow> json" where
  "enc_sync L m = JObj
     [(''type'', JNum (num_type (sm_Type m))), (''session_id'', JStr (sm_SessionID m)),
      (''timestamp'', JNum (sm_Timestamp m)), (''data'', enc_data L (sm_Data m)),
      (''checksum'', JNum (uint (sm_Checksum m)))]"

section \<open>Decoding\<close>

definition ebind :: "'e + 'a \<Rightarrow> ('a \<Rightarrow> 'e + 'b) \<Rightarrow> 'e + 'b" where
  "ebind r f = (case r of Inl e \<Rightarrow> Inl e | Inr a \<Rightarrow> f a)"

lemma ebind_simps [simp]: "ebind (Inr a) f = f a" "ebind (Inl e) f = Inl e"
  by (simp_all add: ebind_def)

definition ErrJson :: err where "ErrJson = ErrExternal ''json: cannot unmarshal''"

definition as_fields :: "json \<Rightarrow> err + (string \<times> json) list" where
  "as_fields v = (case v of JObj o' \<Rightarrow> Inr o' | JNull \<Rightarrow> Inr [] | _ \<Rightarrow> Inl ErrJson)"

definition field :: "(string \<times> json) list \<Rightarrow> string \<Rightarrow> json" where
  "field o' k = gm_getd JNull o' k"

definition as_int :: "int \<Rightarrow> int \<Rightarrow> json \<Rightarrow> err + int" where
  "as_int lo hi v =
     (case v of JNull \<Rightarrow> Inr 0 | JNum n \<Rightarrow> if lo \<le> n \<and> n < hi then Inr n else Inl ErrJson | _ \<Rightarrow> Inl ErrJson)"

abbreviation as_int32 :: "json \<Rightarrow> err + int" where "as_int32 \<equiv> as_int (- (2 ^ 31)) (2 ^ 31)"
abbreviation as_int64 :: "json \<Rightarrow> err + int" where "as_int64 \<equiv> as_int (- (2 ^ 63)) (2 ^ 63)"
abbreviation as_u64 :: "json \<Rightarrow> err + u64" where "as_u64 v \<equiv> ebind (as_int 0 (2 ^ 64) v) (\<lambda>n. Inr (word_of_int n))"
abbreviation as_u32 :: "json \<Rightarrow> err + u32" where "as_u32 v \<equiv> ebind (as_int 0 (2 ^ 32) v) (\<lambda>n. Inr (word_of_int n))"

definition as_str :: "json \<Rightarrow> err + string" where
  "as_str v = (case v of JNull \<Rightarrow> Inr [] | JStr s \<Rightarrow> Inr s | _ \<Rightarrow> Inl ErrJson)"

definition as_bool :: "json \<Rightarrow> err + bool" where
  "as_bool v = (case v of JNull \<Rightarrow> Inr False | JBool b \<Rightarrow> Inr b | _ \<Rightarrow> Inl ErrJson)"

definition as_time :: "json \<Rightarrow> err + time" where
  "as_time v = (case v of JNull \<Rightarrow> Inr ZeroTime | JTime t \<Rightarrow> Inr t | _ \<Rightarrow> Inl ErrJson)"

definition as_bytes :: "json \<Rightarrow> err + bytes" where
  "as_bytes v = (case v of JNull \<Rightarrow> Inr [] | JBytes b \<Rightarrow> Inr b | _ \<Rightarrow> Inl ErrJson)"

fun as_list :: "(json \<Rightarrow> err + 'a) \<Rightarrow> json list \<Rightarrow> err + 'a list" where
  "as_list f [] = Inr []"
| "as_list f (v # vs) = ebind (f v) (\<lambda>a. ebind (as_list f vs) (\<lambda>as. Inr (a # as)))"

definition dec_queue :: "json \<Rightarrow> err + queue_meta" where
  "dec_queue v = ebind (as_fields v) (\<lambda>o'.
     ebind (as_u64 (field o' ''next_expected_seq'')) (\<lambda>a.
     ebind (as_u64 (field o' ''last_sent_seq'')) (\<lambda>b.
     ebind (as_u64 (field o' ''last_acked_seq'')) (\<lambda>c.
     ebind (as_int64 (field o' ''pending_count'')) (\<lambda>d.
     ebind (as_int64 (field o' ''queue_size'')) (\<lambda>e.
       Inr \<lparr>NextExpectedSeq = a, LastSentSeq = b, LastAckedSeq = c, PendingCount = d, QueueSize = e\<rparr>))))))"

definition dec_message :: "json_lib \<Rightarrow> json \<Rightarrow> err + omsg option" where
  "dec_message L v =
     (if v = JNull then Inr None
      else ebind (as_fields v) (\<lambda>o'.
        ebind (as_u64 (field o' ''ServerSeq'')) (\<lambda>a.
        ebind (jl_unpush L (field o' ''Push'')) (\<lambda>b.
        ebind (as_bytes (field o' ''Data'')) (\<lambda>c.
        ebind (as_time (field o' ''Timestamp'')) (\<lambda>d.
        ebind (as_int64 (field o' ''Retries'')) (\<lambda>e.
        ebind (as_bool (field o' ''Sent'')) (\<lambda>f.
          Inr (Some \<lparr>ServerSeq = a, Push = b, Data = c, Timestamp = d, Retries = e, Sent = f\<rparr>)))))))))"

definition dec_messages :: "json_lib \<Rightarrow> json \<Rightarrow> err + omsg option list" where
  "dec_messages L v = (case v of JNull \<Rightarrow> Inr [] | JArr vs \<Rightarrow> as_list (dec_message L) vs | _ \<Rightarrow> Inl ErrJson)"

definition dec_session :: "json_lib \<Rightarrow> json \<Rightarrow> err + session_sync" where
  "dec_session L v = ebind (as_fields v) (\<lambda>o'.
     ebind (as_str (field o' ''session_id'')) (\<lambda>a.
     ebind (as_str (field o' ''open_id'')) (\<lambda>b.
     ebind (as_str (field o' ''client_id'')) (\<lambda>c.
     ebind (as_str (field o' ''access_token'')) (\<lambda>d.
     ebind (as_str (field o' ''user_ip'')) (\<lambda>e.
     ebind (as_int32 (field o' ''state'')) (\<lambda>f.
     ebind (as_int64 (field o' ''gid'')) (\<lambda>g.
     ebind (as_int64 (field o' ''zone'')) (\<lambda>h.
     ebind (as_u64 (field o' ''server_seq'')) (\<lambda>i.
     ebind (as_u64 (field o' ''max_client_seq'')) (\<lambda>j.
     ebind (as_time (field o' ''create_time'')) (\<lambda>k.
     ebind (as_time (field o' ''last_activity'')) (\<lambda>l.
     ebind (if field o' ''queue_meta'' = JNull then Inr None
            else ebind (dec_queue (field o' ''queue_meta'')) (\<lambda>q. Inr (Some q))) (\<lambda>q.
     ebind (dec_messages L (field o' ''pending_msgs'')) (\<lambda>ms.
       Inr \<lparr>sd_SessionID = a, sd_OpenID = b, sd_ClientID = c, sd_AccessToken = d, sd_UserIP = e, sd_State = f,
         sd_Gid = g, sd_Zone = h, sd_ServerSeq = i, sd_MaxClientSeq = j, sd_CreateTime = k, sd_LastActivity = l,
         sd_QueueMeta = q, sd_PendingMsgs = ms\<rparr>)))))))))))))))"

definition dec_heartbeat :: "json \<Rightarrow> err + heartbeat_data" where
  "dec_heartbeat v = ebind (as_fields v) (\<lambda>o'.
     ebind (as_str (field o' ''server_id'')) (\<lambda>a.
     ebind (as_int32 (field o' ''mode'')) (\<lambda>b.
     ebind (as_int64 (field o' ''timestamp'')) (\<lambda>c.
     ebind (as_int64 (field o' ''session_count'')) (\<lambda>d.
     ebind (as_int64 (field o' ''queue_count'')) (\<lambda>e.
     ebind (as_bool (field o' ''is_healthy'')) (\<lambda>f.
     ebind (as_int64 (field o' ''last_sync_time'')) (\<lambda>g.
       Inr \<lparr>hd_ServerID = a, hd_Mode = mode_num b, hd_Timestamp = c, hd_SessionCount = d, hd_QueueCount = e,
         hd_IsHealthy = f, hd_LastSyncTime = g\<rparr>))))))))"

text \<open>\<open>json.Unmarshal\<close> of a whole message; the data stay a document, as an \<open>interface{}\<close> writes it again.\<close>

definition dec_sync :: "json_lib \<Rightarrow> json \<Rightarrow> err + json sync_message" where
  "dec_sync L v = ebind (as_fields v) (\<lambda>o'.
     ebind (as_int32 (field o' ''type'')) (\<lambda>a.
     ebind (as_str (field o' ''session_id'')) (\<lambda>b.
     ebind (as_int64 (field o' ''timestamp'')) (\<lambda>c.
     ebind (as_u32 (field o' ''checksum'')) (\<lambda>d.
       Inr \<lparr>sm_Type = type_num a, sm_SessionID = b, sm_Timestamp = c,
         sm_Data = via_any (jl_float L) (field o' ''data''), sm_Checksum = d\<rparr>)))))"

definition json_Marshal :: "json_lib \<Rightarrow> sync_data sync_message \<Rightarrow> bytes" where
  "json_Marshal L m = jl_text L (enc_sync L m)"

definition json_Unmarshal :: "json_lib \<Rightarrow> bytes \<Rightarrow> err + json sync_message" where
  "json_Unmarshal L d = ebind (jl_parse L d) (dec_sync L)"

section \<open>Round trips\<close>

text \<open>
  What the documentation of \<open>encoding/json\<close> promises: integers up to \<open>2 ^ 53\<close> are exact in a \<open>float64\<close>, and
  the text of a document is read back as that document.
\<close>

definition json_ok :: "json_lib \<Rightarrow> bool" where
  "json_ok L \<longleftrightarrow> (\<forall>n. \<bar>n\<bar> \<le> 2 ^ 53 \<longrightarrow> jl_float L n = n)"

definition text_ok :: "json_lib \<Rightarrow> sync_data sync_message \<Rightarrow> bool" where
  "text_ok L m \<longleftrightarrow> jl_parse L (jl_text L (enc_sync L m)) = Inr (enc_sync L m)"

definition small :: "int \<Rightarrow> bool" where "small n \<longleftrightarrow> \<bar>n\<bar> \<le> 2 ^ 53"

definition small_queue :: "queue_meta \<Rightarrow> bool" where
  "small_queue m \<longleftrightarrow> small (uint (NextExpectedSeq m)) \<and> small (uint (LastSentSeq m)) \<and> small (uint (LastAckedSeq m)) \<and>
     small (PendingCount m) \<and> small (QueueSize m)"

definition small_session :: "session_sync \<Rightarrow> bool" where
  "small_session d \<longleftrightarrow> - (2 ^ 31) \<le> sd_State d \<and> sd_State d < 2 ^ 31 \<and> small (sd_Gid d) \<and> small (sd_Zone d) \<and>
     small (uint (sd_ServerSeq d)) \<and> small (uint (sd_MaxClientSeq d)) \<and>
     (\<forall>q. sd_QueueMeta d = Some q \<longrightarrow> small_queue q) \<and> sd_PendingMsgs d = []"

lemma json_ok_float: "json_ok L \<Longrightarrow> small n \<Longrightarrow> jl_float L n = n"
  by (simp add: json_ok_def small_def)

lemma as_int_small: "small n \<Longrightarrow> as_int (- (2 ^ 63)) (2 ^ 63) (JNum n) = Inr n"
  by (simp add: as_int_def small_def abs_le_iff)

lemma as_int_uint64: "as_int 0 (2 ^ 64) (JNum (uint (w :: u64))) = Inr (uint w)"
  using uint_lt2p [of w] by (simp add: as_int_def)

lemma dec_enc_queue:
  assumes "json_ok L" "small_queue q"
  shows "dec_queue (via_any (jl_float L) (enc_queue q)) = Inr q"
  using assms
  by (simp add: dec_queue_def enc_queue_def as_fields_def field_def gm_getd_def small_queue_def json_ok_float
      as_int_small as_int_uint64 del: power_numeral)

lemma dec_enc_session:
  assumes "json_ok L" "small_session d"
  shows "dec_session L (via_any (jl_float L) (enc_session L d)) = Inr d"
proof -
  have st: "small (sd_State d)" using assms(2) by (simp add: small_session_def small_def abs_le_iff)
  have "as_int32 (JNum (sd_State d)) = Inr (sd_State d)"
    using assms(2) by (simp add: small_session_def as_int_def)
  moreover have "field o' ''queue_meta'' = via_any (jl_float L) (case sd_QueueMeta d of None \<Rightarrow> JNull | Some q \<Rightarrow> enc_queue q) \<Longrightarrow>
    (if field o' ''queue_meta'' = JNull then Inr None
     else ebind (dec_queue (field o' ''queue_meta'')) (\<lambda>q. Inr (Some q))) = Inr (sd_QueueMeta d)" for o'
    using assms dec_enc_queue [OF assms(1)] by (cases "sd_QueueMeta d") (simp_all add: small_session_def enc_queue_def)
  ultimately show ?thesis
    using assms st
    by (simp add: dec_session_def enc_session_def as_fields_def field_def gm_getd_def small_session_def json_ok_float
        as_int_small as_int_uint64 as_str_def as_time_def dec_messages_def del: power_numeral)
qed


lemma type_num_num: "(\<And>n. t \<noteq> SyncTypeOther n) \<Longrightarrow> type_num (num_type t) = t"
  by (cases t) (simp_all add: num_type_def type_num_def)

lemma as_int32_type:
  assumes "\<And>n. t \<noteq> SyncTypeOther n"
  shows "as_int32 (JNum (num_type t)) = Inr (num_type t)"
  using assms by (cases t) (auto simp: num_type_def as_int_def)

text \<open>A message arrives with its data as a document whose numbers have been through \<open>float64\<close>.\<close>

lemma json_trip:
  assumes "text_ok L m" "\<And>n. sm_Type m \<noteq> SyncTypeOther n" "in_i64 (sm_Timestamp m)"
  shows "json_Unmarshal L (json_Marshal L m) =
    Inr \<lparr>sm_Type = sm_Type m, sm_SessionID = sm_SessionID m, sm_Timestamp = sm_Timestamp m,
      sm_Data = via_any (jl_float L) (enc_data L (sm_Data m)), sm_Checksum = sm_Checksum m\<rparr>"
proof -
  have "as_int64 (JNum (sm_Timestamp m)) = Inr (sm_Timestamp m)"
    using assms(3) by (simp add: as_int_def in_i64_def)
  moreover have "as_int 0 (2 ^ 32) (JNum (uint (sm_Checksum m))) = Inr (uint (sm_Checksum m))"
    using uint_lt2p [of "sm_Checksum m"] by (simp add: as_int_def)
  ultimately show ?thesis
    using assms(1,2) as_int32_type [of "sm_Type m"] type_num_num [of "sm_Type m"]
    by (simp add: json_Unmarshal_def json_Marshal_def text_ok_def dec_sync_def enc_sync_def as_fields_def field_def
        gm_getd_def as_str_def del: power_numeral)
qed

end
