(* ===== verification/Backup_Sync.thy ===== *)
theory Backup_Sync
  imports Backup_Json "HOL-Library.Signed_Division"
begin

text \<open>
  \<open>internal/backup/sync_service.go\<close>: the primary's side of the synchronisation. Operations put messages
  on a bounded channel; the processing goroutine collects them into batches and writes each batch to the
  connection when it is full, when an urgent message comes or when the ticker fires.

  The network is the parameter \<open>net\<close>; a connection is a value of type \<open>'n\<close>. A turn of a goroutine's
  \<open>select\<close> is one step, named by the case that is taken. \<open>None\<close> is a panic (a send on the closed channel,
  a channel, slice or ticker made with a bad size). A channel of capacity 0 takes nothing here: the code
  would hand a message over when the processor happens to wait for one.
\<close>

section \<open>State\<close>

record 'n net =
  net_Dial :: "string \<Rightarrow> err + 'n"
  net_Write :: "'n \<Rightarrow> bytes \<Rightarrow> 'n \<times> err option"
  net_Error :: "err \<Rightarrow> bool option"  \<comment> \<open>\<open>Some\<close> for a \<open>net.Error\<close>: whether it is a timeout or temporary\<close>

type_synonym smsg = "sync_data sync_message"

record 'n sync_service =
  ss_config :: sync_config
  ss_syncAddr :: string
  ss_peerConn :: "'n option"
  ss_syncChan :: "smsg list"
  ss_chanClosed :: bool
  ss_reconnectCh :: bool
  ss_stats :: sync_stats
  ss_cancelled :: bool
  ss_stopped :: bool
  ss_batch :: "smsg list"
  ss_processing :: bool
  ss_managing :: bool

definition NewSyncServiceWithAddr :: "time \<Rightarrow> sync_config \<Rightarrow> string \<Rightarrow> 'n sync_service option" where
  "NewSyncServiceWithAddr now c addr =
     (if sc_BufferSize c < 0 then None
      else Some \<lparr>ss_config = c, ss_syncAddr = addr, ss_peerConn = None, ss_syncChan = [], ss_chanClosed = False,
             ss_reconnectCh = False, ss_stats = zero_stats\<lparr>LastSyncTime := now\<rparr>, ss_cancelled = False,
             ss_stopped = False, ss_batch = [], ss_processing = False, ss_managing = False\<rparr>)"

definition NewSyncService :: "time \<Rightarrow> sync_config \<Rightarrow> 'n sync_service option" where
  "NewSyncService now c = NewSyncServiceWithAddr now c (sc_PeerAddr c)"

definition sync_updateStats :: "(sync_stats \<Rightarrow> sync_stats) \<Rightarrow> 'n sync_service \<Rightarrow> 'n sync_service" where
  "sync_updateStats f s = s\<lparr>ss_stats := f (ss_stats s)\<rparr>"

definition sync_IsConnected :: "'n sync_service \<Rightarrow> bool" where
  "sync_IsConnected s \<longleftrightarrow> ss_peerConn s \<noteq> None"

definition sync_GetStats :: "'n sync_service \<Rightarrow> sync_stats" where
  "sync_GetStats s = ss_stats s"

section \<open>Connection\<close>

definition sync_tryConnect :: "'n net \<Rightarrow> 'n sync_service \<Rightarrow> 'n sync_service" where
  "sync_tryConnect nw s =
     (if ss_peerConn s \<noteq> None then s
      else (case net_Dial nw (ss_syncAddr s) of
              Inl _ \<Rightarrow> sync_updateStats (\<lambda>st. st\<lparr>ErrorCount := i64 (ErrorCount st + 1), st_IsConnected := False\<rparr>) s
            | Inr n \<Rightarrow> sync_updateStats (\<lambda>st. st\<lparr>st_IsConnected := True\<rparr>) (s\<lparr>ss_peerConn := Some n\<rparr>)))"

definition sync_closeConnection :: "'n sync_service \<Rightarrow> 'n sync_service" where
  "sync_closeConnection s =
     (if ss_peerConn s = None then s
      else sync_updateStats (\<lambda>st. st\<lparr>st_IsConnected := False\<rparr>) (s\<lparr>ss_peerConn := None\<rparr>))"

datatype manager_case = ManagerDone | ManagerTick | ManagerReconnect

text \<open>A turn of \<open>connectionManager\<close>; \<open>None\<close> if the case is not ready or the goroutine has ended.\<close>

definition sync_connectionManager :: "'n net \<Rightarrow> manager_case \<Rightarrow> 'n sync_service \<Rightarrow> 'n sync_service option" where
  "sync_connectionManager nw c s =
     (if \<not> ss_managing s then None
      else (case c of
              ManagerDone \<Rightarrow> if ss_cancelled s then Some (s\<lparr>ss_managing := False\<rparr>) else None
            | ManagerTick \<Rightarrow> Some (if sync_IsConnected s then s else sync_tryConnect nw s)
            | ManagerReconnect \<Rightarrow>
                if ss_reconnectCh s then Some (sync_tryConnect nw (s\<lparr>ss_reconnectCh := False\<rparr>)) else None))"

section \<open>Submitting\<close>

text \<open>The \<open>select\<close> with a \<open>default\<close> that ends every operation.\<close>

definition submit :: "smsg \<Rightarrow> 'n sync_service \<Rightarrow> (backup_error option \<times> 'n sync_service) option" where
  "submit msg s =
     (if ss_chanClosed s then None
      else if int (length (ss_syncChan s)) < sc_BufferSize (ss_config s) then
        Some (None, s\<lparr>ss_syncChan := ss_syncChan s @ [msg]\<rparr>)
      else Some (Some BBufferFull, s))"

definition num_state :: "session_state \<Rightarrow> int" where
  "num_state st = (case st of SessionInited \<Rightarrow> 0 | SessionNormal \<Rightarrow> 1 | SessionClosed \<Rightarrow> 2)"

definition convertSessionToSyncData :: "'x session \<Rightarrow> session_sync" where
  "convertSessionToSyncData sess =
     \<lparr>sd_SessionID = s_ID sess, sd_OpenID = s_OpenID sess, sd_ClientID = s_ClientID sess, sd_AccessToken = [],
      sd_UserIP = s_UserIP sess, sd_State = num_state (State sess), sd_Gid = 0, sd_Zone = Zone sess,
      sd_ServerSeq = session_ServerSeq sess, sd_MaxClientSeq = MaxClientSeq sess,
      sd_CreateTime = s_CreateTime sess, sd_LastActivity = s_LastActivity sess,
      sd_QueueMeta = (case GetOrderedQueue sess of
        None \<Rightarrow> None
      | Some q \<Rightarrow> let st = GetQueueStats q in
          Some \<lparr>NextExpectedSeq = qs_next_expected_seq st, LastSentSeq = qs_last_sent_seq st,
            LastAckedSeq = qs_last_acked_seq st, PendingCount = qs_pending_count st, QueueSize = 0\<rparr>),
      sd_PendingMsgs = []\<rparr>"

definition SyncSession ::
  "time \<Rightarrow> string \<Rightarrow> 'x session \<Rightarrow> 'n sync_service \<Rightarrow> (backup_error option \<times> 'n sync_service) option" where
  "SyncSession now sid sess s =
     (if \<not> sync_IsConnected s then Some (Some BNotConnected, s)
      else let syncData = convertSessionToSyncData sess in
        submit \<lparr>sm_Type = SyncTypeUpdateSession, sm_SessionID = sid, sm_Timestamp = now, sm_Data = SessionData syncData,
                sm_Checksum = CalculateChecksum (CheckSession syncData)\<rparr> s)"

definition SyncQueueState ::
  "time \<Rightarrow> string \<Rightarrow> queue_meta \<Rightarrow> 'n sync_service \<Rightarrow> (backup_error option \<times> 'n sync_service) option" where
  "SyncQueueState now sid meta s =
     (if \<not> sync_IsConnected s then Some (Some BNotConnected, s)
      else submit \<lparr>sm_Type = SyncTypeSyncQueue, sm_SessionID = sid, sm_Timestamp = now, sm_Data = QueueData meta,
                   sm_Checksum = CalculateChecksum (CheckQueue meta)\<rparr> s)"

definition SyncMessages ::
  "time \<Rightarrow> string \<Rightarrow> omsg option list \<Rightarrow> 'n sync_service \<Rightarrow> (backup_error option \<times> 'n sync_service) option" where
  "SyncMessages now sid messages s =
     (if \<not> sync_IsConnected s \<or> messages = [] then Some (Some BNotConnected, s)
      else submit \<lparr>sm_Type = SyncTypeSyncMessages, sm_SessionID = sid, sm_Timestamp = now, sm_Data = MessagesData messages,
                   sm_Checksum = CalculateChecksum (CheckMessages messages)\<rparr> s)"

definition DeleteSession ::
  "time \<Rightarrow> string \<Rightarrow> 'n sync_service \<Rightarrow> (backup_error option \<times> 'n sync_service) option" where
  "DeleteSession now sid s =
     (if \<not> sync_IsConnected s then Some (Some BNotConnected, s)
      else submit \<lparr>sm_Type = SyncTypeDeleteSession, sm_SessionID = sid, sm_Timestamp = now, sm_Data = NoData,
                   sm_Checksum = 0\<rparr> s)"

definition FullSync :: "time \<Rightarrow> 'n sync_service \<Rightarrow> (backup_error option \<times> 'n sync_service) option" where
  "FullSync now s =
     (if \<not> sync_IsConnected s then Some (Some BNotConnected, s)
      else submit \<lparr>sm_Type = SyncTypeFullSync, sm_SessionID = [], sm_Timestamp = now, sm_Data = NoData,
                   sm_Checksum = 0\<rparr> s)"

section \<open>Sending\<close>

definition writeUint32 :: "'n net \<Rightarrow> 'n \<Rightarrow> u32 \<Rightarrow> 'n \<times> err option" where
  "writeUint32 nw conn v =
     net_Write nw conn [ucast (drop_bit 24 v), ucast (drop_bit 16 v), ucast (drop_bit 8 v), ucast v]"

text \<open>\<open>json.Marshal\<close> of these structs cannot fail.\<close>

definition sync_sendMessage ::
  "'n net \<Rightarrow> json_lib \<Rightarrow> smsg \<Rightarrow> 'n sync_service \<Rightarrow> backup_error option \<times> 'n sync_service" where
  "sync_sendMessage nw L msg s =
     (case ss_peerConn s of
        None \<Rightarrow> (Some BNotConnected, s)
      | Some conn \<Rightarrow>
          let data = json_Marshal L msg in
          (case writeUint32 nw conn (of_nat (length data)) of
             (n1, Some e) \<Rightarrow> (Some (BWrap ''sendMessage: length'' (BExternal e)), s\<lparr>ss_peerConn := Some n1\<rparr>)
           | (n1, None) \<Rightarrow>
               (case net_Write nw n1 data of
                  (n2, Some e) \<Rightarrow> (Some (BWrap ''sendMessage: data'' (BExternal e)), s\<lparr>ss_peerConn := Some n2\<rparr>)
                | (n2, None) \<Rightarrow> (None, s\<lparr>ss_peerConn := Some n2\<rparr>))))"

text \<open>The type assertion looks at the error itself, not at what it wraps.\<close>

definition isConnectionError :: "'n net \<Rightarrow> backup_error \<Rightarrow> bool" where
  "isConnectionError nw e =
     (case e of BExternal x \<Rightarrow> (case net_Error nw x of Some b \<Rightarrow> b | None \<Rightarrow> True) | _ \<Rightarrow> True)"

text \<open>The loop of \<open>sendBatch\<close>, which a connection error ends.\<close>

fun send_loop :: "'n net \<Rightarrow> json_lib \<Rightarrow> smsg list \<Rightarrow> 'n sync_service \<Rightarrow> 'n sync_service" where
  "send_loop nw L [] s = s"
| "send_loop nw L (msg # msgs) s =
     (case sync_sendMessage nw L msg s of
        (Some e, s1) \<Rightarrow>
          let s2 = sync_updateStats (\<lambda>st. st\<lparr>ErrorCount := i64 (ErrorCount st + 1)\<rparr>) s1 in
          if isConnectionError nw e then (sync_closeConnection s2)\<lparr>ss_reconnectCh := True\<rparr>
          else send_loop nw L msgs s2
      | (None, s1) \<Rightarrow>
          send_loop nw L msgs (sync_updateStats (\<lambda>st. st\<lparr>SentCount := i64 (SentCount st + 1)\<rparr>) s1))"

definition average :: "duration \<Rightarrow> duration \<Rightarrow> duration" where
  "average avg latency = (if avg = 0 then latency else i64 (avg * 9 + latency) sdiv 10)"

definition sendBatch :: "'n net \<Rightarrow> json_lib \<Rightarrow> time \<Rightarrow> duration \<Rightarrow> smsg list \<Rightarrow> 'n sync_service \<Rightarrow> 'n sync_service" where
  "sendBatch nw L now latency batch s =
     (if \<not> sync_IsConnected s then s
      else sync_updateStats (\<lambda>st. st\<lparr>LastSyncTime := now, AvgLatency := average (AvgLatency st) latency\<rparr>)
             (send_loop nw L batch s))"

definition isUrgentMessage :: "smsg \<Rightarrow> bool" where
  "isUrgentMessage msg \<longleftrightarrow> sm_Type msg = SyncTypeDeleteSession \<or> sm_Type msg = SyncTypeFullSync"

datatype processor_case = ProcDone | ProcRecv | ProcTick

text \<open>A turn of \<open>syncProcessor\<close>; \<open>None\<close> if the case is not ready or the goroutine has ended.\<close>

definition syncProcessor ::
  "'n net \<Rightarrow> json_lib \<Rightarrow> time \<Rightarrow> duration \<Rightarrow> processor_case \<Rightarrow> 'n sync_service \<Rightarrow> 'n sync_service option" where
  "syncProcessor nw L now latency c s =
     (if \<not> ss_processing s then None
      else (case c of
              ProcDone \<Rightarrow>
                if \<not> ss_cancelled s then None
                else Some ((if ss_batch s \<noteq> [] then sendBatch nw L now latency (ss_batch s) s else s)\<lparr>ss_processing := False\<rparr>)
            | ProcRecv \<Rightarrow>
                (case ss_syncChan s of
                   [] \<Rightarrow> if ss_chanClosed s then Some (s\<lparr>ss_processing := False\<rparr>) else None
                 | msg # rest \<Rightarrow>
                     let s1 = s\<lparr>ss_syncChan := rest, ss_batch := ss_batch s @ [msg]\<rparr> in
                     if sc_SyncBatchSize (ss_config s1) \<le> int (length (ss_batch s1)) \<or> isUrgentMessage msg then
                       Some ((sendBatch nw L now latency (ss_batch s1) s1)\<lparr>ss_batch := []\<rparr>)
                     else Some s1)
            | ProcTick \<Rightarrow>
                if ss_batch s \<noteq> [] then Some ((sendBatch nw L now latency (ss_batch s) s)\<lparr>ss_batch := []\<rparr>)
                else Some s))"

section \<open>Starting and stopping\<close>

definition sync_Start :: "'n sync_service \<Rightarrow> 'n sync_service option" where
  "sync_Start s =
     (if sc_SyncBatchSize (ss_config s) < 0 \<or> sc_SyncTimeout (ss_config s) \<le> 0 then None
      else Some (s\<lparr>ss_cancelled := False, ss_managing := True, ss_processing := True, ss_batch := []\<rparr>))"

definition sync_Stop :: "'n sync_service \<Rightarrow> 'n sync_service" where
  "sync_Stop s =
     (if ss_stopped s then s
      else (sync_closeConnection (s\<lparr>ss_stopped := True, ss_cancelled := True\<rparr>))\<lparr>ss_chanClosed := True\<rparr>)"

end
