(* ===== verification/Backup_Receiver.thy ===== *)
theory Backup_Receiver
  imports Backup_Sync
begin

text \<open>
  \<open>internal/backup/sync_receiver.go\<close>: the backup server's side of the synchronisation.

  A TCP connection is the list of byte chunks as they arrive: one \<open>Read\<close> fills the buffer from the first
  chunk only, and an empty list is the end of the stream. \<open>readUint32\<close> and \<open>readMessage\<close> call \<open>Read\<close> once
  and ignore how much it read, so what did not come stays zero in the buffer. The operations on the
  session manager are those of \<open>Session_Manager\<close>.
\<close>

section \<open>State\<close>

record receiver =
  rv_config :: sync_config
  rv_listenAddr :: string
  rv_listening :: bool
  rv_stats :: sync_stats
  rv_cancelled :: bool
  rv_stopped :: bool
  rv_connections :: "(string \<times> unit) list"

definition newSyncReceiverWithAddr :: "sync_config \<Rightarrow> string \<Rightarrow> receiver" where
  "newSyncReceiverWithAddr c addr =
     \<lparr>rv_config = c, rv_listenAddr = addr, rv_listening = False, rv_stats = zero_stats, rv_cancelled = False,
      rv_stopped = False, rv_connections = []\<rparr>"

definition newSyncReceiver :: "sync_config \<Rightarrow> receiver" where
  "newSyncReceiver c = newSyncReceiverWithAddr c (sc_PeerAddr c)"

definition receiver_Start :: "(string \<Rightarrow> err option) \<Rightarrow> receiver \<Rightarrow> backup_error option \<times> receiver" where
  "receiver_Start listen r =
     (case listen (rv_listenAddr r) of
        Some e \<Rightarrow> (Some (BWrap ''Start: listen'' (BExternal e)), r)
      | None \<Rightarrow> (None, r\<lparr>rv_listening := True\<rparr>))"

definition receiver_Stop :: "receiver \<Rightarrow> receiver" where
  "receiver_Stop r =
     (if rv_stopped r then r
      else r\<lparr>rv_stopped := True, rv_cancelled := True, rv_listening := False, rv_connections := []\<rparr>)"

definition receiver_isStopped :: "receiver \<Rightarrow> bool" where
  "receiver_isStopped r = rv_stopped r"

definition receiver_updateStats :: "(sync_stats \<Rightarrow> sync_stats) \<Rightarrow> receiver \<Rightarrow> receiver" where
  "receiver_updateStats f r = r\<lparr>rv_stats := f (rv_stats r)\<rparr>"

definition receiver_GetStats :: "receiver \<Rightarrow> sync_stats" where
  "receiver_GetStats r = (rv_stats r)\<lparr>st_IsConnected := rv_connections r \<noteq> []\<rparr>"

section \<open>Reading\<close>

text \<open>\<open>conn.Read(buf)\<close> into a fresh buffer of \<open>n\<close> bytes: the buffer, or the error, and the rest.\<close>

fun net_Read :: "nat \<Rightarrow> bytes list \<Rightarrow> (err + bytes) \<times> bytes list" where
  "net_Read n cs =
     (if n = 0 then (Inr [], cs)
      else case cs of
             [] \<Rightarrow> (Inl ErrEOF, [])
           | [] # rest \<Rightarrow> net_Read n rest
           | c # rest \<Rightarrow>
               (Inr (take n c @ replicate (n - length c) 0), if length c \<le> n then rest else drop n c # rest))"

declare net_Read.simps [simp del]

definition readUint32 :: "bytes list \<Rightarrow> (err + u32) \<times> bytes list" where
  "readUint32 conn =
     (case net_Read 4 conn of
        (Inl e, rest) \<Rightarrow> (Inl e, rest)
      | (Inr buf, rest) \<Rightarrow>
          (Inr (or (or (or (push_bit 24 (ucast (buf ! 0))) (push_bit 16 (ucast (buf ! 1))))
              (push_bit 8 (ucast (buf ! 2)))) (ucast (buf ! 3))), rest))"

definition receiver_readMessage :: "json_lib \<Rightarrow> bytes list \<Rightarrow> (backup_error + json sync_message) \<times> bytes list" where
  "receiver_readMessage L conn =
     (case readUint32 conn of
        (Inl e, rest) \<Rightarrow> (Inl (BWrap ''readMessage: length'' (BExternal e)), rest)
      | (Inr len, rest) \<Rightarrow>
          if 10 * 1024 * 1024 < len then (Inl (BTooLarge (unat len)), rest)
          else (case net_Read (unat len) rest of
                  (Inl e, rest2) \<Rightarrow> (Inl (BWrap ''readMessage: data'' (BExternal e)), rest2)
                | (Inr data, rest2) \<Rightarrow>
                    (case json_Unmarshal L data of
                       Inl e \<Rightarrow> (Inl (BWrap ''readMessage: json'' (BExternal e)), rest2)
                     | Inr msg \<Rightarrow> (Inr msg, rest2))))"

section \<open>Handling\<close>

text \<open>The three updates only write to the log, in read-only mode and otherwise.\<close>

definition updateLocalSession :: "receiver \<Rightarrow> session_sync \<Rightarrow> 'x manager \<Rightarrow> backup_error option \<times> 'x manager" where
  "updateLocalSession r syncData m = (if sc_ReadOnly (rv_config r) then (None, m) else (None, m))"

definition updateLocalQueue :: "receiver \<Rightarrow> string \<Rightarrow> queue_meta \<Rightarrow> 'x manager \<Rightarrow> backup_error option \<times> 'x manager" where
  "updateLocalQueue r sid meta m = (if sc_ReadOnly (rv_config r) then (None, m) else (None, m))"

definition updateLocalMessages ::
  "receiver \<Rightarrow> string \<Rightarrow> omsg option list \<Rightarrow> 'x manager \<Rightarrow> backup_error option \<times> 'x manager" where
  "updateLocalMessages r sid msgs m = (if sc_ReadOnly (rv_config r) then (None, m) else (None, m))"

definition handleSessionSync ::
  "json_lib \<Rightarrow> receiver \<Rightarrow> json sync_message \<Rightarrow> 'x manager \<Rightarrow> backup_error option \<times> 'x manager" where
  "handleSessionSync L r msg m =
     (case dec_session L (sm_Data msg) of
        Inl e \<Rightarrow> (Some (BWrap ''handleSessionSync: json'' (BExternal e)), m)
      | Inr syncData \<Rightarrow>
          (case ValidateSession (Some syncData) of
             Some e \<Rightarrow> (Some (BWrap ''handleSessionSync: validate'' e), m)
           | None \<Rightarrow>
               if \<not> VerifyChecksum (CheckSession syncData) (sm_Checksum msg) then (Some BChecksum, m)
               else updateLocalSession r syncData m))"

definition handleSessionDelete ::
  "'x ext \<Rightarrow> time \<Rightarrow> json sync_message \<Rightarrow> 'x manager \<Rightarrow> backup_error option \<times> 'x manager" where
  "handleSessionDelete e now msg m = (None, RemoveSession e now (sm_SessionID msg) m)"

definition handleQueueSync ::
  "receiver \<Rightarrow> json sync_message \<Rightarrow> 'x manager \<Rightarrow> backup_error option \<times> 'x manager" where
  "handleQueueSync r msg m =
     (case dec_queue (sm_Data msg) of
        Inl e \<Rightarrow> (Some (BWrap ''handleQueueSync: json'' (BExternal e)), m)
      | Inr meta \<Rightarrow>
          (case ValidateQueue (Some meta) of
             Some e \<Rightarrow> (Some (BWrap ''handleQueueSync: validate'' e), m)
           | None \<Rightarrow> updateLocalQueue r (sm_SessionID msg) meta m))"

definition handleMessageSync ::
  "json_lib \<Rightarrow> receiver \<Rightarrow> json sync_message \<Rightarrow> 'x manager \<Rightarrow> backup_error option \<times> 'x manager" where
  "handleMessageSync L r msg m =
     (case dec_messages L (sm_Data msg) of
        Inl e \<Rightarrow> (Some (BWrap ''handleMessageSync: json'' (BExternal e)), m)
      | Inr messages \<Rightarrow>
          (case ValidateMessages messages of
             Some e \<Rightarrow> (Some (BWrap ''handleMessageSync: validate'' e), m)
           | None \<Rightarrow> updateLocalMessages r (sm_SessionID msg) messages m))"

definition receiver_OnHeartbeatReceived :: "heartbeat_data \<Rightarrow> 'x manager \<Rightarrow> backup_error option \<times> 'x manager" where
  "receiver_OnHeartbeatReceived data m = (None, m)"

definition receiver_handleHeartbeat :: "json sync_message \<Rightarrow> 'x manager \<Rightarrow> backup_error option \<times> 'x manager" where
  "receiver_handleHeartbeat msg m =
     (case dec_heartbeat (sm_Data msg) of
        Inl e \<Rightarrow> (Some (BWrap ''handleHeartbeat: json'' (BExternal e)), m)
      | Inr hb \<Rightarrow> receiver_OnHeartbeatReceived hb m)"

definition handleFullSyncRequest :: "json sync_message \<Rightarrow> 'x manager \<Rightarrow> backup_error option \<times> 'x manager" where
  "handleFullSyncRequest msg m = (None, m)"

definition processMessage ::
  "'x ext \<Rightarrow> json_lib \<Rightarrow> time \<Rightarrow> receiver \<Rightarrow> json sync_message \<Rightarrow> 'x manager \<Rightarrow> backup_error option \<times> 'x manager" where
  "processMessage e L now r msg m =
     (case sm_Type msg of
        SyncTypeCreateSession \<Rightarrow> handleSessionSync L r msg m
      | SyncTypeUpdateSession \<Rightarrow> handleSessionSync L r msg m
      | SyncTypeDeleteSession \<Rightarrow> handleSessionDelete e now msg m
      | SyncTypeSyncQueue \<Rightarrow> handleQueueSync r msg m
      | SyncTypeSyncMessages \<Rightarrow> handleMessageSync L r msg m
      | SyncTypeHeartbeat \<Rightarrow> receiver_handleHeartbeat msg m
      | SyncTypeFullSync \<Rightarrow> handleFullSyncRequest msg m
      | SyncTypeOther n \<Rightarrow> (Some (BInvalid ''Type'' n), m))"

definition OnSyncReceived ::
  "'x ext \<Rightarrow> json_lib \<Rightarrow> time \<Rightarrow> receiver \<Rightarrow> json sync_message \<Rightarrow> 'x manager \<Rightarrow> backup_error option \<times> 'x manager" where
  "OnSyncReceived e L now r msg m = processMessage e L now r msg m"

text \<open>The loop of \<open>OnFullSyncReceived\<close> goes on after an error.\<close>

definition OnFullSyncReceived :: "receiver \<Rightarrow> full_sync \<Rightarrow> 'x manager \<Rightarrow> backup_error option \<times> 'x manager" where
  "OnFullSyncReceived r data m =
     (None, fold (\<lambda>d m. snd (updateLocalSession r d m)) (map the (fs_Sessions data)) m)"

section \<open>Connections\<close>

lemma net_Read_eqs [simp]:
  "net_Read 0 cs = (Inr [], cs)"
  "0 < n \<Longrightarrow> net_Read n [] = (Inl ErrEOF, [])"
  "0 < n \<Longrightarrow> net_Read n ([] # rest) = net_Read n rest"
  "0 < n \<Longrightarrow> net_Read n ((x # xs) # rest) =
     (Inr (take n (x # xs) @ replicate (n - Suc (length xs)) 0),
      if Suc (length xs) \<le> n then rest else drop n (x # xs) # rest)"
  by (subst net_Read.simps; simp)+

lemma net_Read_shrinks:
  "length (concat (snd (net_Read n cs))) \<le> length (concat cs) \<and>
   (fst (net_Read n cs) = Inr d \<longrightarrow> 0 < n \<longrightarrow> length (concat (snd (net_Read n cs))) < length (concat cs))"
proof (cases "n = 0")
  case False
  then show ?thesis
  proof (induction cs)
    case (Cons c cs)
    then show ?case by (cases c) auto
  qed simp
qed simp

lemma readMessage_shrinks:
  assumes "receiver_readMessage L cs = (Inr msg, rest)"
  shows "length (concat rest) < length (concat cs)"
proof -
  obtain r1 c1 where a: "net_Read 4 cs = (r1, c1)" by (metis surj_pair)
  then obtain buf where b: "r1 = Inr buf" using assms by (cases r1) (simp_all add: receiver_readMessage_def readUint32_def)
  have lt: "length (concat c1) < length (concat cs)" using net_Read_shrinks [of 4 cs buf] a b by simp
  have "\<exists>n r2. net_Read n c1 = (r2, rest)"
    using assms a b
    by (auto simp: receiver_readMessage_def readUint32_def split: if_splits prod.splits sum.splits)
  then obtain n where "snd (net_Read n c1) = rest" by (metis snd_conv)
  then show ?thesis using net_Read_shrinks [of n c1 "[]"] lt by simp
qed

text \<open>
  The loop of \<open>handleConnection\<close>. Before turn \<open>i\<close> it sees whether the service is cancelled (\<open>halt i\<close>), and
  other goroutines may change the sessions (\<open>others i\<close>); \<open>clock i\<close> is the time.
\<close>

record 'x turns =
  tn_halt :: "nat \<Rightarrow> bool"
  tn_others :: "nat \<Rightarrow> 'x manager \<Rightarrow> 'x manager"
  tn_clock :: "nat \<Rightarrow> time"

function receiver_loop ::
  "'x ext \<Rightarrow> json_lib \<Rightarrow> 'x turns \<Rightarrow> nat \<Rightarrow> bytes list \<Rightarrow> receiver \<times> 'x manager \<Rightarrow> receiver \<times> 'x manager" where
  "receiver_loop e L tn i conn (r, m0) =
     (let m = tn_others tn i m0 in
      if tn_halt tn i then (r, m)
      else (case receiver_readMessage L conn of
              (Inl x, _) \<Rightarrow> (r, m)
            | (Inr msg, rest) \<Rightarrow>
                (case processMessage e L (tn_clock tn i) r msg m of
                   (Some x, m') \<Rightarrow> receiver_loop e L tn (Suc i) rest
                      (receiver_updateStats (\<lambda>st. st\<lparr>ErrorCount := i64 (ErrorCount st + 1)\<rparr>) r, m')
                 | (None, m') \<Rightarrow> receiver_loop e L tn (Suc i) rest
                      (receiver_updateStats (\<lambda>st. st\<lparr>ReceivedCount := i64 (ReceivedCount st + 1),
                          LastSyncTime := tn_clock tn i\<rparr>) r, m'))))"
  by pat_completeness auto
termination
  by (relation "measure (\<lambda>(_, _, _, _, conn, _). length (concat conn))") (auto dest: readMessage_shrinks [OF sym])

declare receiver_loop.simps [simp del]

definition receiver_handleConnection ::
  "'x ext \<Rightarrow> json_lib \<Rightarrow> 'x turns \<Rightarrow> string \<Rightarrow> bytes list \<Rightarrow> receiver \<times> 'x manager \<Rightarrow> receiver \<times> 'x manager" where
  "receiver_handleConnection e L tn remoteAddr conn rm =
     (case rm of (r, m) \<Rightarrow>
        (case receiver_loop e L tn 0 conn (r\<lparr>rv_connections := gm_put remoteAddr () (rv_connections r)\<rparr>, m) of
           (r', m') \<Rightarrow> (r'\<lparr>rv_connections := gm_del remoteAddr (rv_connections r')\<rparr>, m')))"

datatype accept_result = AcceptFailed err | Accepted string "bytes list"

text \<open>A turn of \<open>acceptConnections\<close>: whether the loop goes on, and the connection it starts to handle.\<close>

definition receiver_acceptConnections ::
  "accept_result \<Rightarrow> receiver \<Rightarrow> bool \<times> (string \<times> bytes list) option" where
  "receiver_acceptConnections a r =
     (if rv_cancelled r then (False, None)
      else (case a of
              AcceptFailed _ \<Rightarrow> (\<not> receiver_isStopped r, None)
            | Accepted addr conn \<Rightarrow> (True, Some (addr, conn))))"

end
