(* ===== verification/Backup_Link.thy ===== *)
theory Backup_Link
  imports Backup_Receiver Manager_Props
begin

text \<open>
  Properties of the synchronisation: the order and the bounds of the sender's queue, what a short read
  does, what the receiver makes of the messages of a primary, and what the backup's session manager
  takes from them.
\<close>

section \<open>The sender\<close>

text \<open>What one message adds to a connection whose writes succeed.\<close>

definition be32 :: "u32 \<Rightarrow> bytes" where
  "be32 v = [ucast (drop_bit 24 v), ucast (drop_bit 16 v), ucast (drop_bit 8 v), ucast v]"

definition put_sync :: "('n \<Rightarrow> bytes \<Rightarrow> 'n) \<Rightarrow> json_lib \<Rightarrow> smsg \<Rightarrow> 'n \<Rightarrow> 'n" where
  "put_sync w L msg n = (let d = json_Marshal L msg in w (w n (be32 (of_nat (length d)))) d)"

definition net_ok :: "'n net \<Rightarrow> ('n \<Rightarrow> bytes \<Rightarrow> 'n) \<Rightarrow> bool" where
  "net_ok nw w \<longleftrightarrow> (\<forall>n d. net_Write nw n d = (w n d, None))"

fun counted :: "nat \<Rightarrow> int \<Rightarrow> int" where
  "counted 0 c = c"
| "counted (Suc k) c = counted k (i64 (c + 1))"

lemma counted_add [simp]: "counted a (counted b c) = counted (b + a) c"
  by (induction b arbitrary: c) simp_all

lemma send_loop_ok:
  assumes "net_ok nw w" "ss_peerConn s = Some n"
  shows "send_loop nw L msgs s = s\<lparr>ss_peerConn := Some (fold (put_sync w L) msgs n),
    ss_stats := (ss_stats s)\<lparr>SentCount := counted (length msgs) (SentCount (ss_stats s))\<rparr>\<rparr>"
  using assms(2)
proof (induction msgs arbitrary: s n)
  case (Cons msg msgs)
  have "sync_sendMessage nw L msg s = (None, s\<lparr>ss_peerConn := Some (put_sync w L msg n)\<rparr>)"
    using assms(1) Cons.prems by (simp add: sync_sendMessage_def writeUint32_def net_ok_def put_sync_def be32_def Let_def)
  then show ?case
    using Cons.IH [of "sync_updateStats (\<lambda>st. st\<lparr>SentCount := i64 (SentCount st + 1)\<rparr>) (s\<lparr>ss_peerConn := Some (put_sync w L msg n)\<rparr>)"]
    by (simp add: sync_updateStats_def)
qed simp

text \<open>The operations of the primary and the turns of its processing goroutine.\<close>

datatype 'x sync_op =
  OpSession time string "'x session" | OpQueue time string queue_meta | OpMessages time string "omsg option list"
| OpDelete time string | OpFull time | OpTurn time duration processor_case

fun op_result :: "'x sync_op \<Rightarrow> 'n sync_service \<Rightarrow> (backup_error option \<times> 'n sync_service) option" where
  "op_result (OpSession now sid x) s = SyncSession now sid x s"
| "op_result (OpQueue now sid q) s = SyncQueueState now sid q s"
| "op_result (OpMessages now sid ms) s = SyncMessages now sid ms s"
| "op_result (OpDelete now sid) s = DeleteSession now sid s"
| "op_result (OpFull now) s = FullSync now s"
| "op_result (OpTurn now lat c) s = Some (Some BNoSync, s)"

fun op_message :: "'x sync_op \<Rightarrow> smsg" where
  "op_message (OpSession now sid x) =
     \<lparr>sm_Type = SyncTypeUpdateSession, sm_SessionID = sid, sm_Timestamp = now,
      sm_Data = SessionData (convertSessionToSyncData x),
      sm_Checksum = CalculateChecksum (CheckSession (convertSessionToSyncData x))\<rparr>"
| "op_message (OpQueue now sid q) =
     \<lparr>sm_Type = SyncTypeSyncQueue, sm_SessionID = sid, sm_Timestamp = now, sm_Data = QueueData q,
      sm_Checksum = CalculateChecksum (CheckQueue q)\<rparr>"
| "op_message (OpMessages now sid ms) =
     \<lparr>sm_Type = SyncTypeSyncMessages, sm_SessionID = sid, sm_Timestamp = now, sm_Data = MessagesData ms,
      sm_Checksum = CalculateChecksum (CheckMessages ms)\<rparr>"
| "op_message (OpDelete now sid) =
     \<lparr>sm_Type = SyncTypeDeleteSession, sm_SessionID = sid, sm_Timestamp = now, sm_Data = NoData, sm_Checksum = 0\<rparr>"
| "op_message (OpFull now) =
     \<lparr>sm_Type = SyncTypeFullSync, sm_SessionID = [], sm_Timestamp = now, sm_Data = NoData, sm_Checksum = 0\<rparr>"
| "op_message (OpTurn now lat c) = undefined"

text \<open>A run: the messages accepted, and the state at the end; a turn that is not ready is no step.\<close>

fun sync_run :: "'n net \<Rightarrow> json_lib \<Rightarrow> 'x sync_op list \<Rightarrow> 'n sync_service \<Rightarrow> (smsg list \<times> 'n sync_service) option" where
  "sync_run nw L [] s = Some ([], s)"
| "sync_run nw L (OpTurn now lat c # xs) s =
     sync_run nw L xs (case syncProcessor nw L now lat c s of None \<Rightarrow> s | Some s' \<Rightarrow> s')"
| "sync_run nw L (x # xs) s =
     (case op_result x s of
        None \<Rightarrow> None
      | Some (r, s') \<Rightarrow>
          map_option (\<lambda>(acc, s2). (if r = None then op_message x # acc else acc, s2)) (sync_run nw L xs s'))"

text \<open>A primary that is connected and was started, and what it has sent so far.\<close>

definition primary_inv ::
  "('n \<Rightarrow> bytes \<Rightarrow> 'n) \<Rightarrow> json_lib \<Rightarrow> sync_config \<Rightarrow> 'n \<Rightarrow> int \<Rightarrow> smsg list \<Rightarrow> smsg list \<Rightarrow> 'n sync_service \<Rightarrow> bool" where
  "primary_inv w L c n k accepted sent s \<longleftrightarrow>
     ss_config s = c \<and> \<not> ss_chanClosed s \<and> \<not> ss_cancelled s \<and> ss_processing s \<and>
     ss_peerConn s = Some (fold (put_sync w L) sent n) \<and> SentCount (ss_stats s) = counted (length sent) k \<and>
     sent @ ss_batch s @ ss_syncChan s = accepted \<and>
     int (length (ss_syncChan s)) \<le> max 0 (sc_BufferSize c) \<and>
     int (length (ss_batch s)) \<le> max 0 (sc_SyncBatchSize c - 1)"

lemma primary_submit:
  assumes "primary_inv w L c n k acc sent s" "submit msg s = Some (r, s')"
  shows "primary_inv w L c n k (if r = None then acc @ [msg] else acc) sent s'"
  using assms by (auto simp: primary_inv_def submit_def split: if_splits)

lemma primary_op:
  assumes "primary_inv w L c n k acc sent s" "\<nexists>now lat c. x = OpTurn now lat c"
  shows "\<exists>r s'. op_result x s = Some (r, s') \<and>
    primary_inv w L c n k (if r = None then acc @ [op_message x] else acc) sent s'"
proof -
  have "sync_IsConnected s" using assms(1) by (simp add: primary_inv_def sync_IsConnected_def)
  then have "op_result x s = submit (op_message x) s \<or> op_result x s = Some (Some BNotConnected, s)"
    using assms(2)
    by (cases x) (simp_all add: SyncSession_def SyncQueueState_def SyncMessages_def DeleteSession_def FullSync_def Let_def)
  moreover have "\<exists>r s'. submit (op_message x) s = Some (r, s')"
    using assms(1) by (simp add: submit_def primary_inv_def)
  ultimately show ?thesis using primary_submit [OF assms(1)] assms(1) by fastforce
qed

lemma sendBatch_ok:
  assumes "net_ok nw w" "ss_peerConn s = Some n"
  shows "sendBatch nw L now lat batch s = s\<lparr>ss_peerConn := Some (fold (put_sync w L) batch n),
    ss_stats := (ss_stats s)\<lparr>SentCount := counted (length batch) (SentCount (ss_stats s)), LastSyncTime := now,
      AvgLatency := average (AvgLatency (ss_stats s)) lat\<rparr>\<rparr>"
  using assms by (simp add: sendBatch_def sync_IsConnected_def send_loop_ok sync_updateStats_def)

lemma primary_turn:
  assumes "net_ok nw w" "primary_inv w L c n k acc sent s" "syncProcessor nw L now lat t s = Some s'"
  shows "\<exists>sent'. primary_inv w L c n k acc sent' s'"
proof (cases t)
  case ProcDone
  then show ?thesis using assms(2,3) by (simp add: syncProcessor_def primary_inv_def split: if_splits)
next
  case ProcTick
  then have "primary_inv w L c n k acc (sent @ ss_batch s) s'"
    using assms by (auto simp: syncProcessor_def primary_inv_def sendBatch_ok split: if_splits)
  then show ?thesis ..
next
  case ProcRecv
  with assms(2,3) obtain msg rest where q: "ss_syncChan s = msg # rest"
    by (cases "ss_syncChan s") (auto simp: syncProcessor_def primary_inv_def split: if_splits)
  let ?s1 = "s\<lparr>ss_syncChan := rest, ss_batch := ss_batch s @ [msg]\<rparr>"
  show ?thesis
  proof (cases "sc_SyncBatchSize (ss_config s) \<le> int (length (ss_batch ?s1)) \<or> isUrgentMessage msg")
    case True
    then have "s' = (sendBatch nw L now lat (ss_batch ?s1) ?s1)\<lparr>ss_batch := []\<rparr>"
      using assms(2,3) q ProcRecv by (simp add: syncProcessor_def primary_inv_def Let_def)
    then have "primary_inv w L c n k acc (sent @ ss_batch s @ [msg]) s'"
      using assms(1,2) q by (auto simp: primary_inv_def sendBatch_ok)
    then show ?thesis ..
  next
    case False
    then have "s' = ?s1" using assms(2,3) q ProcRecv by (simp add: syncProcessor_def primary_inv_def Let_def)
    then have "primary_inv w L c n k acc sent s'" using assms(2) q False by (auto simp: primary_inv_def)
    then show ?thesis ..
  qed
qed

lemma sync_run_op:
  "\<nexists>now lat c. x = OpTurn now lat c \<Longrightarrow> op_result x s = Some (r, s') \<Longrightarrow>
   sync_run nw L (x # xs) s =
     map_option (\<lambda>(acc, s2). (if r = None then op_message x # acc else acc, s2)) (sync_run nw L xs s')"
  by (cases x; hypsubst; simp)

lemma primary_run:
  assumes "net_ok nw w" "primary_inv w L c n k acc sent s"
  shows "\<exists>as s' sent'. sync_run nw L xs s = Some (as, s') \<and> primary_inv w L c n k (acc @ as) sent' s'"
  using assms(2)
proof (induction xs arbitrary: acc sent s)
  case (Cons x xs)
  show ?case
  proof (cases "\<exists>now lat c. x = OpTurn now lat c")
    case True
    then obtain now lat t where x: "x = OpTurn now lat t" by blast
    obtain sent1 where "primary_inv w L c n k acc sent1 (case syncProcessor nw L now lat t s of None \<Rightarrow> s | Some s' \<Rightarrow> s')"
      using primary_turn [OF assms(1) Cons.prems, of now lat t] Cons.prems
      by (cases "syncProcessor nw L now lat t s") auto
    then show ?thesis using Cons.IH x by simp
  next
    case False
    obtain r s1 where r: "op_result x s = Some (r, s1)"
      "primary_inv w L c n k (if r = None then acc @ [op_message x] else acc) sent s1"
      using primary_op [OF Cons.prems False] by blast
    obtain as s' sent' where "sync_run nw L xs s1 = Some (as, s')"
      "primary_inv w L c n k ((if r = None then acc @ [op_message x] else acc) @ as) sent' s'"
      using Cons.IH [OF r(2)] by blast
    then show ?thesis using sync_run_op [OF False r(1)] by (cases r) auto
  qed
qed (use assms in auto)

text \<open>C35. Whatever a primary is asked to synchronise that is connected, running and has nothing collected or waiting, and
  however that interleaves with the turns of the processing goroutine, the messages it accepts go out, as long as every
  write succeeds and the service is not stopped, in the order they were accepted, each once:
  written, then collected, then waiting, with the channel within its capacity and fewer collected
  messages than a batch; the counter counts those written. \<close>

theorem sync_fifo:
  assumes "net_ok nw w" "ss_peerConn s = Some n" "ss_processing s" "\<not> ss_cancelled s" "\<not> ss_chanClosed s"
    "ss_batch s = []" "ss_syncChan s = []"
  shows "\<exists>accepted sent s'. sync_run nw L xs s = Some (accepted, s') \<and>
    accepted = sent @ ss_batch s' @ ss_syncChan s' \<and> ss_peerConn s' = Some (fold (put_sync w L) sent n) \<and>
    SentCount (ss_stats s') = counted (length sent) (SentCount (ss_stats s)) \<and>
    int (length (ss_syncChan s')) \<le> max 0 (sc_BufferSize (ss_config s)) \<and>
    int (length (ss_batch s')) \<le> max 0 (sc_SyncBatchSize (ss_config s) - 1)"
proof -
  have "primary_inv w L (ss_config s) n (SentCount (ss_stats s)) [] [] s"
    using assms(2-) by (simp add: primary_inv_def)
  from primary_run [OF assms(1) this, of xs] show ?thesis by (auto simp: primary_inv_def)
qed

text \<open>A network on which every write arrives as one chunk.\<close>

definition chunk_net :: "bytes list net" where
  "chunk_net = \<lparr>net_Dial = (\<lambda>_. Inr []), net_Write = (\<lambda>n d. (n @ [d], None)), net_Error = (\<lambda>_. None)\<rparr>"

definition toy_json :: json_lib where
  "toy_json = \<lparr>jl_text = (\<lambda>_. [1]), jl_parse = (\<lambda>_. Inr JNull), jl_float = (\<lambda>n. n), jl_push = (\<lambda>_. JNull),
     jl_unpush = (\<lambda>_. Inl ErrJson)\<rparr>"

definition toy_sync :: sync_config where
  "toy_sync = \<lparr>sc_Enabled = True, sc_Mode = ModePrimary, sc_PeerAddr = ''b:1'', sc_HeartbeatInterval = 2 * Second,
     sc_SyncBatchSize = 3, sc_SyncTimeout = 200 * Millisecond, sc_ReadOnly = False, sc_BufferSize = 2\<rparr>"

definition toy_primary :: "bytes list sync_service" where
  "toy_primary = the (sync_Start (sync_tryConnect chunk_net (the (NewSyncService 5 toy_sync))))"

definition toy_ops :: "bytes sync_op list" where
  "toy_ops = [OpDelete 1 ''a'', OpFull 2, OpDelete 3 ''c'', OpTurn 4 1 ProcRecv]"

theorem sync_fifo_witness:
  "\<exists>accepted sent s'. sync_run chunk_net toy_json toy_ops toy_primary = Some (accepted, s') \<and>
     map sm_Timestamp accepted = [1, 2] \<and> accepted = sent @ ss_batch s' @ ss_syncChan s' \<and> length sent = 1 \<and>
     length (ss_syncChan s') \<le> 2"
proof -
  let ?w = "\<lambda>n d. n @ [d]"
  have p: "net_ok chunk_net ?w" by (simp add: net_ok_def chunk_net_def)
  have s: "ss_peerConn toy_primary = Some []" "ss_processing toy_primary" "\<not> ss_cancelled toy_primary"
    "\<not> ss_chanClosed toy_primary" "ss_batch toy_primary = []" "ss_syncChan toy_primary = []"
    "sc_BufferSize (ss_config toy_primary) = 2" by code_simp+
  obtain accepted sent s' where r: "sync_run chunk_net toy_json toy_ops toy_primary = Some (accepted, s')"
    "accepted = sent @ ss_batch s' @ ss_syncChan s'" "int (length (ss_syncChan s')) \<le> max 0 2"
    using sync_fifo [OF p s(1-6), of toy_json toy_ops] s(7) by auto
  have "map_option (\<lambda>(a, s'). (map sm_Timestamp a, length (ss_batch s'), length (ss_syncChan s')))
      (sync_run chunk_net toy_json toy_ops toy_primary) = Some ([1, 2], 0, 1)" by code_simp
  then have "map sm_Timestamp accepted = [1, 2]" "length (ss_batch s') = 0" "length (ss_syncChan s') = 1"
    using r(1) by simp_all
  moreover from this have "length sent = 1" using arg_cong [OF r(2), of length] by (simp flip: length_map [of sm_Timestamp accepted])
  ultimately show ?thesis using r by auto
qed

section \<open>The receiver\<close>

lemma read_header: "readUint32 (be32 v # cs) = (Inr v, cs)"
proof -
  have "or (or (or (push_bit 24 (ucast (ucast (drop_bit 24 v) :: byte))) (push_bit 16 (ucast (ucast (drop_bit 16 v) :: byte))))
      (push_bit 8 (ucast (ucast (drop_bit 8 v) :: byte)))) (ucast (ucast v :: byte)) = (v :: u32)"
  proof (rule bit_word_eqI)
    fix n assume "n < LENGTH(32)"
    then consider "n < 8" | "8 \<le> n" "n < 16" | "16 \<le> n" "n < 24" | "24 \<le> n" "n < 32" by fastforce
    then show "bit (or (or (or (push_bit 24 (ucast (ucast (drop_bit 24 v) :: byte))) (push_bit 16 (ucast (ucast (drop_bit 16 v) :: byte))))
      (push_bit 8 (ucast (ucast (drop_bit 8 v) :: byte)))) (ucast (ucast v :: byte)) :: u32) n = bit v n"
      by cases (auto simp: bit_simps)
  qed
  then show ?thesis by (simp add: readUint32_def be32_def)
qed

lemma length_u32: "length d \<le> 10 * 1024 * 1024 \<Longrightarrow> unat (of_nat (length d) :: u32) = length d \<and> \<not> 10 * 1024 * 1024 < (of_nat (length d) :: u32)"
  by (simp add: unsigned_of_nat take_bit_nat_eq_self word_less_nat_alt)

definition decoded :: "err + json sync_message \<Rightarrow> backup_error + json sync_message" where
  "decoded x = (case x of Inl e \<Rightarrow> Inl (BWrap ''readMessage: json'' (BExternal e)) | Inr msg \<Rightarrow> Inr msg)"

lemma read_frame:
  assumes "d \<noteq> []" "length d \<le> 10 * 1024 * 1024"
  shows "receiver_readMessage L (be32 (of_nat (length d)) # d # cs) = (decoded (json_Unmarshal L d), cs)"
  using assms length_u32 [OF assms(2)]
  by (cases d) (simp_all add: receiver_readMessage_def read_header decoded_def split: sum.split)

text \<open>One Read is not enough: when the bytes of a message come in two parts, the receiver decodes the
  first part followed by zeros, and takes the second part for the header of the next message. \<close>

theorem short_read:
  assumes "b1 \<noteq> []" "b2 \<noteq> []" "length (b1 @ b2) \<le> 10 * 1024 * 1024"
  shows "receiver_readMessage L (be32 (of_nat (length (b1 @ b2))) # b1 # b2 # cs) =
    (decoded (json_Unmarshal L (b1 @ replicate (length b2) 0)), b2 # cs)"
  using assms length_u32 [OF assms(3)]
  by (cases b1) (simp_all add: receiver_readMessage_def read_header decoded_def split: sum.split)

theorem short_read_witness:
  "receiver_readMessage toy_json [be32 3, [7], [8, 9], be32 1, [5]] =
    (decoded (json_Unmarshal toy_json [7, 0, 0]), [[8, 9], be32 1, [5]])"
  using short_read [of "[7]" "[8, 9]" toy_json "[be32 1, [5]]"] by (simp add: numeral_2_eq_2)

lemma process_session:
  assumes "json_ok L" "small_session d" "sm_Type msg = SyncTypeUpdateSession"
    "sm_Data msg = via_any (jl_float L) (enc_session L d)" "sm_Checksum msg = CalculateChecksum (CheckSession d)"
  shows "processMessage e L now r msg m =
    (map_option (BWrap ''handleSessionSync: validate'') (ValidateSession (Some d)), m)"
  using assms dec_enc_session [OF assms(1,2)]
  by (simp add: processMessage_def handleSessionSync_def VerifyChecksum_def updateLocalSession_def split: option.split)

lemma loop_connections:
  "receiver_loop e L tn i conn rm = (r', m') \<Longrightarrow> rv_connections r' = rv_connections (fst rm)"
proof (induction e L tn i conn rm arbitrary: r' m' rule: receiver_loop.induct)
  case (1 e L tn i conn r m0)
  show ?case using 1(3) 1(1,2) [OF refl]
    by (subst (asm) receiver_loop.simps)
      (fastforce simp: receiver_updateStats_def Let_def split: if_splits sum.splits prod.splits option.splits)
qed

text \<open>The messages of a primary that synchronises sessions, as their connection brings them.\<close>

definition session_msgs :: "(time \<times> 'x session) list \<Rightarrow> smsg list" where
  "session_msgs xs = map (\<lambda>(t, s). op_message (OpSession t (s_ID s) s)) xs"

definition sendable :: "json_lib \<Rightarrow> smsg \<Rightarrow> bool" where
  "sendable L msg \<longleftrightarrow> text_ok L msg \<and> in_i64 (sm_Timestamp msg) \<and> json_Marshal L msg \<noteq> [] \<and>
     length (json_Marshal L msg) \<le> 10 * 1024 * 1024"

definition wire :: "json_lib \<Rightarrow> smsg list \<Rightarrow> bytes list" where
  "wire L msgs = concat (map (\<lambda>m. [be32 (of_nat (length (json_Marshal L m))), json_Marshal L m]) msgs)"

lemma fold_put_wire: "fold (put_sync (\<lambda>n d. n @ [d]) L) msgs n = n @ wire L msgs"
  by (induction msgs arbitrary: n) (simp_all add: wire_def put_sync_def Let_def)

definition quiet :: "'x turns \<Rightarrow> bool" where
  "quiet tn \<longleftrightarrow> (\<forall>i. \<not> tn_halt tn i \<and> tn_others tn i = id)"

lemma loop_sessions:
  assumes "json_ok L" "quiet tn" "\<forall>(t, s) \<in> set xs. small_session (convertSessionToSyncData s)"
    "\<forall>msg \<in> set (session_msgs xs). sendable L msg" "receiver_loop e L tn i (wire L (session_msgs xs)) (r, m) = (r', m')"
  shows "m' = m \<and>
    ReceivedCount (rv_stats r') = counted (length (filter (\<lambda>(t, s). ValidateSession (Some (convertSessionToSyncData s)) = None) xs)) (ReceivedCount (rv_stats r)) \<and>
    ErrorCount (rv_stats r') = counted (length (filter (\<lambda>(t, s). ValidateSession (Some (convertSessionToSyncData s)) \<noteq> None) xs)) (ErrorCount (rv_stats r))"
  using assms(3-)
proof (induction xs arbitrary: i r)
  case Nil
  then show ?case using assms(2)
    by (simp add: wire_def session_msgs_def quiet_def receiver_loop.simps receiver_readMessage_def readUint32_def)
next
  case (Cons x xs)
  obtain t s where x: "x = (t, s)" by (metis surj_pair)
  let ?d = "convertSessionToSyncData s" and ?msg = "op_message (OpSession t (s_ID s) s)"
  have m: "sendable L ?msg" "small_session ?d" using Cons.prems x by (simp_all add: session_msgs_def)
  let ?dec = "\<lparr>sm_Type = SyncTypeUpdateSession, sm_SessionID = s_ID s, sm_Timestamp = t,
      sm_Data = via_any (jl_float L) (enc_session L ?d), sm_Checksum = CalculateChecksum (CheckSession ?d)\<rparr>"
  have "receiver_readMessage L (wire L (session_msgs (x # xs))) = (Inr ?dec, wire L (session_msgs xs))"
    using m(1) read_frame [of "json_Marshal L ?msg" L "wire L (session_msgs xs)"] json_trip [of L ?msg]
    by (simp add: x session_msgs_def wire_def sendable_def decoded_def enc_data_def)
  moreover have "processMessage e L (tn_clock tn i) r ?dec m =
      (map_option (BWrap ''handleSessionSync: validate'') (ValidateSession (Some ?d)), m)"
    by (rule process_session [OF assms(1) m(2)]) simp_all
  ultimately have step: "receiver_loop e L tn i (wire L (session_msgs (x # xs))) (r, m) =
    receiver_loop e L tn (Suc i) (wire L (session_msgs xs))
      (receiver_updateStats (\<lambda>st. if ValidateSession (Some ?d) = None
         then st\<lparr>ReceivedCount := i64 (ReceivedCount st + 1), LastSyncTime := tn_clock tn i\<rparr>
         else st\<lparr>ErrorCount := i64 (ErrorCount st + 1)\<rparr>) r, m)"
    using assms(2) by (simp add: receiver_loop.simps [of _ _ _ _ "wire L (session_msgs (x # xs))"] quiet_def split: option.split)
  show ?case
    using Cons.IH [OF _ _ Cons.prems(3) [unfolded step]] Cons.prems(1,2)
    by (auto simp: x session_msgs_def receiver_updateStats_def)
qed

text \<open>The messages accepted by a run that only synchronises sessions.\<close>

definition session_op :: "'x sync_op \<Rightarrow> (time \<times> 'x session) \<Rightarrow> bool" where
  "session_op x ts \<longleftrightarrow> x = OpSession (fst ts) (s_ID (snd ts)) (snd ts)"

lemma run_accepts_sessions:
  assumes "sync_run nw L xs s = Some (acc, s')"
    "\<forall>x \<in> set xs. (\<exists>ts. session_op x ts \<and> P ts) \<or> (\<exists>now lat c. x = OpTurn now lat c)"
  shows "\<exists>ys. acc = session_msgs ys \<and> (\<forall>ts \<in> set ys. P ts)"
  using assms
proof (induction xs arbitrary: s acc)
  case Nil
  then show ?case by (intro exI [of _ "[]"]) (simp add: session_msgs_def)
next
  case (Cons x xs)
  show ?case
  proof (cases "\<exists>now lat c. x = OpTurn now lat c")
    case True
    then show ?thesis using Cons by auto
  next
    case False
    then obtain ts where ts: "session_op x ts" "P ts" using Cons.prems(2) by auto
    obtain r s1 where r: "op_result x s = Some (r, s1)"
      using Cons.prems(1) ts(1) by (auto simp: session_op_def split: option.splits)
    then obtain acc1 where acc: "sync_run nw L xs s1 = Some (acc1, s')" "acc = (if r = None then op_message x # acc1 else acc1)"
      using Cons.prems(1) sync_run_op [OF False r] by auto
    obtain ys where ys: "acc1 = session_msgs ys" "\<forall>ts \<in> set ys. P ts" using Cons.IH [OF acc(1)] Cons.prems(2) by auto
    have "acc = session_msgs (if r = None then ts # ys else ys)"
      using ts(1) ys(1) acc(2) by (auto simp: session_op_def session_msgs_def split: prod.split)
    then show ?thesis using ts(2) ys(2) by (intro exI [of _ "if r = None then ts # ys else ys"]) simp
  qed
qed

text \<open>C31. From the sessions of a primary to the counters of the backup server: a connected primary whose sessions are
  synchronised, in any interleaving with the turns of its processing goroutine and over a connection on which every
  write succeeds and arrives as one unit, has sent the first of the accepted sessions, the rest being collected or
  waiting; of those sent the receiver counts as received the ones its validation accepts and as errors the others, and
  no session of the backup changes. The JSON library reads back what it wrote and fits numbers up to 2 ^ 53, which
  those of the sessions do not exceed; the texts are at most 10 MiB and not empty; the receiver is not stopped meanwhile
  and nothing else acts on it. (A connection that splits a write breaks the receiver, by the lemma on short reads.) \<close>

theorem sync_pipeline:
  fixes xs :: "'x sync_op list"
  assumes "json_ok L" "quiet tn" "ss_peerConn s = Some []" "ss_processing s" "\<not> ss_cancelled s" "\<not> ss_chanClosed s"
    "ss_batch s = []" "ss_syncChan s = []"
    "\<forall>x \<in> set xs. (\<exists>ts. session_op x ts \<and> small_session (convertSessionToSyncData (snd ts)) \<and> sendable L (op_message x)) \<or>
       (\<exists>now lat c. x = OpTurn now lat c)"
    "good = (\<lambda>(t :: time, x :: 'x session). ValidateSession (Some (convertSessionToSyncData x)) = None)"
  shows "\<exists>ys zs s' conn. sync_run chunk_net L xs s = Some (session_msgs (ys @ zs), s') \<and> ss_peerConn s' = Some conn \<and>
    session_msgs zs = ss_batch s' @ ss_syncChan s' \<and>
    (\<forall>r' m'. receiver_handleConnection e L tn addr conn (r, m) = (r', m') \<longrightarrow>
      m' = m \<and> rv_connections r' = gm_del addr (gm_put addr () (rv_connections r)) \<and>
      ReceivedCount (rv_stats r') = counted (length (filter good ys)) (ReceivedCount (rv_stats r)) \<and>
      ErrorCount (rv_stats r') = counted (length (filter (Not \<circ> good) ys)) (ErrorCount (rv_stats r)))"
proof -
  have nw: "net_ok chunk_net (\<lambda>n d. n @ [d])" by (simp add: net_ok_def chunk_net_def)
  have "primary_inv (\<lambda>n d. n @ [d]) L (ss_config s) [] (SentCount (ss_stats s)) [] [] s"
    using assms(3-8) by (simp add: primary_inv_def)
  from primary_run [OF nw this, of xs] obtain acc s' sent where
    run: "sync_run chunk_net L xs s = Some (acc, s')" "acc = sent @ ss_batch s' @ ss_syncChan s'"
      "ss_peerConn s' = Some (wire L sent)"
    by (auto simp: primary_inv_def fold_put_wire)
  let ?P = "\<lambda>ts :: time \<times> 'x session. small_session (convertSessionToSyncData (snd ts)) \<and> sendable L (op_message (OpSession (fst ts) (s_ID (snd ts)) (snd ts)))"
  have "(\<exists>ts. session_op x ts \<and> ?P ts) \<or> (\<exists>now lat c. x = OpTurn now lat c)" if "x \<in> set xs" for x
    using bspec [OF assms(9) that] by (auto simp: session_op_def)
  then have "\<forall>x \<in> set xs. (\<exists>ts. session_op x ts \<and> ?P ts) \<or> (\<exists>now lat c. x = OpTurn now lat c)" by (rule ballI)
  from run_accepts_sessions [where P = ?P, OF run(1) this] obtain all :: "(time \<times> 'x session) list" where all: "acc = session_msgs all" "\<forall>ts \<in> set all. ?P ts"
    by blast
  define n where "n = length sent"
  let ?ys = "take n all" and ?zs = "drop n all"
  have parts: "sent = session_msgs ?ys" "ss_batch s' @ ss_syncChan s' = session_msgs ?zs"
    using arg_cong [OF all(1), of "take (length sent)"] arg_cong [OF all(1), of "drop (length sent)"] run(2)
    unfolding session_msgs_def take_map drop_map n_def by simp_all
  have ok: "\<forall>(t, s) \<in> set ?ys. small_session (convertSessionToSyncData s)" "\<forall>msg \<in> set (session_msgs ?ys). sendable L msg"
    using all(2) by (fastforce simp: session_msgs_def dest: in_set_takeD)+
  have "m' = m \<and> rv_connections r' = gm_del addr (gm_put addr () (rv_connections r)) \<and>
      ReceivedCount (rv_stats r') = counted (length (filter good ?ys)) (ReceivedCount (rv_stats r)) \<and>
      ErrorCount (rv_stats r') = counted (length (filter (Not \<circ> good) ?ys)) (ErrorCount (rv_stats r))"
    if h: "receiver_handleConnection e L tn addr (wire L sent) (r, m) = (r', m')" for r' m'
  proof -
    let ?r = "r\<lparr>rv_connections := gm_put addr () (rv_connections r)\<rparr>"
    obtain r1 where l: "receiver_loop e L tn 0 (wire L sent) (?r, m) = (r1, m')" "r' = r1\<lparr>rv_connections := gm_del addr (rv_connections r1)\<rparr>"
      using h by (auto simp: receiver_handleConnection_def split: prod.splits)
    have "rv_connections r1 = rv_connections ?r" using loop_connections [OF l(1)] by simp
    then show ?thesis
      using loop_sessions [OF assms(1,2) ok l(1) [unfolded parts(1)]] l(2) assms(10) by (simp add: case_prod_beta' comp_def)
  qed
  moreover have "session_msgs (?ys @ ?zs) = acc" using all(1) by simp
  ultimately show ?thesis using run(1,3) parts(2) by (intro exI [of _ ?ys] exI [of _ ?zs] exI [of _ s'] exI [of _ "wire L sent"]) simp
qed

text \<open>Two sessions, one of a user and one without, and a JSON library that knows their two documents.\<close>

definition toy_sessions :: "(time \<times> bytes session) list" where
  "toy_sessions = [(7, new_session ''s1'' 1 [] ''c'' ''ann'' ''ip''), (8, new_session ''s2'' 1 [] ''c'' [] ''ip'')]"

definition toy_docs :: json_lib where
  "toy_docs = toy_json\<lparr>
     jl_text := (\<lambda>v. if v = enc_sync toy_json (session_msgs toy_sessions ! 0) then [1] else [2]),
     jl_parse := (\<lambda>d. Inr (enc_sync toy_json (session_msgs toy_sessions ! (if d = [1] then 0 else 1))))\<rparr>"

definition toy_turns :: "bytes turns" where
  "toy_turns = \<lparr>tn_halt = (\<lambda>_. False), tn_others = (\<lambda>_. id), tn_clock = (\<lambda>_. 9)\<rparr>"

definition toy_run :: "bytes sync_op list" where
  "toy_run = [OpSession 7 ''s1'' (snd (toy_sessions ! 0)), OpTurn 8 1 ProcRecv, OpSession 8 ''s2'' (snd (toy_sessions ! 1)),
     OpTurn 9 1 ProcRecv, OpTurn 10 1 ProcTick]"

lemma toy_primary_eq:
  "toy_primary = \<lparr>ss_config = toy_sync, ss_syncAddr = ''b:1'', ss_peerConn = Some [], ss_syncChan = [], ss_chanClosed = False,
     ss_reconnectCh = False, ss_stats = zero_stats\<lparr>LastSyncTime := 5, st_IsConnected := True\<rparr>, ss_cancelled = False,
     ss_stopped = False, ss_batch = [], ss_processing = True, ss_managing = True\<rparr>"
  by (simp add: toy_primary_def NewSyncService_def NewSyncServiceWithAddr_def toy_sync_def sync_tryConnect_def chunk_net_def
      sync_updateStats_def sync_Start_def Millisecond_def)

theorem sync_pipeline_witness:
  "\<exists>acc s' conn r' m'. sync_run chunk_net toy_docs toy_run toy_primary = Some (acc, s') \<and> ss_peerConn s' = Some conn \<and>
     receiver_handleConnection toy_ext toy_docs toy_turns ''p'' conn (newSyncReceiver toy_sync, NewManager 1 1 1) = (r', m') \<and>
     ReceivedCount (rv_stats r') + ErrorCount (rv_stats r') = 2"
proof -
  let ?good = "\<lambda>(t :: time, s :: bytes session). ValidateSession (Some (convertSessionToSyncData s)) = None"
  have enc: "enc_sync toy_docs msg = enc_sync toy_json msg" if "msg \<in> set (session_msgs toy_sessions)" for msg
    using that by (auto simp: session_msgs_def toy_docs_def enc_sync_def enc_data_def enc_session_def convertSessionToSyncData_def)
  have "enc_sync toy_json (session_msgs toy_sessions ! 1) \<noteq> enc_sync toy_json (session_msgs toy_sessions ! 0)"
    by (simp add: session_msgs_def toy_sessions_def enc_sync_def new_session_def)
  then have send: "\<forall>msg \<in> set (session_msgs toy_sessions). sendable toy_docs msg"
    using enc by (auto simp: sendable_def text_ok_def json_Marshal_def session_msgs_def toy_sessions_def toy_docs_def in_i64_def)
  have small: "\<forall>(t, s) \<in> set toy_sessions. small_session (convertSessionToSyncData s)"
    by (simp add: toy_sessions_def new_session_def convertSessionToSyncData_def small_session_def small_def small_queue_def
        num_state_def State_def Zone_def session_ServerSeq_def MaxClientSeq_def GetOrderedQueue_def GetQueueStats_def
        NewOrderedMessageQueue_def)
  have j: "json_ok toy_docs" "quiet toy_turns" by (simp_all add: json_ok_def toy_docs_def toy_json_def quiet_def toy_turns_def)
  have p: "ss_peerConn toy_primary = Some []" "ss_processing toy_primary" "\<not> ss_cancelled toy_primary"
    "\<not> ss_chanClosed toy_primary" "ss_batch toy_primary = []" "ss_syncChan toy_primary = []" by code_simp+
  have ops: "\<forall>x \<in> set toy_run. (\<exists>ts. session_op x ts \<and> small_session (convertSessionToSyncData (snd ts)) \<and> sendable toy_docs (op_message x)) \<or>
       (\<exists>now lat c. x = OpTurn now lat c)"
    using send small by (auto simp: toy_run_def session_op_def session_msgs_def toy_sessions_def new_session_def)
  let ?rv = "newSyncReceiver toy_sync"
  from sync_pipeline [OF j p ops refl, of toy_ext "''p''" ?rv "NewManager 1 1 1"]
  obtain ys zs s' conn where run: "sync_run chunk_net toy_docs toy_run toy_primary = Some (session_msgs (ys @ zs), s')"
    "ss_peerConn s' = Some conn" "session_msgs zs = ss_batch s' @ ss_syncChan s'"
    "\<forall>r' m'. receiver_handleConnection toy_ext toy_docs toy_turns ''p'' conn (?rv, NewManager 1 1 1) = (r', m') \<longrightarrow>
      m' = NewManager 1 1 1 \<and> rv_connections r' = gm_del ''p'' (gm_put ''p'' () (rv_connections ?rv)) \<and>
      ReceivedCount (rv_stats r') = counted (length (filter ?good ys)) (ReceivedCount (rv_stats ?rv)) \<and>
      ErrorCount (rv_stats r') = counted (length (filter (Not \<circ> ?good) ys)) (ErrorCount (rv_stats ?rv))"
    by (elim exE conjE) (rule that; assumption)
  have zero: "ReceivedCount (rv_stats ?rv) = 0" "ErrorCount (rv_stats ?rv) = 0"
    by (simp_all add: newSyncReceiver_def newSyncReceiverWithAddr_def zero_stats_def)
  have "map_option (\<lambda>(a, s'). (length a, length (ss_batch s'), length (ss_syncChan s')))
      (sync_run chunk_net toy_docs toy_run toy_primary) = Some (2, 0, 0)"
    by (simp add: toy_run_def toy_primary_eq SyncSession_def sync_IsConnected_def submit_def syncProcessor_def sendBatch_def
        isUrgentMessage_def sync_sendMessage_def writeUint32_def chunk_net_def sync_updateStats_def toy_sync_def Let_def)
  then have len: "length (ys @ zs) = 2" "zs = []" using run(1,3) by (simp_all add: session_msgs_def)
  obtain r' m' where h: "receiver_handleConnection toy_ext toy_docs toy_turns ''p'' conn (newSyncReceiver toy_sync, NewManager 1 1 1) = (r', m')"
    by (metis surj_pair)
  have "length (filter ?good ys) + length (filter (Not \<circ> ?good) ys) = 2"
    using sum_length_filter_compl [of ?good ys] len by (simp add: comp_def)
  moreover have "counted x 0 = int x" if "x \<le> 2" for x
  proof -
    from that have "x = 0 \<or> x = 1 \<or> x = 2" by arith
    then show ?thesis by (elim disjE) (simp_all add: numeral_2_eq_2 i64_def)
  qed
  ultimately have "ReceivedCount (rv_stats r') + ErrorCount (rv_stats r') = 2"
    using run(4) h unfolding zero by (simp del: filter.simps)
  then show ?thesis using run(1,2) h by blast
qed

section \<open>What the backup takes over\<close>

definition session_data :: "'x session \<Rightarrow> string \<times> string \<times> string \<times> session_state \<times> int \<times> u64 \<times> u64 \<times> u64" where
  "session_data s = (s_ID s, s_OpenID s, s_ClientID s, s_state s, s_zone s, s_serverSeq s, s_maxClientSeq s, s_clientAckServerSeq s)"

text \<open>No session added, and no data of a stored one changed.\<close>

definition nothing_gained :: "'x manager \<Rightarrow> 'x manager \<Rightarrow> bool" where
  "nothing_gained m m' \<longleftrightarrow> map session_data (m_store m') = map session_data (m_store m) \<and>
     (\<forall>sid r. GetSession sid m' = Some r \<longrightarrow> GetSession sid m = Some r) \<and>
     (\<forall>u r. GetSessionByOpenID u m' = Some r \<longrightarrow> GetSessionByOpenID u m = Some r)"

lemma nothing_gained_refl [simp]: "nothing_gained m m"
  by (simp add: nothing_gained_def)

lemma nothing_gained_trans: "nothing_gained m m' \<Longrightarrow> nothing_gained m' m'' \<Longrightarrow> nothing_gained m m''"
  by (simp add: nothing_gained_def)

lemma map_list_update_same: "f (g (xs ! r)) = f (xs ! r) \<Longrightarrow> map f (xs[r := g (xs ! r)]) = map f xs"
  by (simp add: map_update) (metis list_update_id map_update)

lemma nothing_gained_upd:
  "(\<And>s. session_data (f s) = session_data s) \<Longrightarrow> nothing_gained m m' \<Longrightarrow> nothing_gained m (upd_sess r f m')"
  by (simp add: nothing_gained_def upd_sess_def map_list_update_same GetSession_def GetSessionByOpenID_def)

lemma close_data: "session_data (session_Close e s) = session_data s" "session_data (snd (SetClosed s)) = session_data s"
  by (simp_all add: session_data_def session_Close_def SetClosed_def)

lemma nothing_gained_remove: "nothing_gained m (immediateRemoveSession e sid m)"
proof (cases "gm_get (m_sessions m) sid")
  case (Some r)
  let ?m1 = "m\<lparr>m_sessions := gm_del sid (m_sessions m)\<rparr>"
  let ?m2 = "if s_OpenID (sess_at r m) \<noteq> [] then ?m1\<lparr>m_sessionsByUID := gm_del (s_OpenID (sess_at r m)) (m_sessionsByUID ?m1)\<rparr> else ?m1"
  have "nothing_gained m ?m2"
    by (auto simp: nothing_gained_def GetSession_def GetSessionByOpenID_def map_of_delete split: if_splits)
  then have "nothing_gained m (upd_sess r (session_Close e) ?m2)" using nothing_gained_upd close_data(1) by blast
  then show ?thesis by (simp add: immediateRemoveSession_def Some Let_def)
qed (simp add: immediateRemoveSession_def)

lemma nothing_gained_RemoveSession: "nothing_gained m (RemoveSession e now sid m)"
proof (cases "gm_get (m_sessions m) sid")
  case (Some r)
  have "RemoveSession e now sid m = immediateRemoveSession e sid (upd_sess r (\<lambda>s. snd (SetClosed s)) m)"
    by (simp add: RemoveSession_def RemoveSessionWithDelay_def Some Let_def upd_sess_def sess_at_def split: prod.split)
  then show ?thesis
    using nothing_gained_trans [OF nothing_gained_upd [OF close_data(2) nothing_gained_refl] nothing_gained_remove] by simp
qed (simp add: RemoveSession_def RemoveSessionWithDelay_def)

lemma nothing_gained_process: "nothing_gained m (snd (processMessage e L now r msg m))"
  by (simp add: processMessage_def handleSessionSync_def updateLocalSession_def handleSessionDelete_def handleQueueSync_def
      updateLocalQueue_def handleMessageSync_def updateLocalMessages_def receiver_handleHeartbeat_def
      receiver_OnHeartbeatReceived_def handleFullSyncRequest_def nothing_gained_RemoveSession
      split: sync_type.split sum.split option.split)

text \<open>The backup takes nothing over: whatever a connection brings, no session is added to the backup's
  manager and no number, state or zone of a stored session changes; messages can only remove sessions. \<close>

theorem backup_gains_nothing:
  assumes "\<And>i. tn_others tn i = id" "receiver_loop e L tn i conn (r, m) = (r', m')"
  shows "nothing_gained m m'"
  using assms(2)
proof (induction "length (concat conn)" arbitrary: i conn r m rule: less_induct)
  case less
  show ?case
  proof (cases "receiver_readMessage L conn")
    case (Pair x rest)
    show ?thesis
    proof (cases "tn_halt tn i \<or> (\<exists>err. x = Inl err)")
      case True
      then show ?thesis using less.prems assms(1) Pair by (auto simp: receiver_loop.simps [of _ _ _ _ conn] split: if_splits)
    next
      case False
      then obtain msg where x: "x = Inr msg" by (cases x) auto
      obtain y m1 where p: "processMessage e L (tn_clock tn i) r msg m = (y, m1)" by (metis surj_pair)
      have m1: "nothing_gained m m1" using nothing_gained_process [of m e L "tn_clock tn i" r msg] p by simp
      have "\<exists>r1. receiver_loop e L tn (Suc i) rest (r1, m1) = (r', m')"
        using less.prems assms(1) Pair x p False
        by (auto simp: receiver_loop.simps [of _ _ _ _ conn] split: option.splits)
      then show ?thesis
        using less.hyps [OF readMessage_shrinks [OF Pair [unfolded x]]] nothing_gained_trans [OF m1] by blast
    qed
  qed
qed

theorem backup_gains_nothing_witness:
  "nothing_gained (NewManager 1 1 1) (snd (receiver_loop toy_ext toy_docs toy_turns 0
     (wire toy_docs (session_msgs toy_sessions)) (newSyncReceiver toy_sync, NewManager 1 1 1)))"
proof -
  obtain r' m' where "receiver_loop toy_ext toy_docs toy_turns 0
     (wire toy_docs (session_msgs toy_sessions)) (newSyncReceiver toy_sync, NewManager 1 1 1) = (r', m')" by (metis surj_pair)
  then show ?thesis using backup_gains_nothing [of toy_turns] by (simp add: toy_turns_def)
qed

end
