(* ===== verification/Gateway_Failover.thy ===== *)
theory Gateway_Failover
  imports Gateway_Stream Backup_Link
begin

text \<open>
  The backup server and the clients of the primary: what a client meets that connects to the backup server
  after the primary has synchronised its sessions to it.
\<close>

text \<open>C34. A client that comes to the backup server starts over, whatever the primary has synchronised before: its new
  session is not logged in, its numbers start again, nothing the primary had sent it is repeated, and
  its business requests are refused until it has logged in. \<close>

theorem failover_forgets_session:
  assumes "\<And>i. tn_others tn i = id" "receiver_loop e L tn 0 conn (rv, sv_mgr sv) = (rv', m)"
    "GetSessionByOpenID u (sv_mgr sv) = None" "ev_ext ev = e"
    "handleFirstMessage ev now uuid ip t rd (sv\<lparr>sv_mgr := m\<rparr>) = (Inr (r, d), rd', sv')"
    "DecodeClientRequest (pb e) d = Inr req" "first_identity (pb e) req = (u, c)"
  shows "IsInited (sess_of r sv') \<and> \<not> CanProcessBusinessRequest (sess_of r sv') \<and> session_ServerSeq (sess_of r sv') = 0 \<and>
    MaxClientSeq (sess_of r sv') = 0 \<and> unacked (sess_of r sv') = {} \<and> \<not> IsSuccessor (sess_of r sv')"
proof -
  have "GetSessionByOpenID u m = None"
    using backup_gains_nothing [OF assms(1,2)] assms(3) unfolding nothing_gained_def by (metis not_Some_eq)
  then have none: "reconnect_candidate now u m = None" by (simp add: reconnect_candidate_def GetSessionByOpenID_def)
  obtain rc m1 where cr: "CreateOrReconnectSession e uuid now t c u ip m = (r, rc, m1)" "sv' = sv\<lparr>sv_mgr := m1\<rparr>"
    using assms(4-7) by (auto simp: handleFirstMessage_def split: sum.splits prod.splits)
  have s: "sess_of r sv' = new_session uuid now t c u ip"
    using cr(1) by (cases rule: create_cases) (use none in \<open>auto simp: cr(2) sess_of_def sess_at_def reconnect_candidate_def split: if_splits\<close>)
  show ?thesis
    by (simp add: s new_session_def IsInited_def State_def CanProcessBusinessRequest_def session_ServerSeq_def MaxClientSeq_def
        unacked_def NewOrderedMessageQueue_def IsSuccessor_def)
qed

theorem failover_forgets_session_witness:
  "IsInited (sess_of 0 (snd (snd (handleFirstMessage gw_env 5 ''s1'' ''ip'' [] client_bytes
     (gw_server\<lparr>sv_mgr := snd (receiver_loop gw_ext toy_docs toy_turns 0 (wire toy_docs (session_msgs toy_sessions))
       (newSyncReceiver toy_sync, sv_mgr gw_server))\<rparr>)))))"
proof -
  let ?l = "receiver_loop gw_ext toy_docs toy_turns 0 (wire toy_docs (session_msgs toy_sessions)) (newSyncReceiver toy_sync, sv_mgr gw_server)"
  obtain rv' m where l: "?l = (rv', m)" by (metis surj_pair)
  have turns: "tn_others toy_turns i = id" for i by (simp add: toy_turns_def)
  have none: "GetSessionByOpenID ''ann'' (sv_mgr gw_server) = None"
    by (simp add: gw_server_mgr NewManager_def GetSessionByOpenID_def)
  have rd: "ReadMessage client_bytes = (Inr [0], frame [1] @ frame [2])" by code_simp
  have req: "DecodeClientRequest gw_pb [0] = Inr (new_request 9 0 REQUEST_START [0] [])" by code_simp
  have id: "first_identity gw_pb (new_request 9 0 REQUEST_START [0] []) = (''ann'', ''c'')" by code_simp
  have pb: "pb (ev_ext gw_env) = gw_pb" "pb gw_ext = gw_pb" by (simp_all add: gw_env_def gw_ext_def)
  have len: "length (m_store m) = 0"
    using backup_gains_nothing [OF turns l] arg_cong [of _ _ length]
    by (simp add: nothing_gained_def gw_server_mgr NewManager_def)
  obtain r rc m1 where cr: "CreateOrReconnectSession (ev_ext gw_env) ''s1'' 5 [] ''c'' ''ann'' ''ip'' m = (r, rc, m1)"
    by (metis surj_pair)
  have "r = 0" using cr len by (cases rule: create_cases) simp_all
  then obtain sv' where f: "handleFirstMessage gw_env 5 ''s1'' ''ip'' [] client_bytes (gw_server\<lparr>sv_mgr := m\<rparr>) =
      (Inr (0, [0]), frame [1] @ frame [2], sv')"
    using cr by (simp add: handleFirstMessage_def rd req id pb)
  show ?thesis
    using failover_forgets_session [OF turns l none gw_ok(3) f] req id unfolding l pb by (simp add: f)
qed

end
