(* ===== verification/Backup_Heartbeat.thy ===== *)
theory Backup_Heartbeat
  imports Backup_Receiver
begin

text \<open>
  \<open>internal/backup/heartbeat.go\<close>: the heartbeats a primary sends and a backup server listens to, and the
  test whether the peer is alive.

  The session manager may be nil and is an argument of the operations that look at it. The time a
  message takes to send is an argument (\<open>latency\<close>), like the clock. What comes in over a connection is a
  list of chunks, as in \<open>Backup_Receiver\<close>; what goes out is written to a value of type \<open>'n\<close>.
\<close>

section \<open>State\<close>

record heartbeat_stats =
  hs_SentCount :: int
  hs_ReceivedCount :: int
  hs_FailedCount :: int
  hs_LastSentTime :: time
  hs_LastRecvTime :: time
  hs_AverageLatency :: duration
  hs_ConsecutiveFails :: int

record 'n heartbeat =
  hb_config :: sync_config
  hb_mode :: server_mode
  hb_serverID :: string
  hb_addr :: string
  hb_peerConn :: "'n option"
  hb_reconnectCh :: bool
  hb_listening :: bool
  hb_connections :: "(string \<times> unit) list"
  hb_lastPeerTime :: int
  hb_lastSelfTime :: int
  hb_cancelled :: bool
  hb_stopped :: bool
  hb_peerAlive :: bool
  hb_stats :: heartbeat_stats

definition NewHeartbeatServiceWithAddr :: "sync_config \<Rightarrow> server_mode \<Rightarrow> string \<Rightarrow> string \<Rightarrow> 'n heartbeat" where
  "NewHeartbeatServiceWithAddr c mode serverID addr =
     \<lparr>hb_config = c, hb_mode = mode, hb_serverID = serverID, hb_addr = addr, hb_peerConn = None,
      hb_reconnectCh = False, hb_listening = False, hb_connections = [], hb_lastPeerTime = 0, hb_lastSelfTime = 0,
      hb_cancelled = False, hb_stopped = False, hb_peerAlive = False,
      hb_stats = \<lparr>hs_SentCount = 0, hs_ReceivedCount = 0, hs_FailedCount = 0, hs_LastSentTime = ZeroTime,
        hs_LastRecvTime = ZeroTime, hs_AverageLatency = 0, hs_ConsecutiveFails = 0\<rparr>\<rparr>"

definition NewHeartbeatService :: "sync_config \<Rightarrow> server_mode \<Rightarrow> string \<Rightarrow> 'n heartbeat" where
  "NewHeartbeatService c mode serverID = NewHeartbeatServiceWithAddr c mode serverID (sc_PeerAddr c)"

definition setPeerAlive :: "bool \<Rightarrow> 'n heartbeat \<Rightarrow> 'n heartbeat" where
  "setPeerAlive b h = h\<lparr>hb_peerAlive := b\<rparr>"

definition updateLastPeerTime :: "int \<Rightarrow> 'n heartbeat \<Rightarrow> 'n heartbeat" where
  "updateLastPeerTime t h = h\<lparr>hb_lastPeerTime := t\<rparr>"

definition updateLastSelfTime :: "int \<Rightarrow> 'n heartbeat \<Rightarrow> 'n heartbeat" where
  "updateLastSelfTime t h = h\<lparr>hb_lastSelfTime := t\<rparr>"

definition heartbeat_updateStats :: "(heartbeat_stats \<Rightarrow> heartbeat_stats) \<Rightarrow> 'n heartbeat \<Rightarrow> 'n heartbeat" where
  "heartbeat_updateStats f h = h\<lparr>hb_stats := f (hb_stats h)\<rparr>"

definition IsPeerAlive :: "'n heartbeat \<Rightarrow> bool" where
  "IsPeerAlive h = hb_peerAlive h"

definition GetLastHeartbeatTime :: "'n heartbeat \<Rightarrow> int" where
  "GetLastHeartbeatTime h = hb_lastPeerTime h"

definition heartbeat_IsConnected :: "'n heartbeat \<Rightarrow> bool" where
  "heartbeat_IsConnected h \<longleftrightarrow> hb_peerConn h \<noteq> None"

definition heartbeat_isStopped :: "'n heartbeat \<Rightarrow> bool" where
  "heartbeat_isStopped h = hb_stopped h"

definition heartbeat_GetStats :: "'n heartbeat \<Rightarrow> heartbeat_stats" where
  "heartbeat_GetStats h = hb_stats h"

section \<open>The numbers a heartbeat reports\<close>

definition getSessionCount :: "'x manager option \<Rightarrow> int" where
  "getSessionCount mgr = (case mgr of None \<Rightarrow> 0 | Some m \<Rightarrow> GetSessionCount m)"

definition getQueueCount :: "'x manager option \<Rightarrow> int" where
  "getQueueCount mgr =
     (case mgr of
        None \<Rightarrow> 0
      | Some m \<Rightarrow> int (length (filter (\<lambda>r. GetOrderedQueue (sess_at r m) \<noteq> None) (GetAllSessions m))))"

definition isServerHealthy :: "'x manager option \<Rightarrow> bool" where
  "isServerHealthy mgr \<longleftrightarrow> mgr \<noteq> None"

definition getLastSyncTime :: "time \<Rightarrow> int" where
  "getLastSyncTime now = now"

text \<open>The message that \<open>SendHeartbeat\<close> and \<open>sendHeartbeatResponse\<close> build.\<close>

definition heartbeat_message :: "time \<Rightarrow> 'x manager option \<Rightarrow> 'n heartbeat \<Rightarrow> smsg" where
  "heartbeat_message now mgr h =
     \<lparr>sm_Type = SyncTypeHeartbeat, sm_SessionID = [], sm_Timestamp = now,
      sm_Data = HeartbeatData
        \<lparr>hd_ServerID = hb_serverID h, hd_Mode = hb_mode h, hd_Timestamp = now, hd_SessionCount = getSessionCount mgr,
         hd_QueueCount = getQueueCount mgr, hd_IsHealthy = isServerHealthy mgr, hd_LastSyncTime = getLastSyncTime now\<rparr>,
      sm_Checksum = 0\<rparr>"

section \<open>Sending\<close>

definition heartbeat_closeConnection :: "'n heartbeat \<Rightarrow> 'n heartbeat" where
  "heartbeat_closeConnection h =
     (if hb_peerConn h = None then h else setPeerAlive False (h\<lparr>hb_peerConn := None\<rparr>))"

definition sendHeartbeatToConnection ::
  "'n net \<Rightarrow> json_lib \<Rightarrow> smsg \<Rightarrow> 'n \<Rightarrow> backup_error option \<times> 'n" where
  "sendHeartbeatToConnection nw L msg conn =
     (let data = json_Marshal L msg in
      case writeUint32 nw conn (of_nat (length data)) of
        (n1, Some e) \<Rightarrow> (Some (BWrap ''sendHeartbeat: length'' (BExternal e)), n1)
      | (n1, None) \<Rightarrow>
          (case net_Write nw n1 data of
             (n2, Some e) \<Rightarrow> (Some (BWrap ''sendHeartbeat: data'' (BExternal e)), n2)
           | (n2, None) \<Rightarrow> (None, n2)))"

definition sendHeartbeatMessage ::
  "'n net \<Rightarrow> json_lib \<Rightarrow> smsg \<Rightarrow> 'n heartbeat \<Rightarrow> backup_error option \<times> 'n heartbeat" where
  "sendHeartbeatMessage nw L msg h =
     (case hb_peerConn h of
        None \<Rightarrow> (Some BNotConnected, h)
      | Some conn \<Rightarrow>
          (case sendHeartbeatToConnection nw L msg conn of (r, n) \<Rightarrow> (r, h\<lparr>hb_peerConn := Some n\<rparr>)))"

definition sendHeartbeatResponse ::
  "'n net \<Rightarrow> json_lib \<Rightarrow> time \<Rightarrow> 'x manager option \<Rightarrow> 'n heartbeat \<Rightarrow> 'n \<Rightarrow> backup_error option \<times> 'n" where
  "sendHeartbeatResponse nw L now mgr h conn = sendHeartbeatToConnection nw L (heartbeat_message now mgr h) conn"

definition SendHeartbeat ::
  "'n net \<Rightarrow> json_lib \<Rightarrow> time \<Rightarrow> duration \<Rightarrow> 'x manager option \<Rightarrow> 'n heartbeat \<Rightarrow> backup_error option \<times> 'n heartbeat" where
  "SendHeartbeat nw L now latency mgr h =
     (if \<not> heartbeat_IsConnected h then (Some BNotConnected, h)
      else (case sendHeartbeatMessage nw L (heartbeat_message now mgr h) h of
              (Some e, h1) \<Rightarrow>
                let h2 = heartbeat_updateStats (\<lambda>st. st\<lparr>hs_FailedCount := i64 (hs_FailedCount st + 1),
                      hs_ConsecutiveFails := i64 (hs_ConsecutiveFails st + 1)\<rparr>) h1
                in (Some e, (heartbeat_closeConnection h2)\<lparr>hb_reconnectCh := True\<rparr>)
            | (None, h1) \<Rightarrow>
                (None, updateLastSelfTime now
                   (heartbeat_updateStats (\<lambda>st. st\<lparr>hs_SentCount := i64 (hs_SentCount st + 1), hs_LastSentTime := now,
                      hs_ConsecutiveFails := 0, hs_AverageLatency := average (hs_AverageLatency st) latency\<rparr>) h1))))"

definition heartbeat_tryConnect :: "'n net \<Rightarrow> 'n heartbeat \<Rightarrow> 'n heartbeat" where
  "heartbeat_tryConnect nw h =
     (if heartbeat_isStopped h \<or> hb_peerConn h \<noteq> None then h
      else (case net_Dial nw (hb_addr h) of
              Inl _ \<Rightarrow> h
            | Inr n \<Rightarrow> setPeerAlive True (h\<lparr>hb_peerConn := Some n\<rparr>)))"

text \<open>Turns of the goroutines: a tick of the sender, of the connection manager, a reconnection request.\<close>

definition heartbeatSender ::
  "'n net \<Rightarrow> json_lib \<Rightarrow> time \<Rightarrow> duration \<Rightarrow> 'x manager option \<Rightarrow> 'n heartbeat \<Rightarrow> 'n heartbeat" where
  "heartbeatSender nw L now latency mgr h =
     (if hb_cancelled h then h else snd (SendHeartbeat nw L now latency mgr h))"

definition heartbeat_connectionManager :: "'n net \<Rightarrow> bool \<Rightarrow> 'n heartbeat \<Rightarrow> 'n heartbeat" where
  "heartbeat_connectionManager nw reconnect h =
     (if hb_cancelled h then h
      else if reconnect then
        (if hb_reconnectCh h then heartbeat_tryConnect nw (h\<lparr>hb_reconnectCh := False\<rparr>) else h)
      else if heartbeat_IsConnected h then h else heartbeat_tryConnect nw h)"

section \<open>Receiving\<close>

definition OnHeartbeatReceived :: "time \<Rightarrow> heartbeat_data \<Rightarrow> 'n heartbeat \<Rightarrow> backup_error option \<times> 'n heartbeat" where
  "OnHeartbeatReceived now data h =
     (None, heartbeat_updateStats (\<lambda>st. st\<lparr>hs_ReceivedCount := i64 (hs_ReceivedCount st + 1), hs_LastRecvTime := now\<rparr>)
        (setPeerAlive True (updateLastPeerTime (hd_Timestamp data) h)))"

text \<open>The message, with its data as heartbeat data if it is a heartbeat.\<close>

definition readHeartbeatMessage ::
  "json_lib \<Rightarrow> bytes list \<Rightarrow> (backup_error + json sync_message \<times> heartbeat_data option) \<times> bytes list" where
  "readHeartbeatMessage L conn =
     (case readUint32 conn of
        (Inl e, rest) \<Rightarrow> (Inl (BWrap ''readHeartbeat: length'' (BExternal e)), rest)
      | (Inr len, rest) \<Rightarrow>
          (case net_Read (unat len) rest of
             (Inl e, rest2) \<Rightarrow> (Inl (BWrap ''readHeartbeat: data'' (BExternal e)), rest2)
           | (Inr data, rest2) \<Rightarrow>
               (case json_Unmarshal L data of
                  Inl e \<Rightarrow> (Inl (BWrap ''readHeartbeat: json'' (BExternal e)), rest2)
                | Inr msg \<Rightarrow>
                    if sm_Type msg = SyncTypeHeartbeat then
                      (case dec_heartbeat (sm_Data msg) of
                         Inl e \<Rightarrow> (Inl (BExternal e), rest2)
                       | Inr hd' \<Rightarrow> (Inr (msg, Some hd'), rest2))
                    else (Inr (msg, None), rest2))))"

lemma readHeartbeat_shrinks:
  assumes "readHeartbeatMessage L cs = (Inr msg, rest)"
  shows "length (concat rest) < length (concat cs)"
proof -
  obtain r1 c1 where a: "net_Read 4 cs = (r1, c1)" by (metis surj_pair)
  then obtain buf where b: "r1 = Inr buf" using assms by (cases r1) (simp_all add: readHeartbeatMessage_def readUint32_def)
  have lt: "length (concat c1) < length (concat cs)" using net_Read_shrinks [of 4 cs buf] a b by simp
  have "\<exists>n r2. net_Read n c1 = (r2, rest)"
    using assms a b
    by (auto simp: readHeartbeatMessage_def readUint32_def split: if_splits prod.splits sum.splits)
  then obtain n where "snd (net_Read n c1) = rest" by (metis snd_conv)
  then show ?thesis using net_Read_shrinks [of n c1 "[]"] lt by simp
qed

text \<open>
  The loop of \<open>receiveHeartbeats\<close> on the connection of a primary, and the deferred end. Before turn \<open>i\<close> it
  sees whether the service is cancelled (\<open>halt i\<close>); \<open>clock i\<close> is the time. The read deadline makes \<open>Read\<close> fail:
  then the list of chunks ends.
\<close>

function receive_loop ::
  "json_lib \<Rightarrow> (nat \<Rightarrow> bool) \<Rightarrow> (nat \<Rightarrow> time) \<Rightarrow> nat \<Rightarrow> bytes list \<Rightarrow> 'n heartbeat \<Rightarrow> 'n heartbeat" where
  "receive_loop L halt clock i conn h =
     (if halt i then h
      else (case readHeartbeatMessage L conn of
              (Inl _, _) \<Rightarrow> h
            | (Inr (_, None), rest) \<Rightarrow> receive_loop L halt clock (Suc i) rest h
            | (Inr (_, Some d), rest) \<Rightarrow>
                receive_loop L halt clock (Suc i) rest (snd (OnHeartbeatReceived (clock i) d h))))"
  by pat_completeness auto
termination
  by (relation "measure (\<lambda>(_, _, _, _, conn, _). length (concat conn))") (auto dest: readHeartbeat_shrinks [OF sym])

declare receive_loop.simps [simp del]

definition receiveHeartbeats ::
  "json_lib \<Rightarrow> (nat \<Rightarrow> bool) \<Rightarrow> (nat \<Rightarrow> time) \<Rightarrow> bytes list \<Rightarrow> 'n heartbeat \<Rightarrow> 'n heartbeat" where
  "receiveHeartbeats L halt clock conn h = setPeerAlive False (receive_loop L halt clock 0 conn h)"

text \<open>The loop on a connection that a backup server has accepted; every heartbeat is answered.\<close>

function answer_loop ::
  "'n net \<Rightarrow> json_lib \<Rightarrow> 'x manager option \<Rightarrow> (nat \<Rightarrow> bool) \<Rightarrow> (nat \<Rightarrow> time) \<Rightarrow> nat \<Rightarrow> bytes list \<Rightarrow>
     'n heartbeat \<times> 'n \<Rightarrow> 'n heartbeat \<times> 'n" where
  "answer_loop nw L mgr halt clock i conn (h, out) =
     (if halt i then (h, out)
      else (case readHeartbeatMessage L conn of
              (Inl _, _) \<Rightarrow> (h, out)
            | (Inr (_, None), rest) \<Rightarrow> answer_loop nw L mgr halt clock (Suc i) rest (h, out)
            | (Inr (_, Some d), rest) \<Rightarrow>
                let h1 = snd (OnHeartbeatReceived (clock i) d h) in
                answer_loop nw L mgr halt clock (Suc i) rest
                  (h1, snd (sendHeartbeatResponse nw L (clock i) mgr h1 out))))"
  by pat_completeness auto
termination
  by (relation "measure (\<lambda>(_, _, _, _, _, _, conn, _). length (concat conn))") (auto dest: readHeartbeat_shrinks [OF sym])

declare answer_loop.simps [simp del]

definition handleHeartbeatConnection ::
  "'n net \<Rightarrow> json_lib \<Rightarrow> 'x manager option \<Rightarrow> (nat \<Rightarrow> bool) \<Rightarrow> (nat \<Rightarrow> time) \<Rightarrow> string \<Rightarrow> bytes list \<Rightarrow>
     'n heartbeat \<times> 'n \<Rightarrow> 'n heartbeat \<times> 'n" where
  "handleHeartbeatConnection nw L mgr halt clock addr conn ho =
     (case answer_loop nw L mgr halt clock 0 conn ho of
        (h, out) \<Rightarrow> (h\<lparr>hb_connections := gm_del addr (hb_connections h)\<rparr>, out))"

text \<open>A turn of \<open>acceptConnections\<close>: whether the loop goes on; an accepted connection is registered first.\<close>

definition heartbeat_acceptConnections :: "err + string \<Rightarrow> 'n heartbeat \<Rightarrow> bool \<times> 'n heartbeat" where
  "heartbeat_acceptConnections a h =
     (if hb_cancelled h \<or> \<not> hb_listening h then (False, h)
      else (case a of
              Inl _ \<Rightarrow> (True, h)
            | Inr addr \<Rightarrow> (True, h\<lparr>hb_connections := gm_put addr () (hb_connections h)\<rparr>)))"

section \<open>Is the peer alive?\<close>

text \<open>A tick of \<open>heartbeatChecker\<close>: silence for three intervals after a heartbeat.\<close>

definition heartbeatChecker :: "time \<Rightarrow> 'n heartbeat \<Rightarrow> 'n heartbeat" where
  "heartbeatChecker now h =
     (if hb_cancelled h then h
      else let lastTime = GetLastHeartbeatTime h; failureTimeout = i64 (sc_HeartbeatInterval (hb_config h) * 3) in
        if lastTime = 0 then h
        else if failureTimeout < i64 (now - lastTime) then (if IsPeerAlive h then setPeerAlive False h else h)
        else h)"

section \<open>Starting and stopping\<close>

definition startListener :: "(string \<Rightarrow> err option) \<Rightarrow> 'n heartbeat \<Rightarrow> backup_error option \<times> 'n heartbeat" where
  "startListener listen h =
     (case listen (hb_addr h) of
        Some e \<Rightarrow> (Some (BWrap ''startListener'' (BExternal e)), h)
      | None \<Rightarrow> (None, h\<lparr>hb_listening := True\<rparr>))"

definition closeListener :: "'n heartbeat \<Rightarrow> 'n heartbeat" where
  "closeListener h = h\<lparr>hb_listening := False, hb_connections := []\<rparr>"

text \<open>\<open>None\<close>: a ticker with an interval that is not positive panics in the goroutine that makes it.\<close>

definition heartbeat_Start :: "(string \<Rightarrow> err option) \<Rightarrow> 'n heartbeat \<Rightarrow> (backup_error option \<times> 'n heartbeat) option" where
  "heartbeat_Start listen h =
     (if hb_mode h = ModePrimary then
        (if sc_HeartbeatInterval (hb_config h) \<le> 0 then None else Some (None, h))
      else (case startListener listen h of
              (Some e, h1) \<Rightarrow> Some (Some (BWrap ''Start: listener'' e), h1)
            | (None, h1) \<Rightarrow> if sc_HeartbeatInterval (hb_config h) \<le> 0 then None else Some (None, h1)))"

definition heartbeat_Stop :: "'n heartbeat \<Rightarrow> 'n heartbeat" where
  "heartbeat_Stop h =
     (if hb_stopped h then h
      else closeListener (heartbeat_closeConnection (h\<lparr>hb_stopped := True, hb_cancelled := True\<rparr>)))"

section \<open>What the tests see\<close>

lemma checker_keeps [simp]:
  "hb_lastPeerTime (heartbeatChecker now h) = hb_lastPeerTime h" "hb_mode (heartbeatChecker now h) = hb_mode h"
  by (simp_all add: heartbeatChecker_def Let_def setPeerAlive_def)

end
