(* ===== verification/Backup_Failover.thy ===== *)
theory Backup_Failover
  imports Backup_Heartbeat
begin

text \<open>
  \<open>internal/backup/failover.go\<close>: detecting that the primary is gone, switching between the modes and
  restoring sessions.

  The switch and restore callbacks belong to the backup manager (\<open>Backup_Manager\<close>); here they are
  arguments that change a state \<open>'w\<close> of their owner, \<open>None\<close> when they are not set. What the service asks of
  the heartbeat and the synchronisation service (both shared with the manager) is an argument too: the
  record \<open>peer\<close>. The counter of consecutive failures is a local variable of the detecting goroutine.
\<close>

section \<open>State\<close>

record failover_stats =
  TotalSwitches :: int
  LastSwitchTime :: time
  SwitchDuration :: duration
  FailureDetections :: int
  RecoveryAttempts :: int
  RecoverySuccesses :: int
  fst_CurrentMode :: server_mode
  fst_IsHealthy :: bool

record failover =
  fo_config :: failover_config
  fo_currentMode :: server_mode
  fo_heartbeatSet :: bool
  fo_managerSet :: bool
  fo_syncSvc :: "nat option"
  fo_cancelled :: bool
  fo_stopped :: bool
  fo_isHealthy :: bool
  fo_stats :: failover_stats
  fo_consecutive :: nat

text \<open>What the other services say: the peer is alive, its last heartbeat, the sync service (if any) is
  connected, and its error count.\<close>

record peer =
  pe_alive :: bool
  pe_lastHeartbeat :: int
  pe_connected :: bool
  pe_errors :: int

definition NewFailoverService ::
  "failover_config \<Rightarrow> server_mode \<Rightarrow> bool \<Rightarrow> bool \<Rightarrow> nat option \<Rightarrow> failover" where
  "NewFailoverService c mode heartbeatSet managerSet syncSvc =
     \<lparr>fo_config = c, fo_currentMode = mode, fo_heartbeatSet = heartbeatSet, fo_managerSet = managerSet,
      fo_syncSvc = syncSvc, fo_cancelled = False, fo_stopped = False, fo_isHealthy = True,
      fo_stats = \<lparr>TotalSwitches = 0, LastSwitchTime = ZeroTime, SwitchDuration = 0, FailureDetections = 0,
        RecoveryAttempts = 0, RecoverySuccesses = 0, fst_CurrentMode = mode, fst_IsHealthy = True\<rparr>,
      fo_consecutive = 0\<rparr>"

definition failover_updateStats :: "(failover_stats \<Rightarrow> failover_stats) \<Rightarrow> failover \<Rightarrow> failover" where
  "failover_updateStats f s = s\<lparr>fo_stats := f (fo_stats s)\<rparr>"

definition failover_GetMode :: "failover \<Rightarrow> server_mode" where
  "failover_GetMode f = fo_currentMode f"

definition IsPrimary :: "failover \<Rightarrow> bool" where
  "IsPrimary f \<longleftrightarrow> failover_GetMode f = ModePrimary"

definition failover_IsHealthy :: "failover \<Rightarrow> bool" where
  "failover_IsHealthy f = fo_isHealthy f"

definition setHealthy :: "bool \<Rightarrow> failover \<Rightarrow> failover" where
  "setHealthy b f = f\<lparr>fo_isHealthy := b\<rparr>"

definition failover_GetStats :: "failover \<Rightarrow> failover_stats" where
  "failover_GetStats f = fo_stats f"

section \<open>Detection\<close>

definition DetectFailure :: "time \<Rightarrow> peer \<Rightarrow> failover \<Rightarrow> bool \<times> failover" where
  "DetectFailure now p f =
     (let found = failover_updateStats (\<lambda>st. st\<lparr>FailureDetections := i64 (FailureDetections st + 1)\<rparr>) f in
      if \<not> pe_alive p \<and> 0 < pe_lastHeartbeat p \<and> fc_DetectionTimeout (fo_config f) < i64 (now - pe_lastHeartbeat p)
      then (True, found)
      else if fo_syncSvc f \<noteq> None \<and> \<not> pe_connected p then (True, found)
      else (False, f))"

section \<open>Switching\<close>

definition doSwitchToPrimary ::
  "(server_mode \<Rightarrow> 'w \<Rightarrow> backup_error option \<times> 'w) option \<Rightarrow> 'w \<Rightarrow> backup_error option \<times> 'w" where
  "doSwitchToPrimary cb w =
     (case cb of
        None \<Rightarrow> (None, w)
      | Some g \<Rightarrow> (case g ModePrimary w of (r, w') \<Rightarrow> (map_option (BWrap ''doSwitchToPrimary: callback'') r, w')))"

definition doSwitchToBackup ::
  "(server_mode \<Rightarrow> 'w \<Rightarrow> backup_error option \<times> 'w) option \<Rightarrow> 'w \<Rightarrow> backup_error option \<times> 'w" where
  "doSwitchToBackup cb w =
     (case cb of
        None \<Rightarrow> (None, w)
      | Some g \<Rightarrow> (case g ModeBackup w of (r, w') \<Rightarrow> (map_option (BWrap ''doSwitchToBackup: callback'') r, w')))"

definition SwitchToPrimary ::
  "(server_mode \<Rightarrow> 'w \<Rightarrow> backup_error option \<times> 'w) option \<Rightarrow> time \<Rightarrow> duration \<Rightarrow> failover \<Rightarrow> 'w \<Rightarrow>
     backup_error option \<times> failover \<times> 'w" where
  "SwitchToPrimary cb now dur f w =
     (if fo_currentMode f = ModePrimary then (Some (BAlready ModePrimary), f, w)
      else (case doSwitchToPrimary cb w of
              (Some e, w') \<Rightarrow> (Some e, f, w')
            | (None, w') \<Rightarrow>
                (None, failover_updateStats (\<lambda>st. st\<lparr>TotalSwitches := i64 (TotalSwitches st + 1), LastSwitchTime := now,
                   SwitchDuration := dur, fst_CurrentMode := ModePrimary\<rparr>) (f\<lparr>fo_currentMode := ModePrimary\<rparr>), w')))"

definition SwitchToBackup ::
  "(server_mode \<Rightarrow> 'w \<Rightarrow> backup_error option \<times> 'w) option \<Rightarrow> time \<Rightarrow> duration \<Rightarrow> failover \<Rightarrow> 'w \<Rightarrow>
     backup_error option \<times> failover \<times> 'w" where
  "SwitchToBackup cb now dur f w =
     (if fo_currentMode f = ModeBackup then (Some (BAlready ModeBackup), f, w)
      else (case doSwitchToBackup cb w of
              (Some e, w') \<Rightarrow> (Some e, f, w')
            | (None, w') \<Rightarrow>
                (None, failover_updateStats (\<lambda>st. st\<lparr>TotalSwitches := i64 (TotalSwitches st + 1), LastSwitchTime := now,
                   SwitchDuration := dur, fst_CurrentMode := ModeBackup\<rparr>) (f\<lparr>fo_currentMode := ModeBackup\<rparr>), w')))"

definition ManualSwitchToPrimary ::
  "(server_mode \<Rightarrow> 'w \<Rightarrow> backup_error option \<times> 'w) option \<Rightarrow> time \<Rightarrow> duration \<Rightarrow> failover \<Rightarrow> 'w \<Rightarrow>
     backup_error option \<times> failover \<times> 'w" where
  "ManualSwitchToPrimary cb now dur f w = SwitchToPrimary cb now dur f w"

definition ManualSwitchToBackup ::
  "(server_mode \<Rightarrow> 'w \<Rightarrow> backup_error option \<times> 'w) option \<Rightarrow> time \<Rightarrow> duration \<Rightarrow> failover \<Rightarrow> 'w \<Rightarrow>
     backup_error option \<times> failover \<times> 'w" where
  "ManualSwitchToBackup cb now dur f w = SwitchToBackup cb now dur f w"

section \<open>Restoring\<close>

text \<open>It counts sessions for the log and calls the callback.\<close>

definition doRestoreSessions ::
  "('w \<Rightarrow> backup_error option \<times> 'w) option \<Rightarrow> failover \<Rightarrow> 'w \<Rightarrow> backup_error option \<times> 'w" where
  "doRestoreSessions cb f w =
     (if \<not> fo_managerSet f then (Some BNoManager, w)
      else (case cb of
              None \<Rightarrow> (None, w)
            | Some g \<Rightarrow> (case g w of (r, w') \<Rightarrow> (map_option (BWrap ''doRestoreSessions: callback'') r, w'))))"

definition RestoreSessions ::
  "('w \<Rightarrow> backup_error option \<times> 'w) option \<Rightarrow> failover \<Rightarrow> 'w \<Rightarrow> backup_error option \<times> failover \<times> 'w" where
  "RestoreSessions cb f w =
     (if fo_currentMode f \<noteq> ModePrimary then (Some BNotPrimary, f, w)
      else let f1 = failover_updateStats (\<lambda>st. st\<lparr>RecoveryAttempts := i64 (RecoveryAttempts st + 1)\<rparr>) f in
        (case doRestoreSessions cb f1 w of
           (Some e, w') \<Rightarrow> (Some e, f1, w')
         | (None, w') \<Rightarrow>
             (None, failover_updateStats (\<lambda>st. st\<lparr>RecoverySuccesses := i64 (RecoverySuccesses st + 1)\<rparr>) f1, w')))"

definition ManualRestore ::
  "('w \<Rightarrow> backup_error option \<times> 'w) option \<Rightarrow> failover \<Rightarrow> 'w \<Rightarrow> backup_error option \<times> failover \<times> 'w" where
  "ManualRestore cb f w = RestoreSessions cb f w"

section \<open>The goroutines\<close>

definition maxConsecutiveFailures :: nat where "maxConsecutiveFailures = 3"

text \<open>
  A tick of \<open>failureDetector\<close>. The first result says that sessions are to be restored two seconds later
  (a goroutine).
\<close>

definition failureDetector ::
  "(server_mode \<Rightarrow> 'w \<Rightarrow> backup_error option \<times> 'w) option \<Rightarrow> time \<Rightarrow> duration \<Rightarrow> peer \<Rightarrow> failover \<Rightarrow> 'w \<Rightarrow>
     bool \<times> failover \<times> 'w" where
  "failureDetector cb now dur p f w =
     (if fo_cancelled f \<or> fo_currentMode f \<noteq> ModeBackup then (False, f, w)
      else (case DetectFailure now p f of
              (False, f1) \<Rightarrow> (False, f1\<lparr>fo_consecutive := 0\<rparr>, w)
            | (True, f1) \<Rightarrow>
                let f2 = f1\<lparr>fo_consecutive := fo_consecutive f1 + 1\<rparr> in
                if maxConsecutiveFailures \<le> fo_consecutive f2 then
                  (case SwitchToPrimary cb now dur f2 w of
                     (r, f3, w') \<Rightarrow> (r = None, f3\<lparr>fo_consecutive := 0\<rparr>, w'))
                else (False, f2, w)))"

definition checkSystemHealth :: "peer \<Rightarrow> failover \<Rightarrow> bool" where
  "checkSystemHealth p f \<longleftrightarrow>
     fo_managerSet f \<and> fo_heartbeatSet f \<and>
     \<not> (fo_currentMode f = ModePrimary \<and> fo_syncSvc f \<noteq> None \<and> 100 < pe_errors p)"

definition healthChecker :: "peer \<Rightarrow> failover \<Rightarrow> failover" where
  "healthChecker p f =
     (if fo_cancelled f then f
      else let healthy = checkSystemHealth p f in
        failover_updateStats (\<lambda>st. st\<lparr>fst_IsHealthy := healthy\<rparr>) (setHealthy healthy f))"

section \<open>Starting and stopping\<close>

text \<open>The detector's ticker of a third of the timeout panics if that is not positive.\<close>

definition failover_Start :: "failover \<Rightarrow> failover option" where
  "failover_Start f = (if fc_DetectionTimeout (fo_config f) sdiv 3 \<le> 0 then None else Some f)"

definition failover_Stop :: "failover \<Rightarrow> failover" where
  "failover_Stop f = (if fo_stopped f then f else f\<lparr>fo_stopped := True, fo_cancelled := True\<rparr>)"

definition failover_isStopped :: "failover \<Rightarrow> bool" where
  "failover_isStopped f = fo_stopped f"

end

