(* ===== verification/Backup_Manager.thy ===== *)
theory Backup_Manager
  imports Backup_Failover
begin

text \<open>
  \<open>internal/backup/backup_manager.go\<close>: the manager that owns the synchronisation, heartbeat and failover
  services of one server.

  Synchronisation services are shared (the failover service keeps the one it was made with), so they
  live in a list that only grows and a pointer is a position in it. The failover service is kept beside
  the rest of the manager, because its callbacks change that rest. Goroutines that sleep first are
  entries of \<open>bm_delayed\<close>, run by \<open>run_delayed\<close>; \<open>bm_periodic\<close> counts the running \<open>periodicSync\<close>s. A panic
  sets \<open>bm_crashed\<close>: the process is gone. The address a listener may take is decided by \<open>listen\<close>.
\<close>

section \<open>State\<close>

datatype delayed = StartHooks | RestoreAfter | FullSyncAfter

record backup_stats =
  bs_StartTime :: time
  bs_CurrentMode :: server_mode
  bs_SyncEnabled :: bool
  bs_HeartbeatEnabled :: bool
  bs_FailoverEnabled :: bool
  bs_SessionCount :: int
  bs_SyncStats :: "sync_stats option"
  bs_LastUpdateTime :: time
  bs_IsHealthy :: bool

record 'n backup =
  bm_config :: backup_config
  bm_currentMode :: server_mode
  bm_managerSet :: bool
  bm_services :: "'n sync_service list"
  bm_syncService :: "nat option"
  bm_syncReceiver :: "receiver option"
  bm_heartbeat :: "'n heartbeat option"
  bm_cancelled :: bool
  bm_stopped :: bool
  bm_serverID :: string
  bm_stats :: backup_stats
  bm_delayed :: "(time \<times> delayed) list"
  bm_periodic :: nat
  bm_crashed :: bool

type_synonym 'n backup_system = "'n backup \<times> failover option"

definition NewBackupManager :: "time \<Rightarrow> backup_config \<Rightarrow> string \<Rightarrow> 'n backup_system" where
  "NewBackupManager now c serverID =
     (let on = sc_Enabled (bc_Sync c) in
      (\<lparr>bm_config = c, bm_currentMode = ModeOther 0, bm_managerSet = False, bm_services = [], bm_syncService = None,
        bm_syncReceiver = None, bm_heartbeat = None, bm_cancelled = False, bm_stopped = False, bm_serverID = serverID,
        bm_stats = \<lparr>bs_StartTime = now, bs_CurrentMode = ModeOther 0, bs_SyncEnabled = on, bs_HeartbeatEnabled = on,
          bs_FailoverEnabled = on, bs_SessionCount = 0, bs_SyncStats = None, bs_LastUpdateTime = ZeroTime,
          bs_IsHealthy = True\<rparr>,
        bm_delayed = [], bm_periodic = 0, bm_crashed = False\<rparr>, None))"

definition RegisterSessionManager :: "'n backup \<Rightarrow> 'n backup" where
  "RegisterSessionManager b = b\<lparr>bm_managerSet := True\<rparr>"

definition bm_GetMode :: "'n backup \<Rightarrow> server_mode" where
  "bm_GetMode b = bm_currentMode b"

definition bm_isStopped :: "'n backup \<Rightarrow> bool" where
  "bm_isStopped b = bm_stopped b"

definition upd_service :: "nat \<Rightarrow> ('n sync_service \<Rightarrow> 'n sync_service) \<Rightarrow> 'n backup \<Rightarrow> 'n backup" where
  "upd_service i f b = b\<lparr>bm_services := (bm_services b)[i := f (bm_services b ! i)]\<rparr>"

definition crash :: "'n backup \<Rightarrow> 'n backup" where
  "crash b = b\<lparr>bm_crashed := True\<rparr>"

section \<open>The services\<close>

text \<open>A new synchronisation service, at the separate address if there is one, and started under the context of
  the manager, which is done when the manager was stopped.\<close>

definition make_service :: "time \<Rightarrow> 'n backup \<Rightarrow> 'n backup" where
  "make_service now b =
     (let c = bm_config b;
          new = (if bc_SyncAddr c \<noteq> [] then NewSyncServiceWithAddr now (bc_Sync c) (bc_SyncAddr c)
                 else NewSyncService now (bc_Sync c))
      in case new of
           None \<Rightarrow> crash b
         | Some s \<Rightarrow>
             (case sync_Start s of
                None \<Rightarrow> crash b
              | Some s' \<Rightarrow> b\<lparr>bm_services := bm_services b @ [s'\<lparr>ss_cancelled := bm_cancelled b\<rparr>],
                              bm_syncService := Some (length (bm_services b))\<rparr>))"

definition make_receiver :: "(string \<Rightarrow> err option) \<Rightarrow> 'n backup \<Rightarrow> backup_error option \<times> 'n backup" where
  "make_receiver listen b =
     (let c = bm_config b;
          new = (if bc_SyncAddr c \<noteq> [] then newSyncReceiverWithAddr (bc_Sync c) (bc_SyncAddr c)
                 else newSyncReceiver (bc_Sync c))
      in case receiver_Start listen (new\<lparr>rv_cancelled := bm_cancelled b\<rparr>) of (r, new') \<Rightarrow> (r, b\<lparr>bm_syncReceiver := Some new'\<rparr>))"

definition startSyncServices :: "(string \<Rightarrow> err option) \<Rightarrow> time \<Rightarrow> 'n backup \<Rightarrow> backup_error option \<times> 'n backup" where
  "startSyncServices listen now b =
     (let b1 = (if bm_currentMode b = ModePrimary then make_service now b else b) in
      if bm_currentMode b = ModeBackup then
        (case make_receiver listen b1 of
           (Some e, b2) \<Rightarrow> (Some (BWrap ''startSyncServices: receiver'' e), b2)
         | (None, b2) \<Rightarrow> (None, b2))
      else (None, b1))"

definition startHeartbeatService :: "(string \<Rightarrow> err option) \<Rightarrow> 'n backup \<Rightarrow> backup_error option \<times> 'n backup" where
  "startHeartbeatService listen b =
     (let c = bm_config b;
          h = (if bc_HeartbeatAddr c \<noteq> [] then
                 NewHeartbeatServiceWithAddr (bc_Sync c) (bm_currentMode b) (bm_serverID b) (bc_HeartbeatAddr c)
               else NewHeartbeatService (bc_Sync c) (bm_currentMode b) (bm_serverID b))
      in case heartbeat_Start listen h of
           None \<Rightarrow> (None, crash b)
         | Some (Some e, h1) \<Rightarrow> (Some (BWrap ''startHeartbeatService'' e), b\<lparr>bm_heartbeat := Some h1\<rparr>)
         | Some (None, h1) \<Rightarrow> (None, b\<lparr>bm_heartbeat := Some h1\<rparr>))"

definition startFailoverService :: "'n backup \<Rightarrow> 'n backup_system" where
  "startFailoverService b =
     (let f = NewFailoverService (bc_Failover (bm_config b)) (bm_currentMode b) (bm_heartbeat b \<noteq> None)
                (bm_managerSet b) (bm_syncService b)
      in case failover_Start f of None \<Rightarrow> (crash b, Some f) | Some f' \<Rightarrow> (b, Some f'))"

definition bm_Start ::
  "(string \<Rightarrow> err option) \<Rightarrow> time \<Rightarrow> 'n backup_system \<Rightarrow> backup_error option \<times> 'n backup_system" where
  "bm_Start listen now sys =
     (case sys of (b0, f0) \<Rightarrow>
        let b = b0\<lparr>bm_currentMode := sc_Mode (bc_Sync (bm_config b0)), bm_cancelled := False\<rparr> in
        if \<not> sc_Enabled (bc_Sync (bm_config b)) then (None, b, f0)
        else (case startSyncServices listen now b of
                (Some e, b1) \<Rightarrow> (Some (BWrap ''Start: sync'' e), b1, f0)
              | (None, b1) \<Rightarrow>
                  (case startHeartbeatService listen b1 of
                     (Some e, b2) \<Rightarrow> (Some (BWrap ''Start: heartbeat'' e), b2, f0)
                   | (None, b2) \<Rightarrow>
                       (case startFailoverService b2 of
                          (b3, f) \<Rightarrow>
                            (None,
                             if bm_currentMode b3 = ModePrimary
                             then b3\<lparr>bm_delayed := bm_delayed b3 @ [(now + 5 * Second, StartHooks)]\<rparr> else b3,
                             f)))))"

definition bm_Stop :: "'n backup_system \<Rightarrow> 'n backup_system" where
  "bm_Stop sys =
     (case sys of (b, f) \<Rightarrow>
        if bm_stopped b then (b, f)
        else
          let b1 = b\<lparr>bm_stopped := True, bm_cancelled := True\<rparr>;
              b2 = (case bm_syncService b1 of None \<Rightarrow> b1 | Some i \<Rightarrow> upd_service i sync_Stop b1);
              b3 = b2\<lparr>bm_syncReceiver := map_option receiver_Stop (bm_syncReceiver b2),
                      bm_heartbeat := map_option heartbeat_Stop (bm_heartbeat b2)\<rparr>
          in (b3, map_option failover_Stop f))"

section \<open>The callbacks\<close>

definition onModeSwitch ::
  "(string \<Rightarrow> err option) \<Rightarrow> time \<Rightarrow> server_mode \<Rightarrow> 'n backup \<Rightarrow> backup_error option \<times> 'n backup" where
  "onModeSwitch listen now newMode b0 =
     (let b = b0\<lparr>bm_currentMode := newMode\<rparr> in
      if newMode = ModePrimary then
        let b1 = b\<lparr>bm_syncReceiver := None\<rparr>;
            b2 = (if bm_syncService b1 = None then make_service now b1 else b1)
        in (None, b2\<lparr>bm_delayed := bm_delayed b2 @ [(now + 2 * Second, StartHooks)]\<rparr>)
      else
        let b1 = (case bm_syncService b of
                    None \<Rightarrow> b
                  | Some i \<Rightarrow> (upd_service i sync_Stop b)\<lparr>bm_syncService := None\<rparr>)
        in if bm_syncReceiver b1 = None then
             (case make_receiver listen b1 of
                (Some e, b2) \<Rightarrow> (Some (BWrap ''onModeSwitch: receiver'' e), b2)
              | (None, b2) \<Rightarrow> (None, b2))
           else (None, b1))"

definition onSessionRestore :: "time \<Rightarrow> 'n backup \<Rightarrow> backup_error option \<times> 'n backup" where
  "onSessionRestore now b =
     (if \<not> bm_managerSet b then (Some BNoManager, b)
      else if bm_syncService b \<noteq> None then (None, b\<lparr>bm_delayed := bm_delayed b @ [(now + 5 * Second, FullSyncAfter)]\<rparr>)
      else (None, b))"

section \<open>Operations\<close>

text \<open>
  \<open>None\<close> is a call that never returns: the text of the log line asks for the current mode, whose read lock
  the mutex refuses while the caller itself holds it for writing.
\<close>

definition SwitchMode :: "server_mode \<Rightarrow> 'n backup_system \<Rightarrow> (backup_error option \<times> 'n backup_system) option" where
  "SwitchMode mode sys =
     (case sys of (b, f) \<Rightarrow>
        if \<not> sc_Enabled (bc_Sync (bm_config b)) then Some (Some BDisabled, sys)
        else if bm_currentMode b = mode then Some (Some (BAlready mode), sys)
        else None)"

definition TriggerFailover ::
  "(string \<Rightarrow> err option) \<Rightarrow> time \<Rightarrow> duration \<Rightarrow> 'n backup_system \<Rightarrow> backup_error option \<times> 'n backup_system" where
  "TriggerFailover listen now dur sys =
     (case sys of
        (b, None) \<Rightarrow> (Some BNoFailover, sys)
      | (b, Some f) \<Rightarrow>
          (case (if bm_currentMode b = ModeBackup then SwitchToPrimary (Some (onModeSwitch listen now)) now dur f b
                 else SwitchToBackup (Some (onModeSwitch listen now)) now dur f b) of
             (r, f', b') \<Rightarrow> (r, b', Some f')))"

definition TriggerSync :: "time \<Rightarrow> 'n backup \<Rightarrow> backup_error option \<times> 'n backup" where
  "TriggerSync now b =
     (case bm_syncService b of
        None \<Rightarrow> (Some BNoSync, b)
      | Some i \<Rightarrow>
          (case FullSync now (bm_services b ! i) of
             None \<Rightarrow> (None, crash b)
           | Some (r, s) \<Rightarrow> (r, upd_service i (\<lambda>_. s) b)))"

definition bm_IsHealthy :: "'n backup_system \<Rightarrow> bool" where
  "bm_IsHealthy sys =
     (case sys of (b, f) \<Rightarrow>
        if \<not> sc_Enabled (bc_Sync (bm_config b)) then True
        else (case f of Some x \<Rightarrow> failover_IsHealthy x | None \<Rightarrow> True))"

definition bm_updateStats :: "time \<Rightarrow> 'x manager option \<Rightarrow> 'n backup_system \<Rightarrow> 'n backup_system" where
  "bm_updateStats now mgr sys =
     (case sys of (b, f) \<Rightarrow>
        let st = (bm_stats b)\<lparr>bs_CurrentMode := bm_currentMode b, bs_LastUpdateTime := now, bs_IsHealthy := bm_IsHealthy sys\<rparr>;
            st1 = (case mgr of Some m \<Rightarrow> st\<lparr>bs_SessionCount := GetSessionCount m\<rparr> | None \<Rightarrow> st);
            st2 = (case bm_syncService b of
                     Some i \<Rightarrow> st1\<lparr>bs_SyncStats := Some (sync_GetStats (bm_services b ! i))\<rparr> | None \<Rightarrow> st1)
        in (b\<lparr>bm_stats := st2\<rparr>, f))"

definition statsUpdater :: "time \<Rightarrow> 'x manager option \<Rightarrow> 'n backup_system \<Rightarrow> 'n backup_system" where
  "statsUpdater now mgr sys = (if bm_cancelled (fst sys) then sys else bm_updateStats now mgr sys)"

definition startSessionSyncHooks :: "'n backup \<Rightarrow> 'n backup" where
  "startSessionSyncHooks b =
     (if \<not> bm_managerSet b \<or> bm_syncService b = None then b
      else if i64 (sc_SyncTimeout (bc_Sync (bm_config b)) * 2) \<le> 0 then crash b
      else b\<lparr>bm_periodic := bm_periodic b + 1\<rparr>)"

text \<open>The loop of \<open>syncAllSessions\<close>; \<open>None\<close> if a send panics.\<close>

fun sync_sessions :: "time \<Rightarrow> 'x session list \<Rightarrow> 'n sync_service \<Rightarrow> 'n sync_service option" where
  "sync_sessions now [] s = Some s"
| "sync_sessions now (x # xs) s =
     (if IsClosed x then sync_sessions now xs s
      else (case SyncSession now (s_ID x) x s of None \<Rightarrow> None | Some (_, s') \<Rightarrow> sync_sessions now xs s'))"

definition syncAllSessions :: "time \<Rightarrow> 'x manager option \<Rightarrow> 'n backup \<Rightarrow> 'n backup" where
  "syncAllSessions now mgr b =
     (case (mgr, bm_syncService b) of
        (Some m, Some i) \<Rightarrow>
          (case sync_sessions now (map (\<lambda>r. sess_at r m) (GetAllSessions m)) (bm_services b ! i) of
             None \<Rightarrow> crash b
           | Some s \<Rightarrow> upd_service i (\<lambda>_. s) b)
      | _ \<Rightarrow> b)"

definition periodicSync :: "time \<Rightarrow> 'x manager option \<Rightarrow> 'n backup \<Rightarrow> 'n backup" where
  "periodicSync now mgr b =
     (if bm_cancelled b \<or> bm_periodic b = 0 then b
      else if bm_currentMode b = ModePrimary \<and> bm_syncService b \<noteq> None then syncAllSessions now mgr b
      else b)"

section \<open>The failover service inside the manager\<close>

text \<open>What the failover service sees of the heartbeat and of its synchronisation service.\<close>

definition peer_view :: "'n backup \<Rightarrow> failover \<Rightarrow> peer" where
  "peer_view b f =
     (let s = map_option (\<lambda>i. bm_services b ! i) (fo_syncSvc f) in
      \<lparr>pe_alive = (case bm_heartbeat b of Some h \<Rightarrow> IsPeerAlive h | None \<Rightarrow> False),
       pe_lastHeartbeat = (case bm_heartbeat b of Some h \<Rightarrow> GetLastHeartbeatTime h | None \<Rightarrow> 0),
       pe_connected = (case s of Some x \<Rightarrow> sync_IsConnected x | None \<Rightarrow> False),
       pe_errors = (case s of Some x \<Rightarrow> ErrorCount (sync_GetStats x) | None \<Rightarrow> 0)\<rparr>)"

definition detector_tick :: "(string \<Rightarrow> err option) \<Rightarrow> time \<Rightarrow> duration \<Rightarrow> 'n backup_system \<Rightarrow> 'n backup_system" where
  "detector_tick listen now dur sys =
     (case sys of
        (b, None) \<Rightarrow> sys
      | (b, Some f) \<Rightarrow>
          (case failureDetector (Some (onModeSwitch listen now)) now dur (peer_view b f) f b of
             (restore, f', b') \<Rightarrow>
               (if restore then b'\<lparr>bm_delayed := bm_delayed b' @ [(now + 2 * Second, RestoreAfter)]\<rparr> else b', Some f')))"

definition restore_sessions :: "time \<Rightarrow> 'n backup_system \<Rightarrow> backup_error option \<times> 'n backup_system" where
  "restore_sessions now sys =
     (case sys of
        (b, None) \<Rightarrow> (Some BNoFailover, sys)
      | (b, Some f) \<Rightarrow> (case RestoreSessions (Some (onSessionRestore now)) f b of (r, f', b') \<Rightarrow> (r, b', Some f')))"

text \<open>Run a delayed goroutine once it is due; a full synchronisation without a service is a nil call.\<close>

definition run_delayed :: "time \<Rightarrow> nat \<Rightarrow> 'n backup_system \<Rightarrow> 'n backup_system" where
  "run_delayed now i sys =
     (case sys of (b, f) \<Rightarrow>
        if i < length (bm_delayed b) \<and> fst (bm_delayed b ! i) \<le> now then
          let b1 = b\<lparr>bm_delayed := take i (bm_delayed b) @ drop (Suc i) (bm_delayed b)\<rparr> in
          (case snd (bm_delayed b ! i) of
             StartHooks \<Rightarrow> (startSessionSyncHooks b1, f)
           | RestoreAfter \<Rightarrow> snd (restore_sessions now (b1, f))
           | FullSyncAfter \<Rightarrow> (if bm_syncService b1 = None then crash b1 else snd (TriggerSync now b1), f))
        else sys)"

end

