(* ===== verification/Gate_Config.thy ===== *)
theory Gate_Config
  imports Gateway_Push Backup_Manager Go_Text
begin

text \<open>
  \<open>internal/config/config.go\<close> and the configuration part of \<open>cmd/gatesvr/main.go\<close>: from a file, the
  command line and the environment to the configuration of the server and of its backup.

  The YAML library is a parameter, \<open>decode\<close>; so are the file system (\<open>read\<close>, and \<open>missing\<close>, what
  \<open>os.Stat\<close> says does not exist) and the environment (\<open>getenv\<close>, empty if not set). The flags are those
  the \<open>flag\<close> package has parsed. A \<open>log.Fatalf\<close> is an \<open>Inl\<close>: the process ends. Durations are read by
  \<open>time.ParseDuration\<close>, written out with its \<open>float64\<close> arithmetic for fractions.
\<close>

section \<open>\<open>time.ParseDuration\<close>\<close>

datatype duration_error = InvalidDuration | MissingUnit | UnknownUnit string

text \<open>Rounding \<open>p / q\<close> to the nearest \<open>float64\<close>, ties to even: a mantissa of 53 bits and an exponent.\<close>

fun bit_len :: "nat \<Rightarrow> nat" where
  "bit_len n = (if n = 0 then 0 else Suc (bit_len (n div 2)))"

declare bit_len.simps [simp del]

definition scaled :: "nat \<Rightarrow> nat \<Rightarrow> int \<Rightarrow> nat \<times> nat" where
  "scaled p q e = (if 0 \<le> e then (p, q * 2 ^ nat e) else (p * 2 ^ nat (- e), q))"

definition fl_round :: "nat \<Rightarrow> nat \<Rightarrow> nat \<times> int" where
  "fl_round p q =
     (let e0 = int (bit_len p) - int (bit_len q) - 53;
          e = (case scaled p q e0 of (a, b) \<Rightarrow> if 2 ^ 53 \<le> a div b then e0 + 1 else e0)
      in case scaled p q e of
           (a, b) \<Rightarrow>
             let m = a div b; r = a mod b
             in (if b < 2 * r \<or> 2 * r = b \<and> odd m then m + 1 else m, e))"

text \<open>\<open>uint64(float64(f) * (float64(unit) / scale))\<close>.\<close>

definition fl_fraction :: "nat \<Rightarrow> nat \<Rightarrow> nat \<Rightarrow> nat" where
  "fl_fraction f unit scale =
     (case (fl_round f 1, fl_round unit scale) of
        ((a, ea), (b, eb)) \<Rightarrow>
          (case scaled (a * b) 1 (- (ea + eb)) of
             (p, q) \<Rightarrow>
               (case fl_round p q of
                  (m, e) \<Rightarrow> if 0 \<le> e then m * 2 ^ nat e else m div 2 ^ nat (- e))))"

fun leadingInt :: "nat \<Rightarrow> string \<Rightarrow> (nat \<times> string) option" where
  "leadingInt x [] = Some (x, [])"
| "leadingInt x (c # s) =
     (if \<not> is_digit c then Some (x, c # s)
      else if 2 ^ 63 div 10 < x then None
      else if 2 ^ 63 < x * 10 + digit c then None
      else leadingInt (x * 10 + digit c) s)"

fun leadingFraction :: "nat \<Rightarrow> nat \<Rightarrow> bool \<Rightarrow> string \<Rightarrow> nat \<times> nat \<times> string" where
  "leadingFraction x scale overflow [] = (x, scale, [])"
| "leadingFraction x scale overflow (c # s) =
     (if \<not> is_digit c then (x, scale, c # s)
      else if overflow then leadingFraction x scale True s
      else if (2 ^ 63 - 1) div 10 < x then leadingFraction x scale True s
      else if 2 ^ 63 < x * 10 + digit c then leadingFraction x scale True s
      else leadingFraction (x * 10 + digit c) (scale * 10) False s)"

definition unitMap :: "(string \<times> nat) list" where
  "unitMap =
     [(''ns'', 1), (''us'', 1000), ([CHR 0xC2, CHR 0xB5, CHR ''s''], 1000), ([CHR 0xCE, CHR 0xBC, CHR ''s''], 1000),
      (''ms'', 1000000), (''s'', 1000000000), (''m'', 60000000000), (''h'', 3600000000000)]"

definition unit_char :: "char \<Rightarrow> bool" where
  "unit_char c \<longleftrightarrow> c \<noteq> CHR ''.'' \<and> \<not> is_digit c"

lemma leadingInt_suffix: "leadingInt x s = Some (v, r) \<Longrightarrow> length r \<le> length s"
  by (induction x s arbitrary: v r rule: leadingInt.induct) (auto split: if_splits intro: le_SucI)

lemma leadingFraction_suffix: "leadingFraction x scale b s = (v, sc, r) \<Longrightarrow> length r \<le> length s"
  by (induction x scale b s arbitrary: v sc r rule: leadingFraction.induct) (auto split: if_splits intro: le_SucI)

text \<open>The fraction after a full stop: its digits, the power of ten and whether there are digits.\<close>

definition fraction_of :: "string \<Rightarrow> nat \<times> nat \<times> string \<times> bool" where
  "fraction_of s =
     (case s of
        [] \<Rightarrow> (0, 1, [], False)
      | c # s1 \<Rightarrow>
          if c = CHR ''.'' then
            (case leadingFraction 0 1 False s1 of (f, scale, s2) \<Rightarrow> (f, scale, s2, length s2 \<noteq> length s1))
          else (0, 1, s, False))"

lemma fraction_suffix: "fraction_of s = (f, scale, r, post) \<Longrightarrow> length r \<le> length s"
  by (auto simp: fraction_of_def intro: le_SucI dest: leadingFraction_suffix split: list.splits if_splits prod.splits)

lemma units_shrink:
  "Some (v, s1) = leadingInt 0 s \<Longrightarrow> (f, scale, s2, post) = fraction_of s1 \<Longrightarrow> takeWhile unit_char s2 \<noteq> [] \<Longrightarrow>
   length (dropWhile unit_char s2) < length s"
  using leadingInt_suffix [of 0 s v s1] fraction_suffix [of s1 f scale s2 post]
    arg_cong [OF takeWhile_dropWhile_id [of unit_char s2], of length]
  by (cases "takeWhile unit_char s2") auto

text \<open>The loop over the numbers with their units.\<close>

function parse_units :: "nat \<Rightarrow> string \<Rightarrow> duration_error + nat" where
  "parse_units d s =
     (case s of
        [] \<Rightarrow> Inr d
      | c # _ \<Rightarrow>
          if \<not> (c = CHR ''.'' \<or> is_digit c) then Inl InvalidDuration
          else (case leadingInt 0 s of
                  None \<Rightarrow> Inl InvalidDuration
                | Some (v, s1) \<Rightarrow>
                    (case fraction_of s1 of
                       (f, scale, s2, post) \<Rightarrow>
                         if length s1 = length s \<and> \<not> post then Inl InvalidDuration
                         else
                           let u = takeWhile unit_char s2 in
                           if u = [] then Inl MissingUnit
                           else (case map_of unitMap u of
                                   None \<Rightarrow> Inl (UnknownUnit u)
                                 | Some unit \<Rightarrow>
                                     if 2 ^ 63 div unit < v then Inl InvalidDuration
                                     else
                                       let w = v * unit + (if 0 < f then fl_fraction f unit scale else 0) in
                                       if 0 < f \<and> 2 ^ 63 < w then Inl InvalidDuration
                                       else
                                         let d1 = (d + w) mod 2 ^ 64 in
                                         if 2 ^ 63 < d1 then Inl InvalidDuration
                                         else parse_units d1 (dropWhile unit_char s2)))))"
  by pat_completeness auto
termination
  by (relation "measure (\<lambda>(_, s). length s)") (simp, simp only: in_measure prod.case, metis units_shrink)

declare parse_units.simps [simp del]

definition ParseDuration :: "string \<Rightarrow> duration_error + duration" where
  "ParseDuration orig =
     (let neg = (take 1 orig = ''-'');
          s = (if neg \<or> take 1 orig = ''+'' then tl orig else orig)
      in if s = ''0'' then Inr 0
         else if s = [] then Inl InvalidDuration
         else (case parse_units 0 s of
                 Inl e \<Rightarrow> Inl e
               | Inr d \<Rightarrow>
                   if neg then Inr (i64 (- int d))
                   else if 2 ^ 63 - 1 < d then Inl InvalidDuration
                   else Inr (int d)))"

section \<open>The file\<close>

record server_yaml =
  ys_QUICAddr :: string
  ys_HTTPAddr :: string
  ys_GRPCAddr :: string
  ys_MetricsAddr :: string
  ys_UpstreamAddr :: string
  ys_UpstreamServices :: "(string \<times> string list) list"
  ys_CertFile :: string
  ys_KeyFile :: string
  ys_SessionTimeout :: string
  ys_AckTimeout :: string
  ys_MaxRetries :: int

record start_yaml =
  yp_Enabled :: bool
  yp_MaxWorkers :: int
  yp_QueueSize :: int
  yp_Timeout :: string

record heartbeat_yaml =
  yh_Interval :: string
  yh_PeerAddr :: string
  yh_ListenAddr :: string
  yh_Timeout :: string

record sync_yaml =
  yn_PeerAddr :: string
  yn_ListenAddr :: string
  yn_BatchSize :: int
  yn_Timeout :: string
  yn_BufferSize :: int

record backup_yaml =
  yb_Enabled :: bool
  yb_Mode :: string
  yb_ServerID :: string
  yb_ReadOnly :: bool
  yb_Heartbeat :: heartbeat_yaml
  yb_Sync :: sync_yaml

record overload_yaml =
  yo_Enabled :: bool
  yo_MaxConnections :: int
  yo_ConnectionWarningThreshold :: int
  yo_MaxQPS :: int
  yo_QPSWarningThreshold :: int
  yo_QPSWindowSeconds :: int
  yo_MaxUpstreamConcurrent :: int
  yo_UpstreamTimeout :: string
  yo_UpstreamWarningThreshold :: int

record yaml_config =
  y_Server :: server_yaml
  y_StartProcessor :: start_yaml
  y_Backup :: backup_yaml
  y_Overload :: overload_yaml

section \<open>The gateway's configuration\<close>

record start_gateway =
  gs_Enabled :: bool
  gs_MaxWorkers :: int
  gs_QueueSize :: int
  gs_Timeout :: duration

record overload_gateway =
  go_Enabled :: bool
  go_MaxConnections :: int
  go_ConnectionWarningThreshold :: int
  go_MaxQPS :: int
  go_QPSWarningThreshold :: int
  go_QPSWindowSeconds :: int
  go_MaxUpstreamConcurrent :: int
  go_UpstreamTimeout :: duration
  go_UpstreamWarningThreshold :: int

record gateway_config =
  g_QUICAddr :: string
  g_HTTPAddr :: string
  g_GRPCAddr :: string
  g_MetricsAddr :: string
  g_UpstreamAddr :: string
  g_UpstreamServices :: "(string \<times> string list) list"
  g_TLSCertFile :: string
  g_TLSKeyFile :: string
  g_SessionTimeout :: duration
  g_AckTimeout :: duration
  g_MaxRetries :: int
  g_StartProcessor :: "start_gateway option"
  g_BackupConfig :: "backup_config option"
  g_ServerID :: string
  g_OverloadProtection :: "overload_gateway option"

datatype config_error =
  CfgRead err
| CfgYaml err
| CfgDuration string duration_error   \<comment> \<open>the named field\<close>
| CfgMode string
| CfgNoPeer
| CfgNoCert string
| CfgNoKey string

definition Load :: "(string \<Rightarrow> err + bytes) \<Rightarrow> (bytes \<Rightarrow> err + yaml_config) \<Rightarrow> string \<Rightarrow> config_error + yaml_config" where
  "Load read decode configFile =
     (case read configFile of
        Inl e \<Rightarrow> Inl (CfgRead e)
      | Inr data \<Rightarrow> (case decode data of Inl e \<Rightarrow> Inl (CfgYaml e) | Inr c \<Rightarrow> Inr c))"

definition or_default :: "int \<Rightarrow> int \<Rightarrow> int" where
  "or_default d n = (if n = 0 then d else n)"

text \<open>A duration that is not set or does not parse is 30 seconds.\<close>

definition timeout_or_30 :: "string \<Rightarrow> duration" where
  "timeout_or_30 s = (if s = [] then 30 * Second else (case ParseDuration s of Inl _ \<Rightarrow> 30 * Second | Inr d \<Rightarrow> d))"

definition start_config :: "start_yaml \<Rightarrow> start_gateway option" where
  "start_config p =
     (if yp_Enabled p \<or> 0 < yp_MaxWorkers p then
        Some \<lparr>gs_Enabled = yp_Enabled p, gs_MaxWorkers = or_default 100 (yp_MaxWorkers p),
              gs_QueueSize = or_default 1000 (yp_QueueSize p), gs_Timeout = timeout_or_30 (yp_Timeout p)\<rparr>
      else None)"

definition overload_part :: "overload_yaml \<Rightarrow> overload_gateway option" where
  "overload_part o' =
     (if yo_Enabled o' \<or> 0 < yo_MaxConnections o' then
        Some \<lparr>go_Enabled = yo_Enabled o', go_MaxConnections = or_default 1000 (yo_MaxConnections o'),
              go_ConnectionWarningThreshold = or_default 800 (yo_ConnectionWarningThreshold o'),
              go_MaxQPS = or_default 2000 (yo_MaxQPS o'),
              go_QPSWarningThreshold = or_default 1600 (yo_QPSWarningThreshold o'),
              go_QPSWindowSeconds = or_default 10 (yo_QPSWindowSeconds o'),
              go_MaxUpstreamConcurrent = or_default 100 (yo_MaxUpstreamConcurrent o'),
              go_UpstreamTimeout = timeout_or_30 (yo_UpstreamTimeout o'),
              go_UpstreamWarningThreshold = or_default 80 (yo_UpstreamWarningThreshold o')\<rparr>
      else None)"

definition parse_field :: "string \<Rightarrow> string \<Rightarrow> config_error + duration" where
  "parse_field name s = (case ParseDuration s of Inl e \<Rightarrow> Inl (CfgDuration name e) | Inr d \<Rightarrow> Inr d)"

definition backup_part :: "backup_yaml \<Rightarrow> config_error + backup_config option" where
  "backup_part b =
     (if \<not> yb_Enabled b then Inr None
      else (case parse_field ''heartbeat.interval'' (yh_Interval (yb_Heartbeat b)) of
              Inl e \<Rightarrow> Inl e
            | Inr interval \<Rightarrow>
                (case parse_field ''heartbeat.timeout'' (yh_Timeout (yb_Heartbeat b)) of
                   Inl e \<Rightarrow> Inl e
                 | Inr timeout \<Rightarrow>
                     (case parse_field ''sync.timeout'' (yn_Timeout (yb_Sync b)) of
                        Inl e \<Rightarrow> Inl e
                      | Inr syncTimeout \<Rightarrow>
                          if yb_Mode b \<noteq> ''primary'' \<and> yb_Mode b \<noteq> ''backup'' then Inl (CfgMode (yb_Mode b))
                          else
                            let primary = (yb_Mode b = ''primary'');
                                heartbeatAddr = (if primary then yh_PeerAddr (yb_Heartbeat b) else yh_ListenAddr (yb_Heartbeat b));
                                syncAddr = (if primary then yn_PeerAddr (yb_Sync b) else yn_ListenAddr (yb_Sync b))
                            in Inr (Some
                                 \<lparr>bc_Sync = \<lparr>sc_Enabled = True, sc_Mode = (if primary then ModePrimary else ModeBackup),
                                    sc_PeerAddr = heartbeatAddr, sc_HeartbeatInterval = interval,
                                    sc_SyncBatchSize = yn_BatchSize (yb_Sync b), sc_SyncTimeout = syncTimeout,
                                    sc_ReadOnly = yb_ReadOnly b, sc_BufferSize = yn_BufferSize (yb_Sync b)\<rparr>,
                                  bc_Failover = \<lparr>fc_DetectionTimeout = timeout, fc_SwitchTimeout = 10 * Second,
                                    fc_RecoveryTimeout = 30 * Second, fc_MaxRetries = 3\<rparr>,
                                  bc_HeartbeatAddr = heartbeatAddr, bc_SyncAddr = syncAddr\<rparr>)))))"

definition ToGatewayConfig :: "yaml_config \<Rightarrow> config_error + gateway_config" where
  "ToGatewayConfig c =
     (case parse_field ''session_timeout'' (ys_SessionTimeout (y_Server c)) of
        Inl e \<Rightarrow> Inl e
      | Inr sessionTimeout \<Rightarrow>
          (case parse_field ''ack_timeout'' (ys_AckTimeout (y_Server c)) of
             Inl e \<Rightarrow> Inl e
           | Inr ackTimeout \<Rightarrow>
               (case backup_part (y_Backup c) of
                  Inl e \<Rightarrow> Inl e
                | Inr b \<Rightarrow>
                    Inr \<lparr>g_QUICAddr = ys_QUICAddr (y_Server c), g_HTTPAddr = ys_HTTPAddr (y_Server c),
                      g_GRPCAddr = ys_GRPCAddr (y_Server c), g_MetricsAddr = ys_MetricsAddr (y_Server c),
                      g_UpstreamAddr = ys_UpstreamAddr (y_Server c), g_UpstreamServices = ys_UpstreamServices (y_Server c),
                      g_TLSCertFile = ys_CertFile (y_Server c), g_TLSKeyFile = ys_KeyFile (y_Server c),
                      g_SessionTimeout = sessionTimeout, g_AckTimeout = ackTimeout, g_MaxRetries = ys_MaxRetries (y_Server c),
                      g_StartProcessor = start_config (y_StartProcessor c), g_BackupConfig = b,
                      g_ServerID = yb_ServerID (y_Backup c), g_OverloadProtection = overload_part (y_Overload c)\<rparr>)))"

end
