(* ===== verification/Backup_Props.thy ===== *)
theory Backup_Props
  imports Backup_Manager Backup_Link
begin

text \<open>
  Properties of the failover: when a backup server takes over, that the parts of a server agree on its
  role, and where they do not: a switch that fails half way, a switch back that undoes itself, and a
  full synchronisation that comes too late.
\<close>

section \<open>Three failures in a row\<close>

type_synonym tick = "time \<times> duration \<times> peer"

text \<open>A tick at which the detection finds a failure; it depends on the configuration only.\<close>

fun failing :: "failover \<Rightarrow> tick \<Rightarrow> bool" where
  "failing f (now, dur, p) = fst (DetectFailure now p f)"

fun detect_run ::
  "(server_mode \<Rightarrow> 'w \<Rightarrow> backup_error option \<times> 'w) option \<Rightarrow> tick list \<Rightarrow> failover \<Rightarrow> 'w \<Rightarrow> failover \<times> 'w" where
  "detect_run cb [] f w = (f, w)"
| "detect_run cb ((now, dur, p) # xs) f w =
     (case failureDetector cb now dur p f w of (_, f', w') \<Rightarrow> detect_run cb xs f' w')"

fun reach3 :: "('a \<Rightarrow> bool) \<Rightarrow> nat \<Rightarrow> 'a list \<Rightarrow> bool" where
  "reach3 P k [] = False"
| "reach3 P k (x # xs) = (if P x then (if 2 \<le> k then True else reach3 P (Suc k) xs) else reach3 P 0 xs)"

definition three :: "('a \<Rightarrow> bool) \<Rightarrow> 'a list \<Rightarrow> bool" where
  "three P xs \<longleftrightarrow> (\<exists>pre a b c suf. xs = pre @ a # b # c # suf \<and> P a \<and> P b \<and> P c)"

lemma three_Nil [simp]: "\<not> three P []"
  by (simp add: three_def)

lemma three_Cons: "three P (x # xs) \<longleftrightarrow> (\<exists>b c suf. xs = b # c # suf \<and> P x \<and> P b \<and> P c) \<or> three P xs"
  unfolding three_def by (rule iffI) (fastforce simp: Cons_eq_append_conv, metis append_Cons append_Nil)

lemma reach3_iff:
  "k \<le> 2 \<Longrightarrow> reach3 P k xs \<longleftrightarrow> 3 - k \<le> length xs \<and> (\<forall>y \<in> set (take (3 - k) xs). P y) \<or> three P xs"
proof (induction xs arbitrary: k)
  case (Cons x xs)
  consider "k = 0" | "k = 1" | "k = 2" using Cons.prems by linarith
  then show ?case
    using Cons.IH [of 0] Cons.IH [of "Suc k"]
    by cases (auto simp: three_Cons numeral_3_eq_3 numeral_2_eq_2 length_Suc_conv Suc_le_length_iff)
qed simp

definition cb_succeeds :: "(server_mode \<Rightarrow> 'w \<Rightarrow> backup_error option \<times> 'w) option \<Rightarrow> bool" where
  "cb_succeeds cb \<longleftrightarrow> (\<forall>g. cb = Some g \<longrightarrow> (\<forall>m w. fst (g m w) = None))"

lemma switch_succeeds:
  assumes "cb_succeeds cb" "fo_currentMode f = ModeBackup"
  shows "fst (SwitchToPrimary cb now dur f w) = None \<and> fo_currentMode (fst (snd (SwitchToPrimary cb now dur f w))) = ModePrimary"
proof (cases cb)
  case (Some g)
  obtain w' where "g ModePrimary w = (None, w')" using assms(1) Some by (metis cb_succeeds_def prod.collapse)
  then show ?thesis using assms(2) Some by (simp add: SwitchToPrimary_def doSwitchToPrimary_def failover_updateStats_def)
qed (use assms in \<open>simp add: SwitchToPrimary_def doSwitchToPrimary_def failover_updateStats_def\<close>)

lemma primary_stays: "fo_currentMode f = ModePrimary \<Longrightarrow> detect_run cb xs f w = (f, w)"
  by (induction xs) (auto simp: failureDetector_def)

lemma failing_cong: "fo_config f' = fo_config f \<Longrightarrow> fo_syncSvc f' = fo_syncSvc f \<Longrightarrow> failing f' = failing f"
  by (rule ext) (auto simp: DetectFailure_def Let_def split: if_splits)

lemma DetectFailure_keeps:
  "DetectFailure now p f = (r, f') \<Longrightarrow> fo_config f' = fo_config f \<and> fo_syncSvc f' = fo_syncSvc f \<and>
     fo_consecutive f' = fo_consecutive f \<and> fo_currentMode f' = fo_currentMode f \<and> fo_cancelled f' = fo_cancelled f"
  by (auto simp: DetectFailure_def Let_def failover_updateStats_def split: if_splits)

lemma detect_run_mode:
  assumes "cb_succeeds cb" "fo_currentMode f = ModeBackup" "\<not> fo_cancelled f" "fo_consecutive f \<le> 2"
  shows "fo_currentMode (fst (detect_run cb xs f w)) =
    (if reach3 (failing f) (fo_consecutive f) xs then ModePrimary else ModeBackup)"
  using assms(2-)
proof (induction xs arbitrary: f w)
  case (Cons x xs)
  obtain now dur p where x: "x = (now, dur, p)" by (metis surj_pair)
  obtain r f1 where d: "DetectFailure now p f = (r, f1)" by (metis surj_pair)
  note k = DetectFailure_keeps [OF d]
  have run: "detect_run cb (x # xs) f w =
      (case failureDetector cb now dur p f w of (_, f', w') \<Rightarrow> detect_run cb xs f' w')" by (simp add: x)
  consider "\<not> r" | "r" "fo_consecutive f < 2" | "r" "fo_consecutive f = 2" using Cons.prems(3) by linarith
  then show ?case
  proof cases
    case 1
    let ?f = "f1\<lparr>fo_consecutive := 0\<rparr>"
    have "failureDetector cb now dur p f w = (False, ?f, w)" using Cons.prems d 1 by (simp add: failureDetector_def)
    moreover have "failing ?f = failing f" using k by (intro failing_cong) simp_all
    ultimately show ?thesis using Cons.IH [of ?f w] Cons.prems k d 1 run by (simp add: x)
  next
    case 2
    let ?f = "f1\<lparr>fo_consecutive := fo_consecutive f1 + 1\<rparr>"
    have "failureDetector cb now dur p f w = (False, ?f, w)"
      using Cons.prems d 2 k by (simp add: failureDetector_def maxConsecutiveFailures_def)
    moreover have "failing ?f = failing f" using k by (intro failing_cong) simp_all
    ultimately show ?thesis using Cons.IH [of ?f w] Cons.prems k d 2 run by (simp add: x)
  next
    case 3
    let ?f = "f1\<lparr>fo_consecutive := fo_consecutive f1 + 1\<rparr>"
    obtain r' f3 w' where s: "SwitchToPrimary cb now dur ?f w = (r', f3, w')" by (metis surj_pair)
    have "fo_currentMode f3 = ModePrimary" using switch_succeeds [OF assms(1), of ?f now dur w] s k Cons.prems(1) by simp
    moreover have "failureDetector cb now dur p f w = (r' = None, f3\<lparr>fo_consecutive := 0\<rparr>, w')"
      using Cons.prems d 3 k s by (simp add: failureDetector_def maxConsecutiveFailures_def)
    ultimately show ?thesis using run d 3 by (simp add: x primary_stays)
  qed
qed simp

text \<open>C32. A backup server takes over exactly when the detection finds a failure at three ticks in a row (and the
  switch itself succeeds); a tick without a failure starts the count again. \<close>

theorem takeover_after_three:
  assumes "cb_succeeds cb" "fo_currentMode f = ModeBackup" "\<not> fo_cancelled f" "fo_consecutive f = 0"
  shows "fo_currentMode (fst (detect_run cb xs f w)) = ModePrimary \<longleftrightarrow>
    (\<exists>pre a b c suf. xs = pre @ a # b # c # suf \<and> failing f a \<and> failing f b \<and> failing f c)"
proof -
  have "reach3 (failing f) 0 xs \<longleftrightarrow> three (failing f) xs"
    using reach3_iff [of 0 "failing f" xs]
    by (auto simp: three_Cons numeral_3_eq_3 Suc_le_length_iff)
  then show ?thesis using detect_run_mode [OF assms(1-3), of xs w] assms(4) by (simp add: three_def)
qed

definition silent :: peer where
  "silent = \<lparr>pe_alive = False, pe_lastHeartbeat = 10, pe_connected = False, pe_errors = 0\<rparr>"

definition heard :: peer where
  "heard = silent\<lparr>pe_alive := True\<rparr>"

definition toy_failover :: failover where
  "toy_failover = NewFailoverService \<lparr>fc_DetectionTimeout = 60, fc_SwitchTimeout = 0, fc_RecoveryTimeout = 0, fc_MaxRetries = 3\<rparr>
     ModeBackup True True None"

theorem takeover_after_three_witness:
  "fo_currentMode (fst (detect_run None [(100, 1, silent), (120, 1, heard), (140, 1, silent), (160, 1, silent)] toy_failover ())) \<noteq> ModePrimary \<and>
   fo_currentMode (fst (detect_run None [(100, 1, heard), (120, 1, silent), (140, 1, silent), (160, 1, silent)] toy_failover ())) = ModePrimary"
proof -
  have f: "failing toy_failover (t, d, silent) \<longleftrightarrow> 70 < t" "\<not> failing toy_failover (t, d, heard)" if "t \<in> {100, 120, 140, 160}" for t d
    using that by (auto simp: DetectFailure_def toy_failover_def NewFailoverService_def silent_def heard_def i64_def)
  have t: "cb_succeeds (None :: (server_mode \<Rightarrow> unit \<Rightarrow> backup_error option \<times> unit) option)"
    "fo_currentMode toy_failover = ModeBackup" "\<not> fo_cancelled toy_failover" "fo_consecutive toy_failover = 0"
    by (simp_all add: cb_succeeds_def toy_failover_def NewFailoverService_def)
  have run: "fo_currentMode (fst (detect_run None xs toy_failover ())) = ModePrimary \<longleftrightarrow> three (failing toy_failover) xs" for xs
    unfolding three_def by (rule takeover_after_three [OF t])
  show ?thesis unfolding run using f by (simp add: three_Cons)
qed

section \<open>One server, one role\<close>

definition listen_ok :: "(string \<Rightarrow> err option) \<Rightarrow> bool" where
  "listen_ok listen \<longleftrightarrow> (\<forall>a. listen a = None)"

definition cfg_ok :: "sync_config \<Rightarrow> bool" where
  "cfg_ok c \<longleftrightarrow> 0 \<le> sc_BufferSize c \<and> 0 \<le> sc_SyncBatchSize c \<and> 0 < sc_SyncTimeout c"

text \<open>The services a server has in a role.\<close>

definition equipped :: "server_mode \<Rightarrow> 'n backup \<Rightarrow> bool" where
  "equipped mode b \<longleftrightarrow>
     (mode = ModePrimary \<and> (\<exists>i < length (bm_services b). bm_syncService b = Some i) \<and> bm_syncReceiver b = None) \<or>
     (mode = ModeBackup \<and> bm_syncService b = None \<and> (\<exists>r. bm_syncReceiver b = Some r \<and> rv_listening r))"

definition roles :: "server_mode \<Rightarrow> 'n backup_system \<Rightarrow> bool" where
  "roles hm sys \<longleftrightarrow> (\<exists>b f h. sys = (b, Some f) \<and> fo_currentMode f = bm_currentMode b \<and> equipped (bm_currentMode b) b \<and>
     cfg_ok (bc_Sync (bm_config b)) \<and> bm_heartbeat b = Some h \<and> hb_mode h = hm)"

lemma make_service_ok:
  assumes "cfg_ok (bc_Sync (bm_config b))"
  shows "\<exists>s. make_service now b = b\<lparr>bm_services := bm_services b @ [s], bm_syncService := Some (length (bm_services b))\<rparr>"
  using assms by (auto simp: make_service_def cfg_ok_def NewSyncService_def NewSyncServiceWithAddr_def sync_Start_def Let_def)

lemma make_receiver_ok:
  assumes "listen_ok listen"
  shows "\<exists>r. make_receiver listen b = (None, b\<lparr>bm_syncReceiver := Some r\<rparr>) \<and> rv_listening r"
proof -
  let ?new = "(if bc_SyncAddr (bm_config b) \<noteq> [] then newSyncReceiverWithAddr (bc_Sync (bm_config b)) (bc_SyncAddr (bm_config b))
    else newSyncReceiver (bc_Sync (bm_config b)))\<lparr>rv_cancelled := bm_cancelled b, rv_listening := True\<rparr>"
  have "make_receiver listen b = (None, b\<lparr>bm_syncReceiver := Some ?new\<rparr>)"
    using assms by (simp add: make_receiver_def listen_ok_def receiver_Start_def Let_def)
  then show ?thesis by (intro exI [of _ ?new] conjI) simp_all
qed

lemma onModeSwitch_ok:
  assumes "listen_ok listen" "cfg_ok (bc_Sync (bm_config b))" "equipped m b" "mode \<in> {ModePrimary, ModeBackup}" "mode \<noteq> m"
  shows "\<exists>b'. onModeSwitch listen now mode b = (None, b') \<and> bm_currentMode b' = mode \<and> equipped mode b' \<and>
    bm_config b' = bm_config b \<and> bm_heartbeat b' = bm_heartbeat b"
proof (cases "mode = ModePrimary")
  case True
  then have n: "bm_syncService b = None" using assms(3,5) by (auto simp: equipped_def)
  obtain s where "make_service now (b\<lparr>bm_currentMode := mode, bm_syncReceiver := None\<rparr>) =
      b\<lparr>bm_currentMode := mode, bm_syncReceiver := None, bm_services := bm_services b @ [s], bm_syncService := Some (length (bm_services b))\<rparr>"
    using make_service_ok [of "b\<lparr>bm_currentMode := mode, bm_syncReceiver := None\<rparr>" now] assms(2) by auto
  then show ?thesis using True n by (simp add: onModeSwitch_def Let_def equipped_def)
next
  case False
  then obtain i where i: "bm_syncService b = Some i" "bm_syncReceiver b = None" and mode: "mode = ModeBackup"
    using assms(3,4,5) by (auto simp: equipped_def)
  let ?b = "(upd_service i sync_Stop (b\<lparr>bm_currentMode := mode\<rparr>))\<lparr>bm_syncService := None\<rparr>"
  obtain r where "make_receiver listen ?b = (None, ?b\<lparr>bm_syncReceiver := Some r\<rparr>)" "rv_listening r"
    using make_receiver_ok [OF assms(1)] by blast
  then show ?thesis using mode i by (simp add: onModeSwitch_def Let_def equipped_def upd_service_def)
qed

lemma roles_switch:
  assumes "listen_ok listen" "roles hm (b, Some f)"
  shows "roles hm (case SwitchToPrimary (Some (onModeSwitch listen now)) now dur f b of (r, f', b') \<Rightarrow> (b', Some f'))"
    "roles hm (case SwitchToBackup (Some (onModeSwitch listen now)) now dur f b of (r, f', b') \<Rightarrow> (b', Some f'))"
proof -
  from assms(2) have r: "fo_currentMode f = bm_currentMode b" "equipped (bm_currentMode b) b"
    "cfg_ok (bc_Sync (bm_config b))" "\<exists>h. bm_heartbeat b = Some h \<and> hb_mode h = hm" by (auto simp: roles_def)
  show "roles hm (case SwitchToPrimary (Some (onModeSwitch listen now)) now dur f b of (r, f', b') \<Rightarrow> (b', Some f'))"
  proof (cases "bm_currentMode b = ModePrimary")
    case False
    then obtain b' where "onModeSwitch listen now ModePrimary b = (None, b')" "bm_currentMode b' = ModePrimary"
      "equipped ModePrimary b'" "bm_config b' = bm_config b" "bm_heartbeat b' = bm_heartbeat b"
      using onModeSwitch_ok [OF assms(1) r(3,2), of ModePrimary now] by auto
    then show ?thesis using r False
      by (simp add: SwitchToPrimary_def doSwitchToPrimary_def roles_def failover_updateStats_def)
  qed (use assms r in \<open>simp add: SwitchToPrimary_def\<close>)
  show "roles hm (case SwitchToBackup (Some (onModeSwitch listen now)) now dur f b of (r, f', b') \<Rightarrow> (b', Some f'))"
  proof (cases "bm_currentMode b = ModeBackup")
    case False
    then obtain b' where "onModeSwitch listen now ModeBackup b = (None, b')" "bm_currentMode b' = ModeBackup"
      "equipped ModeBackup b'" "bm_config b' = bm_config b" "bm_heartbeat b' = bm_heartbeat b"
      using onModeSwitch_ok [OF assms(1) r(3,2), of ModeBackup now] by auto
    then show ?thesis using r False
      by (simp add: SwitchToBackup_def doSwitchToBackup_def roles_def failover_updateStats_def)
  qed (use assms r in \<open>simp add: SwitchToBackup_def\<close>)
qed

text \<open>Changes that leave the role alone.\<close>

lemma roles_cong:
  "roles hm (b, Some f) \<Longrightarrow> fo_currentMode f' = fo_currentMode f \<Longrightarrow> bm_currentMode b' = bm_currentMode b \<Longrightarrow>
   length (bm_services b') = length (bm_services b) \<Longrightarrow> bm_syncService b' = bm_syncService b \<Longrightarrow>
   bm_syncReceiver b' = bm_syncReceiver b \<Longrightarrow> bm_config b' = bm_config b \<Longrightarrow>
   map_option hb_mode (bm_heartbeat b') = map_option hb_mode (bm_heartbeat b) \<Longrightarrow> roles hm (b', Some f')"
  by (auto simp: roles_def equipped_def)

text \<open>
  What happens on a running server: the operations of the manager, the ticks of its goroutines, and
  the goroutines of the services, which change those services only; \<open>mgr\<close> is the session manager over time.
\<close>

inductive backup_step ::
  "(string \<Rightarrow> err option) \<Rightarrow> (time \<Rightarrow> 'x manager option) \<Rightarrow> 'n backup_system \<Rightarrow> 'n backup_system \<Rightarrow> bool"
  for listen mgr where
  bstep_trigger: "backup_step listen mgr s (snd (TriggerFailover listen now dur s))"
| bstep_detector: "backup_step listen mgr s (detector_tick listen now dur s)"
| bstep_restore: "backup_step listen mgr s (snd (restore_sessions now s))"
| bstep_delayed: "backup_step listen mgr s (run_delayed now i s)"
| bstep_health: "backup_step listen mgr (b, Some f) (b, Some (healthChecker (peer_view b f) f))"
| bstep_stats: "backup_step listen mgr s (statsUpdater now (mgr now) s)"
| bstep_periodic: "backup_step listen mgr (b, f) (periodicSync now (mgr now) b, f)"
| bstep_sync: "backup_step listen mgr (b, f) (snd (TriggerSync now b), f)"
| bstep_service: "backup_step listen mgr (b, f) (upd_service i g b, f)"
| bstep_heartbeat: "(\<And>h. hb_mode (g h) = hb_mode h) \<Longrightarrow>
    backup_step listen mgr (b, f) (b\<lparr>bm_heartbeat := map_option g (bm_heartbeat b)\<rparr>, f)"

text \<open>
  The goroutines of the heartbeat service: sender, connection manager, the two readers (message by message
  and to the end of a connection), accepting, checking. None of them writes the mode, so each is a step.
\<close>

inductive heartbeat_step :: "'x manager option \<Rightarrow> 'n heartbeat \<Rightarrow> 'n heartbeat \<Rightarrow> bool" for mgr where
  hstep_sender: "heartbeat_step mgr h (heartbeatSender nw L now latency mgr h)"
| hstep_connect: "heartbeat_step mgr h (heartbeat_connectionManager nw reconnect h)"
| hstep_received: "heartbeat_step mgr h (snd (OnHeartbeatReceived now d h))"
| hstep_receive: "heartbeat_step mgr h (receiveHeartbeats L halt clock conn h)"
| hstep_answer: "heartbeat_step mgr h (fst (handleHeartbeatConnection nw L mgr halt clock addr conn (h, out)))"
| hstep_accept: "heartbeat_step mgr h (snd (heartbeat_acceptConnections a h))"
| hstep_check: "heartbeat_step mgr h (heartbeatChecker now h)"
| hstep_lost: "heartbeat_step mgr h (setPeerAlive False h)"
| hstep_stop: "heartbeat_step mgr h (heartbeat_Stop h)"

lemma heartbeat_sets_keep [simp]:
  "hb_mode (setPeerAlive a h) = hb_mode h" "hb_mode (heartbeat_updateStats g h) = hb_mode h"
  "hb_mode (updateLastPeerTime t h) = hb_mode h" "hb_mode (updateLastSelfTime t h) = hb_mode h"
  "hb_mode (heartbeat_closeConnection h) = hb_mode h" "hb_mode (heartbeat_tryConnect nw h) = hb_mode h"
  "hb_mode (snd (OnHeartbeatReceived now d h)) = hb_mode h" "hb_mode (closeListener h) = hb_mode h"
  by (simp_all add: setPeerAlive_def heartbeat_updateStats_def updateLastPeerTime_def updateLastSelfTime_def
    heartbeat_closeConnection_def heartbeat_tryConnect_def OnHeartbeatReceived_def closeListener_def split: sum.split)

lemma send_mode: "hb_mode (snd (SendHeartbeat nw L now latency mgr h)) = hb_mode h"
  by (auto simp: SendHeartbeat_def sendHeartbeatMessage_def Let_def split: option.split prod.split)

lemma receive_mode: "hb_mode (receive_loop L halt clock i conn h) = hb_mode h"
  by (induction L halt clock i conn h rule: receive_loop.induct)
    (subst receive_loop.simps, simp split: sum.split prod.split option.split)

lemma answer_mode: "hb_mode (fst (answer_loop nw L mgr halt clock i conn (h, out))) = hb_mode h"
  by (induction nw L mgr halt clock i conn "(h, out)" arbitrary: h out rule: answer_loop.induct)
    (subst answer_loop.simps, simp add: Let_def split: sum.split prod.split option.split)

lemma heartbeat_step_mode: "heartbeat_step m h h' \<Longrightarrow> hb_mode h' = hb_mode h"
proof (induction rule: heartbeat_step.induct)
  case (hstep_answer h nw L halt clock addr conn out)
  then show ?case
    using answer_mode [of nw L m halt clock 0 conn h out] by (auto simp: handleHeartbeatConnection_def split: prod.split)
qed (simp_all add: heartbeatSender_def send_mode heartbeat_connectionManager_def receiveHeartbeats_def receive_mode
    heartbeat_acceptConnections_def heartbeat_Stop_def split: sum.split)

lemma heartbeat_step_backup:
  assumes "heartbeat_step m h h'" "bm_heartbeat b = Some h"
  shows "backup_step listen mgr (b, f) (b\<lparr>bm_heartbeat := Some h'\<rparr>, f)"
proof -
  have "hb_mode (if x = h then h' else x) = hb_mode x" for x using heartbeat_step_mode [OF assms(1)] by simp
  from bstep_heartbeat [where g = "\<lambda>x. if x = h then h' else x" and b = b and f = f, OF this] show ?thesis by (simp add: assms(2))
qed

lemma crash_keeps [simp]:
  "bm_currentMode (crash b) = bm_currentMode b" "bm_services (crash b) = bm_services b"
  "bm_syncService (crash b) = bm_syncService b" "bm_syncReceiver (crash b) = bm_syncReceiver b"
  "bm_config (crash b) = bm_config b" "bm_heartbeat (crash b) = bm_heartbeat b"
  by (simp_all add: crash_def)

lemma upd_service_keeps [simp]:
  "bm_currentMode (upd_service i g b) = bm_currentMode b" "length (bm_services (upd_service i g b)) = length (bm_services b)"
  "bm_syncService (upd_service i g b) = bm_syncService b" "bm_syncReceiver (upd_service i g b) = bm_syncReceiver b"
  "bm_config (upd_service i g b) = bm_config b" "bm_heartbeat (upd_service i g b) = bm_heartbeat b"
  by (simp_all add: upd_service_def)

lemma roles_sync: "roles hm (b, f) \<Longrightarrow> roles hm (snd (TriggerSync now b), f)"
  by (cases f) (auto simp: TriggerSync_def roles_def equipped_def split: option.splits)

lemma roles_restore: "roles hm (b, f) \<Longrightarrow> roles hm (snd (restore_sessions now (b, f)))"
  by (cases f)
    (auto simp: restore_sessions_def RestoreSessions_def doRestoreSessions_def onSessionRestore_def failover_updateStats_def
      Let_def elim!: roles_cong split: option.splits prod.splits)

lemma roles_delayed:
  assumes "roles hm (b, f)" shows "roles hm (run_delayed now i (b, f))"
proof -
  let ?b = "b\<lparr>bm_delayed := take i (bm_delayed b) @ drop (Suc i) (bm_delayed b)\<rparr>"
  obtain g where f: "f = Some g" using assms by (auto simp: roles_def)
  have r: "roles hm (?b, Some g)" by (rule roles_cong [OF assms [unfolded f]]) simp_all
  have "roles hm (startSessionSyncHooks ?b, Some g)"
    by (rule roles_cong [OF r]) (simp_all add: startSessionSyncHooks_def)
  moreover have "roles hm (crash ?b, Some g)" by (rule roles_cong [OF r]) simp_all
  ultimately show ?thesis
    using r roles_sync [OF r] roles_restore [OF r] assms
    by (simp add: run_delayed_def Let_def f split: delayed.split)
qed

lemma roles_step: "backup_step listen mgr s s' \<Longrightarrow> listen_ok listen \<Longrightarrow> roles hm s \<Longrightarrow> roles hm s'"
proof (induction rule: backup_step.induct)
  case (bstep_trigger s now dur)
  then obtain b f where s: "s = (b, Some f)" by (auto simp: roles_def)
  show ?case using roles_switch [OF bstep_trigger(1) bstep_trigger(2) [unfolded s], of now dur]
    by (simp add: s TriggerFailover_def case_prod_beta)
next
  case (bstep_detector s now dur)
  then obtain b f where s: "s = (b, Some f)" by (auto simp: roles_def)
  obtain x f1 where d: "DetectFailure now (peer_view b f) f = (x, f1)" by (metis surj_pair)
  note k = DetectFailure_keeps [OF d]
  let ?f2 = "f1\<lparr>fo_consecutive := fo_consecutive f1 + 1\<rparr>"
  obtain r f3 b3 where w: "SwitchToPrimary (Some (onModeSwitch listen now)) now dur ?f2 b = (r, f3, b3)" by (metis surj_pair)
  have "roles hm (b, Some ?f2)" by (rule roles_cong [OF bstep_detector(2) [unfolded s]]) (simp_all add: k)
  then have w3: "roles hm (b3, Some f3)" using roles_switch(1) [OF bstep_detector(1), of hm b ?f2 now dur] w by simp
  have "roles hm (b3\<lparr>bm_delayed := ds\<rparr>, Some (f3\<lparr>fo_consecutive := 0\<rparr>))" for ds by (rule roles_cong [OF w3]) simp_all
  moreover have "roles hm (b3, Some (f3\<lparr>fo_consecutive := 0\<rparr>))" by (rule roles_cong [OF w3]) simp_all
  moreover have "roles hm (b, Some (f1\<lparr>fo_consecutive := n\<rparr>))" for n by (rule roles_cong [OF bstep_detector(2) [unfolded s]]) (simp_all add: k)
  ultimately show ?case
    using bstep_detector(2) d w by (simp add: s detector_tick_def failureDetector_def Let_def split: bool.split)
next
  case (bstep_health b f)
  then show ?case by (elim roles_cong) (simp_all add: healthChecker_def setHealthy_def failover_updateStats_def Let_def)
next
  case (bstep_stats s now)
  then obtain b f where s: "s = (b, Some f)" by (auto simp: roles_def)
  show ?case using bstep_stats(2) unfolding s
    by (auto simp: statsUpdater_def bm_updateStats_def Let_def elim!: roles_cong)
next
  case (bstep_periodic b f now)
  then obtain g where f: "f = Some g" by (auto simp: roles_def)
  show ?case using bstep_periodic(2) unfolding f
    by (elim roles_cong) (simp_all add: periodicSync_def syncAllSessions_def split: option.split)
next
  case (bstep_service b f i g)
  then obtain x where f: "f = Some x" by (auto simp: roles_def)
  show ?case using bstep_service(2) unfolding f by (elim roles_cong) simp_all
next
  case (bstep_heartbeat g b f)
  then obtain x where f: "f = Some x" by (auto simp: roles_def)
  show ?case using bstep_heartbeat(3) unfolding f
    by (elim roles_cong) (simp_all add: option.map_comp comp_def bstep_heartbeat(1))
qed (metis roles_restore roles_delayed roles_sync surj_pair)+


text \<open>A new manager that knows the session manager, as the gateway makes it before it starts it.\<close>

definition registered :: "time \<Rightarrow> backup_config \<Rightarrow> string \<Rightarrow> 'n backup_system" where
  "registered now c sid = apfst RegisterSessionManager (NewBackupManager now c sid)"

lemma start_roles:
  fixes b :: "'n backup"
  assumes "listen_ok listen" "cfg_ok (bc_Sync c)" "sc_Enabled (bc_Sync c)" "mode = sc_Mode (bc_Sync c)"
    "mode \<in> {ModePrimary, ModeBackup}" "bm_Start listen now (registered now' c sid) = (None, b, f)" "\<not> bm_crashed b"
  shows "roles mode (b, f)"
proof -
  let ?b0 = "(fst (registered now' c sid :: 'n backup_system))\<lparr>bm_currentMode := mode, bm_cancelled := False\<rparr>"
  have b0: "bm_config ?b0 = c" "bm_currentMode ?b0 = mode" "bm_syncService ?b0 = None" "bm_syncReceiver ?b0 = None"
    by (simp_all add: registered_def RegisterSessionManager_def NewBackupManager_def Let_def)
  have "\<exists>b1. startSyncServices listen now ?b0 = (None, b1) \<and> equipped mode b1 \<and> bm_config b1 = c \<and> bm_currentMode b1 = mode"
  proof (cases "mode = ModePrimary")
    case True
    have "cfg_ok (bc_Sync (bm_config ?b0))" using assms(2) b0(1) by simp
    from make_service_ok [OF this, of now]
    obtain s where "make_service now ?b0 = ?b0\<lparr>bm_services := bm_services ?b0 @ [s], bm_syncService := Some (length (bm_services ?b0))\<rparr>"
      by blast
    then show ?thesis using True b0 by (simp add: startSyncServices_def equipped_def)
  next
    case False
    obtain r where "make_receiver listen ?b0 = (None, ?b0\<lparr>bm_syncReceiver := Some r\<rparr>)" "rv_listening r"
      using make_receiver_ok [OF assms(1)] by blast
    then show ?thesis using False b0 assms(5) by (simp add: startSyncServices_def equipped_def)
  qed
  then obtain b1 where b1: "startSyncServices listen now ?b0 = (None, b1)" "equipped mode b1" "bm_config b1 = c" "bm_currentMode b1 = mode"
    by blast
  obtain r2 b2 where h: "startHeartbeatService listen b1 = (r2, b2)" by (metis surj_pair)
  obtain b3 f3 where g: "startFailoverService b2 = (b3, f3)" by (metis surj_pair)
  have st: "r2 = None" "f = f3"
    "b = (if bm_currentMode b3 = ModePrimary then b3\<lparr>bm_delayed := bm_delayed b3 @ [(now + 5 * Second, StartHooks)]\<rparr> else b3)"
    using assms(3,4,6) b1 h g
    by (auto simp: bm_Start_def registered_def RegisterSessionManager_def NewBackupManager_def Let_def split: option.splits)
  have nc: "\<not> bm_crashed b3" using assms(7) st(3) by (auto split: if_splits)
  then have f3: "f3 = Some (NewFailoverService (bc_Failover (bm_config b2)) (bm_currentMode b2) (bm_heartbeat b2 \<noteq> None) (bm_managerSet b2) (bm_syncService b2))"
    "b3 = b2"
    using g by (auto simp: startFailoverService_def Let_def crash_def failover_Start_def split: option.splits if_splits)
  have "\<not> bm_crashed b2" using nc f3(2) by simp
  then have b2: "bm_currentMode b2 = mode" "equipped mode b2" "bm_config b2 = c" "\<exists>h. bm_heartbeat b2 = Some h \<and> hb_mode h = mode"
    using h b1
    by (auto simp: startHeartbeatService_def Let_def crash_def heartbeat_Start_def startListener_def equipped_def
        NewHeartbeatService_def NewHeartbeatServiceWithAddr_def split: if_splits option.splits)
  have "roles mode (b2, f3)" using b2 assms(2) by (simp add: roles_def f3 NewFailoverService_def)
  then have "roles mode (b, f3)" unfolding f3(1) by (rule roles_cong) (simp_all add: st(3) f3(2))
  then show ?thesis using st(2) by simp
qed

text \<open>C33. As long as the listeners can be opened, the parts of a running server agree on its role: manager and
  failover service have the same mode, a primary has a synchronisation service and no receiver, a backup
  a listening receiver and no service. The heartbeat service alone keeps the mode it was started in,
  through every switch. \<close>

theorem roles_agree:
  assumes "listen_ok listen" "cfg_ok (bc_Sync c)" "sc_Enabled (bc_Sync c)" "sc_Mode (bc_Sync c) \<in> {ModePrimary, ModeBackup}"
    "bm_Start listen now (registered now' c sid) = (None, s)" "\<not> bm_crashed (fst s)" "(backup_step listen mgr)\<^sup>*\<^sup>* s s'"
  shows "\<exists>b f h. s' = (b, Some f) \<and> fo_currentMode f = bm_currentMode b \<and> equipped (bm_currentMode b) b \<and>
    bm_heartbeat b = Some h \<and> hb_mode h = sc_Mode (bc_Sync c)"
proof -
  obtain b f where "s = (b, f)" by (metis surj_pair)
  then have "roles (sc_Mode (bc_Sync c)) s" using start_roles [OF assms(1-3) refl assms(4)] assms(5,6) by simp
  with assms(7) have "roles (sc_Mode (bc_Sync c)) s'" by induction (auto intro: roles_step [OF _ assms(1)])
  then show ?thesis unfolding roles_def by blast
qed

definition toy_backup :: "server_mode \<Rightarrow> backup_config" where
  "toy_backup mode = \<lparr>bc_Sync = toy_sync\<lparr>sc_Mode := mode\<rparr>,
     bc_Failover = \<lparr>fc_DetectionTimeout = 60, fc_SwitchTimeout = 0, fc_RecoveryTimeout = 0, fc_MaxRetries = 3\<rparr>,
     bc_HeartbeatAddr = ''h:1'', bc_SyncAddr = ''s:1''\<rparr>"

definition toy_system :: "bytes list backup_system" where
  "toy_system = snd (bm_Start (\<lambda>_. None) 5 (registered 4 (toy_backup ModePrimary) ''g1''))"

text \<open>The gateway that the witnesses start: a primary, later switched to backup by hand.\<close>

lemma toy_system_roles:
  "cfg_ok (bc_Sync (toy_backup ModePrimary))" "sc_Enabled (bc_Sync (toy_backup ModePrimary))"
  "sc_Mode (bc_Sync (toy_backup ModePrimary)) = ModePrimary" "listen_ok (\<lambda>_. None)"
  "bm_Start (\<lambda>_. None) 5 (registered 4 (toy_backup ModePrimary) ''g1'') = (None, toy_system)" "\<not> bm_crashed (fst toy_system)"
proof -
  have "fst (bm_Start (\<lambda>_. None) 5 (registered 4 (toy_backup ModePrimary) ''g1'') :: _ \<times> bytes list backup_system) = None" by code_simp
  then show "bm_Start (\<lambda>_. None) 5 (registered 4 (toy_backup ModePrimary) ''g1'') = (None, toy_system)"
    by (metis toy_system_def prod.collapse)
  show "\<not> bm_crashed (fst toy_system)" by code_simp
qed (simp_all add: cfg_ok_def toy_backup_def toy_sync_def Millisecond_def listen_ok_def)

theorem roles_agree_witness:
  "\<exists>b f h. snd (TriggerFailover (\<lambda>_. None) 10 1 toy_system) = (b, Some f) \<and> bm_currentMode b = ModeBackup \<and>
     fo_currentMode f = ModeBackup \<and> bm_syncService b = None \<and> bm_heartbeat b = Some h \<and> hb_mode h = ModePrimary"
proof -
  let ?s = "snd (TriggerFailover (\<lambda>_. None) 10 1 toy_system)"
  have st: "(backup_step (\<lambda>_. None) (\<lambda>_. None :: bytes manager option))\<^sup>*\<^sup>* toy_system ?s"
    by (rule r_into_rtranclp) (rule bstep_trigger)
  have "sc_Mode (bc_Sync (toy_backup ModePrimary)) \<in> {ModePrimary, ModeBackup}" by (simp add: toy_system_roles)
  from roles_agree [OF toy_system_roles(4,1,2) this toy_system_roles(5,6) st]
  obtain b f h where r: "?s = (b, Some f)" "fo_currentMode f = bm_currentMode b" "equipped (bm_currentMode b) b"
    "bm_heartbeat b = Some h" "hb_mode h = ModePrimary" by (auto simp: toy_system_roles)
  moreover have "bm_currentMode (fst ?s) = ModeBackup" by code_simp
  ultimately show ?thesis by (auto simp: equipped_def)
qed

lemma primary_service:
  assumes "roles hm (b, Some f)" "bm_currentMode b = ModePrimary"
  obtains i where "bm_syncService b = Some i" "i < length (bm_services b)" "bm_syncReceiver b = None" "fo_currentMode f = ModePrimary"
  using assms by (auto simp: roles_def equipped_def)

text \<open>A switch to backup that cannot open its listener splits the server for good: it reports an error, the
  manager is a backup without a listening receiver, its synchronisation service is gone, but the failover
  service still is the primary; every later failover is refused and the detection does nothing. \<close>

theorem failed_switch_splits:
  assumes "roles hm (b, Some f)" "bm_currentMode b = ModePrimary" "\<And>a. listen a \<noteq> None"
    "TriggerFailover listen now dur (b, Some f) = (r, b', f')"
  shows "r \<noteq> None \<and> bm_currentMode b' = ModeBackup \<and> bm_syncService b' = None \<and>
    (\<exists>v. bm_syncReceiver b' = Some v \<and> \<not> rv_listening v) \<and> (\<exists>g. f' = Some g \<and> fo_currentMode g = ModePrimary) \<and>
    TriggerFailover listen' now2 dur2 (b', f') = (Some (BAlready ModePrimary), b', f') \<and>
    detector_tick listen' now2 dur2 (b', f') = (b', f')"
proof -
  obtain i where p: "bm_syncService b = Some i" "bm_syncReceiver b = None" "fo_currentMode f = ModePrimary"
    using primary_service [OF assms(1,2)] by blast
  let ?b = "(upd_service i sync_Stop (b\<lparr>bm_currentMode := ModeBackup\<rparr>))\<lparr>bm_syncService := None\<rparr>"
  let ?v = "(if bc_SyncAddr (bm_config b) \<noteq> [] then newSyncReceiverWithAddr (bc_Sync (bm_config b)) (bc_SyncAddr (bm_config b))
    else newSyncReceiver (bc_Sync (bm_config b)))\<lparr>rv_cancelled := bm_cancelled b\<rparr>"
  obtain x where x: "listen (rv_listenAddr ?v) = Some x" using assms(3) by blast
  let ?e = "BWrap ''Start: listen'' (BExternal x)"
  have e: "make_receiver listen ?b = (Some ?e, ?b\<lparr>bm_syncReceiver := Some ?v\<rparr>)"
    using x by (simp add: make_receiver_def receiver_Start_def Let_def upd_service_def split del: if_split)
  then have "onModeSwitch listen now ModeBackup b = (Some (BWrap ''onModeSwitch: receiver'' ?e), ?b\<lparr>bm_syncReceiver := Some ?v\<rparr>)"
    using p by (simp add: onModeSwitch_def Let_def)
  then have s: "r = Some (BWrap ''doSwitchToBackup: callback'' (BWrap ''onModeSwitch: receiver'' ?e))"
    "b' = ?b\<lparr>bm_syncReceiver := Some ?v\<rparr>" "f' = Some f"
    using assms(2,4) p(3) by (simp_all add: TriggerFailover_def SwitchToBackup_def doSwitchToBackup_def)
  show ?thesis
    using p(3) by (simp add: s TriggerFailover_def SwitchToPrimary_def detector_tick_def failureDetector_def
        newSyncReceiver_def newSyncReceiverWithAddr_def)
qed

theorem failed_switch_splits_witness:
  "case TriggerFailover (\<lambda>_. Some ErrEOF) 10 1 toy_system of
     (r, b', f') \<Rightarrow> bm_currentMode b' = ModeBackup \<and> map_option fo_currentMode f' = Some ModePrimary \<and>
       fst (TriggerFailover (\<lambda>_. None) 20 1 (b', f')) = Some (BAlready ModePrimary)"
proof -
  obtain b f where t: "toy_system = (b, Some f)" "roles ModePrimary (b, Some f)"
    using roles_agree [OF toy_system_roles(4,1,2) _ toy_system_roles(5,6), of "\<lambda>_. None :: bytes manager option" toy_system]
      start_roles [OF toy_system_roles(4,1,2) refl, of 5 4 "''g1''" "fst toy_system" "snd toy_system"] toy_system_roles
    by (cases toy_system) auto
  have "bm_currentMode (fst toy_system) = ModePrimary" by code_simp
  then have m: "bm_currentMode b = ModePrimary" unfolding t(1) by simp
  obtain r b' f' where s: "TriggerFailover (\<lambda>_. Some ErrEOF) 10 1 (b, Some f) = (r, b', f')" by (metis surj_pair)
  show ?thesis unfolding t(1) s using failed_switch_splits [OF t(2) m _ s, of "\<lambda>_. None" 20 1] by auto
qed

text \<open>A tick of the detection after the heartbeat service has changed in some way.\<close>

definition tick_after ::
  "(string \<Rightarrow> err option) \<Rightarrow> ('n heartbeat \<Rightarrow> 'n heartbeat) \<times> time \<times> duration \<Rightarrow> 'n backup_system \<Rightarrow> 'n backup_system" where
  "tick_after listen e sys =
     (case e of (g, now, dur) \<Rightarrow>
        detector_tick listen now dur ((fst sys)\<lparr>bm_heartbeat := map_option g (bm_heartbeat (fst sys))\<rparr>, snd sys))"

definition abandoned :: "nat \<Rightarrow> 'n backup_system \<Rightarrow> bool" where
  "abandoned k sys \<longleftrightarrow> (\<exists>b f i. sys = (b, Some f) \<and> fo_currentMode f = ModeBackup \<and> \<not> fo_cancelled f \<and> fo_consecutive f = k \<and>
     fo_syncSvc f = Some i \<and> ss_peerConn (bm_services b ! i) = None)"

lemma sync_Stop_closes: "\<not> ss_stopped s \<Longrightarrow> ss_peerConn (sync_Stop s) = None"
  by (simp add: sync_Stop_def sync_closeConnection_def sync_updateStats_def)

lemma abandoned_tick:
  assumes "abandoned k sys" "k \<le> 2"
  shows "if k = 2 then bm_currentMode (fst (tick_after listen e sys)) = ModePrimary else abandoned (Suc k) (tick_after listen e sys)"
proof -
  obtain b f i where s: "sys = (b, Some f)" "fo_currentMode f = ModeBackup" "\<not> fo_cancelled f" "fo_consecutive f = k"
    "fo_syncSvc f = Some i" "ss_peerConn (bm_services b ! i) = None" using assms(1) unfolding abandoned_def by blast
  obtain g now dur where e: "e = (g, now, dur)" by (metis surj_pair)
  let ?b = "b\<lparr>bm_heartbeat := map_option g (bm_heartbeat b)\<rparr>"
  have "\<not> pe_connected (peer_view ?b f)" using s by (simp add: peer_view_def sync_IsConnected_def Let_def)
  then have "fst (DetectFailure now (peer_view ?b f) f)" using s(5) by (simp add: DetectFailure_def Let_def)
  then obtain f1 where d: "DetectFailure now (peer_view ?b f) f = (True, f1)" by (metis prod.collapse)
  note k = DetectFailure_keeps [OF d]
  have m: "bm_currentMode (make_service now x) = bm_currentMode x" for now and x :: "'a backup"
    by (simp add: make_service_def Let_def split: option.split)
  show ?thesis
    using s assms(2) d k
    by (simp add: e tick_after_def detector_tick_def failureDetector_def maxConsecutiveFailures_def abandoned_def
        SwitchToPrimary_def doSwitchToPrimary_def onModeSwitch_def m Let_def)
qed

text \<open>What a successful switch by hand leaves behind.\<close>

lemma switch_to_backup:
  assumes "listen_ok listen" "bm_currentMode b = ModePrimary" "bm_syncService b = Some i" "bm_syncReceiver b = None"
    "fo_currentMode f = ModePrimary"
  obtains v f' where "TriggerFailover listen now dur (b, Some f) =
      (None, (upd_service i sync_Stop (b\<lparr>bm_currentMode := ModeBackup\<rparr>))\<lparr>bm_syncService := None, bm_syncReceiver := Some v\<rparr>, Some f')"
    "fo_currentMode f' = ModeBackup" "fo_consecutive f' = fo_consecutive f" "fo_syncSvc f' = fo_syncSvc f" "fo_cancelled f' = fo_cancelled f"
proof -
  let ?b = "(upd_service i sync_Stop (b\<lparr>bm_currentMode := ModeBackup\<rparr>))\<lparr>bm_syncService := None\<rparr>"
  obtain v where "make_receiver listen ?b = (None, ?b\<lparr>bm_syncReceiver := Some v\<rparr>)"
    using make_receiver_ok [OF assms(1)] by blast
  then have "onModeSwitch listen now ModeBackup b = (None, ?b\<lparr>bm_syncReceiver := Some v\<rparr>)"
    using assms(3,4) by (simp add: onModeSwitch_def Let_def)
  then show thesis
    using assms(2,5) by (intro that [of v "failover_updateStats (\<lambda>st. st\<lparr>TotalSwitches := i64 (TotalSwitches st + 1), LastSwitchTime := now,
        SwitchDuration := dur, fst_CurrentMode := ModeBackup\<rparr>) (f\<lparr>fo_currentMode := ModeBackup\<rparr>)"])
      (simp_all add: TriggerFailover_def SwitchToBackup_def doSwitchToBackup_def failover_updateStats_def)
qed

text \<open>C40. A server that was started as primary and is switched to backup by hand does not stay one: its failover
  service still holds the synchronisation service in use (after a takeover it holds none), which the switch
  stopped and which therefore is never connected again, and so, when no failure was counted yet and the
  failover is running, after three ticks of the detection the server makes itself primary again, whatever
  the heartbeats of the (new) primary say. \<close>

theorem manual_backup_reverts:
  assumes "roles hm (b, Some f)" "bm_currentMode b = ModePrimary" "listen_ok listen"
    "fo_syncSvc f = bm_syncService b" "\<And>i. bm_syncService b = Some i \<Longrightarrow> \<not> ss_stopped (bm_services b ! i)"
    "fo_consecutive f = 0" "\<not> fo_cancelled f"
    "TriggerFailover listen now dur (b, Some f) = (r, s)"
  shows "r = None \<and> bm_currentMode (fst s) = ModeBackup \<and>
    bm_currentMode (fst (tick_after listen e3 (tick_after listen e2 (tick_after listen e1 s)))) = ModePrimary"
proof -
  obtain i where p: "bm_syncService b = Some i" "i < length (bm_services b)" "bm_syncReceiver b = None" "fo_currentMode f = ModePrimary"
    using primary_service [OF assms(1,2)] by blast
  obtain v f' where s: "TriggerFailover listen now dur (b, Some f) =
      (None, (upd_service i sync_Stop (b\<lparr>bm_currentMode := ModeBackup\<rparr>))\<lparr>bm_syncService := None, bm_syncReceiver := Some v\<rparr>, Some f')"
    "fo_currentMode f' = ModeBackup" "fo_consecutive f' = fo_consecutive f" "fo_syncSvc f' = fo_syncSvc f" "fo_cancelled f' = fo_cancelled f"
    by (rule switch_to_backup [OF assms(3,2) p(1,3,4)])
  then have r: "r = None" "s = ((upd_service i sync_Stop (b\<lparr>bm_currentMode := ModeBackup\<rparr>))\<lparr>bm_syncService := None, bm_syncReceiver := Some v\<rparr>, Some f')"
    using assms(8) by simp_all
  have "abandoned 0 s"
    unfolding abandoned_def r(2) using s(2-) p assms(4-7) by (auto simp: upd_service_def sync_Stop_closes)
  from abandoned_tick [OF this, of listen e1] have "abandoned 1 (tick_after listen e1 s)" by simp
  from abandoned_tick [OF this, of listen e2] have "abandoned 2 (tick_after listen e2 (tick_after listen e1 s))" by (simp add: numeral_2_eq_2)
  from abandoned_tick [OF this, of listen e3] show ?thesis by (simp add: r)
qed

text \<open>The started gateway, in the form the switches take it.\<close>

lemma toy_parts:
  obtains b f where "toy_system = (b, Some f)" "roles ModePrimary (b, Some f)" "bm_currentMode b = ModePrimary"
    "fo_syncSvc f = bm_syncService b" "bm_syncService b = Some 0" "\<not> ss_stopped (bm_services b ! 0)" "fo_consecutive f = 0"
    "\<not> fo_cancelled f" "bm_managerSet b" "fo_managerSet f" "length (bm_delayed b) = 1"
proof -
  obtain b f where t: "toy_system = (b, Some f)" "roles ModePrimary (b, Some f)"
    using start_roles [OF toy_system_roles(4,1,2) refl, of 5 4 "''g1''" "fst toy_system" "snd toy_system"] toy_system_roles
    by (cases toy_system) (auto simp: roles_def)
  have "bm_currentMode (fst toy_system) = ModePrimary" "map_option fo_syncSvc (snd toy_system) = Some (Some 0)"
    "bm_syncService (fst toy_system) = Some 0" "\<not> ss_stopped (bm_services (fst toy_system) ! 0)"
    "map_option fo_consecutive (snd toy_system) = Some 0" "map_option fo_cancelled (snd toy_system) = Some False"
    "bm_managerSet (fst toy_system)" "map_option fo_managerSet (snd toy_system) = Some True"
    "length (bm_delayed (fst toy_system)) = 1" by code_simp+
  then show thesis unfolding t(1) by (intro that [OF t]) simp_all
qed

theorem manual_backup_reverts_witness:
  "\<exists>s. TriggerFailover (\<lambda>_. None) 10 1 toy_system = (None, s) \<and> bm_currentMode (fst s) = ModeBackup \<and>
     bm_currentMode (fst (tick_after (\<lambda>_. None) (\<lambda>h. h, 40, 1) (tick_after (\<lambda>_. None) (\<lambda>h. h, 30, 1)
       (tick_after (\<lambda>_. None) (\<lambda>h. h, 20, 1) s)))) = ModePrimary"
proof -
  obtain b f where t: "toy_system = (b, Some f)" and r: "roles ModePrimary (b, Some f)" "bm_currentMode b = ModePrimary"
    "fo_syncSvc f = bm_syncService b" "bm_syncService b = Some 0" "\<not> ss_stopped (bm_services b ! 0)" "fo_consecutive f = 0"
    "\<not> fo_cancelled f" by (rule toy_parts)
  obtain x s where x: "TriggerFailover (\<lambda>_. None) 10 1 (b, Some f) = (x, s)" by (metis surj_pair)
  have "\<not> ss_stopped (bm_services b ! i)" if "bm_syncService b = Some i" for i using that r(4,5) by simp
  from manual_backup_reverts [OF r(1,2) toy_system_roles(4) r(3) this r(6,7) x] show ?thesis unfolding t x by auto
qed

text \<open>Restoring sessions schedules a full synchronisation five seconds later without looking whether there
  still is a service then: if the server is switched to backup in between, the goroutine calls a service
  that is gone and the process panics. \<close>

theorem late_full_sync:
  assumes "roles hm (b, Some f)" "bm_currentMode b = ModePrimary" "listen_ok listen" "bm_managerSet b" "fo_managerSet f"
    "restore_sessions t0 (b, Some f) = (r0, s0)" "TriggerFailover listen t1 dur s0 = (r1, s1)" "t0 + 5 * Second \<le> t2"
  shows "r0 = None \<and> r1 = None \<and> bm_crashed (fst (run_delayed t2 (length (bm_delayed b)) s1))"
proof -
  obtain i where p: "bm_syncService b = Some i" "bm_syncReceiver b = None" "fo_currentMode f = ModePrimary"
    using primary_service [OF assms(1,2)] by blast
  let ?b0 = "b\<lparr>bm_delayed := bm_delayed b @ [(t0 + 5 * Second, FullSyncAfter)]\<rparr>"
  obtain f0 where s0: "r0 = None" "s0 = (?b0, Some f0)" "fo_currentMode f0 = ModePrimary"
    using assms(4-6) p
    by (auto simp: restore_sessions_def RestoreSessions_def doRestoreSessions_def onSessionRestore_def failover_updateStats_def Let_def)
  obtain v f1 where "TriggerFailover listen t1 dur (?b0, Some f0) =
      (None, (upd_service i sync_Stop (?b0\<lparr>bm_currentMode := ModeBackup\<rparr>))\<lparr>bm_syncService := None, bm_syncReceiver := Some v\<rparr>, Some f1)"
    by (rule switch_to_backup [OF assms(3), of ?b0 i f0]) (simp_all add: assms(2) p s0(3))
  then have s1: "r1 = None" "s1 = ((upd_service i sync_Stop (?b0\<lparr>bm_currentMode := ModeBackup\<rparr>))\<lparr>bm_syncService := None, bm_syncReceiver := Some v\<rparr>, Some f1)"
    using assms(7) s0(2) by simp_all
  show ?thesis using assms(8) by (simp add: s0(1) s1 run_delayed_def upd_service_def crash_def Let_def)
qed

theorem late_full_sync_witness:
  "bm_crashed (fst (run_delayed (10 + 5 * Second) 1
     (snd (TriggerFailover (\<lambda>_. None) 12 1 (snd (restore_sessions 10 toy_system))))))"
proof -
  obtain b f where t: "toy_system = (b, Some f)" and r: "roles ModePrimary (b, Some f)" "bm_currentMode b = ModePrimary"
    "bm_managerSet b" "fo_managerSet f" "length (bm_delayed b) = 1" by (rule toy_parts)
  obtain r0 s0 where a: "restore_sessions 10 (b, Some f) = (r0, s0)" by (metis surj_pair)
  obtain r1 s1 where c: "TriggerFailover (\<lambda>_. None) 12 1 s0 = (r1, s1)" by (metis surj_pair)
  show ?thesis using late_full_sync [OF r(1,2) toy_system_roles(4) r(3,4) a c order.refl] by (simp add: t a c r(5))
qed

end
