(* ===== verification/Gate_Command.thy ===== *)
theory Gate_Command
  imports Gate_Config Backup_Props
begin

text \<open>
  \<open>cmd/gatesvr/main.go\<close>: the flags and the environment over the file, and what follows for the server:
  which setting wins, that the rate window is never empty, and what \<open>-backup-mode\<close> does to the
  addresses.
\<close>

section \<open>Flags\<close>

record cli_flags =
  fl_configFile :: string
  fl_quicAddr :: string
  fl_httpAddr :: string
  fl_grpcAddr :: string
  fl_metricsAddr :: string
  fl_upstreamAddr :: string
  fl_certFile :: string
  fl_keyFile :: string
  fl_sessionTimeout :: duration
  fl_ackTimeout :: duration
  fl_maxRetries :: int
  fl_enableBackup :: bool
  fl_backupMode :: string
  fl_peerAddr :: string
  fl_serverID :: string
  fl_heartbeatInterval :: duration
  fl_syncBatchSize :: int
  fl_syncTimeout :: duration
  fl_readonly :: bool
  fl_showVersion :: bool
  fl_showHelp :: bool

text \<open>The defaults of \<open>parseFlags\<close>: the flags of a command line without any.\<close>

definition default_flags :: cli_flags where
  "default_flags =
     \<lparr>fl_configFile = ''config.yaml'', fl_quicAddr = [], fl_httpAddr = [], fl_grpcAddr = [], fl_metricsAddr = [],
      fl_upstreamAddr = [], fl_certFile = [], fl_keyFile = [], fl_sessionTimeout = 0, fl_ackTimeout = 0,
      fl_maxRetries = 0, fl_enableBackup = False, fl_backupMode = [], fl_peerAddr = [], fl_serverID = [],
      fl_heartbeatInterval = 0, fl_syncBatchSize = 0, fl_syncTimeout = 0, fl_readonly = False,
      fl_showVersion = False, fl_showHelp = False\<rparr>"

section \<open>Overrides\<close>

definition or_keep :: "string \<Rightarrow> string \<Rightarrow> string" where
  "or_keep new old = (if new \<noteq> [] then new else old)"

definition or_keep_int :: "int \<Rightarrow> int \<Rightarrow> int" where
  "or_keep_int new old = (if new \<noteq> 0 then new else old)"

definition applyCliOverrides :: "cli_flags \<Rightarrow> gateway_config \<Rightarrow> gateway_config" where
  "applyCliOverrides fl g =
     g\<lparr>g_QUICAddr := or_keep (fl_quicAddr fl) (g_QUICAddr g),
       g_HTTPAddr := or_keep (fl_httpAddr fl) (g_HTTPAddr g),
       g_GRPCAddr := or_keep (fl_grpcAddr fl) (g_GRPCAddr g),
       g_MetricsAddr := or_keep (fl_metricsAddr fl) (g_MetricsAddr g),
       g_UpstreamAddr := or_keep (fl_upstreamAddr fl) (g_UpstreamAddr g),
       g_TLSCertFile := or_keep (fl_certFile fl) (g_TLSCertFile g),
       g_TLSKeyFile := or_keep (fl_keyFile fl) (g_TLSKeyFile g),
       g_SessionTimeout := or_keep_int (fl_sessionTimeout fl) (g_SessionTimeout g),
       g_AckTimeout := or_keep_int (fl_ackTimeout fl) (g_AckTimeout g),
       g_MaxRetries := or_keep_int (fl_maxRetries fl) (g_MaxRetries g),
       g_ServerID := or_keep (fl_serverID fl) (g_ServerID g)\<rparr>"

definition applyEnvOverrides :: "(string \<Rightarrow> string) \<Rightarrow> gateway_config \<Rightarrow> gateway_config" where
  "applyEnvOverrides getenv g =
     g\<lparr>g_QUICAddr := or_keep (getenv ''GATESVR_QUIC_ADDR'') (g_QUICAddr g),
       g_HTTPAddr := or_keep (getenv ''GATESVR_HTTP_ADDR'') (g_HTTPAddr g),
       g_GRPCAddr := or_keep (getenv ''GATESVR_GRPC_ADDR'') (g_GRPCAddr g),
       g_MetricsAddr := or_keep (getenv ''GATESVR_METRICS_ADDR'') (g_MetricsAddr g),
       g_UpstreamAddr := or_keep (getenv ''GATESVR_UPSTREAM_ADDR'') (g_UpstreamAddr g),
       g_TLSCertFile := or_keep (getenv ''GATESVR_CERT_FILE'') (g_TLSCertFile g),
       g_TLSKeyFile := or_keep (getenv ''GATESVR_KEY_FILE'') (g_TLSKeyFile g)\<rparr>"

definition flag_backup :: backup_config where
  "flag_backup =
     \<lparr>bc_Sync = \<lparr>sc_Enabled = True, sc_Mode = ModePrimary, sc_PeerAddr = [], sc_HeartbeatInterval = 2 * Second,
        sc_SyncBatchSize = 50, sc_SyncTimeout = 200 * Millisecond, sc_ReadOnly = False, sc_BufferSize = 1000\<rparr>,
      bc_Failover = \<lparr>fc_DetectionTimeout = 6 * Second, fc_SwitchTimeout = 10 * Second,
        fc_RecoveryTimeout = 30 * Second, fc_MaxRetries = 3\<rparr>,
      bc_HeartbeatAddr = [], bc_SyncAddr = []\<rparr>"

text \<open>The flags over the backup configuration \<open>b\<close>, once the mode \<open>mode\<close> is settled.\<close>

definition flag_overrides :: "cli_flags \<Rightarrow> server_mode \<Rightarrow> backup_config \<Rightarrow> backup_config" where
  "flag_overrides fl mode b =
     (let s = bc_Sync b; h = fl_heartbeatInterval fl in
      b\<lparr>bc_Sync := s\<lparr>sc_Mode := mode, sc_PeerAddr := or_keep (fl_peerAddr fl) (sc_PeerAddr s),
          sc_HeartbeatInterval := or_keep_int h (sc_HeartbeatInterval s),
          sc_SyncBatchSize := or_keep_int (fl_syncBatchSize fl) (sc_SyncBatchSize s),
          sc_SyncTimeout := or_keep_int (fl_syncTimeout fl) (sc_SyncTimeout s),
          sc_ReadOnly := (if fl_readonly fl then True else sc_ReadOnly s)\<rparr>,
        bc_Failover := (if h \<noteq> 0 then (bc_Failover b)\<lparr>fc_DetectionTimeout := i64 (h * 3)\<rparr> else bc_Failover b)\<rparr>)"

definition applyBackupConfig :: "cli_flags \<Rightarrow> yaml_config \<Rightarrow> gateway_config \<Rightarrow> config_error + gateway_config" where
  "applyBackupConfig fl original g =
     (if \<not> fl_enableBackup fl \<and> \<not> yb_Enabled (y_Backup original) then Inr g
      else
        let b = (case g_BackupConfig g of None \<Rightarrow> flag_backup | Some b \<Rightarrow> b);
            m = fl_backupMode fl
        in if m \<noteq> [] \<and> m \<noteq> ''primary'' \<and> m \<noteq> ''backup'' then Inl (CfgMode m)
           else
             let mode = (if m = ''primary'' then ModePrimary else if m = ''backup'' then ModeBackup else sc_Mode (bc_Sync b));
                 b1 = flag_overrides fl mode b
             in if sc_PeerAddr (bc_Sync b1) = [] then Inl CfgNoPeer else Inr (g\<lparr>g_BackupConfig := Some b1\<rparr>))"

section \<open>The configuration of the server\<close>

text \<open>The whole \<open>gateway.Config\<close>; the first fields are those that the server reads (\<open>Gateway_Push\<close>).\<close>

record server_config = config +
  cfg_QUICAddr :: string
  cfg_HTTPAddr :: string
  cfg_GRPCAddr :: string
  cfg_MetricsAddr :: string
  cfg_TLSCertFile :: string
  cfg_TLSKeyFile :: string
  cfg_BackupConfig :: "backup_config option"
  cfg_ServerID :: string

definition convertOverloadConfig :: "gateway_config \<Rightarrow> overload_config option" where
  "convertOverloadConfig g =
     (case g_OverloadProtection g of
        None \<Rightarrow> None
      | Some o' \<Rightarrow>
          Some \<lparr>Enabled = go_Enabled o', MaxConnections = go_MaxConnections o',
            ConnectionWarningThreshold = go_ConnectionWarningThreshold o', MaxQPS = go_MaxQPS o',
            QPSWarningThreshold = go_QPSWarningThreshold o', QPSWindowSeconds = go_QPSWindowSeconds o',
            MaxUpstreamConcurrent = go_MaxUpstreamConcurrent o', UpstreamTimeout = go_UpstreamTimeout o',
            UpstreamWarningThreshold = go_UpstreamWarningThreshold o'\<rparr>)"

definition validateCertFiles :: "(string \<Rightarrow> bool) \<Rightarrow> string \<Rightarrow> string \<Rightarrow> config_error option" where
  "validateCertFiles missing certFile keyFile =
     (if missing certFile then Some (CfgNoCert certFile)
      else if missing keyFile then Some (CfgNoKey keyFile)
      else None)"

definition sync_on :: "backup_config option \<Rightarrow> bool" where
  "sync_on b \<longleftrightarrow> (case b of None \<Rightarrow> False | Some c \<Rightarrow> sc_Enabled (bc_Sync c))"

definition to_server_config :: "gateway_config \<Rightarrow> server_config" where
  "to_server_config g =
     \<lparr>cfg_UpstreamAddr = g_UpstreamAddr g, cfg_UpstreamServices = g_UpstreamServices g,
      cfg_SessionTimeout = g_SessionTimeout g, cfg_AckTimeout = g_AckTimeout g, cfg_MaxRetries = g_MaxRetries g,
      cfg_Sync = sync_on (g_BackupConfig g), cfg_Overload = convertOverloadConfig g, cfg_Async = None,
      cfg_QUICAddr = g_QUICAddr g, cfg_HTTPAddr = g_HTTPAddr g, cfg_GRPCAddr = g_GRPCAddr g,
      cfg_MetricsAddr = g_MetricsAddr g, cfg_TLSCertFile = g_TLSCertFile g, cfg_TLSKeyFile = g_TLSKeyFile g,
      cfg_BackupConfig = g_BackupConfig g, cfg_ServerID = g_ServerID g\<rparr>"

text \<open>The system the process starts in: files, YAML library, missing files and environment.\<close>

record host =
  ho_read :: "string \<Rightarrow> err + bytes"
  ho_decode :: "bytes \<Rightarrow> err + yaml_config"
  ho_missing :: "string \<Rightarrow> bool"
  ho_getenv :: "string \<Rightarrow> string"

definition buildServerConfig :: "host \<Rightarrow> cli_flags \<Rightarrow> config_error + server_config" where
  "buildServerConfig ho fl =
     (case Load (ho_read ho) (ho_decode ho) (fl_configFile fl) of
        Inl e \<Rightarrow> Inl e
      | Inr cfg \<Rightarrow>
          (case ToGatewayConfig cfg of
             Inl e \<Rightarrow> Inl e
           | Inr g0 \<Rightarrow>
               (case applyBackupConfig fl cfg (applyEnvOverrides (ho_getenv ho) (applyCliOverrides fl g0)) of
                  Inl e \<Rightarrow> Inl e
                | Inr g \<Rightarrow>
                    (case validateCertFiles (ho_missing ho) (g_TLSCertFile g) (g_TLSKeyFile g) of
                       Some e \<Rightarrow> Inl e
                     | None \<Rightarrow> Inr (to_server_config g)))))"

section \<open>Which setting wins\<close>

fun first_set :: "string list \<Rightarrow> string" where
  "first_set [] = []"
| "first_set (x # xs) = (if x \<noteq> [] then x else first_set xs)"

text \<open>What a configuration that was built went through.\<close>

lemma built:
  assumes "buildServerConfig ho fl = Inr c"
  obtains y g0 g where "Load (ho_read ho) (ho_decode ho) (fl_configFile fl) = Inr y" "ToGatewayConfig y = Inr g0"
    "applyBackupConfig fl y (applyEnvOverrides (ho_getenv ho) (applyCliOverrides fl g0)) = Inr g"
    "validateCertFiles (ho_missing ho) (g_TLSCertFile g) (g_TLSKeyFile g) = None" "c = to_server_config g"
  using assms by (auto simp: buildServerConfig_def split: sum.splits option.splits)

lemma converted:
  assumes "ToGatewayConfig y = Inr g"
  obtains st tmo b where "parse_field ''session_timeout'' (ys_SessionTimeout (y_Server y)) = Inr st"
    "parse_field ''ack_timeout'' (ys_AckTimeout (y_Server y)) = Inr tmo" "backup_part (y_Backup y) = Inr b"
    "g_SessionTimeout g = st" "g_AckTimeout g = tmo" "g_BackupConfig g = b" "g_QUICAddr g = ys_QUICAddr (y_Server y)"
    "g_HTTPAddr g = ys_HTTPAddr (y_Server y)" "g_GRPCAddr g = ys_GRPCAddr (y_Server y)" "g_MetricsAddr g = ys_MetricsAddr (y_Server y)"
    "g_UpstreamAddr g = ys_UpstreamAddr (y_Server y)" "g_TLSCertFile g = ys_CertFile (y_Server y)" "g_TLSKeyFile g = ys_KeyFile (y_Server y)"
    "g_MaxRetries g = ys_MaxRetries (y_Server y)" "g_ServerID g = yb_ServerID (y_Backup y)" "g_OverloadProtection g = overload_part (y_Overload y)"
    "g_UpstreamServices g = ys_UpstreamServices (y_Server y)"
  using assms by (auto simp: ToGatewayConfig_def split: sum.splits)

lemma parse_field_ok: "parse_field n s = Inr d \<longleftrightarrow> ParseDuration s = Inr d"
  by (simp add: parse_field_def split: sum.split)

text \<open>The backup part leaves every other field alone.\<close>

lemma backup_keeps:
  "applyBackupConfig fl y g = Inr g' \<Longrightarrow> \<exists>b. g' = g\<lparr>g_BackupConfig := b\<rparr>"
proof -
  assume "applyBackupConfig fl y g = Inr g'"
  then have "g' = g \<or> (\<exists>b. g' = g\<lparr>g_BackupConfig := Some b\<rparr>)" by (auto simp: applyBackupConfig_def Let_def split: if_splits)
  moreover have "g = g\<lparr>g_BackupConfig := g_BackupConfig g\<rparr>" by simp
  ultimately show ?thesis by blast
qed

text \<open>The fields after both overrides, and those that the server's configuration takes over.\<close>

lemma overridden:
  "g_QUICAddr ((applyEnvOverrides ge (applyCliOverrides fl g))\<lparr>g_BackupConfig := b\<rparr>) =
     first_set [ge ''GATESVR_QUIC_ADDR'', fl_quicAddr fl, g_QUICAddr g]"
  "g_HTTPAddr ((applyEnvOverrides ge (applyCliOverrides fl g))\<lparr>g_BackupConfig := b\<rparr>) =
     first_set [ge ''GATESVR_HTTP_ADDR'', fl_httpAddr fl, g_HTTPAddr g]"
  "g_GRPCAddr ((applyEnvOverrides ge (applyCliOverrides fl g))\<lparr>g_BackupConfig := b\<rparr>) =
     first_set [ge ''GATESVR_GRPC_ADDR'', fl_grpcAddr fl, g_GRPCAddr g]"
  "g_MetricsAddr ((applyEnvOverrides ge (applyCliOverrides fl g))\<lparr>g_BackupConfig := b\<rparr>) =
     first_set [ge ''GATESVR_METRICS_ADDR'', fl_metricsAddr fl, g_MetricsAddr g]"
  "g_UpstreamAddr ((applyEnvOverrides ge (applyCliOverrides fl g))\<lparr>g_BackupConfig := b\<rparr>) =
     first_set [ge ''GATESVR_UPSTREAM_ADDR'', fl_upstreamAddr fl, g_UpstreamAddr g]"
  "g_TLSCertFile ((applyEnvOverrides ge (applyCliOverrides fl g))\<lparr>g_BackupConfig := b\<rparr>) =
     first_set [ge ''GATESVR_CERT_FILE'', fl_certFile fl, g_TLSCertFile g]"
  "g_TLSKeyFile ((applyEnvOverrides ge (applyCliOverrides fl g))\<lparr>g_BackupConfig := b\<rparr>) =
     first_set [ge ''GATESVR_KEY_FILE'', fl_keyFile fl, g_TLSKeyFile g]"
  "g_ServerID ((applyEnvOverrides ge (applyCliOverrides fl g))\<lparr>g_BackupConfig := b\<rparr>) = first_set [fl_serverID fl, g_ServerID g]"
  "g_SessionTimeout ((applyEnvOverrides ge (applyCliOverrides fl g))\<lparr>g_BackupConfig := b\<rparr>) =
     or_keep_int (fl_sessionTimeout fl) (g_SessionTimeout g)"
  "g_AckTimeout ((applyEnvOverrides ge (applyCliOverrides fl g))\<lparr>g_BackupConfig := b\<rparr>) =
     or_keep_int (fl_ackTimeout fl) (g_AckTimeout g)"
  "g_MaxRetries ((applyEnvOverrides ge (applyCliOverrides fl g))\<lparr>g_BackupConfig := b\<rparr>) =
     or_keep_int (fl_maxRetries fl) (g_MaxRetries g)"
  "g_OverloadProtection ((applyEnvOverrides ge (applyCliOverrides fl g))\<lparr>g_BackupConfig := b\<rparr>) = g_OverloadProtection g"
  "g_BackupConfig ((applyEnvOverrides ge (applyCliOverrides fl g))\<lparr>g_BackupConfig := b\<rparr>) = b"
  by (simp_all add: applyEnvOverrides_def applyCliOverrides_def or_keep_def)

lemma server_fields:
  "cfg_QUICAddr (to_server_config g) = g_QUICAddr g" "cfg_HTTPAddr (to_server_config g) = g_HTTPAddr g"
  "cfg_GRPCAddr (to_server_config g) = g_GRPCAddr g" "cfg_MetricsAddr (to_server_config g) = g_MetricsAddr g"
  "cfg_UpstreamAddr (to_server_config g) = g_UpstreamAddr g" "cfg_TLSCertFile (to_server_config g) = g_TLSCertFile g"
  "cfg_TLSKeyFile (to_server_config g) = g_TLSKeyFile g" "cfg_ServerID (to_server_config g) = g_ServerID g"
  "cfg_SessionTimeout (to_server_config g) = g_SessionTimeout g" "cfg_AckTimeout (to_server_config g) = g_AckTimeout g"
  "cfg_MaxRetries (to_server_config g) = g_MaxRetries g" "cfg_Overload (to_server_config g) = convertOverloadConfig g"
  "cfg_BackupConfig (to_server_config g) = g_BackupConfig g"
  by (simp_all add: to_server_config_def)


section \<open>The rate window\<close>

lemma window_seconds:
  assumes "buildServerConfig ho fl = Inr c" "Load (ho_read ho) (ho_decode ho) (fl_configFile fl) = Inr y"
  shows "cfg_Overload c = None \<or>
    (\<exists>o'. cfg_Overload c = Some o' \<and> QPSWindowSeconds o' = or_default 10 (yo_QPSWindowSeconds (y_Overload y)))"
proof -
  from assms(1) obtain y' g0 g where b: "Load (ho_read ho) (ho_decode ho) (fl_configFile fl) = Inr y'" "ToGatewayConfig y' = Inr g0"
    "applyBackupConfig fl y' (applyEnvOverrides (ho_getenv ho) (applyCliOverrides fl g0)) = Inr g"
    "validateCertFiles (ho_missing ho) (g_TLSCertFile g) (g_TLSKeyFile g) = None" "c = to_server_config g" by (rule built)
  have y: "y' = y" using b(1) assms(2) by simp
  obtain bk where g: "g = (applyEnvOverrides (ho_getenv ho) (applyCliOverrides fl g0))\<lparr>g_BackupConfig := bk\<rparr>"
    using backup_keeps [OF b(3)] by blast
  have "g_OverloadProtection g0 = overload_part (y_Overload y)" using b(2) unfolding y by (elim converted)
  then show ?thesis
    unfolding b(5) g by (simp add: to_server_config_def convertOverloadConfig_def applyEnvOverrides_def applyCliOverrides_def overload_part_def)
qed

lemma new_protector: "sv_protector (NewServer cpus t (config.truncate c)) = NewOverloadProtector t (cfg_Overload c)"
  by (simp add: NewServer_def config.truncate_def Let_def)

lemma positive_window:
  assumes "0 < W" "W \<le> 9223372036"
  shows "\<exists>k. 0 < k \<and> NewSlidingWindow t (i64 (W * Second)) 10 =
    \<lparr>windowSize = W * Second, buckets = replicate 10 0, bucketSize = k, current = 0, w_startTime = t\<rparr>"
proof -
  have "i64 (W * Second) = W * Second" using assms by (intro i64_id) (simp add: in_i64_def Second_def)
  moreover have "0 < W * Second div 10" using assms by (simp add: Second_def)
  ultimately show ?thesis using assms by (simp add: NewSlidingWindow_def go_div_def Second_def)
qed

text \<open>The server cannot start with a rate window on which requests panic: for every file whose window is
  unset or between one second and 292 years, and for a file without overload protection, the first
  request is answered. \<close>

theorem window_from_file:
  assumes "buildServerConfig ho fl = Inr c" "Load (ho_read ho) (ho_decode ho) (fl_configFile fl) = Inr y"
    "0 \<le> yo_QPSWindowSeconds (y_Overload y)" "yo_QPSWindowSeconds (y_Overload y) \<le> 9223372036" "t \<le> now"
  shows "AllowNewRequest now (sv_protector (NewServer cpus t (config.truncate c))) ms \<noteq> None"
proof -
  obtain W where W: "0 < W" "W \<le> 9223372036"
    "qpsWindow (NewOverloadProtector t (cfg_Overload c)) = NewSlidingWindow t (i64 (W * Second)) 10"
  proof (cases "cfg_Overload c")
    case None
    then show ?thesis
      by (intro that [of 10]) (simp_all add: NewOverloadProtector_def DefaultOverloadConfig_def)
  next
    case (Some o')
    then have "QPSWindowSeconds o' = or_default 10 (yo_QPSWindowSeconds (y_Overload y))"
      using window_seconds [OF assms(1,2)] by auto
    then show ?thesis using Some assms(3,4)
      by (intro that [of "QPSWindowSeconds o'"])
        (auto simp: or_default_def NewOverloadProtector_def)
  qed
  obtain k where k: "0 < k" "NewSlidingWindow t (i64 (W * Second)) 10 =
    \<lparr>windowSize = W * Second, buckets = replicate 10 0, bucketSize = k, current = 0, w_startTime = t\<rparr>"
    using positive_window [OF W(1,2)] by blast
  have "0 \<le> go_mod (go_div (now - t) k) 10"
    using go_mod_range(1) [of "go_div (now - t) k" 10] go_div_nonneg [of "now - t" k] k(1) assms(5) by simp
  then have "window_Add now 1 (NewSlidingWindow t (i64 (W * Second)) 10) \<noteq> None"
    using k(1) by (simp add: window_Add_def k(2) Let_def)
  then show ?thesis unfolding new_protector AllowNewRequest_def W(3) by (auto simp: Let_def split: option.splits)
qed

section \<open>The mode flag\<close>

lemma started_listeners:
  assumes "sc_Enabled (bc_Sync b)" "sc_Mode (bc_Sync b) = ModeBackup" "bc_SyncAddr b \<noteq> []" "bc_HeartbeatAddr b \<noteq> []"
    "0 < sc_HeartbeatInterval (bc_Sync b)" "listen_ok listen"
  shows "\<exists>r h. bm_syncReceiver (fst (snd (bm_Start listen now (registered now' b sid :: 'n backup_system)))) = Some r \<and>
    rv_listening r \<and> rv_listenAddr r = bc_SyncAddr b \<and>
    bm_heartbeat (fst (snd (bm_Start listen now (registered now' b sid :: 'n backup_system)))) = Some h \<and>
    hb_listening h \<and> hb_addr h = bc_HeartbeatAddr b"
proof -
  obtain x :: "'n backup" where x: "registered now' b sid = (x, None)" "bm_config x = b"
    by (simp add: registered_def RegisterSessionManager_def NewBackupManager_def Let_def)
  let ?b0 = "x\<lparr>bm_currentMode := ModeBackup, bm_cancelled := False\<rparr>"
  let ?r = "(newSyncReceiverWithAddr (bc_Sync b) (bc_SyncAddr b))\<lparr>rv_cancelled := False, rv_listening := True\<rparr>"
  have s: "startSyncServices listen now ?b0 = (None, ?b0\<lparr>bm_syncReceiver := Some ?r\<rparr>)"
    using assms x(2) by (simp add: startSyncServices_def make_receiver_def receiver_Start_def listen_ok_def Let_def)
  let ?h = "(NewHeartbeatServiceWithAddr (bc_Sync b) ModeBackup (bm_serverID x) (bc_HeartbeatAddr b) :: 'n heartbeat)\<lparr>hb_listening := True\<rparr>"
  let ?b2 = "?b0\<lparr>bm_syncReceiver := Some ?r, bm_heartbeat := Some ?h\<rparr>"
  have h: "startHeartbeatService listen (?b0\<lparr>bm_syncReceiver := Some ?r\<rparr>) = (None, ?b2)"
    using assms x(2) by (simp add: startHeartbeatService_def heartbeat_Start_def startListener_def
      NewHeartbeatServiceWithAddr_def listen_ok_def Let_def)
  obtain b3 f3 where f: "startFailoverService ?b2 = (b3, f3)" by (metis surj_pair)
  have b3: "bm_syncReceiver b3 = Some ?r" "bm_heartbeat b3 = Some ?h"
    using f by (auto simp: startFailoverService_def Let_def crash_def split: option.splits)
  show ?thesis
    using assms(1,2) x s h f b3
    by (simp add: bm_Start_def Let_def newSyncReceiverWithAddr_def NewHeartbeatServiceWithAddr_def)
qed

lemma primary_part:
  "backup_part b = Inr b0 \<Longrightarrow> yb_Enabled b \<Longrightarrow> yb_Mode b = ''primary'' \<Longrightarrow>
   \<exists>b1. b0 = Some b1 \<and> bc_HeartbeatAddr b1 = yh_PeerAddr (yb_Heartbeat b) \<and> bc_SyncAddr b1 = yn_PeerAddr (yb_Sync b) \<and>
     sc_Enabled (bc_Sync b1)"
  by (auto simp: backup_part_def Let_def split: sum.splits)

text \<open>C38. The flag -backup-mode backup over the file of a primary that names both addresses of its peer
  changes the role but not the addresses: when the server starts, with a positive heartbeat interval and
  ports that can be opened, it is a backup that listens for heartbeats and for synchronisation at the
  addresses of its peer, and no other flag, -peer-addr included, changes them. \<close>

theorem mode_flag_keeps_addresses:
  assumes "buildServerConfig ho fl = Inr c" "Load (ho_read ho) (ho_decode ho) (fl_configFile fl) = Inr y"
    "yb_Enabled (y_Backup y)" "yb_Mode (y_Backup y) = ''primary''" "fl_backupMode fl = ''backup''"
    "yn_PeerAddr (yb_Sync (y_Backup y)) \<noteq> []" "yh_PeerAddr (yb_Heartbeat (y_Backup y)) \<noteq> []"
    "\<forall>b. cfg_BackupConfig c = Some b \<longrightarrow> 0 < sc_HeartbeatInterval (bc_Sync b)" "listen_ok listen"
  shows "\<exists>b r h. cfg_BackupConfig c = Some b \<and> sc_Mode (bc_Sync b) = ModeBackup \<and>
    bm_syncReceiver (fst (snd (bm_Start listen now (registered now' b sid :: 'n backup_system)))) = Some r \<and>
    rv_listening r \<and> rv_listenAddr r = yn_PeerAddr (yb_Sync (y_Backup y)) \<and>
    bm_heartbeat (fst (snd (bm_Start listen now (registered now' b sid :: 'n backup_system)))) = Some h \<and>
    hb_listening h \<and> hb_addr h = yh_PeerAddr (yb_Heartbeat (y_Backup y))"
proof -
  from assms(1) obtain y' g0 g where b: "Load (ho_read ho) (ho_decode ho) (fl_configFile fl) = Inr y'" "ToGatewayConfig y' = Inr g0"
    "applyBackupConfig fl y' (applyEnvOverrides (ho_getenv ho) (applyCliOverrides fl g0)) = Inr g"
    "validateCertFiles (ho_missing ho) (g_TLSCertFile g) (g_TLSKeyFile g) = None" "c = to_server_config g" by (rule built)
  have y: "y' = y" using b(1) assms(2) by simp
  obtain b0 where b0: "backup_part (y_Backup y) = Inr b0" "g_BackupConfig g0 = b0" using b(2) unfolding y by (rule converted)
  then obtain b1 where b1: "b0 = Some b1" "bc_HeartbeatAddr b1 = yh_PeerAddr (yb_Heartbeat (y_Backup y))"
    "bc_SyncAddr b1 = yn_PeerAddr (yb_Sync (y_Backup y))" "sc_Enabled (bc_Sync b1)"
    using assms(3,4) primary_part by blast
  have "g_BackupConfig (applyEnvOverrides (ho_getenv ho) (applyCliOverrides fl g0)) = Some b1"
    using b0(2) b1(1) by (simp add: applyEnvOverrides_def applyCliOverrides_def)
  then have g: "g_BackupConfig g = Some (flag_overrides fl ModeBackup b1)"
    using b(3) assms(3,5) unfolding y by (auto simp: applyBackupConfig_def Let_def split: if_splits)
  let ?b = "flag_overrides fl ModeBackup b1"
  have f: "sc_Mode (bc_Sync ?b) = ModeBackup" "sc_Enabled (bc_Sync ?b)" "bc_SyncAddr ?b = yn_PeerAddr (yb_Sync (y_Backup y))"
    "bc_HeartbeatAddr ?b = yh_PeerAddr (yb_Heartbeat (y_Backup y))"
    using b1 by (simp_all add: flag_overrides_def Let_def)
  have c: "cfg_BackupConfig c = Some ?b" using g by (simp add: b(5) server_fields)
  have i: "0 < sc_HeartbeatInterval (bc_Sync ?b)" using assms(8) c by blast
  have a: "bc_SyncAddr ?b \<noteq> []" "bc_HeartbeatAddr ?b \<noteq> []" using f(3,4) assms(6,7) by simp_all
  show ?thesis
    using started_listeners [OF f(2,1) a i assms(9), where now = now and now' = now' and sid = sid] c f by fastforce
qed

section \<open>The type of a configuration\<close>

lemma parse_units_step:
  assumes "parse_units d s = Inr r"
  shows "s = [] \<and> r = d \<or> (\<exists>d1 s'. length s' < length s \<and> d1 \<le> 2 ^ 63 \<and> parse_units d1 s' = Inr r)"
proof (cases s)
  case Nil
  then show ?thesis using assms by (simp add: parse_units.simps)
next
  case (Cons c cs)
  obtain v s1 where v: "leadingInt 0 s = Some (v, s1)"
    using assms unfolding parse_units.simps [of d s] by (auto simp: Cons split: if_splits option.splits)
  obtain f scale s2 post where f: "fraction_of s1 = (f, scale, s2, post)" by (metis surj_pair)
  let ?u = "takeWhile unit_char s2"
  obtain unit where u: "?u \<noteq> []" "map_of unitMap ?u = Some unit"
    using assms v f unfolding parse_units.simps [of d s] by (auto simp: Cons Let_def split: if_splits option.splits)
  let ?d1 = "(d + (v * unit + (if 0 < f then fl_fraction f unit scale else 0))) mod 2 ^ 64"
  have "?d1 \<le> 2 ^ 63 \<and> parse_units ?d1 (dropWhile unit_char s2) = Inr r"
    using assms v f u unfolding parse_units.simps [of d s] by (simp add: Cons Let_def split: if_splits)
  then show ?thesis using units_shrink [OF v [symmetric] f [symmetric] u(1)] by blast
qed

lemma parse_units_bound: "parse_units d s = Inr r \<Longrightarrow> d \<le> 2 ^ 63 \<Longrightarrow> r \<le> 2 ^ 63"
proof (induction "length s" arbitrary: d s rule: less_induct)
  case less
  then show ?case using parse_units_step [OF less.prems(1)] by blast
qed

lemma ParseDuration_int:
  assumes "ParseDuration s = Inr d"
  shows "in_i64 d"
proof -
  have "n \<le> 2 ^ 63" if "parse_units 0 t = Inr n" for t n using parse_units_bound [OF that] by simp
  then show ?thesis
    using assms i64_in by (auto simp: ParseDuration_def Let_def in_i64_def not_less split: if_splits sum.splits)
qed

definition backup_typed :: "backup_config \<Rightarrow> bool" where
  "backup_typed b \<longleftrightarrow> sc_Enabled (bc_Sync b) \<and> in_i64 (sc_HeartbeatInterval (bc_Sync b)) \<and> in_i64 (sc_SyncTimeout (bc_Sync b)) \<and>
     in_i64 (fc_DetectionTimeout (bc_Failover b)) \<and> fc_SwitchTimeout (bc_Failover b) = 10 * Second \<and>
     fc_RecoveryTimeout (bc_Failover b) = 30 * Second \<and> fc_MaxRetries (bc_Failover b) = 3"

definition overload_typed :: "overload_config \<Rightarrow> bool" where
  "overload_typed o' \<longleftrightarrow> MaxConnections o' \<noteq> 0 \<and> ConnectionWarningThreshold o' \<noteq> 0 \<and> MaxQPS o' \<noteq> 0 \<and>
     QPSWarningThreshold o' \<noteq> 0 \<and> QPSWindowSeconds o' \<noteq> 0 \<and> MaxUpstreamConcurrent o' \<noteq> 0 \<and>
     UpstreamWarningThreshold o' \<noteq> 0 \<and> in_i64 (UpstreamTimeout o')"

lemma timeout_int: "in_i64 (timeout_or_30 s)"
  using ParseDuration_int [of s] by (auto simp: timeout_or_30_def in_i64_def Second_def split: sum.split)

lemma default_nonzero [simp]: "d \<noteq> 0 \<Longrightarrow> or_default d n \<noteq> 0"
  by (simp add: or_default_def)

lemma overload_part_typed:
  "g_OverloadProtection g = overload_part y \<Longrightarrow> convertOverloadConfig g = Some o' \<Longrightarrow> overload_typed o'"
  by (cases "yo_Enabled y \<or> 0 < yo_MaxConnections y")
    (auto simp: convertOverloadConfig_def overload_part_def overload_typed_def timeout_int)

lemma parse_field_int: "parse_field n s = Inr d \<Longrightarrow> in_i64 d"
  by (simp add: parse_field_ok ParseDuration_int)

lemma backup_part_typed:
  assumes "backup_part b = Inr b0"
  shows "if yb_Enabled b then \<exists>b1. b0 = Some b1 \<and> backup_typed b1 else b0 = None"
proof (cases "yb_Enabled b")
  case True
  obtain i where i: "parse_field ''heartbeat.interval'' (yh_Interval (yb_Heartbeat b)) = Inr i"
    using assms True by (auto simp: backup_part_def split: sum.splits)
  obtain t where t: "parse_field ''heartbeat.timeout'' (yh_Timeout (yb_Heartbeat b)) = Inr t"
    using assms True i by (auto simp: backup_part_def split: sum.splits)
  obtain s where s: "parse_field ''sync.timeout'' (yn_Timeout (yb_Sync b)) = Inr s"
    using assms True i t by (auto simp: backup_part_def split: sum.splits)
  have m: "yb_Mode b = ''primary'' \<or> yb_Mode b = ''backup''"
    using assms True i t s by (auto simp: backup_part_def split: if_splits)
  show ?thesis
    using assms True i t s m parse_field_int [OF i] parse_field_int [OF t] parse_field_int [OF s]
    by (simp add: backup_part_def backup_typed_def Let_def split: if_splits) auto
next
  case False
  then show ?thesis using assms by (simp add: backup_part_def)
qed

lemma flags_typed:
  assumes "backup_typed b" "in_i64 (fl_heartbeatInterval fl)" "in_i64 (fl_syncTimeout fl)"
  shows "backup_typed (flag_overrides fl mode b)"
  using assms by (simp add: backup_typed_def flag_overrides_def or_keep_int_def i64_in Let_def)

lemma flag_backup_typed: "backup_typed flag_backup"
  by (simp add: backup_typed_def flag_backup_def in_i64_def Second_def Millisecond_def)

text \<open>C18. A configuration that the command builds, from flags whose durations fit 64 bits, is well typed:
  the session and acknowledgement timeouts and the durations of the backup part fit 64 bits, a backup
  part is enabled, names the peer and has the fixed failover settings; in an overload part every limit,
  every warning threshold and the length of the window are non-zero, and the upstream timeout is any
  64-bit duration, zero included. \<close>

theorem built_config_typed:
  assumes "buildServerConfig ho fl = Inr c" "in_i64 (fl_sessionTimeout fl)" "in_i64 (fl_ackTimeout fl)"
    "in_i64 (fl_heartbeatInterval fl)" "in_i64 (fl_syncTimeout fl)"
  shows "in_i64 (cfg_SessionTimeout c) \<and> in_i64 (cfg_AckTimeout c) \<and>
    (case cfg_BackupConfig c of None \<Rightarrow> True | Some b \<Rightarrow> backup_typed b \<and> sc_PeerAddr (bc_Sync b) \<noteq> []) \<and>
    (case cfg_Overload c of None \<Rightarrow> True | Some o' \<Rightarrow> overload_typed o')"
proof -
  from assms(1) obtain y g0 g where b: "Load (ho_read ho) (ho_decode ho) (fl_configFile fl) = Inr y" "ToGatewayConfig y = Inr g0"
    "applyBackupConfig fl y (applyEnvOverrides (ho_getenv ho) (applyCliOverrides fl g0)) = Inr g"
    "validateCertFiles (ho_missing ho) (g_TLSCertFile g) (g_TLSKeyFile g) = None" "c = to_server_config g" by (rule built)
  obtain bk where g: "g = (applyEnvOverrides (ho_getenv ho) (applyCliOverrides fl g0))\<lparr>g_BackupConfig := bk\<rparr>"
    using backup_keeps [OF b(3)] by blast
  obtain st tmo b0 where v: "parse_field ''session_timeout'' (ys_SessionTimeout (y_Server y)) = Inr st"
    "parse_field ''ack_timeout'' (ys_AckTimeout (y_Server y)) = Inr tmo" "backup_part (y_Backup y) = Inr b0"
    "g_SessionTimeout g0 = st" "g_AckTimeout g0 = tmo" "g_BackupConfig g0 = b0" "g_OverloadProtection g0 = overload_part (y_Overload y)"
    using b(2) by (rule converted)
  note o = overridden [where ge = "ho_getenv ho" and fl = fl and g = g0 and b = bk, folded g]
  have t: "in_i64 (g_SessionTimeout g)" "in_i64 (g_AckTimeout g)"
    using assms(2,3) parse_field_int [OF v(1)] parse_field_int [OF v(2)] by (simp_all add: o v or_keep_int_def)
  have ov: "case convertOverloadConfig g of None \<Rightarrow> True | Some o' \<Rightarrow> overload_typed o'"
    using overload_part_typed [of g "y_Overload y"] by (simp add: o v split: option.split)
  have kept: "g_BackupConfig (applyEnvOverrides (ho_getenv ho) (applyCliOverrides fl g0)) = b0"
    using v(6) by (simp add: applyEnvOverrides_def applyCliOverrides_def)
  have bt: "backup_typed (case b0 of None \<Rightarrow> flag_backup | Some b \<Rightarrow> b)"
    using backup_part_typed [OF v(3)] flag_backup_typed by (auto split: if_splits)
  have "case g_BackupConfig g of None \<Rightarrow> True | Some b \<Rightarrow> backup_typed b \<and> sc_PeerAddr (bc_Sync b) \<noteq> []"
  proof (cases "\<not> fl_enableBackup fl \<and> \<not> yb_Enabled (y_Backup y)")
    case True
    then have "g_BackupConfig g = None" using b(3) kept backup_part_typed [OF v(3)] by (simp add: applyBackupConfig_def)
    then show ?thesis by simp
  next
    case False
    then show ?thesis
      using b(3) flags_typed [OF bt assms(4,5)] kept by (auto simp: applyBackupConfig_def Let_def split: if_splits)
  qed
  then show ?thesis using t ov unfolding b(5) server_fields by blast
qed

section \<open>A file\<close>

definition toy_yaml :: yaml_config where
  "toy_yaml =
     \<lparr>y_Server = \<lparr>ys_QUICAddr = '':8453'', ys_HTTPAddr = '':8080'', ys_GRPCAddr = '':8092'', ys_MetricsAddr = '':9090'',
        ys_UpstreamAddr = [], ys_UpstreamServices = [(''hello'', [''h:1''])], ys_CertFile = ''c'', ys_KeyFile = ''k'',
        ys_SessionTimeout = ''30m'', ys_AckTimeout = ''5s'', ys_MaxRetries = 3\<rparr>,
      y_StartProcessor = \<lparr>yp_Enabled = False, yp_MaxWorkers = 0, yp_QueueSize = 0, yp_Timeout = []\<rparr>,
      y_Backup = \<lparr>yb_Enabled = True, yb_Mode = ''primary'', yb_ServerID = ''g1'', yb_ReadOnly = False,
        yb_Heartbeat = \<lparr>yh_Interval = ''2s'', yh_PeerAddr = ''b:1'', yh_ListenAddr = '':1'', yh_Timeout = ''6s''\<rparr>,
        yb_Sync = \<lparr>yn_PeerAddr = ''b:2'', yn_ListenAddr = '':2'', yn_BatchSize = 50, yn_Timeout = ''200ms'', yn_BufferSize = 100\<rparr>\<rparr>,
      y_Overload = \<lparr>yo_Enabled = True, yo_MaxConnections = 0, yo_ConnectionWarningThreshold = 0, yo_MaxQPS = 0,
        yo_QPSWarningThreshold = 0, yo_QPSWindowSeconds = 0, yo_MaxUpstreamConcurrent = 0, yo_UpstreamTimeout = [],
        yo_UpstreamWarningThreshold = 0\<rparr>\<rparr>"

definition toy_host :: host where
  "toy_host = \<lparr>ho_read = (\<lambda>_. Inr []), ho_decode = (\<lambda>_. Inr toy_yaml), ho_missing = (\<lambda>_. False),
     ho_getenv = (\<lambda>v. if v = ''GATESVR_HTTP_ADDR'' then '':80'' else [])\<rparr>"

definition toy_flags :: cli_flags where
  "toy_flags = default_flags\<lparr>fl_quicAddr := '':9'', fl_httpAddr := '':10'', fl_backupMode := ''backup'', fl_peerAddr := ''z:3''\<rparr>"

lemma toy_durations:
  "ParseDuration ''30m'' = Inr 1800000000000" "ParseDuration ''5s'' = Inr 5000000000" "ParseDuration ''2s'' = Inr 2000000000"
  "ParseDuration ''6s'' = Inr 6000000000" "ParseDuration ''200ms'' = Inr 200000000"
  by (simp_all add: ParseDuration_def parse_units.simps is_digit_def digit_def fraction_of_def unit_char_def unitMap_def Let_def)

lemma toy_loaded: "Load (ho_read toy_host) (ho_decode toy_host) (fl_configFile toy_flags) = Inr toy_yaml"
  by (simp add: Load_def toy_host_def)

lemma toy_built:
  obtains c where "buildServerConfig toy_host toy_flags = Inr c"
proof -
  have f: "parse_field ''session_timeout'' (ys_SessionTimeout (y_Server toy_yaml)) = Inr 1800000000000"
    "parse_field ''ack_timeout'' (ys_AckTimeout (y_Server toy_yaml)) = Inr 5000000000"
    by (simp_all add: parse_field_ok toy_durations toy_yaml_def)
  have "parse_field n ''2s'' = Inr 2000000000" "parse_field n ''6s'' = Inr 6000000000" "parse_field n ''200ms'' = Inr 200000000" for n
    by (simp_all add: parse_field_ok toy_durations)
  then obtain b where b: "backup_part (y_Backup toy_yaml) = Inr (Some b)" "sc_PeerAddr (bc_Sync b) = ''b:1''"
    by (simp add: toy_yaml_def backup_part_def Let_def)
  obtain g0 where g0: "ToGatewayConfig toy_yaml = Inr g0" "\<exists>b. g_BackupConfig g0 = Some b \<and> sc_PeerAddr (bc_Sync b) \<noteq> []"
    using b by (simp add: ToGatewayConfig_def f)
  obtain g where "applyBackupConfig toy_flags toy_yaml (applyEnvOverrides (ho_getenv toy_host) (applyCliOverrides toy_flags g0)) = Inr g"
    using g0(2) by (auto simp: applyBackupConfig_def flag_overrides_def toy_flags_def toy_yaml_def or_keep_def Let_def)
  moreover have "ho_missing toy_host f = False" for f by (simp add: toy_host_def)
  ultimately show thesis using that by (simp add: buildServerConfig_def toy_loaded g0(1) validateCertFiles_def)
qed

lemma toy_interval:
  assumes "buildServerConfig toy_host toy_flags = Inr c"
  shows "\<forall>b. cfg_BackupConfig c = Some b \<longrightarrow> 0 < sc_HeartbeatInterval (bc_Sync b)"
proof -
  have f: "parse_field ''session_timeout'' (ys_SessionTimeout (y_Server toy_yaml)) = Inr 1800000000000"
    "parse_field ''ack_timeout'' (ys_AckTimeout (y_Server toy_yaml)) = Inr 5000000000"
    by (simp_all add: parse_field_ok toy_durations toy_yaml_def)
  have "parse_field n ''2s'' = Inr 2000000000" "parse_field n ''6s'' = Inr 6000000000" "parse_field n ''200ms'' = Inr 200000000" for n
    by (simp_all add: parse_field_ok toy_durations)
  then obtain b where b: "backup_part (y_Backup toy_yaml) = Inr (Some b)" "0 < sc_HeartbeatInterval (bc_Sync b)"
    by (simp add: toy_yaml_def backup_part_def Let_def)
  then obtain g0 where g0: "ToGatewayConfig toy_yaml = Inr g0" "g_BackupConfig g0 = Some b" by (simp add: ToGatewayConfig_def f)
  from assms obtain y g1 g where q: "Load (ho_read toy_host) (ho_decode toy_host) (fl_configFile toy_flags) = Inr y" "ToGatewayConfig y = Inr g1"
    "applyBackupConfig toy_flags y (applyEnvOverrides (ho_getenv toy_host) (applyCliOverrides toy_flags g1)) = Inr g"
    "validateCertFiles (ho_missing toy_host) (g_TLSCertFile g) (g_TLSKeyFile g) = None" "c = to_server_config g" by (rule built)
  have y: "y = toy_yaml" "g1 = g0" using q(1,2) toy_loaded g0(1) by simp_all
  have k: "g_BackupConfig (applyEnvOverrides (ho_getenv toy_host) (applyCliOverrides toy_flags g0)) = Some b"
    using g0(2) by (simp add: applyEnvOverrides_def applyCliOverrides_def)
  have e: "yb_Enabled (y_Backup toy_yaml)" by (simp add: toy_yaml_def)
  have "\<exists>m. g_BackupConfig g = Some (flag_overrides toy_flags m b)"
    using q(3) e k unfolding y by (auto simp: applyBackupConfig_def Let_def split: if_splits)
  moreover have "0 < sc_HeartbeatInterval (bc_Sync (flag_overrides toy_flags m b))" for m
    using b(2) by (simp add: flag_overrides_def toy_flags_def default_flags_def or_keep_int_def Let_def)
  ultimately show ?thesis by (auto simp: q(5) server_fields)
qed


theorem built_config_typed_witness:
  "\<exists>c b. buildServerConfig toy_host toy_flags = Inr c \<and> cfg_BackupConfig c = Some b \<and> backup_typed b"
proof -
  obtain c where c: "buildServerConfig toy_host toy_flags = Inr c" by (rule toy_built)
  have f: "in_i64 (fl_sessionTimeout toy_flags)" "in_i64 (fl_ackTimeout toy_flags)" "in_i64 (fl_heartbeatInterval toy_flags)"
    "in_i64 (fl_syncTimeout toy_flags)" by (simp_all add: toy_flags_def default_flags_def in_i64_def)
  have "cfg_BackupConfig c \<noteq> None"
    using c toy_loaded by (auto simp: buildServerConfig_def to_server_config_def applyBackupConfig_def toy_yaml_def Let_def
      split: sum.splits option.splits if_splits)
  then show ?thesis using built_config_typed [OF c f] c by (auto split: option.splits)
qed

theorem window_from_file_witness:
  "\<exists>c. buildServerConfig toy_host toy_flags = Inr c \<and>
     AllowNewRequest 7 (sv_protector (NewServer 4 5 (config.truncate c) :: (unit, unit) server)) [] \<noteq> None"
proof -
  obtain c where c: "buildServerConfig toy_host toy_flags = Inr c" by (rule toy_built)
  have "0 \<le> yo_QPSWindowSeconds (y_Overload toy_yaml)" "yo_QPSWindowSeconds (y_Overload toy_yaml) \<le> 9223372036"
    by (simp_all add: toy_yaml_def)
  from window_from_file [OF c toy_loaded this, of 5 7 4 "[]"] c show ?thesis by auto
qed

theorem mode_flag_keeps_addresses_witness:
  "\<exists>c b r h. buildServerConfig toy_host toy_flags = Inr c \<and> cfg_BackupConfig c = Some b \<and>
     bm_syncReceiver (fst (snd (bm_Start (\<lambda>_. None) 5 (registered 4 b ''g1'' :: bytes list backup_system)))) = Some r \<and>
     rv_listening r \<and> rv_listenAddr r = ''b:2'' \<and>
     bm_heartbeat (fst (snd (bm_Start (\<lambda>_. None) 5 (registered 4 b ''g1'' :: bytes list backup_system)))) = Some h \<and>
     hb_listening h \<and> hb_addr h = ''b:1''"
proof -
  obtain c where c: "buildServerConfig toy_host toy_flags = Inr c" by (rule toy_built)
  have y: "yb_Enabled (y_Backup toy_yaml)" "yb_Mode (y_Backup toy_yaml) = ''primary''" "fl_backupMode toy_flags = ''backup''"
    "yn_PeerAddr (yb_Sync (y_Backup toy_yaml)) = ''b:2''" "yh_PeerAddr (yb_Heartbeat (y_Backup toy_yaml)) = ''b:1''"
    "listen_ok (\<lambda>_. None)"
    by (simp_all add: toy_yaml_def toy_flags_def listen_ok_def)
  have a: "yn_PeerAddr (yb_Sync (y_Backup toy_yaml)) \<noteq> []" "yh_PeerAddr (yb_Heartbeat (y_Backup toy_yaml)) \<noteq> []"
    by (simp_all add: y(4,5))
  from mode_flag_keeps_addresses [OF c toy_loaded y(1-3) a toy_interval [OF c] y(6), of 5 4 "''g1''"] c
  show ?thesis unfolding y(4,5) by blast
qed

end
