(* ===== verification/Upstream_Server.thy ===== *)
theory Upstream_Server
  imports Gateway_Push Gate_Config
begin

text \<open>
  The upstream server (\<open>internal/upstream/server.go\<close>, \<open>unicast_client.go\<close>): the business actions, the users
  it knows, and what it asks of the gateway.

  The calls to the gateway are a parameter, the record \<open>gateway_rpc\<close> over a world \<open>'w\<close>; \<open>Upstream_Props\<close> puts
  the gateway of this development there. A goroutine that a handler starts is an entry of \<open>usv_jobs\<close>,
  run by \<open>run_job\<close>. Times and durations are printed by \<open>clock_text\<close> (package \<open>time\<close>, with the time zone of
  the host); every other text is written out in UTF-8. The order in which Go visits a map is that
  of the list, for the lines of a status report an argument. Seconds since the start are exact below 48 days, where
  \<open>float64\<close> is.
\<close>

section \<open>Texts\<close>

text \<open>UTF-8 of code points below \<open>0x10000\<close>.\<close>

definition utf8_char :: "nat \<Rightarrow> string" where
  "utf8_char c =
     (if c < 0x80 then [char_of c]
      else if c < 0x800 then [char_of (0xC0 + c div 64), char_of (0x80 + c mod 64)]
      else [char_of (0xE0 + c div 4096), char_of (0x80 + c div 64 mod 64), char_of (0x80 + c mod 64)])"

definition utf8 :: "nat list \<Rightarrow> string" where
  "utf8 cs = concat (map utf8_char cs)"

text \<open>The bytes of a Go string, and a string made of bytes.\<close>

definition bytes_string :: "bytes \<Rightarrow> string" where
  "bytes_string = map (\<lambda>b. char_of (unat b))"

record clock_text =
  ct_format :: "string \<Rightarrow> time \<Rightarrow> string"   \<comment> \<open>\<open>Time.Format\<close> with a layout\<close>
  ct_location :: string
  ct_duration :: "duration \<Rightarrow> string"

section \<open>\<open>fmt.Sscanf\<close> with \<open>%d\<close>\<close>

definition go_spaces :: "string list" where
  "go_spaces = map (\<lambda>c. utf8 [c])
     ([9, 11, 12, 13, 0x20, 0x85, 0xA0, 0x1680] @ [0x2000..<0x200B] @ [0x2028, 0x2029, 0x202F, 0x205F, 0x3000])"

lemma go_spaces_nonempty: "sp \<in> set go_spaces \<Longrightarrow> sp \<noteq> []"
  by (auto simp: go_spaces_def utf8_def utf8_char_def)

text \<open>Leading space is skipped, a newline is an error (\<open>None\<close>).\<close>

function skip_space :: "string \<Rightarrow> string option" where
  "skip_space s =
     (if take 1 s = [CHR 0x0A] then None
      else (case find (\<lambda>sp. take (length sp) s = sp) go_spaces of
              None \<Rightarrow> Some s
            | Some sp \<Rightarrow> skip_space (drop (length sp) s)))"
  by pat_completeness auto
termination
proof (relation "measure length")
  fix s sp assume "find (\<lambda>sp. take (length sp) s = sp) go_spaces = Some sp"
  then have "sp \<in> set go_spaces" "take (length sp) s = sp" by (auto simp: find_Some_iff)
  then show "(drop (length sp) s, s) \<in> measure length" using go_spaces_nonempty [of sp] by (cases s) auto
qed simp

declare skip_space.simps [simp del]

text \<open>An optional sign and digits, read by \<open>strconv.ParseInt\<close>; what follows is not looked at.\<close>

definition scan_int :: "string \<Rightarrow> int option" where
  "scan_int s0 =
     (case skip_space s0 of
        None \<Rightarrow> None
      | Some s \<Rightarrow>
          let neg = (take 1 s = ''-'');
              ds = takeWhile is_digit (if neg \<or> take 1 s = ''+'' then tl s else s);
              n = int (foldl (\<lambda>n c. n * 10 + digit c) 0 ds);
              v = (if neg then - n else n)
          in if ds \<noteq> [] \<and> in_i64 v then Some v else None)"

section \<open>The client of the gateway\<close>

record 'w gateway_rpc =
  rpc_push :: "unicast_push_request \<Rightarrow> 'w \<Rightarrow> (err + unicast_push_response) \<times> 'w"
  rpc_broadcast :: "broadcast_request \<Rightarrow> 'w \<Rightarrow> (err + broadcast_response) \<times> 'w"

record unicast_client =
  uc_client :: bool          \<comment> \<open>the client is not nil\<close>
  uc_gateAddr :: string

datatype push_error = PushNotConnected | PushRpc err | PushRefused msgtext string

definition NewUnicastClient :: "string \<Rightarrow> unicast_client" where
  "NewUnicastClient addr = \<lparr>uc_client = False, uc_gateAddr = addr\<rparr>"

definition client_Connect :: "err option \<Rightarrow> unicast_client \<Rightarrow> err option \<times> unicast_client" where
  "client_Connect dial c = (case dial of Some e \<Rightarrow> (Some e, c) | None \<Rightarrow> (None, c\<lparr>uc_client := True\<rparr>))"

text \<open>The call and its answer, shared by the two push procedures.\<close>

definition push_call ::
  "'w gateway_rpc \<Rightarrow> unicast_client \<Rightarrow> unicast_push_request \<Rightarrow> 'w \<Rightarrow> push_error option \<times> 'w" where
  "push_call rpc c req w =
     (if \<not> uc_client c then (Some PushNotConnected, w)
      else (case rpc_push rpc req w of
              (Inl e, w1) \<Rightarrow> (Some (PushRpc e), w1)
            | (Inr resp, w1) \<Rightarrow>
                (if \<not> ps_Success resp then Some (PushRefused (ps_Message resp) (ps_ErrorCode resp)) else None, w1)))"

definition client_PushToClient ::
  "'w gateway_rpc \<Rightarrow> string \<Rightarrow> string \<Rightarrow> string \<Rightarrow> string \<Rightarrow> msgtext \<Rightarrow> bytes \<Rightarrow> unicast_client \<Rightarrow> 'w \<Rightarrow>
     push_error option \<times> 'w" where
  "client_PushToClient rpc targetType targetID msgType title content data c w =
     push_call rpc c
       \<lparr>up_TargetType = targetType, up_TargetId = targetID, up_MsgType = msgType, up_Title = title, up_Content = content,
        up_Data = data, up_Metadata = [], up_SyncHint = NSH_IMMEDIATELY, up_BindClientSeqId = 0\<rparr> w"

definition PushToGID ::
  "'w gateway_rpc \<Rightarrow> int \<Rightarrow> string \<Rightarrow> string \<Rightarrow> msgtext \<Rightarrow> bytes \<Rightarrow> unicast_client \<Rightarrow> 'w \<Rightarrow> push_error option \<times> 'w" where
  "PushToGID rpc gid msgType title content data c w =
     client_PushToClient rpc ''gid'' (show_int gid) msgType title content data c w"

definition client_PushToOpenID ::
  "'w gateway_rpc \<Rightarrow> string \<Rightarrow> string \<Rightarrow> string \<Rightarrow> msgtext \<Rightarrow> bytes \<Rightarrow> unicast_client \<Rightarrow> 'w \<Rightarrow> push_error option \<times> 'w" where
  "client_PushToOpenID rpc openID msgType title content data c w =
     client_PushToClient rpc ''openid'' openID msgType title content data c w"

definition client_PushToSession ::
  "'w gateway_rpc \<Rightarrow> string \<Rightarrow> string \<Rightarrow> string \<Rightarrow> msgtext \<Rightarrow> bytes \<Rightarrow> unicast_client \<Rightarrow> 'w \<Rightarrow> push_error option \<times> 'w" where
  "client_PushToSession rpc sid msgType title content data c w =
     client_PushToClient rpc ''session'' sid msgType title content data c w"

definition PushToOpenIDWithSyncHint ::
  "'w gateway_rpc \<Rightarrow> string \<Rightarrow> string \<Rightarrow> string \<Rightarrow> msgtext \<Rightarrow> bytes \<Rightarrow> sync_hint \<Rightarrow> u64 \<Rightarrow> unicast_client \<Rightarrow> 'w \<Rightarrow>
     push_error option \<times> 'w" where
  "PushToOpenIDWithSyncHint rpc openID msgType title content data syncHint bindClientSeqId c w =
     push_call rpc c
       \<lparr>up_TargetType = ''openid'', up_TargetId = openID, up_MsgType = msgType, up_Title = title, up_Content = content,
        up_Data = data, up_Metadata = [], up_SyncHint = syncHint, up_BindClientSeqId = bindClientSeqId\<rparr> w"

definition client_BroadcastToClients ::
  "'w gateway_rpc \<Rightarrow> string \<Rightarrow> string \<Rightarrow> msgtext \<Rightarrow> bytes \<Rightarrow> headers \<Rightarrow> unicast_client \<Rightarrow> 'w \<Rightarrow>
     push_error option \<times> 'w" where
  "client_BroadcastToClients rpc msgType title content data metadata c w =
     (if \<not> uc_client c then (Some PushNotConnected, w)
      else (case rpc_broadcast rpc
                \<lparr>bc_MsgType = msgType, bc_Title = title, bc_Content = content, bc_Data = data, bc_Metadata = metadata\<rparr> w of
              (Inl e, w1) \<Rightarrow> (Some (PushRpc e), w1)
            | (Inr _, w1) \<Rightarrow> (None, w1)))"

text \<open>\<open>Close\<close> closes the connection, if there is one, with the result \<open>x\<close>, and keeps the client.\<close>

definition client_Close :: "err option \<Rightarrow> unicast_client \<Rightarrow> err option" where
  "client_Close x c = (if uc_client c then x else None)"

text \<open>A failed push is only logged.\<close>

definition DemoUnicastPush :: "'w gateway_rpc \<Rightarrow> unicast_client \<Rightarrow> 'w \<Rightarrow> 'w" where
  "DemoUnicastPush rpc c w =
     snd (client_PushToOpenID rpc ''user123'' ''personal'' (utf8 [0x4E2A, 0x4EBA, 0x6D88, 0x606F]) (Raw (utf8 [0x60A8, 0x6709, 0x65B0, 0x7684, 0x6D88, 0x606F])) [] c
       (snd (PushToGID rpc 12345 ''system'' (utf8 [0x7CFB, 0x7EDF, 0x901A, 0x77E5]) (Raw (utf8 [0x8FD9, 0x662F, 0x4E00, 0x6761, 0x7CFB, 0x7EDF, 0x63A8, 0x9001, 0x6D88, 0x606F])) (string_bytes ''test data'') c w)))"

section \<open>The server\<close>

record user_session =
  us_OpenID :: string
  us_SessionID :: string
  us_LoginTime :: time
  us_LastActive :: time

datatype job =
  EchoJob string string bytes                   \<comment> \<open>target, message, data\<close>
| NotifyJob string string sync_hint u64         \<comment> \<open>user, message, hint, number\<close>

record upstream_server =
  usv_addr :: string
  usv_unicastClient :: unicast_client
  usv_startTime :: time
  usv_activeConnections :: int
  usv_loggedInUsers :: "(string \<times> user_session) list"
  usv_jobs :: "job list"
  usv_broadcastCount :: nat
  usv_stopped :: bool

definition upstream_NewServer :: "time \<Rightarrow> (string \<Rightarrow> string) \<Rightarrow> string \<Rightarrow> upstream_server" where
  "upstream_NewServer now getenv addr =
     (let g = getenv ''GATEWAY_GRPC_ADDR'' in
      \<lparr>usv_addr = addr, usv_unicastClient = NewUnicastClient (if g = [] then ''localhost:8092'' else g), usv_startTime = now,
       usv_activeConnections = 0, usv_loggedInUsers = [], usv_jobs = [], usv_broadcastCount = 0, usv_stopped = False\<rparr>)"

text \<open>A failure to connect to the gateway is only logged; \<open>listen\<close> is the result of opening the port.\<close>

definition upstream_Start :: "err option \<Rightarrow> err option \<Rightarrow> upstream_server \<Rightarrow> err option \<times> upstream_server" where
  "upstream_Start dial listen s =
     (let s1 = s\<lparr>usv_unicastClient := snd (client_Connect dial (usv_unicastClient s))\<rparr> in
      (map_option (ErrWrap ''upstream Start: listen'') listen, s1))"

text \<open>Stopping twice closes a closed channel.\<close>

definition upstream_Stop :: "upstream_server \<Rightarrow> upstream_server option" where
  "upstream_Stop s = (if usv_stopped s then None else Some (s\<lparr>usv_stopped := True\<rparr>))"

section \<open>Replies\<close>

definition reply :: "int \<Rightarrow> string \<Rightarrow> string \<Rightarrow> headers \<Rightarrow> upstream_response" where
  "reply code message data headers =
     \<lparr>ur_Code = code, ur_Message = Raw message, ur_Data = string_bytes data, ur_Headers = headers, ur_ClientSeqId = 0\<rparr>"

definition count_text :: "'k list \<Rightarrow> string" where
  "count_text xs = show_int (int (length xs))"

abbreviation plain_text :: headers where
  "plain_text \<equiv> [(''content-type'', ''text/plain'')]"

definition handleEcho :: "upstream_request \<Rightarrow> upstream_server \<Rightarrow> upstream_response \<times> upstream_server" where
  "handleEcho req s =
     (let message = bytes_string (uq_Data req); gid = gm_getd [] (uq_Params req) ''demo_unicast_gid'' in
      (reply 200 ''success'' (''Echo: '' @ message) [],
       if gid \<noteq> [] then s\<lparr>usv_jobs := usv_jobs s @ [EchoJob gid message (uq_Data req)]\<rparr> else s))"

definition handleTime :: "clock_text \<Rightarrow> time \<Rightarrow> upstream_response" where
  "handleTime ct now =
     reply 200 (utf8 [0x5F53, 0x524D, 0x65F6, 0x95F4]) (ct_format ct ''2006-01-02 15:04:05'' now)
       [(''content-type'', ''text/plain''), (''timezone'', ct_location ct), (''unix'', show_int (Unix now))]"

definition upstream_handleLogin :: "time \<Rightarrow> upstream_request \<Rightarrow> upstream_server \<Rightarrow> upstream_response \<times> upstream_server" where
  "upstream_handleLogin now req s =
     (if uq_Openid req = [] then (reply 400 (''OpenID'' @ utf8 [0x4E0D, 0x80FD, 0x4E3A, 0x7A7A]) (utf8 [0x767B, 0x5F55, 0x5931, 0x8D25, 0xFF1A, 0x7F3A, 0x5C11] @ ''OpenID'') [], s)
      else
        let users = gm_put (uq_Openid req)
              \<lparr>us_OpenID = uq_Openid req, us_SessionID = uq_SessionId req, us_LoginTime = now, us_LastActive = now\<rparr>
              (usv_loggedInUsers s);
            p = gm_getd [] (uq_Params req) ''name'';
            name = (if p = [] then uq_Openid req else p)
        in (reply 200 (utf8 [0x767B, 0x5F55, 0x6210, 0x529F])
              ((utf8 [0x4F60, 0x597D] @ '', '') @ name @ (''! '' @ utf8 [0x6B22, 0x8FCE, 0x767B, 0x5F55, 0x7F51, 0x5173, 0x670D, 0x52A1, 0x5668, 0x3002, 0x5F53, 0x524D, 0x5728, 0x7EBF, 0x7528, 0x6237, 0xFF1A]) @ count_text users @ (utf8 [0x4EBA]))
              [(''content-type'', ''text/plain''), (''language'', ''zh-CN''), (''gid'', uq_Openid req), (''zone'', ''1'')],
            s\<lparr>usv_loggedInUsers := users\<rparr>))"

definition handleLogout :: "upstream_request \<Rightarrow> upstream_server \<Rightarrow> upstream_response \<times> upstream_server" where
  "handleLogout req s =
     (if uq_Openid req = [] then (reply 400 (''OpenID'' @ utf8 [0x4E0D, 0x80FD, 0x4E3A, 0x7A7A]) (utf8 [0x767B, 0x51FA, 0x5931, 0x8D25, 0xFF1A, 0x7F3A, 0x5C11] @ ''OpenID'') [], s)
      else
        let users = gm_del (uq_Openid req) (usv_loggedInUsers s) in
        (reply 200 (utf8 [0x767B, 0x51FA, 0x6210, 0x529F]) ((utf8 [0x518D, 0x89C1] @ ''! '' @ utf8 [0x60A8, 0x5DF2, 0x6210, 0x529F, 0x767B, 0x51FA, 0x3002, 0x5F53, 0x524D, 0x5728, 0x7EBF, 0x7528, 0x6237, 0xFF1A]) @ count_text users @ (utf8 [0x4EBA])) plain_text,
         s\<lparr>usv_loggedInUsers := users\<rparr>))"

definition user_line :: "clock_text \<Rightarrow> string \<times> user_session \<Rightarrow> string" where
  "user_line ct e = ''OpenID: '' @ fst e @ ('', '' @ utf8 [0x767B, 0x5F55, 0x65F6, 0x95F4] @ '': '') @ ct_format ct ''2006-01-02 15:04:05'' (us_LoginTime (snd e))"

definition handleUserList :: "clock_text \<Rightarrow> upstream_server \<Rightarrow> upstream_response" where
  "handleUserList ct s =
     (let users = usv_loggedInUsers s in
      reply 200 (utf8 [0x67E5, 0x8BE2, 0x6210, 0x529F])
        ((utf8 [0x5F53, 0x524D, 0x5728, 0x7EBF, 0x7528, 0x6237, 0x6570] @ '': '') @ count_text users @ (utf8 [0xA]) @
         (if users \<noteq> [] then (utf8 [0x7528, 0x6237, 0x5217, 0x8868] @ '':'' @ utf8 [0xA]) @ concat (map (\<lambda>e. user_line ct e @ (utf8 [0xA])) users) else []))
        [(''content-type'', ''text/plain''), (''user_count'', count_text users)])"

text \<open>The operations of \<open>handleCalculate\<close>, with Go's wrap-around; \<open>None\<close> is an unknown operation.\<close>

definition calculate :: "string \<Rightarrow> int \<Rightarrow> int \<Rightarrow> (int \<times> string) option" where
  "calculate operation a b =
     (if operation = ''add'' then Some (i64 (a + b), ''+'')
      else if operation = ''subtract'' then Some (i64 (a - b), ''-'')
      else if operation = ''multiply'' then Some (i64 (a * b), ''*'')
      else if operation = ''divide'' then Some (i64 (go_div a b), ''/'')
      else None)"

definition handleCalculate :: "upstream_request \<Rightarrow> upstream_response" where
  "handleCalculate req =
     (let operation = gm_getd [] (uq_Params req) ''operation'';
          aStr = gm_getd [] (uq_Params req) ''a'';
          bStr = gm_getd [] (uq_Params req) ''b''
      in if operation = [] \<or> aStr = [] \<or> bStr = [] then
           reply 400 (utf8 [0x7F3A, 0x5C11, 0x5FC5, 0x9700, 0x53C2, 0x6570] @ '': operation, a, b'') (utf8 [0x9519, 0x8BEF] @ '': '' @ utf8 [0x53C2, 0x6570, 0x4E0D, 0x5B8C, 0x6574]) []
         else (case scan_int aStr of
                 None \<Rightarrow> reply 400 (utf8 [0x53C2, 0x6570] @ ''a'' @ utf8 [0x4E0D, 0x662F, 0x6709, 0x6548, 0x6574, 0x6570]) (utf8 [0x9519, 0x8BEF] @ '': '' @ utf8 [0x53C2, 0x6570] @ ''a'' @ utf8 [0x683C, 0x5F0F, 0x9519, 0x8BEF]) []
               | Some a \<Rightarrow>
                   (case scan_int bStr of
                      None \<Rightarrow> reply 400 (utf8 [0x53C2, 0x6570] @ ''b'' @ utf8 [0x4E0D, 0x662F, 0x6709, 0x6548, 0x6574, 0x6570]) (utf8 [0x9519, 0x8BEF] @ '': '' @ utf8 [0x53C2, 0x6570] @ ''b'' @ utf8 [0x683C, 0x5F0F, 0x9519, 0x8BEF]) []
                    | Some b \<Rightarrow>
                        if operation = ''divide'' \<and> b = 0 then reply 400 (utf8 [0x9664, 0x6570, 0x4E0D, 0x80FD, 0x4E3A, 0x96F6]) (utf8 [0x9519, 0x8BEF] @ '': '' @ utf8 [0x9664, 0x96F6, 0x9519, 0x8BEF]) []
                        else (case calculate operation a b of
                                None \<Rightarrow> reply 400 (utf8 [0x4E0D, 0x652F, 0x6301, 0x7684, 0x8FD0, 0x7B97, 0x64CD, 0x4F5C]) (utf8 [0x9519, 0x8BEF] @ '': '' @ utf8 [0x64CD, 0x4F5C, 0x7C7B, 0x578B, 0x65E0, 0x6548]) []
                              | Some (result, opStr) \<Rightarrow>
                                  reply 200 (utf8 [0x8BA1, 0x7B97, 0x6210, 0x529F])
                                    (show_int a @ '' '' @ opStr @ '' '' @ show_int b @ '' = '' @ show_int result)
                                    [(''content-type'', ''text/plain''), (''operation'', operation),
                                     (''result'', show_int result)]))))"

text \<open>The lines of the status report, in the order \<open>order\<close> in which Go visits the map.\<close>

definition status_lines :: "clock_text \<Rightarrow> time \<Rightarrow> upstream_server \<Rightarrow> (string \<times> string) list" where
  "status_lines ct now s =
     [(''service'', ''upstream-server''), (''status'', ''healthy''),
      (''uptime_seconds'', show_int (go_div (now - usv_startTime s) Second)),
      (''uptime_human'', ct_duration ct (now - usv_startTime s)),
      (''active_connections'', show_int (usv_activeConnections s)),
      (''start_time'', ct_format ct ''2006-01-02T15:04:05Z07:00'' (usv_startTime s)),
      (''current_time'', ct_format ct ''2006-01-02T15:04:05Z07:00'' now)]"

definition handleStatus ::
  "clock_text \<Rightarrow> ((string \<times> string) list \<Rightarrow> (string \<times> string) list) \<Rightarrow> time \<Rightarrow> upstream_server \<Rightarrow> upstream_response" where
  "handleStatus ct order now s =
     reply 200 (utf8 [0x72B6, 0x6001, 0x67E5, 0x8BE2, 0x6210, 0x529F]) (concat (map (\<lambda>(k, v). k @ '': '' @ v @ (utf8 [0xA])) (order (status_lines ct now s))))
       [(''content-type'', ''text/plain''), (''uptime'', ct_duration ct (now - usv_startTime s))]"

section \<open>Broadcasts and notifications\<close>

definition upstream_sendBroadcastMessage ::
  "'w gateway_rpc \<Rightarrow> string \<Rightarrow> bytes \<Rightarrow> upstream_server \<Rightarrow> 'w \<Rightarrow> int \<times> 'w" where
  "upstream_sendBroadcastMessage rpc message data s w =
     (let users = usv_loggedInUsers s in
      if users = [] then (0, w)
      else (case client_BroadcastToClients rpc ''system'' (utf8 [0x7CFB, 0x7EDF, 0x5E7F, 0x64AD]) (Raw message) data [] (usv_unicastClient s) w of
              (Some _, w1) \<Rightarrow> (0, w1)
            | (None, w1) \<Rightarrow> (int (length users), w1)))"

definition message_or :: "string \<Rightarrow> upstream_request \<Rightarrow> string" where
  "message_or d req = (let m = gm_getd [] (uq_Params req) ''message'' in if m = [] then d else m)"

definition handleBroadcastCommand ::
  "'w gateway_rpc \<Rightarrow> upstream_request \<Rightarrow> upstream_server \<Rightarrow> 'w \<Rightarrow> upstream_response \<times> 'w" where
  "handleBroadcastCommand rpc req s w =
     (case upstream_sendBroadcastMessage rpc (message_or (utf8 [0x7CFB, 0x7EDF, 0x5E7F, 0x64AD, 0x6D88, 0x606F]) req) (uq_Data req) s w of
        (n, w1) \<Rightarrow>
          (reply 200 (utf8 [0x5E7F, 0x64AD, 0x6210, 0x529F]) ((utf8 [0x5E7F, 0x64AD, 0x6D88, 0x606F, 0x5DF2, 0x53D1, 0x9001, 0x7ED9] @ '' '') @ show_int n @ ('' '' @ utf8 [0x4E2A, 0x5728, 0x7EBF, 0x7528, 0x6237]))
             [(''content-type'', ''text/plain''), (''user_count'', show_int n)], w1))"

definition command_reply :: "clock_text \<Rightarrow> time \<Rightarrow> string \<Rightarrow> string \<Rightarrow> string \<Rightarrow> u64 \<Rightarrow> upstream_response" where
  "command_reply ct now message result testType seq =
     (reply 200 result ((utf8 [0x3010] @ ''RESPONSE'' @ utf8 [0x3011]) @ message @ ('' - '' @ utf8 [0x5904, 0x7406, 0x5B8C, 0x6210, 0x65F6, 0x95F4] @ '': '') @ ct_format ct ''15:04:05.000'' now)
        [(''content-type'', ''text/plain''), (''test-type'', testType)])\<lparr>ur_ClientSeqId := seq\<rparr>"

definition add_notify :: "sync_hint \<Rightarrow> string \<Rightarrow> upstream_request \<Rightarrow> upstream_server \<Rightarrow> upstream_server" where
  "add_notify hint message req s =
     (if uq_Openid req \<noteq> [] then s\<lparr>usv_jobs := usv_jobs s @ [NotifyJob (uq_Openid req) message hint (uq_ClientSeqId req)]\<rparr>
      else s)"

definition handleBeforeCommand ::
  "clock_text \<Rightarrow> time \<Rightarrow> upstream_request \<Rightarrow> upstream_server \<Rightarrow> upstream_response \<times> upstream_server" where
  "handleBeforeCommand ct now req s =
     (let message = message_or (utf8 [0x6D4B, 0x8BD5] @ ''notify'' @ utf8 [0x5728] @ ''response'' @ utf8 [0x4E4B, 0x524D]) req in
      (command_reply ct now message (''before'' @ utf8 [0x6307, 0x4EE4, 0x6267, 0x884C, 0x6210, 0x529F]) ''before'' (uq_ClientSeqId req),
       add_notify NSH_BEFORE_RESPONSE message req s))"

definition handleAfterCommand ::
  "clock_text \<Rightarrow> time \<Rightarrow> upstream_request \<Rightarrow> upstream_server \<Rightarrow> upstream_response \<times> upstream_server" where
  "handleAfterCommand ct now req s =
     (let message = message_or (utf8 [0x6D4B, 0x8BD5] @ ''notify'' @ utf8 [0x5728] @ ''response'' @ utf8 [0x4E4B, 0x540E]) req in
      (command_reply ct now message (''after'' @ utf8 [0x6307, 0x4EE4, 0x6267, 0x884C, 0x6210, 0x529F]) ''after'' (uq_ClientSeqId req),
       add_notify NSH_AFTER_RESPONSE message req s))"

definition handleDefault :: "upstream_request \<Rightarrow> upstream_response" where
  "handleDefault req =
     reply 404 (utf8 [0x64CD, 0x4F5C, 0x4E0D, 0x5B58, 0x5728]) ((utf8 [0x672A, 0x77E5, 0x64CD, 0x4F5C] @ '': '') @ uq_Action req @ (utf8 [0xA, 0x53EF, 0x7528, 0x64CD, 0x4F5C] @ '': echo, time, hello, calculate, status'')) plain_text"

text \<open>The goroutines; the time in the text is that of the run.\<close>

definition run_push ::
  "'w gateway_rpc \<Rightarrow> clock_text \<Rightarrow> time \<Rightarrow> job \<Rightarrow> unicast_client \<Rightarrow> 'w \<Rightarrow> push_error option \<times> 'w" where
  "run_push rpc ct now j c w =
     (case j of
        EchoJob gid message data \<Rightarrow>
          client_PushToClient rpc ''gid'' gid ''echo'' (''Echo'' @ utf8 [0x63A8, 0x9001]) (Raw ((utf8 [0x60A8, 0x7684] @ ''echo'' @ utf8 [0x6D88, 0x606F] @ '': '') @ message)) data c w
      | NotifyJob openid message hint seq \<Rightarrow>
          if hint = NSH_BEFORE_RESPONSE then
            PushToOpenIDWithSyncHint rpc openid ''before_test'' ''Notify Before Response''
              (Raw ((utf8 [0x3010] @ ''NOTIFY BEFORE'' @ utf8 [0x3011]) @ message @ ('' - '' @ utf8 [0x65F6, 0x95F4] @ '': '') @ ct_format ct ''15:04:05.000'' now))
              (string_bytes ''notify_before_data'') hint seq c w
          else
            PushToOpenIDWithSyncHint rpc openid ''after_test'' ''Notify After Response''
              (Raw ((utf8 [0x3010] @ ''NOTIFY AFTER'' @ utf8 [0x3011]) @ message @ ('' - '' @ utf8 [0x65F6, 0x95F4] @ '': '') @ ct_format ct ''15:04:05.000'' now))
              (string_bytes ''notify_after_data'') hint seq c w)"

definition run_job :: "'w gateway_rpc \<Rightarrow> clock_text \<Rightarrow> time \<Rightarrow> nat \<Rightarrow> upstream_server \<times> 'w \<Rightarrow> upstream_server \<times> 'w" where
  "run_job rpc ct now i sw =
     (case sw of (s, w) \<Rightarrow>
        if i < length (usv_jobs s) then
          (s\<lparr>usv_jobs := take i (usv_jobs s) @ drop (Suc i) (usv_jobs s)\<rparr>,
           snd (run_push rpc ct now (usv_jobs s ! i) (usv_unicastClient s) w))
        else sw)"

text \<open>A tick of \<open>broadcastRoutine\<close>.\<close>

definition broadcastRoutine :: "'w gateway_rpc \<Rightarrow> clock_text \<Rightarrow> time \<Rightarrow> upstream_server \<times> 'w \<Rightarrow> upstream_server \<times> 'w" where
  "broadcastRoutine rpc ct now sw =
     (case sw of (s, w) \<Rightarrow>
        if usv_stopped s \<or> usv_loggedInUsers s = [] then sw
        else
          let n = usv_broadcastCount s + 1;
              message = (utf8 [0x5B9A, 0x65F6, 0x5E7F, 0x64AD, 0x6D88, 0x606F] @ '' #'') @ show_nat n @ ('' - '' @ utf8 [0x5F53, 0x524D, 0x65F6, 0x95F4] @ '': '') @ ct_format ct ''2006-01-02 15:04:05'' now @
                ('', '' @ utf8 [0x5728, 0x7EBF, 0x7528, 0x6237] @ '': '') @ count_text (usv_loggedInUsers s) @ (utf8 [0x4EBA])
          in (s\<lparr>usv_broadcastCount := n\<rparr>, snd (upstream_sendBroadcastMessage rpc message (string_bytes message) s w)))"

section \<open>Requests\<close>

text \<open>The parts of the host a request is handled with.\<close>

record 'w upstream_env =
  ue_rpc :: "'w gateway_rpc"
  ue_text :: clock_text
  ue_order :: "(string \<times> string) list \<Rightarrow> (string \<times> string) list"

definition ProcessRequest ::
  "'w upstream_env \<Rightarrow> time \<Rightarrow> upstream_request \<Rightarrow> upstream_server \<times> 'w \<Rightarrow> upstream_response \<times> upstream_server \<times> 'w" where
  "ProcessRequest ue now req sw =
     (case sw of (s, w) \<Rightarrow>
        let a = uq_Action req; ct = ue_text ue; same = (\<lambda>r. (r, s, w)); upd = (\<lambda>(r, s1). (r, s1, w)) in
        if a \<in> set [''login'', ''auth'', ''signin'', ''hello''] then upd (upstream_handleLogin now req s)
        else if a = ''logout'' then upd (handleLogout req s)
        else if a = ''echo'' then upd (handleEcho req s)
        else if a = ''time'' then same (handleTime ct now)
        else if a = ''calculate'' then same (handleCalculate req)
        else if a = ''status'' then same (handleStatus ct (ue_order ue) now s)
        else if a = ''user_list'' then same (handleUserList ct s)
        else if a = ''broadcast'' then
          (case handleBroadcastCommand (ue_rpc ue) req s w of (r, w1) \<Rightarrow> (r, s, w1))
        else if a = ''before'' then upd (handleBeforeCommand ct now req s)
        else if a = ''after'' then upd (handleAfterCommand ct now req s)
        else same (handleDefault req))"

text \<open>\<open>unaryInterceptor\<close> counts the request while its handler runs (\<open>int32\<close>).\<close>

definition i32 :: "int \<Rightarrow> int" where
  "i32 x = (x + 2 ^ 31) mod 2 ^ 32 - 2 ^ 31"

definition unaryInterceptor ::
  "(upstream_server \<times> 'w \<Rightarrow> 'r \<times> upstream_server \<times> 'w) \<Rightarrow> upstream_server \<times> 'w \<Rightarrow> 'r \<times> upstream_server \<times> 'w" where
  "unaryInterceptor handler sw =
     (case handler (apfst (\<lambda>s. s\<lparr>usv_activeConnections := i32 (usv_activeConnections s + 1)\<rparr>) sw) of
        (r, sw1) \<Rightarrow> (r, apfst (\<lambda>s. s\<lparr>usv_activeConnections := i32 (usv_activeConnections s - 1)\<rparr>) sw1))"

text \<open>\<open>streamInterceptor\<close>, for a handler of a stream, keeps the same count.\<close>

definition streamInterceptor ::
  "(upstream_server \<times> 'w \<Rightarrow> err option \<times> upstream_server \<times> 'w) \<Rightarrow> upstream_server \<times> 'w \<Rightarrow>
     err option \<times> upstream_server \<times> 'w" where
  "streamInterceptor handler sw =
     (case handler (apfst (\<lambda>s. s\<lparr>usv_activeConnections := i32 (usv_activeConnections s + 1)\<rparr>) sw) of
        (x, sw1) \<Rightarrow> (x, apfst (\<lambda>s. s\<lparr>usv_activeConnections := i32 (usv_activeConnections s - 1)\<rparr>) sw1))"

record status_response =
  sp_Status :: string
  sp_Uptime :: int
  sp_ActiveConnections :: int
  sp_Metadata :: headers

definition GetStatus :: "clock_text \<Rightarrow> time \<Rightarrow> upstream_server \<Rightarrow> status_response" where
  "GetStatus ct now s =
     \<lparr>sp_Status = ''healthy'', sp_Uptime = go_div (now - usv_startTime s) Second,
      sp_ActiveConnections = usv_activeConnections s,
      sp_Metadata = [(''version'', ''1.0.0''), (''go_version'', ''1.21''),
        (''build_time'', ct_format ct ''2006-01-02T15:04:05Z07:00'' (usv_startTime s))]\<rparr>"

definition SendBroadcast ::
  "'w gateway_rpc \<Rightarrow> string \<Rightarrow> bytes \<Rightarrow> upstream_server \<Rightarrow> 'w \<Rightarrow> bool \<times> 'w" where
  "SendBroadcast rpc message data s w =
     (case upstream_sendBroadcastMessage rpc message data s w of (n, w1) \<Rightarrow> (0 < n, w1))"

record broadcast_stats =
  bs_status :: string
  bs_online_users :: int
  bs_user_list :: "string list"
  bs_uptime :: string

definition GetBroadcastStats :: "clock_text \<Rightarrow> time \<Rightarrow> upstream_server \<Rightarrow> broadcast_stats" where
  "GetBroadcastStats ct now s =
     \<lparr>bs_status = ''active'', bs_online_users = int (length (usv_loggedInUsers s)),
      bs_user_list = map (\<lambda>(openid, u). openid @ (''('' @ utf8 [0x767B, 0x5F55, 0x65F6, 0x95F4] @ '':'') @ ct_format ct ''15:04:05'' (us_LoginTime u) @ '')'')
        (usv_loggedInUsers s),
      bs_uptime = ct_duration ct (now - usv_startTime s)\<rparr>"

definition GetLoggedInUsers :: "upstream_server \<Rightarrow> user_session list" where
  "GetLoggedInUsers s = map snd (usv_loggedInUsers s)"

definition UpdateUserActivity :: "time \<Rightarrow> string \<Rightarrow> upstream_server \<Rightarrow> upstream_server" where
  "UpdateUserActivity now openid s =
     (case gm_get (usv_loggedInUsers s) openid of
        None \<Rightarrow> s
      | Some u \<Rightarrow> s\<lparr>usv_loggedInUsers := gm_put openid (u\<lparr>us_LastActive := now\<rparr>) (usv_loggedInUsers s)\<rparr>)"

end
