(* ===== verification/Upstream_Props.thy ===== *)
theory Upstream_Props
  imports Upstream_Server
begin

text \<open>
  Properties of the upstream server: the calculator, the list of users, and the server together with the
  gateway that calls it and that it calls.
\<close>

section \<open>The calculator\<close>

lemma go_spaces_hd:
  "sp \<in> set go_spaces \<Longrightarrow> (of_char (hd sp) :: nat) \<in> {9, 11, 12, 13, 32} \<or> 57 < (of_char (hd sp) :: nat)"
  by (auto simp: go_spaces_def utf8_def utf8_char_def)

lemma skip_no_space:
  assumes "is_digit c \<or> c = CHR ''-'' \<or> c = CHR ''+''"
  shows "skip_space (c # s) = Some (c # s)"
proof -
  have "take (length sp) (c # s) \<noteq> sp" if "sp \<in> set go_spaces" for sp
    using go_spaces_nonempty [OF that] go_spaces_hd [OF that] assms by (cases sp) (auto simp: is_digit_def)
  then have "find (\<lambda>sp. take (length sp) (c # s) = sp) go_spaces = None" by (auto simp: find_None_iff)
  moreover have "c \<noteq> CHR 0x0A" using assms by (auto simp: is_digit_def)
  ultimately show ?thesis by (subst skip_space.simps) simp
qed

text \<open>A number is read back from its decimal text, whatever follows that is not a digit.\<close>

lemma scan_show:
  assumes "in_i64 a" "s = [] \<or> \<not> is_digit (hd s)"
  shows "scan_int (show_int a @ s) = Some a"
proof (cases "a < 0")
  case True
  then show ?thesis
    using assms by (simp add: scan_int_def show_int_def skip_no_space takeWhile_show_nat)
next
  case False
  obtain c cs where c: "show_nat (nat a) = c # cs" "is_digit c" using show_nat_first by blast
  have "c \<noteq> CHR ''-''" "c \<noteq> CHR ''+''" using c(2) by (auto simp: is_digit_def)
  moreover have "skip_space (show_nat (nat a) @ s) = Some (show_nat (nat a) @ s)" using c by (simp add: skip_no_space)
  moreover have "take 1 (show_nat (nat a) @ s) = [c]" using c(1) by simp
  ultimately show ?thesis
    using False assms takeWhile_show_nat [OF assms(2), of "nat a"] by (simp add: scan_int_def show_int_def)
qed

definition calc_result :: "string \<Rightarrow> int \<Rightarrow> int \<Rightarrow> int \<Rightarrow> bool" where
  "calc_result operation a b r \<longleftrightarrow> in_i64 r \<and>
     (operation = ''add'' \<and> (r - (a + b)) mod 2 ^ 64 = 0 \<or>
      operation = ''subtract'' \<and> (r - (a - b)) mod 2 ^ 64 = 0 \<or>
      operation = ''multiply'' \<and> (r - a * b) mod 2 ^ 64 = 0 \<or>
      operation = ''divide'' \<and> (if a = - (2 ^ 63) \<and> b = - 1 then r = a
        else \<exists>m. a = b * r + m \<and> \<bar>m\<bar> < \<bar>b\<bar> \<and> (m = 0 \<or> (m < 0) = (a < 0))))"

lemma i64_cong: "(i64 x - x) mod 2 ^ 64 = 0"
proof -
  have "i64 x - x = 2 ^ 64 * - ((x + 2 ^ 63) div 2 ^ 64)"
    by (simp add: i64_def minus_mult_div_eq_mod [symmetric])
  then show ?thesis by simp
qed

lemma go_div_spec:
  assumes "b \<noteq> 0"
  shows "\<exists>m. a = b * go_div a b + m \<and> \<bar>m\<bar> < \<bar>b\<bar> \<and> (m = 0 \<or> (m < 0) = (a < 0))"
proof -
  define q m where "q = \<bar>a\<bar> div \<bar>b\<bar>" and "m = \<bar>a\<bar> mod \<bar>b\<bar>"
  have d: "\<bar>a\<bar> = \<bar>b\<bar> * q + m" by (simp add: q_def m_def)
  have m: "0 \<le> m" "m < \<bar>b\<bar>" using assms by (simp_all add: m_def)
  have "go_div a b = (if (a < 0) = (b < 0) then q else - q)" by (simp add: go_div_def q_def)
  then have "a = b * go_div a b + (if a < 0 then - m else m)"
    using d by (auto simp: abs_if split: if_splits)
  then show ?thesis using m by (intro exI [of _ "if a < 0 then - m else m"]) auto
qed

lemma go_div_range:
  assumes "in_i64 a" "in_i64 b" "b \<noteq> 0" "\<not> (a = - (2 ^ 63) \<and> b = - 1)"
  shows "in_i64 (go_div a b)"
proof -
  define q where "q = \<bar>a\<bar> div \<bar>b\<bar>"
  have "q * \<bar>b\<bar> + \<bar>a\<bar> mod \<bar>b\<bar> = \<bar>a\<bar>" by (simp add: q_def)
  moreover have "0 \<le> \<bar>a\<bar> mod \<bar>b\<bar>" using assms(3) by simp
  moreover have "0 \<le> q" using assms(3) by (simp add: q_def pos_imp_zdiv_nonneg_iff)
  ultimately have q: "0 \<le> q" "q * \<bar>b\<bar> \<le> \<bar>a\<bar>" by linarith+
  have a: "\<bar>a\<bar> \<le> 2 ^ 63" using assms(1) by (auto simp: in_i64_def)
  have le: "q * 1 \<le> q * \<bar>b\<bar>" using q(1) assms(3) by (intro mult_left_mono) auto
  have "q < 2 ^ 63" if "(a < 0) = (b < 0)"
  proof (rule ccontr)
    assume "\<not> q < 2 ^ 63"
    then have e: "q = 2 ^ 63" "\<bar>a\<bar> = 2 ^ 63" using q(2) a le by linarith+
    have "2 ^ 63 * \<bar>b\<bar> \<le> 2 ^ 63 * 1" using q(2) unfolding e by simp
    then have "\<bar>b\<bar> \<le> 1" by (simp only: mult_le_cancel_left_pos zero_less_power zero_less_numeral)
    then have "b = 1 \<or> b = - 1" using assms(3) by linarith
    moreover have "a = - (2 ^ 63)" using e(2) assms(1) unfolding in_i64_def by linarith
    ultimately show False using that assms(4) by auto
  qed
  then show ?thesis using q a le by (auto simp: go_div_def q_def [symmetric] in_i64_def)
qed

lemma calculate_result:
  assumes "in_i64 a" "in_i64 b" "operation \<in> {''add'', ''subtract'', ''multiply'', ''divide''}"
    "\<not> (operation = ''divide'' \<and> b = 0)" "calculate operation a b = Some (r, sign)"
  shows "calc_result operation a b r"
proof (cases "operation = ''divide''")
  case True
  then have r: "r = i64 (go_div a b)" "b \<noteq> 0" using assms(4,5) by (simp_all add: calculate_def)
  show ?thesis
  proof (cases "a = - (2 ^ 63) \<and> b = - 1")
    case min: True
    then have "go_div a b = 2 ^ 63" by (simp add: go_div_def)
    then have "r = - (2 ^ 63)" using r(1) by (simp add: i64_def)
    then show ?thesis using min True by (simp add: calc_result_def in_i64_def)
  next
    case False
    then have "r = go_div a b" "in_i64 r" using r i64_id go_div_range [OF assms(1,2)] by metis+
    moreover from this have "\<exists>m. a = b * r + m \<and> \<bar>m\<bar> < \<bar>b\<bar> \<and> (m = 0 \<or> (m < 0) = (a < 0))"
      using go_div_spec [OF r(2), of a] by simp
    ultimately show ?thesis using True by (simp only: calc_result_def False if_False simp_thms)
  qed
next
  case False
  then consider "operation = ''add''" "r = i64 (a + b)" | "operation = ''subtract''" "r = i64 (a - b)"
    | "operation = ''multiply''" "r = i64 (a * b)"
    using assms(3,5) by (auto simp: calculate_def)
  then show ?thesis
    using i64_cong i64_in by cases (simp_all only: calc_result_def simp_thms)
qed

text \<open>C26. The calculator reads its numbers from decimal text, ignoring anything after the digits, and answers with
  the sum, difference or product modulo 2 ^ 64 in two's complement or the quotient rounded towards
  zero, in the text and in the header; dividing by zero is refused. \<close>

theorem calculate_exact:
  assumes "in_i64 a" "in_i64 b" "x = [] \<or> \<not> is_digit (hd x)" "y = [] \<or> \<not> is_digit (hd y)"
    "gm_get (uq_Params req) ''operation'' = Some operation" "operation \<in> {''add'', ''subtract'', ''multiply'', ''divide''}"
    "gm_get (uq_Params req) ''a'' = Some (show_int a @ x)" "gm_get (uq_Params req) ''b'' = Some (show_int b @ y)"
  shows "if operation = ''divide'' \<and> b = 0 then ur_Code (handleCalculate req) = 400
    else \<exists>r sign. calc_result operation a b r \<and> ur_Code (handleCalculate req) = 200 \<and>
      (operation, sign) \<in> {(''add'', ''+''), (''subtract'', ''-''), (''multiply'', ''*''), (''divide'', ''/'')} \<and>
      ur_Data (handleCalculate req) =
        string_bytes (show_int a @ '' '' @ sign @ '' '' @ show_int b @ '' = '' @ show_int r) \<and>
      gm_get (ur_Headers (handleCalculate req)) ''result'' = Some (show_int r)"
proof -
  have ne: "show_int n \<noteq> []" for n by (simp add: show_int_def)
  have in_ab: "scan_int (show_int a @ x) = Some a" "scan_int (show_int b @ y) = Some b"
    by (intro scan_show assms)+
  show ?thesis
  proof (cases "operation = ''divide'' \<and> b = 0")
    case True
    moreover have "scan_int (show_int 0 @ y) = Some 0" using in_ab(2) True by simp
    ultimately show ?thesis using assms(5,7,8) by (auto simp: handleCalculate_def gm_getd_def ne in_ab(1) reply_def)
  next
    case False
    obtain r sign where c: "calculate operation a b = Some (r, sign)" using assms(6) by (auto simp: calculate_def)
    have "calc_result operation a b r" by (rule calculate_result [OF assms(1,2,6) False c])
    moreover have "(operation, sign) \<in> {(''add'', ''+''), (''subtract'', ''-''), (''multiply'', ''*''), (''divide'', ''/'')}"
      using c assms(6) by (auto simp: calculate_def split: if_splits)
    moreover have "handleCalculate req = reply 200 (utf8 [0x8BA1, 0x7B97, 0x6210, 0x529F])
        (show_int a @ '' '' @ sign @ '' '' @ show_int b @ '' = '' @ show_int r)
        [(''content-type'', ''text/plain''), (''operation'', operation), (''result'', show_int r)]"
      using False c assms(5-8) by (auto simp: handleCalculate_def gm_getd_def ne in_ab)
    ultimately show ?thesis using False by (auto simp: reply_def)
  qed
qed

section \<open>The users\<close>

text \<open>Who is logged in, as a table that logins and logouts change.\<close>

type_synonym online = "string \<Rightarrow> user_session option"

definition online_step :: "time \<times> upstream_request \<Rightarrow> online \<Rightarrow> online" where
  "online_step x f =
     (case x of (now, req) \<Rightarrow>
        if uq_Openid req = [] then f
        else if uq_Action req \<in> {''login'', ''auth'', ''signin'', ''hello''} then
          f(uq_Openid req \<mapsto> \<lparr>us_OpenID = uq_Openid req, us_SessionID = uq_SessionId req, us_LoginTime = now, us_LastActive = now\<rparr>)
        else if uq_Action req = ''logout'' then f(uq_Openid req := None)
        else f)"

definition serve :: "'w upstream_env \<Rightarrow> (time \<times> upstream_request) list \<Rightarrow> upstream_server \<times> 'w \<Rightarrow> upstream_server \<times> 'w" where
  "serve ue xs sw = fold (\<lambda>(now, req) sw. snd (ProcessRequest ue now req sw)) xs sw"

lemma users_kept [simp]:
  "usv_loggedInUsers (snd (handleEcho req s)) = usv_loggedInUsers s"
  "usv_loggedInUsers (snd (handleBeforeCommand ct now req s)) = usv_loggedInUsers s"
  "usv_loggedInUsers (snd (handleAfterCommand ct now req s)) = usv_loggedInUsers s"
  by (simp_all add: handleEcho_def handleBeforeCommand_def handleAfterCommand_def add_notify_def Let_def)

definition users_step :: "time \<Rightarrow> upstream_request \<Rightarrow> (string \<times> user_session) list \<Rightarrow> (string \<times> user_session) list" where
  "users_step now req us =
     (if uq_Openid req = [] then us
      else if uq_Action req \<in> {''login'', ''auth'', ''signin'', ''hello''} then
        gm_put (uq_Openid req)
          \<lparr>us_OpenID = uq_Openid req, us_SessionID = uq_SessionId req, us_LoginTime = now, us_LastActive = now\<rparr> us
      else if uq_Action req = ''logout'' then gm_del (uq_Openid req) us
      else us)"

lemma process_users:
  "usv_loggedInUsers (fst (snd (ProcessRequest ue now req (s, w)))) = users_step now req (usv_loggedInUsers s)"
  by (simp add: ProcessRequest_def users_step_def upstream_handleLogin_def handleLogout_def Let_def case_prod_beta)

lemma users_step_table:
  "gm_ok us \<Longrightarrow> gm_ok (users_step now req us) \<and> gm_get (users_step now req us) = online_step (now, req) (gm_get us)"
  by (auto simp: users_step_def online_step_def fun_eq_iff)

lemma serve_table:
  "gm_ok (usv_loggedInUsers (fst sw)) \<Longrightarrow> gm_ok (usv_loggedInUsers (fst (serve ue xs sw))) \<and>
     gm_get (usv_loggedInUsers (fst (serve ue xs sw))) = fold online_step xs (gm_get (usv_loggedInUsers (fst sw)))"
proof (induction xs arbitrary: sw)
  case (Cons x xs)
  obtain now req where x: "x = (now, req)" by (metis surj_pair)
  obtain s w where sw: "sw = (s, w)" by (metis surj_pair)
  have "serve ue (x # xs) sw = serve ue xs (snd (ProcessRequest ue now req sw))" by (simp add: serve_def x)
  moreover have "gm_ok (usv_loggedInUsers (fst (snd (ProcessRequest ue now req sw)))) \<and>
      gm_get (usv_loggedInUsers (fst (snd (ProcessRequest ue now req sw)))) = online_step (now, req) (gm_get (usv_loggedInUsers s))"
    using users_step_table Cons.prems by (simp add: sw process_users)
  ultimately show ?case using Cons.IH [of "snd (ProcessRequest ue now req sw)"] by (simp add: x sw)
qed (simp add: serve_def)

lemma gm_length: "gm_ok m \<Longrightarrow> length m = card (dom (gm_get m))"
  using distinct_card [of "map fst m"] by (simp add: gm_ok_def dom_map_of_conv_image_fst)

text \<open>C24. Whatever requests a new upstream server has handled, its users are those whose last login or logout was a
  login, each with the session and the time of that login, and the number of users it reports is the
  number of such users. \<close>

theorem users_refine:
  "let s = fst (serve ue xs (upstream_NewServer t0 getenv addr, w)); users = fold online_step xs (\<lambda>_. None) in
   gm_get (usv_loggedInUsers s) = users \<and>
   gm_get (ur_Headers (handleUserList ct s)) ''user_count'' = Some (show_int (int (card (dom users))))"
proof -
  let ?s = "fst (serve ue xs (upstream_NewServer t0 getenv addr, w))"
  have new: "usv_loggedInUsers (upstream_NewServer t0 getenv addr) = []" by (simp add: upstream_NewServer_def Let_def)
  have r: "gm_ok (usv_loggedInUsers ?s)" "gm_get (usv_loggedInUsers ?s) = fold online_step xs (\<lambda>_. None)"
    using serve_table [of "(upstream_NewServer t0 getenv addr, w)" ue xs] by (simp_all add: new)
  then show ?thesis using gm_length [OF r(1)] by (simp add: handleUserList_def reply_def count_text_def Let_def)
qed

section \<open>Three servers behind the gateway\<close>

text \<open>
  The gateway sends each action to one of three services (\<open>determineUpstreamService\<close>), each a server of its
  own with its own users.
\<close>

type_synonym cluster = "service_type \<Rightarrow> upstream_server"

definition routed :: "upstream_request \<Rightarrow> service_type" where
  "routed req = determineUpstreamService \<lparr>bq_Action = uq_Action req, bq_Params = uq_Params req, bq_Data = uq_Data req\<rparr>"

definition cluster_call ::
  "'w upstream_env \<Rightarrow> time \<Rightarrow> upstream_request \<Rightarrow> cluster \<times> 'w \<Rightarrow> upstream_response \<times> cluster \<times> 'w" where
  "cluster_call ue now req cw =
     (case cw of (cl, w) \<Rightarrow>
        case ProcessRequest ue now req (cl (routed req), w) of (r, s, w1) \<Rightarrow> (r, cl(routed req := s), w1))"

definition cluster_serve :: "'w upstream_env \<Rightarrow> (time \<times> upstream_request) list \<Rightarrow> cluster \<times> 'w \<Rightarrow> cluster \<times> 'w" where
  "cluster_serve ue xs cw = fold (\<lambda>(now, req) cw. snd (cluster_call ue now req cw)) xs cw"

lemma routed_session_actions: "uq_Action req \<in> {''hello'', ''logout''} \<Longrightarrow> routed req = ServiceTypeHello"
  by (auto simp: routed_def determineUpstreamService_def isHelloAction_def ToLower_def lower_char_def Let_def)

lemma routed_broadcast: "uq_Action req = ''broadcast'' \<Longrightarrow> routed req = ServiceTypeBusiness"
  by (simp add: routed_def determineUpstreamService_def isHelloAction_def isZoneAction_def ToLower_def lower_char_def Let_def)

lemma business_users_kept:
  assumes "uq_Action req \<notin> {''login'', ''auth'', ''signin''}"
  shows "usv_loggedInUsers (fst (snd (cluster_call ue now req (cl, w))) ServiceTypeBusiness) =
    usv_loggedInUsers (cl ServiceTypeBusiness) \<or> usv_loggedInUsers (cl ServiceTypeBusiness) \<noteq> []"
proof (cases "routed req = ServiceTypeBusiness")
  case True
  then have "uq_Action req \<notin> {''hello'', ''logout''}"
    using routed_session_actions [of req] by (auto simp: ServiceTypeHello_def ServiceTypeBusiness_def)
  moreover have "fst (snd (cluster_call ue now req (cl, w))) ServiceTypeBusiness =
      fst (snd (ProcessRequest ue now req (cl ServiceTypeBusiness, w)))"
    using True by (simp add: cluster_call_def split: prod.split)
  ultimately show ?thesis using assms by (simp add: process_users users_step_def)
qed (simp add: cluster_call_def split: prod.split)

lemma business_users_empty:
  assumes "\<And>now req. (now, req) \<in> set xs \<Longrightarrow> uq_Action req \<notin> {''login'', ''auth'', ''signin''}"
    "usv_loggedInUsers (fst cw ServiceTypeBusiness) = []"
  shows "usv_loggedInUsers (fst (cluster_serve ue xs cw) ServiceTypeBusiness) = []"
  using assms
proof (induction xs arbitrary: cw)
  case (Cons x xs)
  obtain now req where x: "x = (now, req)" by (metis surj_pair)
  obtain cl w where cw: "cw = (cl, w)" by (metis surj_pair)
  have "usv_loggedInUsers (fst (snd (cluster_call ue now req cw)) ServiceTypeBusiness) = []"
    using business_users_kept [of req ue now cl w] Cons.prems by (auto simp: x cw)
  then have "usv_loggedInUsers (fst (cluster_serve ue xs (snd (cluster_call ue now req cw))) ServiceTypeBusiness) = []"
    using Cons.IH [of "snd (cluster_call ue now req cw)"] Cons.prems(1) by fastforce
  then show ?case by (simp add: cluster_serve_def x)
qed (simp add: cluster_serve_def)

text \<open>C39. With a server per service, and as long as the business server starts without users and no client uses
  the actions login, auth or signin, the broadcast command reaches nobody: logins by hello go to the server
  of the hello service, the command to that of the business service, which knows no users; it reports zero
  users, and the gateway is not even asked. \<close>

theorem broadcast_reaches_nobody:
  assumes "\<And>now req. (now, req) \<in> set xs \<Longrightarrow> uq_Action req \<notin> {''login'', ''auth'', ''signin''}"
    "usv_loggedInUsers (cl ServiceTypeBusiness) = []" "cluster_serve ue xs (cl, w) = (cl1, w1)"
    "uq_Action req = ''broadcast''" "cluster_call ue now req (cl1, w1) = (r, cl2, w2)"
  shows "gm_get (ur_Headers r) ''user_count'' = Some ''0'' \<and> w2 = w1"
proof -
  have "usv_loggedInUsers (cl1 ServiceTypeBusiness) = []"
    using business_users_empty [where xs = xs and cw = "(cl, w)" and ue = ue] assms(1,2,3) by simp
  moreover have "show_int 0 = ''0''" by code_simp
  ultimately show ?thesis
    using assms(4,5) routed_broadcast [OF assms(4)]
    by (auto simp: cluster_call_def ProcessRequest_def handleBroadcastCommand_def upstream_sendBroadcastMessage_def reply_def Let_def)
qed

section \<open>Examples\<close>

definition demo_text :: clock_text where
  "demo_text = \<lparr>ct_format = (\<lambda>_ _. ''12:00''), ct_location = ''UTC'', ct_duration = (\<lambda>_. ''1s'')\<rparr>"

definition demo_env :: "nat upstream_env" where
  "demo_env = \<lparr>ue_rpc = \<lparr>rpc_push = (\<lambda>_ n. (Inl ErrEOF, n + 1)), rpc_broadcast = (\<lambda>_ n. (Inl ErrEOF, n + 1))\<rparr>,
     ue_text = demo_text, ue_order = (\<lambda>xs. xs)\<rparr>"

definition demo_request :: "string \<Rightarrow> string \<Rightarrow> headers \<Rightarrow> upstream_request" where
  "demo_request openid action params = \<lparr>uq_SessionId = ''s1'', uq_Openid = openid, uq_Action = action, uq_Params = params,
     uq_Data = [], uq_Headers = [], uq_ClientSeqId = 1\<rparr>"

definition demo_server :: upstream_server where
  "demo_server = upstream_NewServer 0 (\<lambda>_. []) '':9000''"

theorem calculate_exact_witness:
  "ur_Code (handleCalculate (demo_request ''ann'' ''calculate'' [(''operation'', ''multiply''), (''a'', ''-7''), (''b'', ''6 apples'')])) = 200"
proof -
  have s: "show_int (- 7) = ''-7''" "show_int 6 = ''6''" by code_simp+
  show ?thesis
    using calculate_exact [of "- 7" 6 "[]" "'' apples''" "demo_request ''ann'' ''calculate'' [(''operation'', ''multiply''), (''a'', ''-7''), (''b'', ''6 apples'')]"
      "''multiply''"]
    by (auto simp: demo_request_def in_i64_def s is_digit_def)
qed

theorem broadcast_reaches_nobody_witness:
  "gm_get (ur_Headers (fst (cluster_call demo_env 2 (demo_request ''ann'' ''broadcast'' [])
      (cluster_serve demo_env [(1, demo_request ''ann'' ''hello'' [])] (\<lambda>_. demo_server, 0))))) ''user_count'' = Some ''0''"
proof -
  let ?xs = "[(1, demo_request ''ann'' ''hello'' [])]"
  obtain cl1 w1 where s: "cluster_serve demo_env ?xs (\<lambda>_. demo_server, 0) = (cl1, w1)" by (metis surj_pair)
  obtain r cl2 w2 where c: "cluster_call demo_env 2 (demo_request ''ann'' ''broadcast'' []) (cl1, w1) = (r, cl2, w2)"
    by (metis surj_pair)
  show ?thesis
    using broadcast_reaches_nobody [OF _ _ s _ c] unfolding s c
    by (simp add: demo_server_def upstream_NewServer_def demo_request_def Let_def)
qed

end
