(* ===== verification/Gateway_Upstream.thy ===== *)
theory Gateway_Upstream
  imports Gateway_Order Upstream_Props
begin

text \<open>
  The gateway and the upstream server of the repository together, as each other's other side: what a login
  does to both, and what becomes of the pushes that the upstream server offers.
\<close>

section \<open>What sending leaves alone\<close>

definition standing :: "'x session \<Rightarrow> string \<times> string \<times> session_state \<times> int" where
  "standing s = (s_ID s, s_OpenID s, s_state s, s_zone s)"

lemma send_standing: "standing (fst (snd (SendOrderedMessage e now push s ms))) = standing s"
  by (auto simp: SendOrderedMessage_def session_Enqueue_def NewServerSeq_def standing_def put_link_def Let_def
      split: sum.split option.split prod.split)

lemma senders_standing [simp]:
  "standing (fst (snd (SendBusinessResponse e now i c msg d hs s ms))) = standing s"
  "standing (fst (snd (SendErrorResponse e now i c msg dt s ms))) = standing s"
  "standing (fst (snd (PushBusinessData e now d s ms))) = standing s"
  by (simp_all add: SendBusinessResponse_def SendErrorResponse_def PushBusinessData_def send_standing)

lemma on_sess_standing:
  assumes "\<And>s ms. standing (fst (snd (f s ms))) = standing s"
  shows "standing (sess_of i (snd (on_sess r f sv))) = standing (sess_of i sv)"
  using assms [of "sess_of r sv" "sv_metrics sv"] by (auto simp: on_sess_def sess_of_def sess_at_upd split: prod.split)

lemma take_standing: "standing (sess_of i (snd (take_notifies get r sv))) = standing (sess_of i sv)"
  by (auto simp: take_notifies_def sess_of_def sess_at_upd standing_def split: option.split prod.split)

lemma items_standing: "standing (sess_of i (snd (push_items ev now r ns sv))) = standing (sess_of i sv)"
proof (induction ns arbitrary: sv)
  case (Cons n ns)
  have "standing (sess_of i (snd (on_sess r (PushBusinessData (ev_ext ev) now (NotifyData n)) sv))) = standing (sess_of i sv)"
    by (rule on_sess_standing) simp
  then show ?case using Cons by (auto split: prod.split option.split)
qed simp

lemma bound_standing: "standing (sess_of i (snd (processBoundNotifies ev now r g sv))) = standing (sess_of i sv)"
proof -
  have b: "standing (sess_of i (snd (server_sendBeforeNotifies ev now r g sv))) = standing (sess_of i sv)" for sv
    using take_standing [of i "GetAndRemoveBeforeNotifies g" r sv]
    by (auto simp: server_sendBeforeNotifies_def items_standing split: prod.split)
  have a: "standing (sess_of i (snd (server_sendAfterNotifies ev now r g sv))) = standing (sess_of i sv)" for sv
    using take_standing [of i "GetAndRemoveAfterNotifies g" r sv]
    by (auto simp: server_sendAfterNotifies_def items_standing split: prod.split)
  show ?thesis
    using b [of sv] a [of "snd (server_sendBeforeNotifies ev now r g sv)"]
    by (auto simp: processBoundNotifies_def split: prod.split option.split)
qed

text \<open>The answer of a login, once the upstream service has replied, leaves the standing its activation gave.\<close>

lemma sync_standing:
  assumes "callUpstreamService ev ty ureq sv = (Inr resp, sv1)"
    "(if isLogin \<and> ur_Code resp = 200 then handleLoginSuccess r resp sv1 else (None, sv1)) = (x, sv2)"
  shows "standing (sess_of i (snd (handleBusinessRequestSync ev now r req ty ureq isLogin sv))) = standing (sess_of i sv2)"
proof (cases x)
  case (Some y)
  then show ?thesis
    using assms on_sess_standing [of "SendErrorResponse (ev_ext ev) now (cr_MsgId req) 500 TLoginFailed (ErrText y)" i r sv2]
    by (simp add: handleBusinessRequestSync_def sendErrorResponse_def)
next
  case None
  let ?f = "SendBusinessResponse (ev_ext ev) now (cr_MsgId req) (ur_Code resp) (ur_Message resp) (ur_Data resp) (ur_Headers resp)"
  have "standing (sess_of i (snd (on_sess r ?f sv2))) = standing (sess_of i sv2)" by (rule on_sess_standing) simp
  then show ?thesis
    using assms None by (auto simp: handleBusinessRequestSync_def bound_standing split: prod.split option.split)
qed

section \<open>A login on both sides\<close>

text \<open>What the upstream server answers to what the gateway takes for a login.\<close>

lemma login_reply:
  assumes "ToLower (uq_Action req) = ''hello''" "ProcessRequest ue t req (us, w) = (resp, us', w')"
  shows "if uq_Action req = ''hello'' \<and> uq_Openid req \<noteq> [] then ur_Code resp = 200 \<and> gm_get (ur_Headers resp) ''zone'' = Some ''1''
    else ur_Code resp = (if uq_Action req = ''hello'' then 400 else 404) \<and> us' = us"
proof (cases "uq_Action req = ''hello''")
  case True
  then show ?thesis using assms(2) by (auto simp: ProcessRequest_def upstream_handleLogin_def reply_def Let_def)
next
  case False
  have "uq_Action req \<notin> set [''login'', ''auth'', ''signin'', ''logout'', ''echo'', ''time'', ''calculate'', ''status'',
      ''user_list'', ''broadcast'', ''before'', ''after'']"
    using assms(1) by (auto simp: ToLower_def lower_char_def)
  then show ?thesis using False assms(2) by (auto simp: ProcessRequest_def handleDefault_def reply_def Let_def)
qed

text \<open>The login at the gateway, given the answer of the upstream service.\<close>

lemma login_sync:
  assumes "callUpstreamService ev ty req sv = (Inr resp, sv1)"
    "mgr_inv (sv_mgr sv1)" "GetSession (s_ID (sess_of r sv1)) (sv_mgr sv1) = Some r" "IsInited (sess_of r sv1)"
    "handleBusinessRequestSync ev now r creq ty req True sv = (ok, sv')"
  shows "ur_Code resp = 200 \<and> gm_get (ur_Headers resp) ''zone'' = Some ''1'' \<Longrightarrow>
      IsNormal (sess_of r sv') \<and> Zone (sess_of r sv') = 1 \<and> s_ID (sess_of r sv') = s_ID (sess_of r sv1)"
    and "ur_Code resp \<noteq> 200 \<Longrightarrow> IsInited (sess_of r sv')"
proof -
  let ?s = "(sess_of r sv1)\<lparr>s_state := SessionNormal, s_zone := 1\<rparr>"
  have len: "r < length (m_store (sv_mgr sv1))" using mgr_inv_D(1) [OF assms(2)] assms(3) by (simp add: GetSession_def)
  have "ParseInt ''1'' = Inr 1" by code_simp
  moreover have "m_ActivateSession (s_ID (sess_of r sv1)) 1 (sv_mgr sv1) = (None, upd_sess r (\<lambda>_. ?s) (sv_mgr sv1))"
    using assms(3,4) by (simp add: m_ActivateSession_def session_ActivateSession_def IsInited_def State_def sess_of_def)
  moreover assume code: "ur_Code resp = 200 \<and> gm_get (ur_Headers resp) ''zone'' = Some ''1''"
  ultimately have "handleLoginSuccess r resp sv1 = (None, sv1\<lparr>sv_mgr := upd_sess r (\<lambda>_. ?s) (sv_mgr sv1)\<rparr>)"
    by (simp add: handleLoginSuccess_def)
  then have "standing (sess_of r sv') = standing ?s"
    using sync_standing [OF assms(1), of True r _ _ r now creq] code assms(5) len
    by (simp add: sess_of_def sess_at_upd)
  then show "IsNormal (sess_of r sv') \<and> Zone (sess_of r sv') = 1 \<and> s_ID (sess_of r sv') = s_ID (sess_of r sv1)"
    by (simp add: standing_def IsNormal_def State_def Zone_def)
next
  assume "ur_Code resp \<noteq> 200"
  then have "standing (sess_of r sv') = standing (sess_of r sv1)"
    using sync_standing [OF assms(1), of True r None sv1 r now creq] assms(5) by simp
  then show "IsInited (sess_of r sv')" using assms(4) by (simp add: IsInited_def State_def standing_def)
qed

lemma validate_standing: "standing (sess_at i (snd (ValidateClientSequence sid n m))) = standing (sess_at i m)"
  by (auto simp: ValidateClientSequence_def ValidateClientSeq_def sess_at_upd standing_def Let_def split: option.split prod.split)

text \<open>A request that the gateway takes for a login, up to the upstream call.\<close>

lemma login_forwarded:
  assumes "IsInited (sess_of r sv)" "ValidateClientSequence (s_ID (sess_of r sv)) (cr_SeqId creq) (sv_mgr sv) = (True, m)"
    "UnmarshalBusinessRequest (pb (ev_ext ev)) (cr_Payload creq) = Inr breq" "ToLower (bq_Action breq) = ''hello''"
    "fst (AllowUpstreamRequest (sv_protector sv) (sv_metrics sv))" "handleBusinessRequest ev now r creq sv = (ok, sv')"
  shows "\<exists>p ms sv2. handleBusinessRequestSync ev now r creq ''hello'' (upstream_req (sess_of r sv) creq breq) True
      (sv\<lparr>sv_mgr := m, sv_protector := p, sv_metrics := ms\<rparr>) = (ok, sv2) \<and> sv_mgr sv' = sv_mgr sv2"
proof -
  have st: "standing (sess_at r m) = standing (sess_of r sv)"
    using validate_standing [of r "s_ID (sess_of r sv)" "cr_SeqId creq" "sv_mgr sv"] assms(2) by (simp add: sess_of_def)
  have can: "CanProcessLoginRequest (sess_at r m)"
    using st assms(1) by (simp add: standing_def CanProcessLoginRequest_def IsInited_def State_def)
  obtain p ms where a: "AllowUpstreamRequest (sv_protector sv) (sv_metrics sv) = (True, p, ms)"
    using assms(5) by (metis prod.collapse)
  obtain p2 ms2 where s: "OnUpstreamStart p ms = (p2, ms2)" by (metis surj_pair)
  have u: "upstream_req (sess_at r m) creq breq = upstream_req (sess_of r sv) creq breq"
    using st by (simp add: upstream_req_def standing_def)
  have at: "sess_of r (sv\<lparr>sv_mgr := m\<rparr>) = sess_at r m" "sess_of r (sv\<lparr>sv_mgr := m, sv_protector := p', sv_metrics := ms'\<rparr>) = sess_at r m"
    for p' ms' by (simp_all add: sess_of_def)
  have t: "determineUpstreamService breq = ''hello''"
    using assms(4) by (simp add: determineUpstreamService_def isHelloAction_def ServiceTypeHello_def)
  have "handleBusinessRequest ev now r creq sv =
      (case handleBusinessRequestSync ev now r creq ''hello'' (upstream_req (sess_of r sv) creq breq) True
        (sv\<lparr>sv_mgr := m, sv_protector := p2, sv_metrics := ms2\<rparr>) of (ok, sv2) \<Rightarrow> (ok, server_OnUpstreamEnd sv2))"
    using can by (simp add: handleBusinessRequest_def assms(2-4) a s forward_request_def at u t Let_def)
  moreover have "sv_mgr (server_OnUpstreamEnd sv2) = sv_mgr sv2" for sv2 :: "('a, 'b) Gateway.server"
    by (simp add: server_OnUpstreamEnd_def split: prod.split)
  ultimately show ?thesis using assms(6) by (auto split: prod.splits)
qed

text \<open>C6. A first business request whose action is hello in any spelling is a login to the gateway. It logs the user in
  on both sides exactly if the spelling is hello itself and the session has an OpenID: then the session of the gateway is
  in the normal state with the zone 1 that the upstream server assigns, and the upstream server knows the user under that
  session. Spelt hello without an OpenID it is answered 400 by the upstream server, in another spelling (HELLO, Hello)
  404, and nobody is logged in on either side. The session is stored and in the initial state, its request number is
  the next one and the upstream limit is not reached; the call to the hello service reaches the upstream server, and
  brings its answer back, without another goroutine changing the session meanwhile. \<close>

theorem login_both_sides:
  assumes "mgr_inv (sv_mgr sv)" "GetSession (s_ID (sess_of r sv)) (sv_mgr sv) = Some r" "IsInited (sess_of r sv)"
    "fst (ValidateClientSequence (s_ID (sess_of r sv)) (cr_SeqId creq) (sv_mgr sv))"
    "UnmarshalBusinessRequest (pb (ev_ext ev)) (cr_Payload creq) = Inr breq" "ToLower (bq_Action breq) = ''hello''"
    "fst (AllowUpstreamRequest (sv_protector sv) (sv_metrics sv))"
    "sv_upstream sv = Some sm" "GetClient (ev_dial ev) ''hello'' sm = (Inr c, sm1)"
    "req = upstream_req (sess_of r sv) creq breq" "ProcessRequest ue t req (us, w) = (resp, us', w')"
    "\<And>sv0. ev_invoke ev c req sv0 = (Inr resp, sv0)"
    "handleBusinessRequest ev now r creq sv = (ok, sv')"
  shows "if bq_Action breq = ''hello'' \<and> s_OpenID (sess_of r sv) \<noteq> []
    then ur_Code resp = 200 \<and> IsNormal (sess_of r sv') \<and> Zone (sess_of r sv') = 1 \<and>
      map_option us_SessionID (gm_get (usv_loggedInUsers us') (s_OpenID (sess_of r sv))) = Some (s_ID (sess_of r sv'))
    else ur_Code resp = (if bq_Action breq = ''hello'' then 400 else 404) \<and> IsInited (sess_of r sv') \<and> us' = us"
proof -
  obtain m where v: "ValidateClientSequence (s_ID (sess_of r sv)) (cr_SeqId creq) (sv_mgr sv) = (True, m)"
    using assms(4) by (metis prod.collapse)
  obtain p ms sv2 where sync: "handleBusinessRequestSync ev now r creq ''hello'' req True
      (sv\<lparr>sv_mgr := m, sv_protector := p, sv_metrics := ms\<rparr>) = (ok, sv2)" "sv_mgr sv' = sv_mgr sv2"
    using login_forwarded [OF assms(3) v assms(5-7,13)] unfolding assms(10) by blast
  let ?sv1 = "sv\<lparr>sv_mgr := m, sv_protector := p, sv_metrics := ms, sv_upstream := Some sm1\<rparr>"
  have call: "callUpstreamService ev ''hello'' req (sv\<lparr>sv_mgr := m, sv_protector := p, sv_metrics := ms\<rparr>) = (Inr resp, ?sv1)"
    by (simp add: callUpstreamService_def CallService_def assms(8,9,12))
  have st: "standing (sess_of r ?sv1) = standing (sess_of r sv)"
    using validate_standing [of r "s_ID (sess_of r sv)" "cr_SeqId creq" "sv_mgr sv"] v by (simp add: sess_of_def)
  have m: "mgr_inv m" "GetSession (s_ID (sess_of r sv)) m = Some r"
    using mgr_inv_validate [OF assms(1), of "s_ID (sess_of r sv)" "cr_SeqId creq"] v assms(2)
    by (auto simp: ValidateClientSequence_def GetSession_def split: option.splits prod.splits)
  have pre: "mgr_inv (sv_mgr ?sv1)" "GetSession (s_ID (sess_of r ?sv1)) (sv_mgr ?sv1) = Some r" "IsInited (sess_of r ?sv1)"
    using m st assms(3) by (simp_all add: standing_def IsInited_def State_def)
  note login = login_sync [OF call pre sync(1)]
  have at: "sess_of r sv' = sess_of r sv2" by (simp add: sess_of_def sync(2))
  have q: "uq_Action req = bq_Action breq" "uq_Openid req = s_OpenID (sess_of r sv)" "uq_SessionId req = s_ID (sess_of r sv)"
    by (simp_all add: assms(10) upstream_req_def)
  note reply = login_reply [OF _ assms(11), unfolded q, OF assms(6)]
  have users: "usv_loggedInUsers us' = users_step t req (usv_loggedInUsers us)"
    using process_users [of ue t req us w] assms(11) by simp
  show ?thesis
  proof (cases "bq_Action breq = ''hello'' \<and> s_OpenID (sess_of r sv) \<noteq> []")
    case True
    then have "IsNormal (sess_of r sv2) \<and> Zone (sess_of r sv2) = 1 \<and> s_ID (sess_of r sv2) = s_ID (sess_of r sv)"
      using login(1) reply st by (simp add: standing_def)
    then show ?thesis using True reply by (simp add: at users users_step_def q)
  next
    case False
    then have "ur_Code resp \<noteq> 200" using reply by (auto split: if_splits)
    then have "IsInited (sess_of r sv2)" by (rule login(2))
    then show ?thesis using False reply by (auto simp: at)
  qed
qed

section \<open>The gateway as the other side\<close>

definition gateway_as_rpc :: "('x, 'c) env \<Rightarrow> time \<Rightarrow> ('x, 'c) Gateway.server gateway_rpc" where
  "gateway_as_rpc ev now =
     \<lparr>rpc_push = (\<lambda>req sv. case PushToClient ev now req sv of (r, sv1) \<Rightarrow> (Inr r, sv1)),
      rpc_broadcast = (\<lambda>req sv. case BroadcastToClients ev now req sv of (r, sv1) \<Rightarrow> (Inr r, sv1))\<rparr>"

text \<open>The push that the echo action offers is always refused: it addresses its target by gid, which the
  gateway does not know; nothing changes there. \<close>

theorem echo_push_refused:
  "run_push (gateway_as_rpc ev now) ct t (EchoJob gid message data) c sv =
     (Some (if uc_client c then PushRefused (ErrText (ErrTargetType ''gid'')) ''PUSH_FAILED'' else PushNotConnected), sv)"
  by (simp add: run_push_def client_PushToClient_def push_call_def gateway_as_rpc_def PushToClient_def)

text \<open>C23. The notification of the before action is bound at the gateway to the request it belongs to: if the user
  has a logged-in session and the request a number, the push succeeds and the notification is the last of
  those that the gateway will send before the response to that request; no other session changes. \<close>

theorem before_notify_bound:
  assumes "uc_client c" "GetSessionByOpenID openid (sv_mgr sv) = Some r" "r < length (m_store (sv_mgr sv))"
    "IsNormal (sess_of r sv)" "GetOrderingManager (sess_of r sv) = Some o'" "grid_of seq \<noteq> 0"
    "run_push (gateway_as_rpc ev now) ct t (NotifyJob openid message NSH_BEFORE_RESPONSE seq) c sv = (x, sv')"
  shows "x = None \<and> (\<exists>o1 n. GetOrderingManager (sess_of r sv') = Some o1 \<and> MsgType n = ''before_test'' \<and>
    bound_view (beforeRspNotifies o1) (grid_of seq) = bound_view (beforeRspNotifies o') (grid_of seq) @ [n]) \<and>
    (\<forall>i. i \<noteq> r \<longrightarrow> sess_of i sv' = sess_of i sv)"
proof -
  let ?g = "grid_of seq"
  define req where "req = \<lparr>up_TargetType = ''openid'', up_TargetId = openid, up_MsgType = ''before_test'',
    up_Title = ''Notify Before Response'',
    up_Content = Raw ((utf8 [0x3010] @ ''NOTIFY BEFORE'' @ utf8 [0x3011]) @ message @ ('' - '' @ utf8 [0x65F6, 0x95F4] @ '': '') @
      ct_format ct ''15:04:05.000'' t),
    up_Data = string_bytes ''notify_before_data'', up_Metadata = [], up_SyncHint = NSH_BEFORE_RESPONSE,
    up_BindClientSeqId = seq\<rparr>"
  define n where "n = createNotifyBindMsgItem (pb (ev_ext ev)) now req"
  define o1 where "o1 = o'\<lparr>beforeRspNotifies := bind_at ?g n (beforeRspNotifies o')\<rparr>"
  define s1 where "s1 = (sess_of r sv)\<lparr>s_orderingManager := Some o1\<rparr>"
  have bind: "bind_notify (AddNotifyBindBeforeRsp ?g (Some n)) r sv = (True, sv\<lparr>sv_mgr := upd_sess r (\<lambda>_. s1) (sv_mgr sv)\<rparr>)"
    using assms(5) by (simp add: bind_notify_def AddNotifyBindBeforeRsp_def GetOrderingManager_def om_AddNotifyBindBeforeRsp_def
      o1_def s1_def)
  have fields: "up_TargetType req = ''openid''" "up_TargetId req = openid" "up_SyncHint req = NSH_BEFORE_RESPONSE"
    "up_BindClientSeqId req = seq" "up_MsgType req = ''before_test''" by (simp_all add: req_def)
  have "processNotifyMessage ev now r req sv = (None, sv\<lparr>sv_mgr := upd_sess r (\<lambda>_. s1) (sv_mgr sv)\<rparr>)"
    using assms(6) by (simp add: processNotifyMessage_def fields bind n_def [symmetric] Let_def)
  then have "PushToClient ev now req sv = (\<lparr>ps_Success = True, ps_Message = TPushOK, ps_ErrorCode = []\<rparr>,
      sv\<lparr>sv_mgr := upd_sess r (\<lambda>_. s1) (sv_mgr sv)\<rparr>)"
    using assms(2,4) by (simp add: PushToClient_def handleUnicastToOpenIDWithOrdering_def fields)
  moreover have "run_push (gateway_as_rpc ev now) ct t (NotifyJob openid message NSH_BEFORE_RESPONSE seq) c sv =
      push_call (gateway_as_rpc ev now) c req sv"
    by (simp add: run_push_def PushToOpenIDWithSyncHint_def req_def)
  ultimately have x: "x = None" "sv' = sv\<lparr>sv_mgr := upd_sess r (\<lambda>_. s1) (sv_mgr sv)\<rparr>"
    using assms(1,7) by (simp_all add: push_call_def gateway_as_rpc_def)
  have "MsgType n = ''before_test''" by (simp add: n_def createNotifyBindMsgItem_def fields)
  then show ?thesis using assms(3)
    by (simp add: x sess_of_def sess_at_upd s1_def GetOrderingManager_def o1_def bound_view_def bind_at_def gm_getd_put)
qed

section \<open>Examples\<close>

text \<open>The gateway with the upstream server as its only service; every business request is a login.\<close>

definition linked_env :: "(bytes, nat) env" where
  "linked_env = gw_env\<lparr>ev_ext := gw_ext\<lparr>pb := gw_pb\<lparr>UnmarshalBusinessRequest :=
       (\<lambda>d. Inr \<lparr>bq_Action = ''hello'', bq_Params = [], bq_Data = []\<rparr>)\<rparr>\<rparr>,
     ev_invoke := (\<lambda>c req sv. (Inr (fst (ProcessRequest demo_env 5 req (demo_server, 0))), sv))\<rparr>"

lemma linked_client:
  "\<exists>sm c sm1. sv_upstream gw_fresh = Some sm \<and> GetClient (ev_dial linked_env) ''hello'' sm = (Inr c, sm1)"
proof -
  have "case sv_upstream gw_fresh of None \<Rightarrow> False
    | Some sm \<Rightarrow> (case fst (GetClient (ev_dial linked_env) ''hello'' sm) of Inl _ \<Rightarrow> False | Inr _ \<Rightarrow> True)" by code_simp
  then show ?thesis by (auto split: option.splits sum.splits simp: prod_eq_iff)
qed

lemma fresh_inv: "mgr_inv (sv_mgr gw_fresh)"
proof -
  have "mgr_step gw_ext (NewManager (300 * Second) 10 3) (sv_mgr gw_fresh)"
    using step_create_snd [of "''s1''" "NewManager (300 * Second) 10 3" gw_ext 0 "[]" "''c''" "''ann''" "''ip''"]
    by (simp add: gw_fresh_def gw_server_mgr NewManager_def)
  then show ?thesis using mgr_inv_reach [OF reach_step [OF reach_New] gw_copier] by blast
qed

theorem login_both_sides_witness:
  "IsNormal (sess_of 0 (snd (handleBusinessRequest linked_env 3 0 gw_request gw_fresh)))"
proof -
  let ?breq = "\<lparr>bq_Action = ''hello'', bq_Params = [], bq_Data = []\<rparr>"
  let ?req = "upstream_req (sess_of 0 gw_fresh) gw_request ?breq"
  obtain sm c sm1 where c: "sv_upstream gw_fresh = Some sm" "GetClient (ev_dial linked_env) ''hello'' sm = (Inr c, sm1)"
    using linked_client by blast
  obtain resp us' w' where p: "ProcessRequest demo_env 5 ?req (demo_server, 0) = (resp, us', w')" by (metis surj_pair)
  have inv: "ev_invoke linked_env c ?req sv0 = (Inr resp, sv0)" for sv0 by (simp add: linked_env_def p)
  have f: "GetSession ''s1'' (sv_mgr gw_fresh) = Some 0 \<and> IsInited (sess_of 0 gw_fresh) \<and> s_ID (sess_of 0 gw_fresh) = ''s1'' \<and>
    s_OpenID (sess_of 0 gw_fresh) = ''ann'' \<and> fst (ValidateClientSequence ''s1'' (cr_SeqId gw_request) (sv_mgr gw_fresh)) \<and>
    fst (AllowUpstreamRequest (sv_protector gw_fresh) (sv_metrics gw_fresh))" by code_simp
  have u: "UnmarshalBusinessRequest (pb (ev_ext linked_env)) (cr_Payload gw_request) = Inr ?breq"
    "ToLower (bq_Action ?breq) = ''hello''" by (simp_all add: linked_env_def ToLower_def lower_char_def)
  obtain ok sv' where h: "handleBusinessRequest linked_env 3 0 gw_request gw_fresh = (ok, sv')" by (metis surj_pair)
  show ?thesis
    using login_both_sides [OF fresh_inv _ _ _ u _ c refl p inv h] f unfolding h by simp
qed

theorem before_notify_bound_witness:
  "fst (run_push (gateway_as_rpc gw_env 3) demo_text 3 (NotifyJob ''ann'' ''hi'' NSH_BEFORE_RESPONSE 5)
     \<lparr>uc_client = True, uc_gateAddr = ''g''\<rparr> gw_busy) = None"
proof -
  obtain x sv' where p: "run_push (gateway_as_rpc gw_env 3) demo_text 3 (NotifyJob ''ann'' ''hi'' NSH_BEFORE_RESPONSE 5)
     \<lparr>uc_client = True, uc_gateAddr = ''g''\<rparr> gw_busy = (x, sv')" by (metis surj_pair)
  have "GetSessionByOpenID ''ann'' (sv_mgr gw_busy) = Some 0 \<and> IsNormal (sess_of 0 gw_busy) \<and> 0 < length (m_store (sv_mgr gw_busy))"
    by code_simp
  moreover have "GetOrderingManager (sess_of 0 gw_busy) = Some gw_bound"
    using gw_busy_session by (simp add: sess_of_def sess_at_def GetOrderingManager_def)
  ultimately show ?thesis using before_notify_bound [OF _ _ _ _ _ _ p] unfolding p by (simp add: grid_of_def)
qed

end
