(* ===== verification/Gate_Server.thy ===== *)
theory Gate_Server
  imports Gate_Command Gateway_Upstream
begin

text \<open>
  The whole process: the server with its listeners and its backup manager (\<open>internal/gateway/server.go\<close>,
  \<open>server_start.go\<close>), and \<open>main\<close> of \<open>cmd/gatesvr/main.go\<close> that builds and starts it.

  What the host answers when a listener is opened is the record \<open>listeners\<close>. The HTTP and the metrics
  server listen in goroutines whose failure is only logged. The goroutines that \<open>Start\<close> leaves running are the
  marks \<open>gt_sweeping\<close> (expiry of sessions) and \<open>gt_accepting\<close> (connections); their rounds are the steps of
  \<open>Session_Manager\<close> and \<open>Gateway\<close>.
\<close>

section \<open>State\<close>

record listeners =
  li_cert :: "err option"                  \<comment> \<open>\<open>tls.LoadX509KeyPair\<close>\<close>
  li_quic :: "err option"
  li_grpc :: "err option"
  li_backup :: "string \<Rightarrow> err option"      \<comment> \<open>the listeners of the backup services\<close>

record ('x, 'c, 'n) gate =
  gt_config :: server_config
  gt_server :: "('x, 'c) server"
  gt_backup :: "'n backup_system option"
  gt_quicListener :: bool
  gt_httpServer :: bool
  gt_metricsServer :: bool
  gt_grpcServer :: bool
  gt_sweeping :: bool
  gt_accepting :: bool

section \<open>Construction\<close>

definition gate_NewServer :: "int \<Rightarrow> time \<Rightarrow> server_config \<Rightarrow> ('x, 'c, 'n) gate" where
  "gate_NewServer cpus now c =
     \<lparr>gt_config = c,
      gt_server = NewServer cpus now ((config.truncate c)\<lparr>cfg_Sync := sync_on (cfg_BackupConfig c)\<rparr>),
      gt_backup =
        (case cfg_BackupConfig c of
           None \<Rightarrow> None
         | Some b \<Rightarrow>
             if sc_Enabled (bc_Sync b) then Some (apfst RegisterSessionManager (NewBackupManager now b (cfg_ServerID c)))
             else None),
      gt_quicListener = False, gt_httpServer = False, gt_metricsServer = False, gt_grpcServer = False,
      gt_sweeping = False, gt_accepting = False\<rparr>"

section \<open>Start\<close>

definition startQUICListener :: "listeners \<Rightarrow> ('x, 'c, 'n) gate \<Rightarrow> err option \<times> ('x, 'c, 'n) gate" where
  "startQUICListener li g =
     (case li_cert li of
        Some x \<Rightarrow> (Some (ErrWrap ''startQUICListener: cert'' x), g)
      | None \<Rightarrow>
          (case li_quic li of
             Some x \<Rightarrow> (Some (ErrWrap ''startQUICListener: listen'' x), g)
           | None \<Rightarrow> (None, g\<lparr>gt_quicListener := True\<rparr>)))"

definition startHTTPServer :: "('x, 'c, 'n) gate \<Rightarrow> err option \<times> ('x, 'c, 'n) gate" where
  "startHTTPServer g = (None, g\<lparr>gt_httpServer := True\<rparr>)"

definition startMetricsServer :: "('x, 'c, 'n) gate \<Rightarrow> err option \<times> ('x, 'c, 'n) gate" where
  "startMetricsServer g = (None, g\<lparr>gt_metricsServer := True\<rparr>)"

definition startGRPCServer :: "listeners \<Rightarrow> ('x, 'c, 'n) gate \<Rightarrow> err option \<times> ('x, 'c, 'n) gate" where
  "startGRPCServer li g =
     (case li_grpc li of
        Some x \<Rightarrow> (Some (ErrWrap ''startGRPCServer: listen'' x), g)
      | None \<Rightarrow> (None, g\<lparr>gt_grpcServer := True\<rparr>))"

text \<open>A step of \<open>Start\<close> and the rest of it, with the place the error is wrapped at.\<close>

definition and_then ::
  "string \<Rightarrow> err option \<times> ('x, 'c, 'n) gate \<Rightarrow> (('x, 'c, 'n) gate \<Rightarrow> err option \<times> ('x, 'c, 'n) gate) \<Rightarrow>
     err option \<times> ('x, 'c, 'n) gate" where
  "and_then place r k = (case r of (Some x, g) \<Rightarrow> (Some (ErrWrap place x), g) | (None, g) \<Rightarrow> k g)"

definition gate_initUpstreamConnections :: "('x, 'c, 'n) gate \<Rightarrow> err option \<times> ('x, 'c, 'n) gate" where
  "gate_initUpstreamConnections g =
     (case initUpstreamConnections (config.truncate (gt_config g)) (gt_server g) of
        (r, sv) \<Rightarrow> (r, g\<lparr>gt_server := sv\<rparr>))"

text \<open>The part of \<open>Start\<close> that cannot fail: a backup manager or a task queue that does not start is only logged.\<close>

definition start_services :: "listeners \<Rightarrow> time \<Rightarrow> ('x, 'c, 'n) gate \<Rightarrow> ('x, 'c, 'n) gate" where
  "start_services li now g =
     g\<lparr>gt_sweeping := True,
       gt_backup := map_option (\<lambda>sys. snd (bm_Start (li_backup li) now sys)) (gt_backup g),
       gt_server := (gt_server g)\<lparr>sv_async := map_option (\<lambda>a. snd (async_Start a)) (sv_async (gt_server g))\<rparr>,
       gt_accepting := True\<rparr>"

definition gate_Start :: "listeners \<Rightarrow> time \<Rightarrow> ('x, 'c, 'n) gate \<Rightarrow> err option \<times> ('x, 'c, 'n) gate" where
  "gate_Start li now g0 =
     (let g = g0\<lparr>gt_server := (gt_server g0)\<lparr>sv_running := True\<rparr>\<rparr> in
      and_then ''Start: upstream'' (gate_initUpstreamConnections g) (\<lambda>g.
      and_then ''Start: QUIC'' (startQUICListener li g) (\<lambda>g.
      and_then ''Start: HTTP'' (startHTTPServer g) (\<lambda>g.
      and_then ''Start: metrics'' (startMetricsServer g) (\<lambda>g.
      and_then ''Start: gRPC'' (startGRPCServer li g) (\<lambda>g. (None, start_services li now g)))))))"

section \<open>Stop\<close>

text \<open>\<open>None\<close> is a panic: the stop channel of the server or of the task queue is closed a second time.\<close>

definition gate_Stop :: "('x, 'c) env \<Rightarrow> ('x, 'c, 'n) gate \<Rightarrow> ('x, 'c, 'n) gate option" where
  "gate_Stop ev g =
     (case server_Stop ev (gt_server g) of
        None \<Rightarrow> None
      | Some sv \<Rightarrow>
          Some (g\<lparr>gt_server := sv, gt_backup := map_option bm_Stop (gt_backup g), gt_quicListener := False,
                  gt_httpServer := False, gt_metricsServer := False, gt_grpcServer := False,
                  gt_sweeping := False, gt_accepting := False\<rparr>))"

section \<open>The backup manager behind the server\<close>

text \<open>\<open>onSessionSync\<close> only writes log lines, for every event.\<close>

definition onSessionSync :: "string \<Rightarrow> string \<Rightarrow> ('x, 'c, 'n) gate \<Rightarrow> ('x, 'c, 'n) gate" where
  "onSessionSync sid event g = g"

datatype gate_error = GateNoBackup | GateBackup backup_error

definition lift_backup ::
  "('n backup_system \<Rightarrow> backup_error option \<times> 'n backup_system) \<Rightarrow> ('x, 'c, 'n) gate \<Rightarrow> gate_error option \<times> ('x, 'c, 'n) gate" where
  "lift_backup f g =
     (case gt_backup g of
        None \<Rightarrow> (Some GateNoBackup, g)
      | Some sys \<Rightarrow> (case f sys of (r, sys1) \<Rightarrow> (map_option GateBackup r, g\<lparr>gt_backup := Some sys1\<rparr>)))"

text \<open>\<open>SwitchMode\<close> may not return (\<open>None\<close>).\<close>

definition SwitchBackupMode :: "server_mode \<Rightarrow> ('x, 'c, 'n) gate \<Rightarrow> (gate_error option \<times> ('x, 'c, 'n) gate) option" where
  "SwitchBackupMode mode g =
     (case gt_backup g of
        None \<Rightarrow> Some (Some GateNoBackup, g)
      | Some sys \<Rightarrow>
          map_option (\<lambda>(r, sys1). (map_option GateBackup r, g\<lparr>gt_backup := Some sys1\<rparr>)) (SwitchMode mode sys))"

definition TriggerBackupSync :: "time \<Rightarrow> ('x, 'c, 'n) gate \<Rightarrow> gate_error option \<times> ('x, 'c, 'n) gate" where
  "TriggerBackupSync now = lift_backup (\<lambda>(b, f). case TriggerSync now b of (r, b1) \<Rightarrow> (r, b1, f))"

definition gate_TriggerFailover ::
  "(string \<Rightarrow> err option) \<Rightarrow> time \<Rightarrow> duration \<Rightarrow> ('x, 'c, 'n) gate \<Rightarrow> gate_error option \<times> ('x, 'c, 'n) gate" where
  "gate_TriggerFailover listen now dur = lift_backup (TriggerFailover listen now dur)"

text \<open>The statistics of the backup, with those of the services there are.\<close>

record backup_report =
  br_server_id :: string
  br_current_mode :: server_mode
  br_sync_enabled :: bool
  br_start_time :: time
  br_session_count :: int
  br_last_update_time :: time
  br_is_healthy :: bool
  br_sync_stats :: "sync_stats option"
  br_heartbeat_stats :: "heartbeat_stats option"
  br_failover_stats :: "failover_stats option"

definition bm_GetStats :: "'n backup_system \<Rightarrow> backup_report" where
  "bm_GetStats sys =
     (let b = fst sys in
      \<lparr>br_server_id = bm_serverID b, br_current_mode = bm_currentMode b, br_sync_enabled = sc_Enabled (bc_Sync (bm_config b)),
       br_start_time = bs_StartTime (bm_stats b), br_session_count = bs_SessionCount (bm_stats b),
       br_last_update_time = bs_LastUpdateTime (bm_stats b), br_is_healthy = bs_IsHealthy (bm_stats b),
       br_sync_stats = map_option (\<lambda>i. sync_GetStats (bm_services b ! i)) (bm_syncService b),
       br_heartbeat_stats = map_option heartbeat_GetStats (bm_heartbeat b),
       br_failover_stats = map_option failover_GetStats (snd sys)\<rparr>)"

text \<open>\<open>None\<close> when the backup is not enabled.\<close>

definition GetBackupStats :: "('x, 'c, 'n) gate \<Rightarrow> backup_report option" where
  "GetBackupStats g = map_option bm_GetStats (gt_backup g)"

section \<open>The command\<close>

datatype ('x, 'c, 'n) gate_run =
  GateExit nat                         \<comment> \<open>with a code\<close>
| GateFatal config_error               \<comment> \<open>\<open>log.Fatalf\<close> while the configuration is built\<close>
| GateStartFailed err
| GatePanics                           \<comment> \<open>while the backup services are started\<close>
| GateRuns "('x, 'c, 'n) gate"

definition gate_crashed :: "('x, 'c, 'n) gate \<Rightarrow> bool" where
  "gate_crashed g \<longleftrightarrow> (case gt_backup g of None \<Rightarrow> False | Some sys \<Rightarrow> bm_crashed (fst sys))"

text \<open>From the parsed flags until the process waits for a signal.\<close>

definition gatesvr_main :: "host \<Rightarrow> listeners \<Rightarrow> int \<Rightarrow> time \<Rightarrow> time \<Rightarrow> cli_flags \<Rightarrow> ('x, 'c, 'n) gate_run" where
  "gatesvr_main ho li cpus now0 now fl =
     (if fl_showVersion fl then GateExit 0
      else if fl_showHelp fl then GateExit 0
      else (case buildServerConfig ho fl of
              Inl e \<Rightarrow> GateFatal e
            | Inr c \<Rightarrow>
                (case gate_Start li now (gate_NewServer cpus now0 c) of
                   (Some x, _) \<Rightarrow> GateStartFailed x
                 | (None, g) \<Rightarrow> if gate_crashed g then GatePanics else GateRuns g)))"

end
