(* ===== verification/Gate_Run.thy ===== *)
theory Gate_Run
  imports Gate_Server
begin

text \<open>
  Properties of the whole process: what a started gateway is, what a failed start leaves behind, what the role of the
  server changes for its clients, and what becomes of the old single upstream address.
\<close>

section \<open>Starting\<close>

lemma start_parts:
  "gate_Start li now g =
     (case gate_initUpstreamConnections (g\<lparr>gt_server := (gt_server g)\<lparr>sv_running := True\<rparr>\<rparr>) of
        (Some x, g1) \<Rightarrow> (Some (ErrWrap ''Start: upstream'' x), g1)
      | (None, g1) \<Rightarrow>
          if li_cert li \<noteq> None \<or> li_quic li \<noteq> None then
            (Some (ErrWrap ''Start: QUIC'' (the (fst (startQUICListener li g1)))), g1)
          else if li_grpc li \<noteq> None then
            (Some (ErrWrap ''Start: gRPC'' (the (fst (startGRPCServer li g1)))),
             g1\<lparr>gt_quicListener := True, gt_httpServer := True, gt_metricsServer := True\<rparr>)
          else (None, start_services li now
            (g1\<lparr>gt_quicListener := True, gt_httpServer := True, gt_metricsServer := True, gt_grpcServer := True\<rparr>)))"
  by (cases "li_cert li"; cases "li_quic li"; cases "li_grpc li")
    (simp_all add: gate_Start_def and_then_def startQUICListener_def startHTTPServer_def startMetricsServer_def
      startGRPCServer_def Let_def split: option.split prod.split)

lemma init_upstream:
  assumes "gate_initUpstreamConnections g = (r, g1)"
  shows "g1 = g\<lparr>gt_server := gt_server g1\<rparr> \<and> (\<exists>u. gt_server g1 = (gt_server g)\<lparr>sv_upstream := u\<rparr>)"
proof -
  have "snd (initUpstreamConnections c (gt_server g)) =
      (gt_server g)\<lparr>sv_upstream := sv_upstream (snd (initUpstreamConnections c (gt_server g)))\<rparr>" for c
    by (simp add: initUpstreamConnections_def Let_def)
  then show ?thesis using assms by (auto simp: gate_initUpstreamConnections_def split: prod.splits) (metis snd_conv)
qed

text \<open>C20. A process that runs was built from the file and the flags; it is running, listens everywhere, accepts
  connections, its workers are started on an empty queue, no connection is counted, its session manager is
  a fresh one, and it has a backup manager exactly if the configuration asks for one. \<close>

theorem main_serves:
  assumes "gatesvr_main ho li cpus now0 now fl = GateRuns (g :: ('x, 'c, 'n) gate)"
  shows "buildServerConfig ho fl = Inr (gt_config g) \<and> isRunning (gt_server g) \<and> gt_quicListener g \<and> gt_httpServer g \<and>
    gt_metricsServer g \<and> gt_grpcServer g \<and> gt_sweeping g \<and> gt_accepting g \<and>
    (\<exists>a. sv_async (gt_server g) = Some a \<and> ap_started a \<and> ap_taskQueue a = []) \<and>
    GetCurrentConnections (sv_protector (gt_server g)) = 0 \<and> mgr_reach e (sv_mgr (gt_server g)) \<and>
    m_sessions (sv_mgr (gt_server g)) = [] \<and> (gt_backup g \<noteq> None \<longleftrightarrow> sync_on (cfg_BackupConfig (gt_config g)))"
proof -
  obtain c where c: "buildServerConfig ho fl = Inr c"
    using assms by (auto simp: gatesvr_main_def split: if_splits sum.splits)
  let ?g0 = "gate_NewServer cpus now0 c :: ('x, 'c, 'n) gate"
  have st: "gate_Start li now ?g0 = (None, g)"
    using assms c by (auto simp: gatesvr_main_def split: if_splits prod.splits option.splits)
  obtain g1 where g1: "gate_initUpstreamConnections (?g0\<lparr>gt_server := (gt_server ?g0)\<lparr>sv_running := True\<rparr>\<rparr>) = (None, g1)"
    and g: "g = start_services li now (g1\<lparr>gt_quicListener := True, gt_httpServer := True, gt_metricsServer := True, gt_grpcServer := True\<rparr>)"
    using st unfolding start_parts by (auto split: prod.splits option.splits if_splits)
  obtain u where u: "g1 = ?g0\<lparr>gt_server := (gt_server ?g0)\<lparr>sv_running := True, sv_upstream := u\<rparr>\<rparr>"
    using init_upstream [OF g1] by auto
  have m: "sv_mgr (gt_server g) = (let m = NewManager (cfg_SessionTimeout c) (cfg_AckTimeout c) (cfg_MaxRetries c) in
      if sync_on (cfg_BackupConfig c) then EnableSync m else m)"
    by (simp add: g u start_services_def gate_NewServer_def NewServer_def config.truncate_def Let_def)
  have r: "mgr_reach e (sv_mgr (gt_server g))"
    unfolding m Let_def by (simp add: reach_New reach_step [OF reach_New step_sync])
  have s: "m_sessions (sv_mgr (gt_server g)) = []" unfolding m Let_def by (simp add: EnableSync_def NewManager_def)
  have b: "gt_backup g \<noteq> None \<longleftrightarrow> sync_on (cfg_BackupConfig c)"
    by (simp add: g u start_services_def gate_NewServer_def sync_on_def split: option.split)
  have a: "\<exists>a. sv_async (gt_server g) = Some a \<and> ap_started a \<and> ap_taskQueue a = []"
    by (simp add: g u start_services_def gate_NewServer_def NewServer_def NewAsyncRequestProcessor_def async_Start_def Let_def)
  have p: "GetCurrentConnections (sv_protector (gt_server g)) = 0"
    by (simp add: g u start_services_def gate_NewServer_def NewServer_def NewOverloadProtector_def GetCurrentConnections_def Let_def)
  have "gt_config g = c" by (simp add: g u start_services_def gate_NewServer_def)
  then show ?thesis using c r s b a p by (simp add: g u start_services_def isRunning_def)
qed

text \<open>A start that fails leaves the server marked as running and the listeners opened before the failure open. \<close>

theorem failed_start_keeps_listeners:
  assumes "gate_Start li now g = (Some x, g')" "\<not> gt_accepting g"
  shows "isRunning (gt_server g') \<and> \<not> gt_accepting g' \<and>
    (if li_cert li = None \<and> li_quic li = None \<and> fst (gate_initUpstreamConnections g) = None
     then gt_quicListener g' \<and> gt_httpServer g' \<and> gt_metricsServer g'
     else gt_quicListener g' = gt_quicListener g)"
proof -
  let ?g = "g\<lparr>gt_server := (gt_server g)\<lparr>sv_running := True\<rparr>\<rparr>"
  obtain r g1 where i: "gate_initUpstreamConnections ?g = (r, g1)" by (metis surj_pair)
  obtain u where u: "g1 = ?g\<lparr>gt_server := (gt_server g)\<lparr>sv_running := True, sv_upstream := u\<rparr>\<rparr>"
    using init_upstream [OF i] by auto
  have "fst (gate_initUpstreamConnections g) = r"
    using i by (auto simp: gate_initUpstreamConnections_def initUpstreamConnections_def Let_def split: prod.splits if_splits)
  then show ?thesis
    using assms i unfolding start_parts by (cases r) (auto simp: u isRunning_def split: if_splits)
qed

section \<open>The role and the clients\<close>

text \<open>The role of a server does not reach its clients: a backup server starts with the same server state as a
  primary, accepts connections and answers them, and no step of its backup manager, no takeover and no
  switch of its mode changes what the handlers read. \<close>

theorem role_hidden_from_clients:
  assumes "cfg_BackupConfig c = Some b" "sc_Enabled (bc_Sync b)" "sc_Enabled (bc_Sync b')"
    "gate_Start li now (gate_NewServer cpus now0 c :: ('x, 'c, 'n) gate) = (r, g)"
    "gate_Start li now (gate_NewServer cpus now0 (c\<lparr>cfg_BackupConfig := Some b'\<rparr>) :: ('x, 'c, 'n) gate) = (r', g')"
  shows "r' = r \<and> gt_server g' = gt_server g \<and> gt_accepting g' = gt_accepting g \<and>
    (\<forall>dur. gt_server (snd (gate_TriggerFailover (li_backup li) now dur g)) = gt_server g) \<and>
    gt_server (snd (TriggerBackupSync now g)) = gt_server g \<and>
    (\<forall>mode. case SwitchBackupMode mode g of None \<Rightarrow> True | Some (_, g1) \<Rightarrow> gt_server g1 = gt_server g)"
proof -
  let ?g0 = "gate_NewServer cpus now0 c :: ('x, 'c, 'n) gate"
  let ?g1 = "gate_NewServer cpus now0 (c\<lparr>cfg_BackupConfig := Some b'\<rparr>) :: ('x, 'c, 'n) gate"
  have new: "gt_server ?g1 = gt_server ?g0" "config.truncate (gt_config ?g1) = config.truncate (gt_config ?g0)"
    "gt_accepting ?g1 = gt_accepting ?g0"
    using assms(1-3) by (simp_all add: gate_NewServer_def sync_on_def config.truncate_def)
  obtain x sv where i: "initUpstreamConnections (config.truncate (gt_config ?g0)) ((gt_server ?g0)\<lparr>sv_running := True\<rparr>) = (x, sv)"
    by (metis surj_pair)
  have "r' = r \<and> gt_server g' = gt_server g \<and> gt_accepting g' = gt_accepting g"
    using assms(4,5) unfolding start_parts gate_initUpstreamConnections_def
    by (cases x) (auto simp: i new start_services_def startQUICListener_def startGRPCServer_def split: if_splits option.splits)
  then show ?thesis
    by (auto simp: gate_TriggerFailover_def TriggerBackupSync_def SwitchBackupMode_def lift_backup_def split: option.split prod.split)
qed

section \<open>The single upstream address\<close>

lemma no_upstream_call: "sv_upstream sv = None \<Longrightarrow> callUpstreamService ev t req sv = (Inl ErrNoUpstream, sv)"
  by (simp add: callUpstreamService_def)

text \<open>The upstream manager and the standing of every session are as they were.\<close>

definition unmoved :: "('x, 'c) Gateway.server \<Rightarrow> ('x, 'c) Gateway.server \<Rightarrow> bool" where
  "unmoved sv sv' \<longleftrightarrow>
     sv_upstream sv' = sv_upstream sv \<and> (\<forall>i. standing (sess_of i sv') = standing (sess_of i sv))"

lemma unmoved_error [intro]:
  assumes "unmoved sv sv1"
  shows "unmoved sv (sendErrorResponse ev now r mid c mt d sv1)"
proof -
  have "sv_upstream (snd (on_sess r f sv1)) = sv_upstream sv1" for f :: "'a session \<Rightarrow> metrics \<Rightarrow> 'z \<times> 'a session \<times> metrics"
    by (simp add: on_sess_def split: prod.split)
  moreover have "standing (sess_of i (snd (on_sess r (SendErrorResponse (ev_ext ev) now mid c mt d) sv1))) = standing (sess_of i sv1)"
    for i by (rule on_sess_standing) simp
  ultimately show ?thesis using assms by (simp add: unmoved_def sendErrorResponse_def)
qed

lemma unmoved_parts [simp]:
  "unmoved sv (sv1\<lparr>sv_metrics := ms\<rparr>) \<longleftrightarrow> unmoved sv sv1"
  "unmoved sv (sv1\<lparr>sv_protector := p\<rparr>) \<longleftrightarrow> unmoved sv sv1"
  "unmoved sv (sv1\<lparr>sv_async := a\<rparr>) \<longleftrightarrow> unmoved sv sv1"
  "unmoved sv sv"
  by (simp_all add: unmoved_def sess_of_def)

lemma unmoved_end [simp]: "unmoved sv (server_OnUpstreamEnd sv1) \<longleftrightarrow> unmoved sv sv1"
  by (simp add: server_OnUpstreamEnd_def split: prod.split)

lemma unmoved_sequence: "unmoved sv (sv\<lparr>sv_mgr := snd (ValidateClientSequence sid n (sv_mgr sv))\<rparr>)"
  by (auto simp: unmoved_def sess_of_def ValidateClientSequence_def ValidateClientSeq_def standing_def sess_at_upd Let_def
      split: option.split)

lemma no_upstream_sync:
  assumes "sv_upstream sv1 = None" "unmoved sv sv1"
  shows "\<not> fst (handleBusinessRequestSync ev now r req ty ureq isLogin sv1)"
    "unmoved sv (snd (handleBusinessRequestSync ev now r req ty ureq isLogin sv1))"
  using assms by (auto simp: handleBusinessRequestSync_def no_upstream_call)

lemma no_upstream_forward:
  assumes "sv_upstream sv1 = None" "unmoved sv sv1"
  shows "unmoved sv (snd (forward_request ev now r req breq isLogin sv1))"
  using assms no_upstream_sync(2) [OF assms]
  by (auto simp: forward_request_def Let_def split: option.split prod.split bool.split)

lemma no_upstream_business:
  assumes "sv_upstream sv = None"
  shows "unmoved sv (snd (handleBusinessRequest ev now r req sv))"
proof -
  let ?v = "ValidateClientSequence (s_ID (sess_of r sv)) (cr_SeqId req) (sv_mgr sv)"
  let ?sv1 = "sv\<lparr>sv_mgr := snd ?v\<rparr>"
  have u: "unmoved sv ?sv1" by (rule unmoved_sequence)
  have f: "unmoved sv sv2" if "forward_request ev now r req breq isLogin (?sv1\<lparr>sv_protector := p, sv_metrics := ms\<rparr>) = (ok, sv2)"
    for breq isLogin p ms ok sv2
    using no_upstream_forward [of "?sv1\<lparr>sv_protector := p, sv_metrics := ms\<rparr>" sv ev now r req breq isLogin] assms u that by simp
  obtain ok m where v: "?v = (ok, m)" by (metis surj_pair)
  show ?thesis
    using u f [unfolded v snd_conv] unfolding handleBusinessRequest_def Let_def v snd_conv
    by (auto split: prod.split bool.split sum.split)
qed

lemma no_upstream_task: "sv_upstream sv = None \<Longrightarrow> unmoved sv (processTask ev now task sv)"
  by (auto simp: processTask_def no_upstream_call Let_def)

text \<open>No session has changed its state, which says whether its user is logged in, or its zone.\<close>

definition rank :: "'x session \<Rightarrow> session_state \<times> int" where
  "rank s = (s_state s, s_zone s)"

definition ranked :: "('x, 'c) Gateway.server \<Rightarrow> ('x, 'c) Gateway.server \<Rightarrow> bool" where
  "ranked sv sv' \<longleftrightarrow> sv_upstream sv' = sv_upstream sv \<and> (\<forall>i. rank (sess_of i sv') = rank (sess_of i sv))"

lemma ranked_trans: "ranked sv sv1 \<Longrightarrow> ranked sv1 sv2 \<Longrightarrow> ranked sv sv2"
  by (simp add: ranked_def)

lemma unmoved_ranked: "unmoved sv sv' \<Longrightarrow> ranked sv sv'"
  by (simp add: unmoved_def ranked_def standing_def rank_def)

lemma ranked_parts [simp]:
  "ranked sv (sv1\<lparr>sv_metrics := ms\<rparr>) \<longleftrightarrow> ranked sv sv1"
  "ranked sv (sv1\<lparr>sv_protector := p\<rparr>) \<longleftrightarrow> ranked sv sv1"
  "ranked sv (record_error sv1) \<longleftrightarrow> ranked sv sv1"
  "ranked sv (count_error x sv1) \<longleftrightarrow> ranked sv sv1"
  "ranked sv sv"
  by (simp_all add: ranked_def sess_of_def record_error_def count_error_def)

lemma ranked_sess:
  assumes "\<And>x ms. standing (fst (snd (f x ms))) = standing x" "ranked sv sv1"
  shows "ranked sv (snd (on_sess r f sv1))"
proof -
  have "sv_upstream (snd (on_sess r f sv1)) = sv_upstream sv1" by (simp add: on_sess_def split: prod.split)
  then have "unmoved sv1 (snd (on_sess r f sv1))"
    unfolding unmoved_def using on_sess_standing [where f = f and sv = sv1, OF assms(1)] by simp
  then show ?thesis using assms(2) unmoved_ranked ranked_trans by blast
qed

text \<open>The operations of the manager that a dispatched message runs.\<close>

lemma upd_rank: "(\<And>x. rank (f x) = rank x) \<Longrightarrow> rank (sess_at i (upd_sess r f m)) = rank (sess_at i m)"
  by (simp add: sess_at_upd)

lemma rank_simps [simp]:
  "rank (x\<lparr>s_OpenID := o', s_ClientID := c\<rparr>) = rank x" "rank (x\<lparr>s_orderedQueue := q\<rparr>) = rank x"
  "rank (session_Close e x) = rank x" "rank (ResyncSessionSequence n x) = rank x" "rank (UpdateActivity t x) = rank x"
  "rank (snd (UpdateAckServerSeq n x)) = rank x" "rank (snd (SetClosed x)) = rank x"
  by (simp_all add: rank_def session_Close_def ResyncSessionSequence_def UpdateActivity_def SetClosed_def UpdateAckServerSeq_def
    split: option.split)

lemma rank_close: "rank (sess_at i (immediateRemoveSession e sid m)) = rank (sess_at i m)"
  by (auto simp: immediateRemoveSession_def Let_def sess_at_upd split: option.split) (auto simp: sess_at_def)

lemma rank_timers: "sess_at i (m\<lparr>m_timers := ts\<rparr>) = sess_at i m"
  by (simp add: sess_at_def)

lemma rank_remove: "rank (sess_at i (RemoveSessionWithDelay e t sid d m)) = rank (sess_at i m)"
proof (cases "gm_get (m_sessions m) sid")
  case (Some r)
  obtain c x where c: "SetClosed (sess_at r m) = (c, x)" by (metis surj_pair)
  have "rank (sess_at i (upd_sess r (\<lambda>_. x) m)) = rank (sess_at i m)"
    using rank_simps(7) [of "sess_at r m"] by (simp add: sess_at_upd c)
  then show ?thesis by (auto simp: RemoveSessionWithDelay_def Some Let_def rank_close c rank_timers)
qed (simp add: RemoveSessionWithDelay_def)

lemma rank_ack: "rank (sess_at i (snd (m_AckMessagesUpTo sid n m))) = rank (sess_at i m)"
  by (simp add: m_AckMessagesUpTo_def Let_def upd_rank split: option.split prod.split)

lemma rank_bind: "rank (sess_at i (snd (BindSession r m))) = rank (sess_at i m)"
  by (simp add: BindSession_def Let_def sess_at_def split: option.split)

lemma ranked_mgr: "(\<And>i. rank (sess_at i m) = rank (sess_at i (sv_mgr sv))) \<Longrightarrow> ranked sv (sv\<lparr>sv_mgr := m\<rparr>)"
  by (simp add: ranked_def sess_of_def)

lemma ranked_error: "ranked sv (sendErrorResponse ev now r mid c mt d sv)"
  by (rule unmoved_ranked) (rule unmoved_error, simp)

lemma other_senders [simp]:
  "standing (fst (snd (SendHeartbeatResponse e now i ts x ms))) = standing x"
  "standing (fst (snd (SendStartResponse e now i ok er iv sid x ms))) = standing x"
  by (simp_all add: SendHeartbeatResponse_def SendStartResponse_def send_standing)

lemma ranked_start: "ranked sv (snd (handleStartSync ev now r req sv))"
proof (cases "UnmarshalStartRequest (pb (ev_ext ev)) (cr_Payload req)")
  case (Inr st)
  let ?m1 = "upd_sess r (\<lambda>s. s\<lparr>s_OpenID := st_Openid st, s_ClientID := cr_Openid req\<rparr>) (sv_mgr sv)"
  obtain x m2 where x: "BindSession r ?m1 = (x, m2)" by (metis surj_pair)
  have m2: "rank (sess_at i m2) = rank (sess_at i (sv_mgr sv))" for i using rank_bind [of i r ?m1] by (simp add: x upd_rank)
  define m3 where "m3 = (if 0 < st_LastAckedSeqId st then upd_sess r (ResyncSessionSequence (st_LastAckedSeqId st))
    (snd (m_AckMessagesUpTo (s_ID (sess_of r sv)) (st_LastAckedSeqId st) m2)) else m2)"
  have m3: "ranked sv (sv\<lparr>sv_mgr := m3\<rparr>)" by (rule ranked_mgr) (simp add: m3_def upd_rank rank_ack m2)
  have e: "ranked sv (sendErrorResponse ev now r (cr_MsgId req) 500 TBindFailed d (sv\<lparr>sv_mgr := m2\<rparr>))" for d
    using ranked_mgr [of m2 sv, OF m2] ranked_error ranked_trans by blast
  have "ranked sv (snd (on_sess r (SendStartResponse (ev_ext ev) now (cr_MsgId req) True None 30 (s_ID (sess_of r sv))) (sv\<lparr>sv_mgr := m3\<rparr>)))"
    by (rule ranked_sess [OF _ m3]) simp
  then show ?thesis
    using e by (cases x) (auto simp: handleStartSync_def Inr Let_def x ranked_error m3_def [symmetric] split: prod.split option.split)
qed (simp add: handleStartSync_def ranked_error Let_def)

lemma ranked_dispatch:
  assumes "sv_upstream sv = None"
  shows "ranked sv (snd (dispatch ev now r req sv))"
proof -
  have s: "ranked sv (snd (handleStop ev now r req sv))"
    by (auto simp: handleStop_def intro: ranked_mgr rank_remove split: sum.split)
  have a: "ranked sv (snd (handleAck ev r req sv))"
    by (auto simp: handleAck_def Let_def upd_rank intro!: ranked_mgr split: sum.split prod.split)
      (metis rank_ack snd_conv)
  have "ranked sv (snd (on_sess r (SendHeartbeatResponse (ev_ext ev) now mid ts) sv))" for mid ts
    by (rule ranked_sess) simp_all
  then have h: "ranked sv (snd (handleHeartbeat ev now r req sv))"
    by (auto simp: handleHeartbeat_def split: sum.split option.split prod.split) (metis snd_conv)+
  show ?thesis
    using ranked_start [of sv ev now r req] s h a unmoved_ranked [OF no_upstream_business [OF assms]]
    by (simp add: dispatch_def split: request_type.split)
qed

lemma ranked_event:
  assumes "sv_upstream sv = None" "handleMessageEvent ev now r data sv = Some sv'"
  shows "ranked sv sv'"
proof -
  define sv1 where "sv1 = note_request now r sv"
  have n: "sv_upstream sv1 = None" "ranked sv sv1"
    using assms(1) by (auto simp: sv1_def note_request_def ranked_def sess_of_def upd_rank)
  have o: "ranked sv (sendOverloadErrorResponse ev now r req (sv1\<lparr>sv_protector := p, sv_metrics := ms\<rparr>))" for req p ms
    using n(2) by (auto simp: sendOverloadErrorResponse_def intro!: ranked_sess split: request_type.split)
  have d: "ranked sv (snd (dispatch ev now r req (sv1\<lparr>sv_protector := p, sv_metrics := ms\<rparr>)))" for req p ms
    by (rule ranked_trans [OF _ ranked_dispatch]) (simp_all add: n)
  have d1: "ranked sv (snd (dispatch ev now r req sv1))" for req
    by (rule ranked_trans [OF n(2) ranked_dispatch]) (rule n(1))
  show ?thesis
    using assms(2) n(2) o d d1
    by (auto simp: handleMessageEvent_def Let_def sv1_def [symmetric] split: sum.splits if_splits option.splits prod.splits)
qed

text \<open>C21. A gateway that is given only the single upstream address, by the file, the command line or the environment,
  starts and accepts connections when its certificate loads and its ports open, but it has no upstream
  manager. On a server without one no message a connection handles brings one back or changes the state or
  zone of any session, business requests and queued tasks leave its identity and user alone too (a START sets the
  user), and every request that is answered at once, a login always, fails: nobody ever gets logged in. \<close>

theorem single_address_serves_nothing:
  assumes "cfg_UpstreamServices c = []" "cfg_UpstreamAddr c \<noteq> []" "li_cert li = None" "li_quic li = None" "li_grpc li = None"
  shows "\<exists>g. gate_Start li now (gate_NewServer cpus now0 c :: ('x, 'c, 'n) gate) = (None, g) \<and> isRunning (gt_server g) \<and> gt_accepting g \<and>
    sv_upstream (gt_server g) = None \<and>
    (\<forall>ev t r req task ty ureq isLogin sv. sv_upstream (sv :: ('x, 'c) Gateway.server) = None \<longrightarrow>
       unmoved sv (snd (handleBusinessRequest ev t r req sv)) \<and> unmoved sv (processTask ev t task sv) \<and>
       \<not> fst (handleBusinessRequestSync ev t r req ty ureq isLogin sv)) \<and>
    (\<forall>ev t r data sv sv'. sv_upstream (sv :: ('x, 'c) Gateway.server) = None \<and> handleMessageEvent ev t r data sv = Some sv' \<longrightarrow>
       ranked sv sv')"
proof -
  let ?g0 = "gate_NewServer cpus now0 c :: ('x, 'c, 'n) gate"
  have "sv_services (gt_server ?g0) = []" "gt_config ?g0 = c"
    using assms(1) by (simp_all add: gate_NewServer_def NewServer_def initUpstreamServices_def NewUpstreamServices_def config.truncate_def Let_def)
  then have "gate_initUpstreamConnections (?g0\<lparr>gt_server := (gt_server ?g0)\<lparr>sv_running := True\<rparr>\<rparr>) =
      (None, ?g0\<lparr>gt_server := (gt_server ?g0)\<lparr>sv_running := True\<rparr>\<rparr>)"
    using assms(2) by (simp add: gate_initUpstreamConnections_def initUpstreamConnections_def GetServiceCount_def config.truncate_def)
  then obtain g where g: "gate_Start li now ?g0 = (None, g)" "isRunning (gt_server g)" "gt_accepting g" "sv_upstream (gt_server g) = None"
    using assms(3-5) unfolding start_parts
    by (simp add: start_services_def isRunning_def gate_NewServer_def NewServer_def Let_def)
  show ?thesis
    by (intro exI [of _ g] conjI allI impI g no_upstream_business no_upstream_task no_upstream_sync(1) [OF _ unmoved_parts(4)])
      (auto intro: ranked_event)
qed

section \<open>Examples\<close>

definition plain_config :: "(string \<times> string list) list \<Rightarrow> backup_config option \<Rightarrow> server_config" where
  "plain_config us b =
     \<lparr>cfg_UpstreamAddr = ''u:1'', cfg_UpstreamServices = us, cfg_SessionTimeout = 300 * Second, cfg_AckTimeout = 10 * Second,
      cfg_MaxRetries = 3, cfg_Sync = sync_on b, cfg_Overload = None, cfg_Async = None, cfg_QUICAddr = '':8453'',
      cfg_HTTPAddr = '':8080'', cfg_GRPCAddr = '':8092'', cfg_MetricsAddr = '':9090'', cfg_TLSCertFile = ''c'',
      cfg_TLSKeyFile = ''k'', cfg_BackupConfig = b, cfg_ServerID = ''g1''\<rparr>"

definition open_listeners :: listeners where
  "open_listeners = \<lparr>li_cert = None, li_quic = None, li_grpc = None, li_backup = (\<lambda>_. None)\<rparr>"

text \<open>The file of \<open>Gate_Command\<close> without its backup section.\<close>

definition plain_host :: host where
  "plain_host = toy_host\<lparr>ho_decode := (\<lambda>_. Inr (toy_yaml\<lparr>y_Backup := (y_Backup toy_yaml)\<lparr>yb_Enabled := False\<rparr>\<rparr>))\<rparr>"

lemma plain_built:
  obtains c where "buildServerConfig plain_host default_flags = Inr c" "cfg_BackupConfig c = None"
    "cfg_UpstreamServices c = [(''hello'', [''h:1''])]"
proof -
  let ?y = "toy_yaml\<lparr>y_Backup := (y_Backup toy_yaml)\<lparr>yb_Enabled := False\<rparr>\<rparr>"
  have f: "parse_field ''session_timeout'' (ys_SessionTimeout (y_Server ?y)) = Inr 1800000000000"
    "parse_field ''ack_timeout'' (ys_AckTimeout (y_Server ?y)) = Inr 5000000000"
    by (simp_all add: parse_field_ok toy_durations toy_yaml_def)
  have b: "backup_part (y_Backup ?y) = Inr None" by (simp add: backup_part_def)
  obtain g0 where g0: "ToGatewayConfig ?y = Inr g0" "g_BackupConfig g0 = None" "g_UpstreamServices g0 = [(''hello'', [''h:1''])]"
    using f b by (simp add: ToGatewayConfig_def toy_yaml_def)
  have l: "Load (ho_read plain_host) (ho_decode plain_host) (fl_configFile default_flags) = Inr ?y"
    by (simp add: Load_def plain_host_def toy_host_def)
  have a: "applyBackupConfig default_flags ?y g = Inr g" for g by (simp add: applyBackupConfig_def default_flags_def)
  have "ho_missing plain_host x = False" for x by (simp add: plain_host_def toy_host_def)
  then show thesis
    using that by (simp add: buildServerConfig_def l g0 a validateCertFiles_def to_server_config_def
      applyEnvOverrides_def applyCliOverrides_def)
qed

theorem main_serves_witness:
  "\<exists>g :: (bytes, nat, bytes list) gate. gatesvr_main plain_host open_listeners 4 1 2 default_flags = GateRuns g \<and> gt_accepting g"
proof -
  obtain c where c: "buildServerConfig plain_host default_flags = Inr c" "cfg_BackupConfig c = None"
    "cfg_UpstreamServices c = [(''hello'', [''h:1''])]" by (rule plain_built)
  let ?g0 = "gate_NewServer 4 1 c :: (bytes, nat, bytes list) gate"
  have s: "sv_services (gt_server ?g0) = [(''hello'', \<lparr>si_Type = ''hello'', si_Addresses = [''h:1''], si_Enabled = True\<rparr>)]"
    "gt_backup ?g0 = None"
    by (simp_all add: gate_NewServer_def NewServer_def initUpstreamServices_def NewUpstreamServices_def AddService_def
      config.truncate_def c(2,3) Let_def)
  have "fst (gate_initUpstreamConnections (?g0\<lparr>gt_server := (gt_server ?g0)\<lparr>sv_running := True\<rparr>\<rparr>)) = None"
    by (simp add: gate_initUpstreamConnections_def initUpstreamConnections_def GetServiceCount_def GetAllServices_def
      IsServiceAvailable_def s Let_def)
  then obtain g1 where g1: "gate_initUpstreamConnections (?g0\<lparr>gt_server := (gt_server ?g0)\<lparr>sv_running := True\<rparr>\<rparr>) = (None, g1)"
    by (metis prod.collapse)
  have "g1 = (?g0\<lparr>gt_server := (gt_server ?g0)\<lparr>sv_running := True\<rparr>\<rparr>)\<lparr>gt_server := gt_server g1\<rparr>"
    using init_upstream [OF g1] by blast
  then have "gt_backup g1 = gt_backup (?g0\<lparr>gt_server := gt_server g1\<rparr>)" by (metis gate.update_convs(2) gate.surjective gate.select_convs(3))
  then have "gt_backup g1 = None" using s(2) by simp
  then obtain g where g: "gate_Start open_listeners 2 ?g0 = (None, g)" "gt_backup g = None"
    unfolding start_parts by (simp add: g1 open_listeners_def start_services_def)
  have f: "fl_showVersion default_flags = False" "fl_showHelp default_flags = False" by (simp_all add: default_flags_def)
  from g have run: "gatesvr_main plain_host open_listeners 4 1 2 default_flags = GateRuns g"
    by (simp add: gatesvr_main_def c(1) gate_crashed_def f)
  then show ?thesis using main_serves [OF run] by blast
qed

theorem failed_start_keeps_listeners_witness:
  "isRunning (gt_server (snd (gate_Start (open_listeners\<lparr>li_grpc := Some ErrEOF\<rparr>) 2
     (gate_NewServer 4 1 (plain_config [] None) :: (bytes, nat, bytes list) gate))))"
proof -
  let ?g = "gate_NewServer 4 1 (plain_config [] None) :: (bytes, nat, bytes list) gate"
  let ?li = "open_listeners\<lparr>li_grpc := Some ErrEOF\<rparr>"
  have "fst (gate_Start ?li 2 ?g) \<noteq> None"
    by (auto simp: start_parts open_listeners_def split: prod.split option.split)
  then obtain x g' where s: "gate_Start ?li 2 ?g = (Some x, g')" by (metis not_Some_eq prod.collapse)
  have "\<not> gt_accepting ?g" by (simp add: gate_NewServer_def)
  from failed_start_keeps_listeners [OF s this] show ?thesis by (simp add: s)
qed

theorem role_hidden_from_clients_witness:
  "gt_server (snd (gate_Start open_listeners 2 (gate_NewServer 4 1
      (plain_config [(''hello'', [''h:1''])] (Some (toy_backup ModeBackup))) :: (bytes, nat, bytes list) gate))) =
   gt_server (snd (gate_Start open_listeners 2 (gate_NewServer 4 1
      (plain_config [(''hello'', [''h:1''])] (Some (toy_backup ModePrimary))) :: (bytes, nat, bytes list) gate)))"
proof -
  let ?c = "plain_config [(''hello'', [''h:1''])] (Some (toy_backup ModePrimary))"
  have e: "sc_Enabled (bc_Sync (toy_backup m))" for m by (simp add: toy_backup_def toy_sync_def)
  have b: "cfg_BackupConfig ?c = Some (toy_backup ModePrimary)" by (simp add: plain_config_def)
  have u: "?c\<lparr>cfg_BackupConfig := Some (toy_backup ModeBackup)\<rparr> = plain_config [(''hello'', [''h:1''])] (Some (toy_backup ModeBackup))"
    by (simp add: plain_config_def sync_on_def e)
  obtain r g where 1: "gate_Start open_listeners 2 (gate_NewServer 4 1 ?c :: (bytes, nat, bytes list) gate) = (r, g)"
    by (metis surj_pair)
  obtain r' g' where 2: "gate_Start open_listeners 2 (gate_NewServer 4 1
      (?c\<lparr>cfg_BackupConfig := Some (toy_backup ModeBackup)\<rparr>) :: (bytes, nat, bytes list) gate) = (r', g')" by (metis surj_pair)
  show ?thesis using role_hidden_from_clients [OF b e e 1 2] 1 2 unfolding u by simp
qed

theorem single_address_serves_nothing_witness:
  "sv_upstream (gt_server (snd (gate_Start open_listeners 2 (gate_NewServer 4 1 (plain_config [] None) :: (bytes, nat, bytes list) gate)))) = None"
proof -
  have "cfg_UpstreamServices (plain_config [] None) = []" "cfg_UpstreamAddr (plain_config [] None) \<noteq> []"
    "li_cert open_listeners = None" "li_quic open_listeners = None" "li_grpc open_listeners = None"
    by (simp_all add: plain_config_def open_listeners_def)
  from single_address_serves_nothing [where 'x = bytes and 'c = nat and 'n = "bytes list", OF this, of 2 4 1]
  show ?thesis by auto
qed

end
