(* ===== verification/Gateway_Monitor.thy ===== *)
theory Gateway_Monitor
  imports Gateway_Push
begin

text \<open>
  The monitoring pages (\<open>internal/gateway/http_handlers.go\<close>, \<open>simple_performance.go\<close>) and the statistics of the
  parts of the gateway: the values they show, as records; explaining texts are left out. A \<open>float64\<close> may be infinite or no
  number: \<open>encoding/json\<close> refuses the last two, and since the handlers ignore the error the page is then empty
  (\<open>None\<close>). The thresholds are compared exactly. For numbers of
  connections and calls below \<open>2 ^ 45\<close> the comparisons in \<open>float64\<close> have the same outcome, since 0.8, 0.9 and 0.95
  times 100 round to 80, 90 and 95; the request rate is itself rounded, so a rate next to a threshold may be
  classified otherwise.
\<close>

section \<open>Numbers\<close>

definition percent :: "float64 \<Rightarrow> int \<Rightarrow> float64" where
  "percent a b = float_mult (float_div a (of_int b)) 100"

fun encodable :: "float64 \<Rightarrow> bool" where
  "encodable (Finite _) \<longleftrightarrow> True"
| "encodable _ \<longleftrightarrow> False"

section \<open>Health and sessions\<close>

record health_page =
  hp_status :: string
  hp_active_connections :: int
  hp_timestamp :: int

definition handleHealth :: "time \<Rightarrow> ('x, 'c) server \<Rightarrow> health_page" where
  "handleHealth now sv =
     \<lparr>hp_status = ''healthy'', hp_active_connections = GetSessionCount (sv_mgr sv), hp_timestamp = Unix now\<rparr>"

record session_line =
  sl_session_id :: string
  sl_create_time :: int
  sl_last_activity :: int
  sl_pending_count :: int
  sl_ordered_queue :: "queue_stats option"
  sl_remote_addr :: string

record stats_page =
  tp_total_sessions :: int
  tp_sessions :: "session_line list"
  tp_timestamp :: int

text \<open>\<open>remote\<close> is the address of the connection of a session.\<close>

definition session_stats :: "('x session \<Rightarrow> string) \<Rightarrow> ('x, 'c) server \<Rightarrow> nat \<Rightarrow> session_line" where
  "session_stats remote sv r =
     (let s = sess_of r sv in
      \<lparr>sl_session_id = s_ID s, sl_create_time = Unix (s_CreateTime s), sl_last_activity = Unix (s_LastActivity s),
       sl_pending_count = m_GetPendingCount (s_ID s) (sv_mgr sv), sl_ordered_queue = sender_GetQueueStats s,
       sl_remote_addr = remote s\<rparr>)"

definition handleStats :: "('x session \<Rightarrow> string) \<Rightarrow> time \<Rightarrow> ('x, 'c) server \<Rightarrow> stats_page" where
  "handleStats remote now sv =
     (let rs = GetAllSessions (sv_mgr sv) in
      \<lparr>tp_total_sessions = int (length rs), tp_sessions = map (session_stats remote sv) rs, tp_timestamp = Unix now\<rparr>)"

section \<open>The sending mode of the sessions\<close>

text \<open>The entry \<open>async_enabled\<close> of the statistics of a queue, if there is one: \<open>GetQueueStats\<close> makes none.\<close>

definition async_enabled :: "queue_stats \<Rightarrow> bool option" where
  "async_enabled st = None"

record async_status =
  as_total_sessions :: int
  as_async_enabled_count :: int
  as_sync_enabled_count :: int
  as_adoption_rate :: rat

definition getSessionsAsyncStatus :: "('x, 'c) server \<Rightarrow> async_status" where
  "getSessionsAsyncStatus sv =
     (let rs = GetAllSessions (sv_mgr sv);
          stats = List.map_filter (\<lambda>r. map_option GetQueueStats (GetOrderedQueue (sess_of r sv))) rs;
          asyncCount = int (length (filter (\<lambda>st. async_enabled st = Some True) stats));
          syncCount = int (length (filter (\<lambda>st. async_enabled st \<noteq> Some True) stats))
      in \<lparr>as_total_sessions = int (length rs), as_async_enabled_count = asyncCount, as_sync_enabled_count = syncCount,
          as_adoption_rate = (if rs = [] then 0 else of_int asyncCount / of_int (int (length rs)) * 100)\<rparr>)"

section \<open>The queue configuration\<close>

text \<open>
  The page shows the default configuration, the environment variables it names, and examples of settings. Nothing
  reads the variables: \<open>LoadQueueConfigFromEnv\<close> takes its values from no environment.
\<close>

definition queue_variables :: "string list" where
  "queue_variables =
     [''QUEUE_ENABLE_ASYNC_SEND'', ''QUEUE_SEND_WORKER_COUNT'', ''QUEUE_SEND_QUEUE_SIZE'', ''QUEUE_MAX_QUEUE_SIZE'',
      ''QUEUE_BATCH_TIMEOUT_MS'', ''QUEUE_MAX_RETRIES'', ''QUEUE_CLEANUP_INTERVAL_MS'', ''QUEUE_ENABLE_DEBUG_LOG'',
      ''QUEUE_ENABLE_METRICS'']"

definition queue_examples :: "(string \<times> (string \<times> string) list) list" where
  "queue_examples =
     [(''high_performance'',
       [(''QUEUE_ENABLE_ASYNC_SEND'', ''true''), (''QUEUE_SEND_WORKER_COUNT'', ''8''), (''QUEUE_SEND_QUEUE_SIZE'', ''2000''),
        (''QUEUE_MAX_QUEUE_SIZE'', ''2000'')]),
      (''conservative'',
       [(''QUEUE_ENABLE_ASYNC_SEND'', ''true''), (''QUEUE_SEND_WORKER_COUNT'', ''2''), (''QUEUE_SEND_QUEUE_SIZE'', ''500''),
        (''QUEUE_MAX_QUEUE_SIZE'', ''500'')]),
      (''sync_fallback'', [(''QUEUE_ENABLE_ASYNC_SEND'', ''false'')])]"

record queue_config_page =
  qp_current_config :: queue_config
  qp_environment_variables :: "string list"
  qp_configuration_examples :: "(string \<times> (string \<times> string) list) list"
  qp_current_sessions_status :: async_status
  qp_timestamp :: int

definition handleGetQueueConfig :: "time \<Rightarrow> ('x, 'c) server \<Rightarrow> queue_config_page" where
  "handleGetQueueConfig now sv =
     \<lparr>qp_current_config = LoadQueueConfigFromEnv, qp_environment_variables = queue_variables,
      qp_configuration_examples = queue_examples, qp_current_sessions_status = getSessionsAsyncStatus sv,
      qp_timestamp = Unix now\<rparr>"

text \<open>Setting it: an unreadable body (\<open>decode\<close> is that of the JSON library) is answered 400, any other is repeated in
  the answer; the server stays as it is.\<close>

record 'j set_config_page =
  sp_received_config :: 'j
  sp_timestamp :: int

definition handleSetQueueConfig ::
  "(bytes \<Rightarrow> err + 'j) \<Rightarrow> time \<Rightarrow> bytes \<Rightarrow> ('x, 'c) server \<Rightarrow> (int + 'j set_config_page) \<times> ('x, 'c) server" where
  "handleSetQueueConfig decode now body sv =
     (case decode body of
        Inl _ \<Rightarrow> (Inl 400, sv)
      | Inr configUpdate \<Rightarrow> (Inr \<lparr>sp_received_config = configUpdate, sp_timestamp = Unix now\<rparr>, sv))"

text \<open>Examples only name variables that the page lists, and a setting changes nothing that the page shows.\<close>

lemma examples_known: "\<forall>(n, kvs) \<in> set queue_examples. fst ` set kvs \<subseteq> set queue_variables"
  by (simp add: queue_examples_def queue_variables_def)

lemma set_config_shows_nothing:
  "handleGetQueueConfig t (snd (handleSetQueueConfig decode now body sv)) = handleGetQueueConfig t sv"
  by (simp add: handleSetQueueConfig_def split: sum.split)

lemma async_status_counts:
  "as_async_enabled_count (getSessionsAsyncStatus sv) = 0" "as_adoption_rate (getSessionsAsyncStatus sv) = 0"
  by (simp_all add: getSessionsAsyncStatus_def async_enabled_def Let_def)

text \<open>The latency page has no value but the time: it is measured by the client.\<close>

definition handleClientLatency :: "time \<Rightarrow> int" where
  "handleClientLatency now = Unix now"

section \<open>Statistics of the parts\<close>

record service_stats =
  vs_enabled :: bool
  vs_address_count :: int
  vs_addresses :: "string list"

record services_stats =
  vs_services :: "(service_type \<times> service_stats) list"
  vs_total_services :: int
  vs_enabled_services :: int

definition services_GetStats :: "services \<Rightarrow> services_stats" where
  "services_GetStats us =
     \<lparr>vs_services = map (\<lambda>(t, s). (t, \<lparr>vs_enabled = si_Enabled s, vs_address_count = int (length (si_Addresses s)),
                                         vs_addresses = si_Addresses s\<rparr>)) us,
      vs_total_services = int (length us), vs_enabled_services = GetEnabledServiceCount us\<rparr>"

record manager_stats = services_stats +
  vs_connections :: "(string \<times> string) list"
  vs_connection_count :: int

definition sm_GetStats :: "'c service_manager \<Rightarrow> manager_stats" where
  "sm_GetStats sm =
     services_stats.extend (services_GetStats (sm_services sm))
       (manager_stats.fields (map (\<lambda>(endpoint, _). (endpoint, ''connected'')) (sm_connections sm))
          (int (length (sm_connections sm))))"

record async_stats =
  qa_max_workers :: int
  qa_max_queue_size :: int
  qa_queue_length :: int
  qa_started :: bool

definition async_GetStats :: "async \<Rightarrow> async_stats" where
  "async_GetStats a =
     \<lparr>qa_max_workers = ac_MaxWorkers (ap_config a), qa_max_queue_size = ac_MaxQueueSize (ap_config a),
      qa_queue_length = GetQueueLength a, qa_started = ap_started a\<rparr>"

definition tracker_GetStats :: "time \<Rightarrow> tracker \<Rightarrow> tracker_stats \<times> tracker" where
  "tracker_GetStats now t = GetBasicStats now t"

text \<open>Every service is shown with its own addresses, and the services counted as enabled are those shown so.\<close>

lemma services_shown:
  "map_of (vs_services (services_GetStats us)) t =
     map_option (\<lambda>s. \<lparr>vs_enabled = si_Enabled s, vs_address_count = int (length (si_Addresses s)), vs_addresses = si_Addresses s\<rparr>)
       (map_of us t)"
  "vs_enabled_services (services_GetStats us) = int (length (filter (\<lambda>(_, v). vs_enabled v) (vs_services (services_GetStats us))))"
  by (simp_all add: services_GetStats_def map_of_map GetEnabledServiceCount_def)
    (simp add: filter_map comp_def case_prod_unfold)

text \<open>A running queue never shows more tasks than its size.\<close>

lemma submit_within_size:
  assumes "qa_queue_length (async_GetStats a) \<le> qa_max_queue_size (async_GetStats a)"
  shows "qa_queue_length (async_GetStats (snd (SubmitTask t a))) \<le> qa_max_queue_size (async_GetStats (snd (SubmitTask t a)))"
  using assms by (simp add: async_GetStats_def SubmitTask_def GetQueueLength_def)

section \<open>Overload protection\<close>

definition level_status :: "float64 \<Rightarrow> string" where
  "level_status usage =
     (if greater usage (Finite 95) then ''critical'' else if greater usage (Finite 80) then ''warning'' else ''normal'')"

datatype recommendation =
  RecConnections | RecQPS | RecUpstream                                 \<comment> \<open>close to a limit\<close>
| RecConnectionsRejected | RecRequestsRejected | RecUpstreamRejected
| RecNone

definition recommendations :: "protector_stats \<Rightarrow> float64 \<Rightarrow> float64 \<Rightarrow> float64 \<Rightarrow> recommendation list" where
  "recommendations st connectionUsage qpsUsage upstreamUsage =
     (let rs = (if greater connectionUsage (Finite 90) then [RecConnections] else []) @
               (if greater qpsUsage (Finite 90) then [RecQPS] else []) @
               (if greater upstreamUsage (Finite 90) then [RecUpstream] else []) @
               (if 0 < st_connections_rejected st then [RecConnectionsRejected] else []) @
               (if 0 < st_requests_rejected st then [RecRequestsRejected] else []) @
               (if 0 < st_upstream_rejected st then [RecUpstreamRejected] else [])
      in if rs = [] then [RecNone] else rs)"

record overload_page =
  vp_stats :: protector_stats
  vp_connection_usage :: float64
  vp_connection_status :: string
  vp_qps_usage :: float64
  vp_qps_status :: string
  vp_upstream_usage :: float64
  vp_upstream_status :: string
  vp_overall_status :: string
  vp_recommendations :: "recommendation list"
  vp_timestamp :: int

definition larger :: "float64 \<Rightarrow> float64 \<Rightarrow> float64" where
  "larger x maxUsage = (if greater x maxUsage then x else maxUsage)"

definition overall_status :: "float64 \<Rightarrow> string" where
  "overall_status maxUsage =
     (if greater maxUsage (Finite 95) then ''critical'' else if greater maxUsage (Finite 80) then ''warning'' else ''healthy'')"

definition handleOverloadProtection :: "time \<Rightarrow> protector \<Rightarrow> overload_page option" where
  "handleOverloadProtection now p =
     (let st = protector_GetStats now p;
          connectionUsage = percent (Finite (of_int (st_current_connections st))) (st_max_connections st);
          upstreamUsage = percent (Finite (of_int (st_upstream_active st))) (st_max_upstream st);
          qpsPercent = (if st_max_qps st = 0 then Finite 0 else percent (st_current_qps st) (st_max_qps st));
          qpsUsage = (if 0 < st_max_qps st then percent (st_current_qps st) (st_max_qps st) else Finite 0)
      in if \<not> encodable connectionUsage \<or> \<not> encodable upstreamUsage \<or> \<not> encodable qpsPercent then None
         else Some
           \<lparr>vp_stats = st, vp_connection_usage = connectionUsage, vp_connection_status = level_status connectionUsage,
            vp_qps_usage = qpsPercent,
            vp_qps_status = (if st_max_qps st = 0 then ''disabled'' else level_status qpsPercent),
            vp_upstream_usage = upstreamUsage, vp_upstream_status = level_status upstreamUsage,
            vp_overall_status = overall_status (larger upstreamUsage (larger qpsUsage connectionUsage)),
            vp_recommendations = recommendations st connectionUsage qpsUsage upstreamUsage,
            vp_timestamp = Unix now\<rparr>)"

section \<open>Performance\<close>

text \<open>The memory of the process, in bytes, and its goroutines are those of the runtime. Reading the page moves the
  interval of the tracker's rate.\<close>

record runtime_stats =
  rt_Alloc :: nat
  rt_TotalAlloc :: nat
  rt_Sys :: nat
  rt_NumGC :: nat
  rt_NumGoroutine :: nat

record performance_page =
  pp_basic_stats :: tracker_stats
  pp_alloc_mb :: nat
  pp_total_alloc_mb :: nat
  pp_sys_mb :: nat
  pp_gc_count :: nat
  pp_goroutines :: nat

definition handleSimplePerformance :: "runtime_stats \<Rightarrow> time \<Rightarrow> ('x, 'c) server \<Rightarrow> performance_page \<times> ('x, 'c) server" where
  "handleSimplePerformance m now sv =
     (case GetBasicStats now (sv_tracker sv) of
        (st, t) \<Rightarrow>
          (\<lparr>pp_basic_stats = st, pp_alloc_mb = rt_Alloc m div 1024 div 1024, pp_total_alloc_mb = rt_TotalAlloc m div 1024 div 1024,
            pp_sys_mb = rt_Sys m div 1024 div 1024, pp_gc_count = rt_NumGC m, pp_goroutines = rt_NumGoroutine m\<rparr>,
           sv\<lparr>sv_tracker := t\<rparr>))"

section \<open>Which pages there are\<close>

datatype page = PageHealth | PageStats | PageProfile | PagePerformance

definition http_routes :: "(string \<times> page) list" where
  "http_routes =
     [(''/health'', PageHealth), (''/stats'', PageStats), (''/debug/pprof/'', PageProfile), (''/pprof/'', PageProfile),
      (''/performance'', PagePerformance)]"

section \<open>What the overload page says\<close>

text \<open>The worse of two levels; a level that is switched off is normal.\<close>

definition worse :: "string \<Rightarrow> string \<Rightarrow> string" where
  "worse a b = (if a = ''critical'' \<or> b = ''critical'' then ''critical''
     else if a = ''warning'' \<or> b = ''warning'' then ''warning'' else ''healthy'')"

lemma overall_larger:
  "overall_status (larger (Finite z) (larger (Finite y) (Finite x))) =
     worse (level_status (Finite x)) (worse (level_status (Finite y)) (level_status (Finite z)))"
  by (simp add: overall_status_def level_status_def larger_def worse_def)

text \<open>A window of no length has no finite rate, so under a limit of the rate above zero the page is empty.\<close>

lemma zero_window_no_page:
  assumes "windowSize (qpsWindow p) = 0" "0 < MaxQPS (op_config p)"
  shows "handleOverloadProtection now p = None"
  using assms by (simp add: handleOverloadProtection_def protector_GetStats_def percent_def window_Rate_def Let_def)

text \<open>C22. For limits above zero and a request window of positive length the overload page is shown, and its overall
  status is the worst of the three levels; as long as it is not critical, the next connection and the next upstream
  call are admitted. \<close>

theorem overload_page_worst:
  assumes "0 < MaxConnections (op_config p)" "0 < MaxUpstreamConcurrent (op_config p)" "0 < MaxQPS (op_config p)"
    "0 < windowSize (qpsWindow p)"
  shows "\<exists>page. handleOverloadProtection now p = Some page \<and>
    vp_overall_status page = worse (vp_connection_status page) (worse (vp_qps_status page) (vp_upstream_status page)) \<and>
    (vp_overall_status page \<noteq> ''critical'' \<longrightarrow> fst (AllowNewConnection p ms) \<and> fst (AllowUpstreamRequest p ms))"
proof -
  let ?x = "of_int (currentConnections p) / of_int (MaxConnections (op_config p)) * (100 :: rat)"
  let ?y = "of_int (window_Sum (qpsWindow p)) / (of_int (windowSize (qpsWindow p)) / of_int Second) /
    of_int (MaxQPS (op_config p)) * (100 :: rat)"
  let ?z = "of_int (upstreamActive p) / of_int (MaxUpstreamConcurrent (op_config p)) * (100 :: rat)"
  obtain page where page: "handleOverloadProtection now p = Some page" "vp_connection_status page = level_status (Finite ?x)"
    "vp_qps_status page = level_status (Finite ?y)" "vp_upstream_status page = level_status (Finite ?z)"
    "vp_overall_status page = overall_status (larger (Finite ?z) (larger (Finite ?y) (Finite ?x)))"
    using assms by (simp add: handleOverloadProtection_def protector_GetStats_def percent_def window_Rate_def Second_def Let_def)
  have full: "level_status (Finite (of_int a / of_int b * 100)) = ''critical''" if "0 < b" "b \<le> a" for a b :: int
  proof -
    have "(95 :: rat) * of_int b < 100 * of_int a" using that by linarith
    then have "(95 :: rat) < of_int a / of_int b * 100" using that(1) by (simp add: field_simps)
    then show ?thesis unfolding level_status_def by (simp only: greater.simps if_True)
  qed
  have worst: "vp_overall_status page =
      worse (vp_connection_status page) (worse (vp_qps_status page) (vp_upstream_status page))"
    unfolding page(2-5) by (rule overall_larger)
  have "vp_connection_status page = ''critical''" if "MaxConnections (op_config p) \<le> currentConnections p"
    unfolding page(2) by (rule full [OF assms(1) that])
  moreover have "vp_upstream_status page = ''critical''" if "MaxUpstreamConcurrent (op_config p) \<le> upstreamActive p"
    unfolding page(4) by (rule full [OF assms(2) that])
  ultimately have "fst (AllowNewConnection p ms) \<and> fst (AllowUpstreamRequest p ms)"
    if "vp_overall_status page \<noteq> ''critical''"
    using that unfolding worst
    by (auto simp: worse_def AllowNewConnection_def AllowUpstreamRequest_def not_le [symmetric] split: if_splits)
  then show ?thesis using page(1) worst by blast
qed

theorem overload_page_worst_witness:
  "\<exists>page. handleOverloadProtection 7 (NewOverloadProtector 5 None) = Some page \<and>
     vp_overall_status page = ''healthy'' \<and> (\<forall>ms. fst (AllowNewConnection (NewOverloadProtector 5 None) ms))"
proof -
  let ?p = "NewOverloadProtector 5 None"
  have limits: "0 < MaxConnections (op_config ?p)" "0 < MaxUpstreamConcurrent (op_config ?p)" "0 < MaxQPS (op_config ?p)"
    "0 < windowSize (qpsWindow ?p)"
    by (simp_all add: NewOverloadProtector_def DefaultOverloadConfig_def NewSlidingWindow_def Second_def i64_def)
  have "map_option vp_overall_status (handleOverloadProtection 7 ?p) = Some ''healthy''" by code_simp
  then obtain page where page: "handleOverloadProtection 7 ?p = Some page" "vp_overall_status page = ''healthy''" by auto
  have "fst (AllowNewConnection ?p ms)" for ms
    using overload_page_worst [OF limits, of 7 ms] page by simp
  then show ?thesis using page by blast
qed

end
