(* ===== verification/Metrics_Registry.thy ===== *)
theory Metrics_Registry
  imports Overload
begin

text \<open>
  The collectors that \<open>NewGateServerMetrics\<close> registers and the page of \<open>NewMetricsServer\<close>
  (\<open>pkg/metrics/metrics.go\<close>). \<open>promauto\<close> registers a collector with the default registry of the process and panics
  if its name is taken; \<open>WithLabelValues\<close> panics if the number of values is not the number of labels. The help texts
  are left out, and the buckets of the histogram are the library's default ones.
\<close>

section \<open>Registration\<close>

datatype collector_kind = Counter | Gauge | Histogram

record collector =
  co_Field :: string                \<comment> \<open>the field of \<open>GateServerMetrics\<close> that holds it\<close>
  co_Kind :: collector_kind
  co_Name :: string
  co_Labels :: "string list"

definition gate_collectors :: "collector list" where
  "gate_collectors =
     [\<lparr>co_Field = ''qpsCounter'', co_Kind = Counter, co_Name = ''gatesvr_qps_total'', co_Labels = []\<rparr>,
      \<lparr>co_Field = ''throughputBytes'', co_Kind = Counter, co_Name = ''gatesvr_throughput_bytes_total'', co_Labels = [''direction'']\<rparr>,
      \<lparr>co_Field = ''activeConnections'', co_Kind = Gauge, co_Name = ''gatesvr_active_connections'', co_Labels = []\<rparr>,
      \<lparr>co_Field = ''outboundQueueSize'', co_Kind = Gauge, co_Name = ''gatesvr_outbound_queue_size'', co_Labels = [''session_id'']\<rparr>,
      \<lparr>co_Field = ''requestDuration'', co_Kind = Histogram, co_Name = ''gatesvr_request_duration_seconds'', co_Labels = [''request_type'']\<rparr>,
      \<lparr>co_Field = ''errorCounter'', co_Kind = Counter, co_Name = ''gatesvr_errors_total'', co_Labels = [''error_type'']\<rparr>,
      \<lparr>co_Field = ''connectionsRejected'', co_Kind = Counter, co_Name = ''gatesvr_connections_rejected_total'', co_Labels = [''reason'']\<rparr>,
      \<lparr>co_Field = ''requestsRejected'', co_Kind = Counter, co_Name = ''gatesvr_requests_rejected_total'', co_Labels = [''reason'']\<rparr>,
      \<lparr>co_Field = ''upstreamRejected'', co_Kind = Counter, co_Name = ''gatesvr_upstream_rejected_total'', co_Labels = [''reason'']\<rparr>,
      \<lparr>co_Field = ''currentQPS'', co_Kind = Gauge, co_Name = ''gatesvr_current_qps'', co_Labels = []\<rparr>,
      \<lparr>co_Field = ''upstreamConcurrent'', co_Kind = Gauge, co_Name = ''gatesvr_upstream_concurrent'', co_Labels = []\<rparr>]"

text \<open>The names the registry holds afterwards; \<open>None\<close> is the panic of a name registered twice.\<close>

fun register_all :: "collector list \<Rightarrow> string list \<Rightarrow> string list option" where
  "register_all [] reg = Some reg"
| "register_all (c # cs) reg =
     (if co_Name c \<in> set reg then None else register_all cs (reg @ [co_Name c]))"

definition new_metrics :: "string list \<Rightarrow> (metrics \<times> string list) option" where
  "new_metrics reg = map_option (Pair NewGateServerMetrics) (register_all gate_collectors reg)"

lemma register_all_iff:
  "register_all cs reg =
     (if distinct (map co_Name cs) \<and> set (map co_Name cs) \<inter> set reg = {} then Some (reg @ map co_Name cs) else None)"
  by (induction cs reg rule: register_all.induct) auto

lemma gate_names_distinct: "distinct (map co_Name gate_collectors)"
  by code_simp

text \<open>A process can have the metrics of one gateway only: making them once succeeds on a registry without their names,
  making them a second time panics.\<close>

lemma metrics_once:
  assumes "new_metrics reg = Some (m, reg')"
  shows "new_metrics reg' = None" "m = []"
  using assms by (auto simp: new_metrics_def register_all_iff NewGateServerMetrics_def gate_collectors_def split: if_splits)

lemma metrics_fresh: "\<exists>reg. new_metrics [] = Some ([], reg)"
  using gate_names_distinct by (simp add: new_metrics_def register_all_iff NewGateServerMetrics_def)

section \<open>The collector of a call\<close>

text \<open>The field, the kind and the label values of a call.\<close>

fun call_target :: "metric_call \<Rightarrow> string \<times> collector_kind \<times> string list" where
  "call_target QpsCounterInc = (''qpsCounter'', Counter, [])"
| "call_target (ThroughputAdd direction n) = (''throughputBytes'', Counter, [direction])"
| "call_target (ActiveConnectionsSet n) = (''activeConnections'', Gauge, [])"
| "call_target (OutboundQueueSizeSet sid n) = (''outboundQueueSize'', Gauge, [sid])"
| "call_target (RequestDurationObserve t d) = (''requestDuration'', Histogram, [t])"
| "call_target (ErrorCounterInc t) = (''errorCounter'', Counter, [t])"
| "call_target (OutboundQueueSizeDelete sid) = (''outboundQueueSize'', Gauge, [sid])"
| "call_target (ConnectionsRejectedInc r) = (''connectionsRejected'', Counter, [r])"
| "call_target (RequestsRejectedInc r) = (''requestsRejected'', Counter, [r])"
| "call_target (UpstreamRejectedInc r) = (''upstreamRejected'', Counter, [r])"
| "call_target (CurrentQPSSet q) = (''currentQPS'', Gauge, [])"
| "call_target (UpstreamConcurrentSet n) = (''upstreamConcurrent'', Gauge, [])"

definition collector_of :: "metric_call \<Rightarrow> collector option" where
  "collector_of c = find (\<lambda>x. co_Field x = fst (call_target c)) gate_collectors"

text \<open>No call panics on its labels, and each does what the kind of its collector allows.\<close>

lemma calls_well_labelled:
  "\<exists>x. collector_of c = Some x \<and> co_Kind x = fst (snd (call_target c)) \<and>
     length (co_Labels x) = length (snd (snd (call_target c)))"
  by (cases c) (simp_all add: collector_of_def gate_collectors_def)

section \<open>The series of a session\<close>

text \<open>The sessions that have a series of \<open>gatesvr_outbound_queue_size\<close> after the calls of \<open>m\<close>.\<close>

fun series_step :: "metric_call \<Rightarrow> string list \<Rightarrow> string list" where
  "series_step (OutboundQueueSizeSet sid n) ss = List.insert sid ss"
| "series_step (OutboundQueueSizeDelete sid) ss = removeAll sid ss"
| "series_step _ ss = ss"

definition queue_series :: "metrics \<Rightarrow> string list" where
  "queue_series m = fold series_step m []"

lemma queue_series_append: "queue_series (m @ m') = fold series_step m' (queue_series m)"
  by (simp add: queue_series_def)

lemma series_ops [simp]:
  "queue_series (SetOutboundQueueSize sid n m) = List.insert sid (queue_series m)"
  "queue_series (metrics_RemoveSession sid m) = removeAll sid (queue_series m)"
  by (simp_all add: SetOutboundQueueSize_def metrics_RemoveSession_def queue_series_append)

text \<open>A series stays until \<open>RemoveSession\<close> is called for its session, which nothing in the program does.\<close>

lemma series_stays:
  assumes "sid \<in> set (queue_series m)" "OutboundQueueSizeDelete sid \<notin> set m'"
  shows "sid \<in> set (queue_series (m @ m'))"
proof -
  have "sid \<in> set (fold series_step m' ss)" if "sid \<in> set ss" for ss
    using that assms(2)
  proof (induction m' arbitrary: ss)
    case (Cons c m')
    then show ?case by (cases c) auto
  qed simp
  then show ?thesis using assms(1) by (simp add: queue_series_append)
qed

section \<open>The metrics server\<close>

datatype metrics_page = Collected | OK

definition metrics_routes :: "(string \<times> metrics_page) list" where
  "metrics_routes = [(''/metrics'', Collected), (''/health'', OK)]"

record metrics_server =
  ms_Addr :: string
  ms_routes :: "(string \<times> metrics_page) list"
  ms_closed :: bool

definition NewMetricsServer :: "string \<Rightarrow> metrics_server" where
  "NewMetricsServer addr = \<lparr>ms_Addr = addr, ms_routes = metrics_routes, ms_closed = False\<rparr>"

text \<open>\<open>Start\<close> blocks while the server serves and gives the error that ended it: that of the listener (a parameter), or that
  the server was closed.\<close>

datatype serve_end = ServeFailed err | ServerClosed

definition metrics_Start :: "(string \<Rightarrow> err option) \<Rightarrow> metrics_server \<Rightarrow> serve_end option" where
  "metrics_Start listen s =
     (if ms_closed s then Some ServerClosed else map_option ServeFailed (listen (ms_Addr s)))"

definition metrics_Stop :: "metrics_server \<Rightarrow> err option \<times> metrics_server" where
  "metrics_Stop s = (None, s\<lparr>ms_closed := True\<rparr>)"

definition metrics_get :: "string \<Rightarrow> metrics_server \<Rightarrow> metrics_page option" where
  "metrics_get path s = (if ms_closed s then None else map_of (ms_routes s) path)"

lemma metrics_pages:
  "metrics_get ''/health'' (NewMetricsServer a) = Some OK"
  "metrics_get path (snd (metrics_Stop s)) = None"
  "metrics_Start listen (snd (metrics_Stop s)) = Some ServerClosed"
  by (simp_all add: metrics_get_def NewMetricsServer_def metrics_routes_def metrics_Stop_def metrics_Start_def)

end
