(* ===== verification/Backup_Interfaces.thy ===== *)
theory Backup_Interfaces
  imports Backup_Props Gate_Server
begin

text \<open>
  \<open>internal/backup/interfaces.go\<close>. A Go interface is a table of methods: a record of functions on the value \<open>'s\<close>
  behind it. A method that starts a goroutine which panics gives \<open>None\<close>, and so does a send on a closed channel.
  What a method reads besides its value (the clock, the network, the listeners, the session manager \<open>'m\<close>, the other
  services \<open>'p\<close>, the callbacks with the state \<open>'w\<close> of their owner) is an argument; a method that can only succeed
  gives the new value alone. Each type of the package that the program uses behind an interface is given as such a
  table, and what the manager and the failover service learn through the tables is what \<open>peer_view\<close> says.
\<close>

section \<open>The interfaces\<close>

record ('s, 'x) sync_interface =
  si_Start :: "'s \<Rightarrow> 's option"
  si_Stop :: "'s \<Rightarrow> 's"
  si_SyncSession :: "time \<Rightarrow> string \<Rightarrow> 'x session \<Rightarrow> 's \<Rightarrow> (backup_error option \<times> 's) option"
  si_SyncQueueState :: "time \<Rightarrow> string \<Rightarrow> queue_meta \<Rightarrow> 's \<Rightarrow> (backup_error option \<times> 's) option"
  si_SyncMessages :: "time \<Rightarrow> string \<Rightarrow> omsg option list \<Rightarrow> 's \<Rightarrow> (backup_error option \<times> 's) option"
  si_DeleteSession :: "time \<Rightarrow> string \<Rightarrow> 's \<Rightarrow> (backup_error option \<times> 's) option"
  si_FullSync :: "time \<Rightarrow> 's \<Rightarrow> (backup_error option \<times> 's) option"
  si_GetStats :: "'s \<Rightarrow> sync_stats"
  si_IsConnected :: "'s \<Rightarrow> bool"

record ('s, 'm) receiver_interface =
  ri_Start :: "(string \<Rightarrow> err option) \<Rightarrow> 's \<Rightarrow> backup_error option \<times> 's"
  ri_Stop :: "'s \<Rightarrow> 's"
  ri_OnSyncReceived :: "time \<Rightarrow> 's \<Rightarrow> json sync_message \<Rightarrow> 'm \<Rightarrow> backup_error option \<times> 'm"
  ri_OnHeartbeatReceived :: "heartbeat_data \<Rightarrow> 'm \<Rightarrow> backup_error option \<times> 'm"
  ri_OnFullSyncReceived :: "'s \<Rightarrow> full_sync \<Rightarrow> 'm \<Rightarrow> backup_error option \<times> 'm"
  ri_GetStats :: "'s \<Rightarrow> sync_stats"

record ('s, 'w, 'p) failover_interface =
  fi_Start :: "'s \<Rightarrow> 's option"
  fi_Stop :: "'s \<Rightarrow> 's"
  fi_DetectFailure :: "time \<Rightarrow> 'p \<Rightarrow> 's \<Rightarrow> bool \<times> 's"
  fi_SwitchToPrimary :: "(server_mode \<Rightarrow> 'w \<Rightarrow> backup_error option \<times> 'w) option \<Rightarrow> time \<Rightarrow> duration \<Rightarrow> 's \<Rightarrow> 'w \<Rightarrow>
    backup_error option \<times> 's \<times> 'w"
  fi_SwitchToBackup :: "(server_mode \<Rightarrow> 'w \<Rightarrow> backup_error option \<times> 'w) option \<Rightarrow> time \<Rightarrow> duration \<Rightarrow> 's \<Rightarrow> 'w \<Rightarrow>
    backup_error option \<times> 's \<times> 'w"
  fi_RestoreSessions :: "('w \<Rightarrow> backup_error option \<times> 'w) option \<Rightarrow> 's \<Rightarrow> 'w \<Rightarrow> backup_error option \<times> 's \<times> 'w"
  fi_GetMode :: "'s \<Rightarrow> server_mode"
  fi_IsPrimary :: "'s \<Rightarrow> bool"
  fi_IsHealthy :: "'s \<Rightarrow> bool"

record ('s, 'n, 'm) heartbeat_interface =
  hi_Start :: "(string \<Rightarrow> err option) \<Rightarrow> 's \<Rightarrow> (backup_error option \<times> 's) option"
  hi_Stop :: "'s \<Rightarrow> 's"
  hi_SendHeartbeat :: "'n net \<Rightarrow> json_lib \<Rightarrow> time \<Rightarrow> duration \<Rightarrow> 'm option \<Rightarrow> 's \<Rightarrow> backup_error option \<times> 's"
  hi_OnHeartbeatReceived :: "time \<Rightarrow> heartbeat_data \<Rightarrow> 's \<Rightarrow> backup_error option \<times> 's"
  hi_IsPeerAlive :: "'s \<Rightarrow> bool"
  hi_GetLastHeartbeatTime :: "'s \<Rightarrow> int"

record data_validator =
  vi_ValidateSession :: "session_sync option \<Rightarrow> backup_error option"
  vi_ValidateQueue :: "queue_meta option \<Rightarrow> backup_error option"
  vi_ValidateMessages :: "omsg option list \<Rightarrow> backup_error option"
  vi_CalculateChecksum :: "checked \<Rightarrow> u32"
  vi_VerifyChecksum :: "checked \<Rightarrow> u32 \<Rightarrow> bool"

record ('s, 'm) manager_interface =
  mi_Start :: "(string \<Rightarrow> err option) \<Rightarrow> time \<Rightarrow> 's \<Rightarrow> backup_error option \<times> 's"
  mi_Stop :: "'s \<Rightarrow> 's"
  mi_GetMode :: "'s \<Rightarrow> server_mode"
  mi_SwitchMode :: "server_mode \<Rightarrow> 's \<Rightarrow> (backup_error option \<times> 's) option"
  mi_RegisterSessionManager :: "'s \<Rightarrow> 's"
  mi_GetStats :: "'s \<Rightarrow> backup_report"
  mi_IsHealthy :: "'s \<Rightarrow> bool"
  mi_TriggerSync :: "time \<Rightarrow> 's \<Rightarrow> backup_error option \<times> 's"
  mi_TriggerFailover :: "(string \<Rightarrow> err option) \<Rightarrow> time \<Rightarrow> duration \<Rightarrow> 's \<Rightarrow> backup_error option \<times> 's"

section \<open>The types behind them\<close>

definition sync_methods :: "('n sync_service, 'x) sync_interface" where
  "sync_methods =
     \<lparr>si_Start = sync_Start, si_Stop = sync_Stop, si_SyncSession = SyncSession, si_SyncQueueState = SyncQueueState,
      si_SyncMessages = SyncMessages, si_DeleteSession = DeleteSession, si_FullSync = FullSync,
      si_GetStats = sync_GetStats, si_IsConnected = sync_IsConnected\<rparr>"

definition receiver_methods :: "'x ext \<Rightarrow> json_lib \<Rightarrow> (receiver, 'x manager) receiver_interface" where
  "receiver_methods e L =
     \<lparr>ri_Start = receiver_Start, ri_Stop = receiver_Stop, ri_OnSyncReceived = OnSyncReceived e L,
      ri_OnHeartbeatReceived = receiver_OnHeartbeatReceived, ri_OnFullSyncReceived = OnFullSyncReceived,
      ri_GetStats = receiver_GetStats\<rparr>"

definition failover_methods :: "(failover, 'w, peer) failover_interface" where
  "failover_methods =
     \<lparr>fi_Start = failover_Start, fi_Stop = failover_Stop, fi_DetectFailure = DetectFailure,
      fi_SwitchToPrimary = SwitchToPrimary, fi_SwitchToBackup = SwitchToBackup, fi_RestoreSessions = RestoreSessions,
      fi_GetMode = failover_GetMode, fi_IsPrimary = IsPrimary, fi_IsHealthy = failover_IsHealthy\<rparr>"

definition heartbeat_methods :: "('n heartbeat, 'n, 'x manager) heartbeat_interface" where
  "heartbeat_methods =
     \<lparr>hi_Start = heartbeat_Start, hi_Stop = heartbeat_Stop, hi_SendHeartbeat = SendHeartbeat,
      hi_OnHeartbeatReceived = OnHeartbeatReceived, hi_IsPeerAlive = IsPeerAlive,
      hi_GetLastHeartbeatTime = GetLastHeartbeatTime\<rparr>"

definition NewDataValidator :: data_validator where
  "NewDataValidator =
     \<lparr>vi_ValidateSession = ValidateSession, vi_ValidateQueue = ValidateQueue, vi_ValidateMessages = ValidateMessages,
      vi_CalculateChecksum = CalculateChecksum, vi_VerifyChecksum = VerifyChecksum\<rparr>"

definition manager_methods :: "('n backup_system, 'x manager) manager_interface" where
  "manager_methods =
     \<lparr>mi_Start = bm_Start, mi_Stop = bm_Stop, mi_GetMode = (\<lambda>s. bm_GetMode (fst s)), mi_SwitchMode = SwitchMode,
      mi_RegisterSessionManager = apfst RegisterSessionManager, mi_GetStats = bm_GetStats, mi_IsHealthy = bm_IsHealthy,
      mi_TriggerSync = (\<lambda>now s. case TriggerSync now (fst s) of (r, b) \<Rightarrow> (r, b, snd s)),
      mi_TriggerFailover = TriggerFailover\<rparr>"

section \<open>How the modes are named\<close>

text \<open>The three texts of the \<open>getModeString\<close> functions: primary server, backup server, unknown.\<close>

datatype mode_name = NamePrimary | NameBackup | NameUnknown

fun getModeName :: "server_mode \<Rightarrow> mode_name" where
  "getModeName ModePrimary = NamePrimary"
| "getModeName ModeBackup = NameBackup"
| "getModeName (ModeOther _) = NameUnknown"

definition bm_getModeString :: "'n backup \<Rightarrow> mode_name" where
  "bm_getModeString b = getModeName (bm_GetMode b)"

definition heartbeat_getModeString :: "'n heartbeat \<Rightarrow> mode_name" where
  "heartbeat_getModeString h = getModeName (hb_mode h)"

definition failover_getModeString :: "failover \<Rightarrow> mode_name" where
  "failover_getModeString f = getModeName (failover_GetMode f)"

text \<open>The synchronisation service knows no third name.\<close>

definition sync_getModeString :: "'n sync_service \<Rightarrow> mode_name" where
  "sync_getModeString s = (if sc_Mode (ss_config s) = ModePrimary then NamePrimary else NameBackup)"

section \<open>Calls through the tables\<close>

text \<open>What the failover service asks of the heartbeat and the synchronisation service it was given.\<close>

definition peer_of ::
  "('h, 'n, 'm) heartbeat_interface \<Rightarrow> 'h option \<Rightarrow> ('s, 'x) sync_interface \<Rightarrow> 's option \<Rightarrow> peer" where
  "peer_of H h S s =
     \<lparr>pe_alive = (case h of Some x \<Rightarrow> hi_IsPeerAlive H x | None \<Rightarrow> False),
      pe_lastHeartbeat = (case h of Some x \<Rightarrow> hi_GetLastHeartbeatTime H x | None \<Rightarrow> 0),
      pe_connected = (case s of Some x \<Rightarrow> si_IsConnected S x | None \<Rightarrow> False),
      pe_errors = (case s of Some x \<Rightarrow> ErrorCount (si_GetStats S x) | None \<Rightarrow> 0)\<rparr>"

lemma peer_view_dispatch:
  "peer_view b f = peer_of heartbeat_methods (bm_heartbeat b) sync_methods (map_option (\<lambda>i. bm_services b ! i) (fo_syncSvc f))"
  by (simp add: peer_view_def peer_of_def heartbeat_methods_def sync_methods_def Let_def split: option.split)

lemma validator_accepts_own: "vi_VerifyChecksum NewDataValidator d (vi_CalculateChecksum NewDataValidator d)"
  by (simp add: NewDataValidator_def VerifyChecksum_def)

section \<open>The life of a service\<close>

text \<open>
  The contract of \<open>Stop\<close> that all five types share: it leaves the value stopped, a second call does nothing, and the
  first one ends the context of the goroutines. A \<open>ticking\<close> service has goroutines that do nothing once the context
  is done.
\<close>

locale service =
  fixes stop :: "'s \<Rightarrow> 's" and stopped cancelled :: "'s \<Rightarrow> bool"
  assumes stop_stops: "stopped (stop s)"
    and stop_again: "stopped s \<Longrightarrow> stop s = s"
    and stop_cancels: "\<not> stopped s \<Longrightarrow> cancelled (stop s)"
begin

lemma stop_idem: "stop (stop s) = stop s"
  by (rule stop_again) (rule stop_stops)

lemma stop_many: "(stop ^^ Suc n) s = stop s"
  by (induction n) (simp_all add: stop_idem)

end

locale ticking = service stop stopped cancelled
  for stop :: "'s \<Rightarrow> 's" and stopped cancelled :: "'s \<Rightarrow> bool" +
  fixes tick :: "'t \<Rightarrow> 's \<Rightarrow> 's"
  assumes tick_done: "cancelled s \<Longrightarrow> tick t s = s"
begin

lemma quiet: "cancelled s \<Longrightarrow> fold tick ts s = s"
  by (induction ts) (simp_all add: tick_done)

lemma stopped_quiet: "\<not> stopped s \<Longrightarrow> fold tick ts (stop s) = stop s"
  by (rule quiet) (rule stop_cancels)

end

interpretation sync_life: service sync_Stop ss_stopped ss_cancelled
  by unfold_locales (simp_all add: sync_Stop_def sync_closeConnection_def sync_updateStats_def)

interpretation receiver_life: service receiver_Stop rv_stopped rv_cancelled
  by unfold_locales (simp_all add: receiver_Stop_def)

text \<open>The goroutines of the heartbeat service: the sender, the manager of the connection, the test of the peer.\<close>

datatype ('n, 'x) heartbeat_turn =
  TurnSend "'n net" json_lib time duration "'x manager option" | TurnConnect "'n net" bool | TurnCheck time

fun heartbeat_tick :: "('n, 'x) heartbeat_turn \<Rightarrow> 'n heartbeat \<Rightarrow> 'n heartbeat" where
  "heartbeat_tick (TurnSend nw L now latency mgr) h = heartbeatSender nw L now latency mgr h"
| "heartbeat_tick (TurnConnect nw reconnect) h = heartbeat_connectionManager nw reconnect h"
| "heartbeat_tick (TurnCheck now) h = heartbeatChecker now h"

interpretation heartbeat_life: ticking heartbeat_Stop hb_stopped hb_cancelled "heartbeat_tick :: ('n, 'x) heartbeat_turn \<Rightarrow> _"
proof unfold_locales
  fix s :: "'n heartbeat" and t :: "('n, 'x) heartbeat_turn"
  show "hb_cancelled s \<Longrightarrow> heartbeat_tick t s = s"
    by (cases t) (simp_all add: heartbeatSender_def heartbeat_connectionManager_def heartbeatChecker_def)
qed (simp_all add: heartbeat_Stop_def closeListener_def heartbeat_closeConnection_def setPeerAlive_def)

interpretation failover_life: ticking failover_Stop fo_stopped fo_cancelled healthChecker
  by unfold_locales (simp_all add: failover_Stop_def healthChecker_def)

text \<open>The goroutines of the manager that change something: its statistics and the periodic synchronisation.\<close>

datatype 'x manager_turn = TurnStats time "'x manager option" | TurnPeriodic time "'x manager option"

fun manager_tick :: "'x manager_turn \<Rightarrow> 'n backup_system \<Rightarrow> 'n backup_system" where
  "manager_tick (TurnStats now mgr) sys = statsUpdater now mgr sys"
| "manager_tick (TurnPeriodic now mgr) sys = (periodicSync now mgr (fst sys), snd sys)"

lemma bm_Stop_marks:
  "\<not> bm_stopped b \<Longrightarrow> bm_stopped (fst (bm_Stop (b, f))) \<and> bm_cancelled (fst (bm_Stop (b, f)))"
  by (simp add: bm_Stop_def upd_service_def Let_def split: option.split)

interpretation manager_life: ticking bm_Stop "\<lambda>s. bm_stopped (fst s)" "\<lambda>s. bm_cancelled (fst s)"
  "manager_tick :: 'x manager_turn \<Rightarrow> 'n backup_system \<Rightarrow> 'n backup_system"
proof unfold_locales
  fix s :: "'n backup_system"
  show "bm_stopped (fst (bm_Stop s))"
    using bm_Stop_marks [of "fst s" "snd s"] by (cases s; cases "bm_stopped (fst s)") (simp_all add: bm_Stop_def)
  show "bm_stopped (fst s) \<Longrightarrow> bm_Stop s = s" by (cases s) (simp add: bm_Stop_def)
  show "\<not> bm_stopped (fst s) \<Longrightarrow> bm_cancelled (fst (bm_Stop s))"
    using bm_Stop_marks [of "fst s" "snd s"] by simp
  fix t :: "'x manager_turn"
  show "bm_cancelled (fst s) \<Longrightarrow> manager_tick t s = s" by (cases t) (simp_all add: statsUpdater_def periodicSync_def)
qed

text \<open>Stopping a manager ends what it holds: the synchronisation service in use, receiver, heartbeat and failover
  service are stopped, none of them keeps a connection or a listener, and the detection finds nothing more. \<close>

lemma stop_reaches_all:
  assumes "\<not> bm_stopped b" "bm_Stop (b, f) = (b', f')"
  shows "(\<forall>i. bm_syncService b' = Some i \<longrightarrow> i < length (bm_services b) \<longrightarrow> ss_stopped (bm_services b' ! i))"
    "(\<forall>r. bm_syncReceiver b' = Some r \<longrightarrow> rv_stopped r)" "(\<forall>h. bm_heartbeat b' = Some h \<longrightarrow> hb_stopped h)"
    "(\<forall>g. f' = Some g \<longrightarrow> fo_stopped g)"
  using assms sync_life.stop_stops receiver_life.stop_stops heartbeat_life.stop_stops failover_life.stop_stops
  by (auto simp: bm_Stop_def upd_service_def Let_def split: option.splits)

lemma stop_ends_detection:
  assumes "\<And>g. f = Some g \<Longrightarrow> \<not> fo_stopped g" "\<not> bm_stopped b"
  shows "detector_tick listen now dur (bm_Stop (b, f)) = bm_Stop (b, f)"
  using assms failover_life.stop_cancels
  by (cases f) (simp_all add: bm_Stop_def detector_tick_def failureDetector_def Let_def)

end
