(* ===== verification/Log_Rotation.thy ===== *)
theory Log_Rotation
  imports Go_Text
begin

text \<open>
  The rotating log file of \<open>cmd/gatesvr/main.go\<close> (\<open>rotatingWriter\<close>).

  A disk is a map from names to contents. A handle refers to the file it was opened on; every rotation
  closes it before it renames, so an open handle always refers to the file called \<open>filename\<close>. Which
  calls of the operating system fail is said by \<open>faults\<close>; the program ignores failures of removing and
  of renaming backups. The \<open>log\<close> package writes one message at a time.
\<close>

section \<open>Disk\<close>

type_synonym disk = "string \<Rightarrow> bytes option"

record faults =
  ft_remove :: "string \<Rightarrow> bool"
  ft_rename :: "string \<Rightarrow> bool"
  ft_open :: bool
  ft_write :: "nat option"      \<comment> \<open>how much of the message was written before the error\<close>

definition no_faults :: faults where
  "no_faults = \<lparr>ft_remove = (\<lambda>_. False), ft_rename = (\<lambda>_. False), ft_open = False, ft_write = None\<rparr>"

datatype log_error = LogRename | LogOpen | LogWrite | LogClosed

definition os_Remove :: "faults \<Rightarrow> string \<Rightarrow> disk \<Rightarrow> disk" where
  "os_Remove ft name d = (if ft_remove ft name then d else d(name := None))"

text \<open>\<open>os.Rename\<close> replaces the new name; a missing old name is an error that changes nothing.\<close>

definition os_Rename :: "faults \<Rightarrow> string \<Rightarrow> string \<Rightarrow> disk \<Rightarrow> disk" where
  "os_Rename ft old new d = (if ft_rename ft old \<or> d old = None then d else d(new := d old, old := None))"

section \<open>The writer\<close>

datatype handle = NilFile | OpenFile | ClosedFile

record log_writer =
  lw_filename :: string
  lw_maxSize :: int
  lw_maxBackup :: nat
  lw_file :: handle
  lw_currentSize :: int

definition backup_name :: "string \<Rightarrow> nat \<Rightarrow> string" where
  "backup_name f i = f @ ''.'' @ show_nat i"

text \<open>The loop over the backups, from \<open>i\<close> down to 1.\<close>

fun shift_backups :: "faults \<Rightarrow> string \<Rightarrow> nat \<Rightarrow> nat \<Rightarrow> disk \<Rightarrow> disk" where
  "shift_backups ft f maxBackup 0 d = d"
| "shift_backups ft f maxBackup (Suc i) d =
     shift_backups ft f maxBackup i
       (if d (backup_name f (Suc i)) \<noteq> None then
          os_Rename ft (backup_name f (Suc i)) (backup_name f (Suc (Suc i)))
            (if Suc i = maxBackup - 1 then os_Remove ft (backup_name f (Suc (Suc i))) d else d)
        else d)"

definition log_rotate :: "faults \<Rightarrow> log_writer \<times> disk \<Rightarrow> log_error option \<times> log_writer \<times> disk" where
  "log_rotate ft wd =
     (case wd of (w0, d0) \<Rightarrow>
        let f = lw_filename w0;
            w = (if lw_file w0 = NilFile then w0 else w0\<lparr>lw_file := ClosedFile\<rparr>);
            d = shift_backups ft f (lw_maxBackup w) (lw_maxBackup w - 1) d0
        in if d f \<noteq> None \<and> ft_rename ft f then (Some LogRename, w, d)
           else
             let d1 = (if d f \<noteq> None then os_Rename ft f (backup_name f 1) d else d) in
             if ft_open ft then (Some LogOpen, w, d1)
             else (None, w\<lparr>lw_file := OpenFile, lw_currentSize := 0\<rparr>, d1(f := Some [])))"

text \<open>Opening for appending creates the file if there is none.\<close>

definition openCurrent :: "faults \<Rightarrow> log_writer \<times> disk \<Rightarrow> log_error option \<times> log_writer \<times> disk" where
  "openCurrent ft wd =
     (case wd of (w0, d0) \<Rightarrow>
        case (case d0 (lw_filename w0) of
                None \<Rightarrow> (None, w0, d0)
              | Some c \<Rightarrow>
                  let w = w0\<lparr>lw_currentSize := int (length c)\<rparr> in
                  if lw_maxSize w \<le> lw_currentSize w then
                    (case log_rotate ft (w, d0) of
                       (Some e, r) \<Rightarrow> (Some e, r)
                     | (None, w1, d1) \<Rightarrow> (None, w1\<lparr>lw_currentSize := 0\<rparr>, d1))
                  else (None, w, d0)) of
          (Some e, r) \<Rightarrow> (Some e, r)
        | (None, w, d) \<Rightarrow>
            if ft_open ft then (Some LogOpen, w, d)
            else (None, w\<lparr>lw_file := OpenFile\<rparr>, d(lw_filename w := Some (case d (lw_filename w) of None \<Rightarrow> [] | Some c \<Rightarrow> c))))"

definition append_file :: "string \<Rightarrow> bytes \<Rightarrow> disk \<Rightarrow> disk" where
  "append_file f p d = d(f := Some ((case d f of None \<Rightarrow> [] | Some c \<Rightarrow> c) @ p))"

text \<open>\<open>Write\<close>: the number of bytes written and the error.\<close>

definition log_Write :: "faults \<Rightarrow> bytes \<Rightarrow> log_writer \<times> disk \<Rightarrow> (nat \<times> log_error option) \<times> log_writer \<times> disk" where
  "log_Write ft p wd =
     (case (if lw_maxSize (fst wd) < lw_currentSize (fst wd) + int (length p) then log_rotate ft wd else (None, wd)) of
        (Some e, r) \<Rightarrow> ((0, Some e), r)
      | (None, w, d) \<Rightarrow>
          if lw_file w \<noteq> OpenFile then ((0, Some LogClosed), w, d)
          else (case ft_write ft of
                  Some n \<Rightarrow> ((min n (length p), Some LogWrite), w, append_file (lw_filename w) (take n p) d)
                | None \<Rightarrow> ((length p, None), w\<lparr>lw_currentSize := lw_currentSize w + int (length p)\<rparr>,
                           append_file (lw_filename w) p d)))"

text \<open>\<open>setupLogToFile\<close>: three megabytes and five backups.\<close>

definition setupLogToFile :: "faults \<Rightarrow> disk \<Rightarrow> log_error option \<times> log_writer \<times> disk" where
  "setupLogToFile ft d =
     openCurrent ft (\<lparr>lw_filename = ''gatesvr.log'', lw_maxSize = 3 * 1024 * 1024, lw_maxBackup = 5, lw_file = NilFile,
                      lw_currentSize = 0\<rparr>, d)"

section \<open>Names\<close>

lemma backup_name_simps [simp]:
  "backup_name f i = backup_name f j \<longleftrightarrow> i = j" "backup_name f i \<noteq> f" "f \<noteq> backup_name f i"
  by (simp_all add: backup_name_def)

lemma backup_name_image [simp]:
  "backup_name f j \<in> backup_name f ` S \<longleftrightarrow> j \<in> S" "f \<notin> backup_name f ` S"
  by (auto simp: image_iff)

section \<open>What the files hold together\<close>

definition content :: "disk \<Rightarrow> string \<Rightarrow> bytes" where
  "content d x = (case d x of None \<Rightarrow> [] | Some c \<Rightarrow> c)"

text \<open>The backups from the oldest, number \<open>k\<close>, to number 1, and the whole log.\<close>

fun backups :: "string \<Rightarrow> disk \<Rightarrow> nat \<Rightarrow> bytes" where
  "backups f d 0 = []"
| "backups f d (Suc k) = content d (backup_name f (Suc k)) @ backups f d k"

definition log_history :: "log_writer \<times> disk \<Rightarrow> bytes" where
  "log_history wd = backups (lw_filename (fst wd)) (snd wd) (lw_maxBackup (fst wd)) @ content (snd wd) (lw_filename (fst wd))"

lemma backups_cong:
  "(\<And>j. 1 \<le> j \<Longrightarrow> j \<le> k \<Longrightarrow> d' (backup_name f j) = d (backup_name f j)) \<Longrightarrow> backups f d' k = backups f d k"
  by (induction k) (simp_all add: content_def)

lemma backups_first:
  "d (backup_name f 1) = None \<Longrightarrow> backups f (d(backup_name f 1 := Some c)) (Suc k) = backups f d (Suc k) @ c"
proof (induction k)
  case (Suc k)
  then show ?case by (simp add: content_def del: backups.simps(2) add: backups.simps(2) [of f _ "Suc k"])
qed (simp add: content_def)

lemma fault_free [simp]:
  "os_Remove no_faults x d = d(x := None)"
  "os_Rename no_faults x y d = (if d x = None then d else d(y := d x, x := None))"
  "ft_rename no_faults x = False" "ft_open no_faults = False" "ft_write no_faults = None"
  by (simp_all add: os_Remove_def os_Rename_def no_faults_def)

text \<open>Below the top, moving the backups up by one loses nothing and leaves the first name free.\<close>

lemma shift_keeps:
  assumes "d (backup_name f (Suc i)) = None" "Suc i < n"
  shows "backups f (shift_backups no_faults f n i d) (Suc i) = backups f d (Suc i) \<and>
    shift_backups no_faults f n i d (backup_name f 1) = None \<and>
    (\<forall>x. x \<notin> backup_name f ` {1..Suc i} \<longrightarrow> shift_backups no_faults f n i d x = d x)"
  using assms
proof (induction i arbitrary: d)
  case (Suc i)
  let ?a = "backup_name f (Suc i)" and ?b = "backup_name f (Suc (Suc i))"
  let ?d = "if d ?a \<noteq> None then d(?b := d ?a, ?a := None) else d"
  have step: "shift_backups no_faults f n (Suc i) d = shift_backups no_faults f n i ?d"
    using Suc.prems(2) by (subst shift_backups.simps) (simp add: less_diff_conv)
  have free: "?d ?a = None" by simp
  note ih = Suc.IH [of ?d, OF free Suc_lessD [OF Suc.prems(2)]]
  have low: "backups f ?d i = backups f d i" by (rule backups_cong) auto
  have "shift_backups no_faults f n i ?d ?b = ?d ?b" using ih by auto
  then have "backups f (shift_backups no_faults f n i ?d) (Suc (Suc i)) = content ?d ?b @ backups f ?d (Suc i)"
    using ih by (simp add: content_def)
  also have "\<dots> = backups f d (Suc (Suc i))" using Suc.prems(1) low by (auto simp: content_def)
  finally show ?case using ih unfolding step by (auto simp: image_iff)
qed simp

text \<open>With the oldest backup, which the backup below it replaces.\<close>

lemma shift_all:
  assumes "2 \<le> n"
  shows "\<exists>dropped. backups f d n = dropped @ backups f (shift_backups no_faults f n (n - 1) d) n \<and>
    shift_backups no_faults f n (n - 1) d (backup_name f 1) = None \<and>
    (\<forall>x. x \<notin> backup_name f ` {1..n} \<longrightarrow> shift_backups no_faults f n (n - 1) d x = d x)"
proof -
  obtain i where n: "n = Suc (Suc i)" using assms by (metis add_2_eq_Suc le_Suc_ex)
  let ?a = "backup_name f (Suc i)" and ?b = "backup_name f n"
  let ?d = "if d ?a \<noteq> None then d(?b := d ?a, ?a := None) else d"
  have step: "shift_backups no_faults f n (n - 1) d = shift_backups no_faults f n i ?d"
    by (simp add: n fun_upd_twist)
  have free: "?d ?a = None" by simp
  have "Suc i < n" by (simp add: n)
  note ih = shift_keeps [of ?d, OF free this]
  have low: "backups f ?d i = backups f d i" by (rule backups_cong) (auto simp: n)
  have "shift_backups no_faults f n i ?d ?b = ?d ?b" using ih by (auto simp: n)
  then have "backups f (shift_backups no_faults f n i ?d) n = content ?d ?b @ backups f ?d (Suc i)"
    using ih by (simp add: n content_def)
  also have "\<dots> = content ?d ?b @ backups f d i" using low by (simp add: content_def)
  finally have "backups f d n = (if d ?a \<noteq> None then content d ?b else []) @ backups f (shift_backups no_faults f n i ?d) n"
    by (auto simp: n content_def)
  then show ?thesis using ih unfolding step by (auto simp: n image_iff)
qed

lemma rotate_keeps:
  assumes "2 \<le> lw_maxBackup w"
  obtains d' dropped where
    "log_rotate no_faults (w, d) = (None, w\<lparr>lw_file := OpenFile, lw_currentSize := 0\<rparr>, d')"
    "d' (lw_filename w) = Some []" "log_history (w, d) = dropped @ log_history (w, d')"
proof -
  let ?f = "lw_filename w" and ?n = "lw_maxBackup w"
  let ?s = "shift_backups no_faults ?f ?n (?n - 1) d"
  obtain dropped where s: "backups ?f d ?n = dropped @ backups ?f ?s ?n" "?s (backup_name ?f 1) = None"
    "\<forall>x. x \<notin> backup_name ?f ` {1..?n} \<longrightarrow> ?s x = d x"
    using shift_all [OF assms, of ?f d] by blast
  let ?r = "if ?s ?f \<noteq> None then ?s(backup_name ?f 1 := ?s ?f, ?f := None) else ?s"
  have f: "?s ?f = d ?f" using s(3) by (auto simp: image_iff)
  have "log_rotate no_faults (w, d) = (None, w\<lparr>lw_file := OpenFile, lw_currentSize := 0\<rparr>, ?r(?f := Some []))"
    by (auto simp: log_rotate_def Let_def)
  moreover have "log_history (w, d) = dropped @ log_history (w, ?r(?f := Some []))"
  proof (cases "d ?f")
    case None
    then show ?thesis using s(1) f backups_cong [of ?n "?s(?f := Some [])" ?f ?s] by (simp add: log_history_def content_def)
  next
    case (Some c)
    obtain k where k: "?n = Suc k" using assms by (cases ?n) auto
    have "backups ?f (?r(?f := Some [])) ?n = backups ?f (?s(backup_name ?f 1 := Some c)) ?n"
      using f Some by (intro backups_cong) auto
    also have "\<dots> = backups ?f ?s ?n @ c" using backups_first [of ?s ?f c k] s(2) k by simp
    finally show ?thesis using s(1) Some by (simp add: log_history_def content_def)
  qed
  ultimately show thesis by (intro that) auto
qed

section \<open>The size of the files\<close>

definition log_names :: "string \<Rightarrow> nat \<Rightarrow> string set" where
  "log_names f n = insert f (backup_name f ` {1..n})"

definition small_files :: "int \<Rightarrow> string set \<Rightarrow> disk \<Rightarrow> bool" where
  "small_files M N d \<longleftrightarrow> (\<forall>x \<in> N. int (length (content d x)) \<le> M)"

lemma shift_small:
  assumes "small_files M N d" "0 \<le> M" "backup_name f ` {1..Suc i} \<subseteq> N"
  shows "small_files M N (shift_backups no_faults f n i d)"
  using assms
proof (induction i arbitrary: d)
  case (Suc i)
  let ?a = "backup_name f (Suc i)" and ?b = "backup_name f (Suc (Suc i))"
  have "?a \<in> N" "?b \<in> N" using Suc.prems(3) by auto
  then have "small_files M N (d(?b := d ?a, ?a := None))" "small_files M N (d(?b := None, ?b := d ?a, ?a := None))"
    using Suc.prems(1,2) by (auto simp: small_files_def content_def split: option.splits)
  then have e: "small_files M N (if d ?a \<noteq> None then os_Rename no_faults ?a ?b (if Suc i = n - 1 then os_Remove no_faults ?b d else d) else d)"
    using Suc.prems(1) by (simp split del: if_split) (auto simp: fun_upd_twist)
  have "backup_name f ` {1..Suc i} \<subseteq> N" using Suc.prems(3) by auto
  from Suc.IH [OF e Suc.prems(2) this] show ?case by (simp only: shift_backups.simps)
qed simp

lemma rotate_small:
  assumes "log_rotate no_faults (w, d) = (None, w', d')" "small_files M (log_names (lw_filename w) (lw_maxBackup w)) d"
    "0 \<le> M" "2 \<le> lw_maxBackup w"
  shows "small_files M (log_names (lw_filename w) (lw_maxBackup w)) d'"
proof -
  let ?f = "lw_filename w" and ?n = "lw_maxBackup w"
  let ?s = "shift_backups no_faults ?f ?n (?n - 1) d"
  have "backup_name ?f ` {1..Suc (?n - 1)} \<subseteq> log_names ?f ?n" using assms(4) by (auto simp: log_names_def)
  then have s: "small_files M (log_names ?f ?n) ?s" by (rule shift_small [OF assms(2,3)])
  have "?f \<in> log_names ?f ?n" by (simp add: log_names_def)
  moreover have "d' = (if ?s ?f \<noteq> None then ?s(backup_name ?f 1 := ?s ?f, ?f := None) else ?s)(?f := Some [])"
    using assms(1) by (auto simp: log_rotate_def Let_def split: if_splits)
  ultimately show ?thesis using s assms(3) by (auto simp: small_files_def content_def)
qed

section \<open>Writing\<close>

definition log_ok :: "log_writer \<times> disk \<Rightarrow> bool" where
  "log_ok wd \<longleftrightarrow> lw_file (fst wd) = OpenFile \<and> 2 \<le> lw_maxBackup (fst wd) \<and> snd wd (lw_filename (fst wd)) \<noteq> None \<and>
     lw_currentSize (fst wd) = int (length (content (snd wd) (lw_filename (fst wd))))"

definition same_log :: "log_writer \<Rightarrow> log_writer \<Rightarrow> bool" where
  "same_log w w' \<longleftrightarrow> lw_filename w' = lw_filename w \<and> lw_maxBackup w' = lw_maxBackup w \<and> lw_maxSize w' = lw_maxSize w"

abbreviation log_small :: "log_writer \<times> disk \<Rightarrow> bool" where
  "log_small wd \<equiv> small_files (lw_maxSize (fst wd)) (log_names (lw_filename (fst wd)) (lw_maxBackup (fst wd))) (snd wd)"

lemma append_step:
  assumes "log_ok (w, d)" "lw_currentSize w + int (length p) \<le> lw_maxSize w"
  shows "log_ok (w\<lparr>lw_currentSize := lw_currentSize w + int (length p)\<rparr>, append_file (lw_filename w) p d) \<and>
    log_history (w, d) @ p = log_history (w\<lparr>lw_currentSize := lw_currentSize w + int (length p)\<rparr>, append_file (lw_filename w) p d) \<and>
    (log_small (w, d) \<longrightarrow> log_small (w\<lparr>lw_currentSize := lw_currentSize w + int (length p)\<rparr>, append_file (lw_filename w) p d))"
proof -
  have "backups (lw_filename w) (append_file (lw_filename w) p d) (lw_maxBackup w) = backups (lw_filename w) d (lw_maxBackup w)"
    by (rule backups_cong) (simp add: append_file_def)
  then show ?thesis
    using assms by (auto simp: log_ok_def log_history_def append_file_def content_def small_files_def split: option.splits)
qed

lemma write_step:
  assumes "log_ok (w, d)" "0 \<le> lw_maxSize w" "int (length p) \<le> lw_maxSize w"
  obtains w' d' dropped where "log_Write no_faults p (w, d) = ((length p, None), w', d')" "log_ok (w', d')" "same_log w w'"
    "log_history (w, d) @ p = dropped @ log_history (w', d')" "log_small (w, d) \<longrightarrow> log_small (w', d')"
proof (cases "lw_maxSize w < lw_currentSize w + int (length p)")
  case False
  then show ?thesis
    using assms(1) append_step [of w d p]
    by (intro that [of "w\<lparr>lw_currentSize := lw_currentSize w + int (length p)\<rparr>" "append_file (lw_filename w) p d" "[]"])
      (auto simp: log_Write_def log_ok_def same_log_def)
next
  case True
  let ?w = "w\<lparr>lw_file := OpenFile, lw_currentSize := 0\<rparr>"
  obtain d1 dropped where r: "log_rotate no_faults (w, d) = (None, ?w, d1)" "d1 (lw_filename w) = Some []"
    "log_history (w, d) = dropped @ log_history (w, d1)"
    using rotate_keeps [of w d] assms(1) by (auto simp: log_ok_def)
  have ok: "log_ok (?w, d1)" using assms(1) r(2) by (simp add: log_ok_def content_def)
  have "log_small (w, d) \<longrightarrow> log_small (?w, d1)"
    using rotate_small [OF r(1)] assms by (auto simp: log_ok_def)
  moreover have "log_history (?w, d1) = log_history (w, d1)" by (simp add: log_history_def)
  ultimately show ?thesis
    using append_step [OF ok, of p] assms(3) r True
    by (intro that [of "?w\<lparr>lw_currentSize := int (length p)\<rparr>" "append_file (lw_filename w) p d1" dropped])
      (auto simp: log_Write_def same_log_def)
qed

text \<open>The messages one after the other.\<close>

definition log_run :: "bytes list \<Rightarrow> log_writer \<times> disk \<Rightarrow> log_writer \<times> disk" where
  "log_run ps wd = fold (\<lambda>p wd. snd (log_Write no_faults p wd)) ps wd"

lemma run_keeps:
  assumes "log_ok wd" "0 \<le> lw_maxSize (fst wd)" "\<And>p. p \<in> set ps \<Longrightarrow> int (length p) \<le> lw_maxSize (fst wd)"
  shows "(\<exists>dropped. log_history wd @ concat ps = dropped @ log_history (log_run ps wd)) \<and>
    (log_small wd \<longrightarrow> log_small (log_run ps wd)) \<and> log_ok (log_run ps wd) \<and> same_log (fst wd) (fst (log_run ps wd))"
  using assms
proof (induction ps arbitrary: wd)
  case (Cons p ps)
  obtain w d where wd: "wd = (w, d)" by (metis surj_pair)
  obtain w' d' dropped where s: "log_Write no_faults p (w, d) = ((length p, None), w', d')" "log_ok (w', d')" "same_log w w'"
    "log_history (w, d) @ p = dropped @ log_history (w', d')" "log_small (w, d) \<longrightarrow> log_small (w', d')"
    using write_step [of w d p] Cons.prems by (auto simp: wd)
  have "0 \<le> lw_maxSize (fst (w', d'))" "\<And>q. q \<in> set ps \<Longrightarrow> int (length q) \<le> lw_maxSize (fst (w', d'))"
    using Cons.prems s(3) by (auto simp: wd same_log_def)
  note ih = Cons.IH [OF s(2) this]
  have run: "log_run (p # ps) wd = log_run ps (w', d')" by (simp add: log_run_def wd s(1))
  obtain dropped' where "log_history (w', d') @ concat ps = dropped' @ log_history (log_run ps (w', d'))" using ih by blast
  then have "log_history wd @ concat (p # ps) = (dropped @ dropped') @ log_history (log_run ps (w', d'))"
    using s(4) by (simp add: wd) (metis append.assoc)
  then show ?case using ih s(3,5) unfolding run by (auto simp: wd same_log_def)
qed (auto simp: log_run_def same_log_def)

lemma setup_ok:
  assumes "setupLogToFile no_faults d = (r, wd)"
  obtains dropped where "r = None" "log_ok wd" "lw_filename (fst wd) = ''gatesvr.log''" "lw_maxBackup (fst wd) = 5"
    "lw_maxSize (fst wd) = 3145728" "log_history (fst wd, d) = dropped @ log_history wd"
    "log_small (fst wd, d) \<longrightarrow> log_small wd"
proof -
  let ?f = "''gatesvr.log''"
  let ?w0 = "\<lparr>lw_filename = ?f, lw_maxSize = 3145728, lw_maxBackup = 5, lw_file = NilFile, lw_currentSize = 0\<rparr>"
  have open0: "setupLogToFile no_faults d = openCurrent no_faults (?w0, d)" by (simp add: setupLogToFile_def)
  show thesis
  proof (cases "d ?f")
    case None
    have "backups ?f (d(?f := Some [])) 5 = backups ?f d 5" by (rule backups_cong) simp
    then show thesis
      using assms None unfolding open0
      by (intro that [of "[]"]) (auto simp: openCurrent_def log_ok_def log_history_def content_def small_files_def)
  next
    case (Some c)
    let ?w = "?w0\<lparr>lw_currentSize := int (length c)\<rparr>"
    show thesis
    proof (cases "3145728 \<le> int (length c)")
      case False
      then have "wd = (?w\<lparr>lw_file := OpenFile\<rparr>, d(?f := Some c))" "r = None"
        using assms Some unfolding open0 by (auto simp: openCurrent_def Let_def)
      moreover have "d(?f := Some c) = d" using Some by auto
      ultimately show thesis using Some by (intro that [of "[]"]) (auto simp: log_ok_def content_def)
    next
      case True
      obtain d1 dropped where r: "log_rotate no_faults (?w, d) = (None, ?w\<lparr>lw_file := OpenFile, lw_currentSize := 0\<rparr>, d1)"
        "d1 (lw_filename ?w) = Some []" "log_history (?w, d) = dropped @ log_history (?w, d1)"
        using rotate_keeps [of ?w d] by auto
      have wd: "wd = (?w\<lparr>lw_file := OpenFile, lw_currentSize := 0\<rparr>, d1(?f := Some []))" "r = None"
        using assms Some True r(1,2) unfolding open0 by (auto simp: openCurrent_def Let_def)
      moreover have "d1(?f := Some []) = d1" using r(2) by auto
      ultimately show thesis
        using r rotate_small [OF r(1), of 3145728] by (intro that [of dropped]) (auto simp: log_ok_def content_def log_history_def)
    qed
  qed
qed

section \<open>How much is kept\<close>

text \<open>One rotation moves every file up by one name.\<close>

lemma shift_moves:
  assumes "d (backup_name f (Suc i)) = None" "Suc i < n"
  shows "(\<forall>j \<in> {1..i}. shift_backups no_faults f n i d (backup_name f (Suc j)) = d (backup_name f j)) \<and>
    (\<forall>x. x \<notin> backup_name f ` {1..Suc i} \<longrightarrow> shift_backups no_faults f n i d x = d x)"
  using assms
proof (induction i arbitrary: d)
  case (Suc i)
  let ?a = "backup_name f (Suc i)" and ?b = "backup_name f (Suc (Suc i))"
  let ?d = "if d ?a \<noteq> None then d(?b := d ?a, ?a := None) else d"
  have step: "shift_backups no_faults f n (Suc i) d = shift_backups no_faults f n i ?d"
    using Suc.prems(2) by (subst shift_backups.simps) (simp add: less_diff_conv)
  have free: "?d ?a = None" by simp
  note ih = Suc.IH [of ?d, OF free Suc_lessD [OF Suc.prems(2)]]
  have "shift_backups no_faults f n i ?d ?b = ?d ?b" using ih by auto
  also have "?d ?b = d ?a" using Suc.prems(1) by simp
  finally have top: "shift_backups no_faults f n i ?d ?b = d ?a" .
  have "shift_backups no_faults f n (Suc i) d (backup_name f (Suc j)) = d (backup_name f j)" if "j \<in> {1..Suc i}" for j
  proof (cases "j = Suc i")
    case False
    then have "j \<in> {1..i}" using that by auto
    then show ?thesis using ih unfolding step by (auto simp del: fun_upd_apply simp add: fun_upd_apply)
  next
    case True
    then show ?thesis unfolding step by (simp only: top)
  qed
  moreover have "shift_backups no_faults f n (Suc i) d x = d x" if "x \<notin> backup_name f ` {1..Suc (Suc i)}" for x
  proof -
    have "x \<noteq> ?a" "x \<noteq> ?b" "x \<notin> backup_name f ` {1..Suc i}" using that by auto
    then show ?thesis using ih unfolding step by auto
  qed
  ultimately show ?case by blast
qed auto

text \<open>The files by age: number 0 is the current one.\<close>

definition log_name :: "string \<Rightarrow> nat \<Rightarrow> string" where
  "log_name f i = (if i = 0 then f else backup_name f i)"

lemma log_name_simps [simp]:
  "log_name f 0 = f" "log_name f (Suc i) = backup_name f (Suc i)" "log_name f i = log_name f j \<longleftrightarrow> i = j"
  by (auto simp: log_name_def)

lemma rotate_moves:
  assumes "d (lw_filename w) \<noteq> None" "2 \<le> lw_maxBackup w"
    "d (backup_name (lw_filename w) (lw_maxBackup w)) \<noteq> None \<Longrightarrow> d (backup_name (lw_filename w) (lw_maxBackup w - 1)) \<noteq> None"
    "log_rotate no_faults (w, d) = (None, w', d')"
  shows "i < lw_maxBackup w \<Longrightarrow> d' (log_name (lw_filename w) (Suc i)) = d (log_name (lw_filename w) i)"
    "d' (lw_filename w) = Some []"
proof -
  let ?f = "lw_filename w" and ?n = "lw_maxBackup w"
  obtain k where n: "?n = Suc (Suc k)" using assms(2) by (metis add_2_eq_Suc le_Suc_ex)
  let ?a = "backup_name ?f (Suc k)" and ?b = "backup_name ?f ?n"
  let ?d = "if d ?a \<noteq> None then d(?b := d ?a, ?a := None) else d"
  let ?s = "shift_backups no_faults ?f ?n (?n - 1) d"
  have step: "?s = shift_backups no_faults ?f ?n k ?d" by (simp add: n fun_upd_twist)
  have free: "?d ?a = None" by simp
  have "Suc k < ?n" by (simp add: n)
  note s = shift_moves [of ?d ?f k ?n, OF free this, folded step]
  have keep: "?s ?f = d ?f" using s by (auto simp: image_iff)
  have d': "d' = (?s(backup_name ?f 1 := ?s ?f, ?f := None))(?f := Some [])"
    using assms(1,4) keep by (auto simp: log_rotate_def Let_def split: if_splits)
  then show "d' ?f = Some []" by simp
  show "d' (log_name ?f (Suc i)) = d (log_name ?f i)" if "i < ?n"
  proof -
    have "i \<le> Suc k" using that n by simp
    then consider "i = 0" | "i \<in> {1..k}" | "i = Suc k" by (auto simp: le_Suc_eq Suc_le_eq)
    then show ?thesis
    proof cases
      case 1
      then show ?thesis using keep by (simp add: d')
    next
      case 2
      then have "?s (backup_name ?f (Suc i)) = ?d (backup_name ?f i)" using s by blast
      moreover have "?d (backup_name ?f i) = d (backup_name ?f i)" using 2 by (auto simp: n)
      ultimately show ?thesis using 2 by (simp add: d' log_name_def)
    next
      case 3
      have "?s ?b = ?d ?b" using s by (auto simp: n)
      moreover have "?d ?b = d ?a" using assms(3) by (cases "d ?b") (auto simp: n)
      ultimately show ?thesis using 3 by (simp add: d' n)
    qed
  qed
qed

text \<open>Every backup together with the file after it exceeds the limit: it was rotated because the next message
  did not fit.\<close>

definition log_full :: "log_writer \<times> disk \<Rightarrow> bool" where
  "log_full wd \<longleftrightarrow>
     (\<forall>i < lw_maxBackup (fst wd). snd wd (log_name (lw_filename (fst wd)) (Suc i)) \<noteq> None \<longrightarrow>
        snd wd (log_name (lw_filename (fst wd)) i) \<noteq> None \<and>
        lw_maxSize (fst wd) < int (length (content (snd wd) (log_name (lw_filename (fst wd)) (Suc i))) +
          length (content (snd wd) (log_name (lw_filename (fst wd)) i))))"

lemma backups_moved:
  assumes "\<And>i. i < n \<Longrightarrow> d' (log_name f (Suc i)) = d (log_name f i)"
  shows "k < n \<Longrightarrow> backups f d' (Suc k) = backups f d k @ content d f"
proof (induction k)
  case 0
  then show ?case using assms [of 0] by (simp add: content_def)
next
  case (Suc k)
  then have "backups f d' (Suc (Suc k)) = content d (backup_name f (Suc k)) @ backups f d' (Suc k)"
    using assms [of "Suc k"] by (simp add: content_def)
  then show ?case using Suc by simp
qed

lemma rotated_write:
  assumes "log_ok (w, d)" "0 \<le> lw_maxSize w" "int (length p) \<le> lw_maxSize w" "log_full (w, d)"
    "lw_maxSize w < lw_currentSize w + int (length p)" "log_Write no_faults p (w, d) = (r, w', d')"
  shows "log_full (w', d') \<and> log_history (w, d) @ p = content d (log_name (lw_filename w) (lw_maxBackup w)) @ log_history (w', d') \<and>
    (d (log_name (lw_filename w) (lw_maxBackup w)) \<noteq> None \<longrightarrow> d' (log_name (lw_filename w) (lw_maxBackup w)) \<noteq> None)"
proof -
  let ?f = "lw_filename w" and ?n = "lw_maxBackup w" and ?w = "w\<lparr>lw_file := OpenFile, lw_currentSize := 0\<rparr>"
  obtain k where n: "?n = Suc (Suc k)" using assms(1) by (auto simp: log_ok_def) (metis add_2_eq_Suc le_Suc_ex)
  obtain d1 where r: "log_rotate no_faults (w, d) = (None, ?w, d1)"
    using rotate_keeps [of w d] assms(1) by (auto simp: log_ok_def)
  have cur: "d ?f \<noteq> None" "lw_currentSize w = int (length (content d ?f))" using assms(1) by (simp_all add: log_ok_def)
  have top: "d (backup_name ?f ?n) \<noteq> None \<Longrightarrow> d (backup_name ?f (?n - 1)) \<noteq> None"
    using assms(4) by (auto simp: log_full_def n)
  have two: "2 \<le> ?n" by (simp add: n)
  note m = rotate_moves [OF cur(1) two _ r]
  have w': "w' = ?w\<lparr>lw_currentSize := int (length p)\<rparr>" "d' = append_file ?f p d1"
    using assms(5,6) r by (simp_all add: log_Write_def)
  have moved: "d' (log_name ?f (Suc i)) = d (log_name ?f i)" if "i < ?n" for i
    using m(1) [OF top that] by (simp add: w'(2) append_file_def)
  have zero: "d' ?f = Some p" using m(2) [OF top] by (simp add: w'(2) append_file_def)
  have "log_full (w', d')"
    unfolding log_full_def
  proof (intro allI impI)
    fix i
    assume i: "i < lw_maxBackup (fst (w', d'))" "snd (w', d') (log_name (lw_filename (fst (w', d'))) (Suc i)) \<noteq> None"
    show "snd (w', d') (log_name (lw_filename (fst (w', d'))) i) \<noteq> None \<and>
      lw_maxSize (fst (w', d')) < int (length (content (snd (w', d')) (log_name (lw_filename (fst (w', d'))) (Suc i))) +
        length (content (snd (w', d')) (log_name (lw_filename (fst (w', d'))) i)))"
    proof (cases i)
      case 0
      then show ?thesis using moved [of 0] zero assms(5) cur n by (simp add: w'(1) content_def)
    next
      case (Suc j)
      then have j: "Suc j < ?n" "d (log_name ?f (Suc j)) \<noteq> None" using i moved [of "Suc j"] by (simp_all add: w'(1))
      then show ?thesis using assms(4) moved [of "Suc j"] moved [of j] Suc by (simp add: w'(1) log_full_def content_def)
    qed
  qed
  moreover have "log_history (w, d) @ p = content d (log_name ?f ?n) @ log_history (w', d')"
    using backups_moved [of ?n d' ?f d "Suc k", OF moved] zero n by (simp add: log_history_def w'(1) content_def)
  moreover have "d' (log_name ?f ?n) \<noteq> None" if "d (log_name ?f ?n) \<noteq> None"
    using moved [of "Suc k"] that top by (simp add: n)
  ultimately show ?thesis by blast
qed

lemma write_full:
  assumes "log_ok (w, d)" "0 \<le> lw_maxSize w" "int (length p) \<le> lw_maxSize w" "log_full (w, d)"
    "log_Write no_faults p (w, d) = (r, w', d')"
  shows "log_full (w', d') \<and>
    (log_history (w, d) @ p = log_history (w', d') \<or> d' (log_name (lw_filename w) (lw_maxBackup w)) \<noteq> None) \<and>
    (d (log_name (lw_filename w) (lw_maxBackup w)) \<noteq> None \<longrightarrow> d' (log_name (lw_filename w) (lw_maxBackup w)) \<noteq> None)"
proof (cases "lw_maxSize w < lw_currentSize w + int (length p)")
  case True
  have "content d x = []" if "d x = None" for x using that by (simp add: content_def)
  then show ?thesis using rotated_write [OF assms(1-4) True assms(5)] by fastforce
next
  case False
  let ?f = "lw_filename w"
  have w': "w' = w\<lparr>lw_currentSize := lw_currentSize w + int (length p)\<rparr>" "d' = append_file ?f p d"
    using assms(1,5) False by (simp_all add: log_Write_def log_ok_def)
  have other: "d' (log_name ?f (Suc i)) = d (log_name ?f (Suc i))" for i by (simp add: w'(2) append_file_def)
  have len: "length (content d (log_name ?f i)) \<le> length (content d' (log_name ?f i))" "d (log_name ?f i) \<noteq> None \<Longrightarrow> d' (log_name ?f i) \<noteq> None" for i
    by (auto simp: w'(2) append_file_def content_def split: option.split)
  have "log_full (w', d')"
    unfolding log_full_def
  proof (intro allI impI)
    fix i
    assume i: "i < lw_maxBackup (fst (w', d'))" "snd (w', d') (log_name (lw_filename (fst (w', d'))) (Suc i)) \<noteq> None"
    then have "i < lw_maxBackup w" "d (log_name ?f (Suc i)) \<noteq> None" using other [of i] by (simp_all add: w'(1))
    then have "d (log_name ?f i) \<noteq> None" "lw_maxSize w < int (length (content d (log_name ?f (Suc i))) + length (content d (log_name ?f i)))"
      using assms(4) by (auto simp: log_full_def)
    then show "snd (w', d') (log_name (lw_filename (fst (w', d'))) i) \<noteq> None \<and>
      lw_maxSize (fst (w', d')) < int (length (content (snd (w', d')) (log_name (lw_filename (fst (w', d'))) (Suc i))) +
        length (content (snd (w', d')) (log_name (lw_filename (fst (w', d'))) i)))"
      using len(1) [of i] len(2) [of i] len(1) [of "Suc i"] by (simp add: w'(1))
  qed
  moreover have "log_history (w, d) @ p = log_history (w', d')"
    using append_step [OF assms(1), of p] False unfolding w' by simp
  ultimately show ?thesis using len(2) by blast
qed

lemma run_full:
  assumes "log_ok wd" "0 \<le> lw_maxSize (fst wd)" "\<And>p. p \<in> set ps \<Longrightarrow> int (length p) \<le> lw_maxSize (fst wd)" "log_full wd"
  shows "log_full (log_run ps wd) \<and>
    (log_history wd @ concat ps = log_history (log_run ps wd) \<or>
     snd (log_run ps wd) (log_name (lw_filename (fst wd)) (lw_maxBackup (fst wd))) \<noteq> None) \<and>
    (snd wd (log_name (lw_filename (fst wd)) (lw_maxBackup (fst wd))) \<noteq> None \<longrightarrow>
     snd (log_run ps wd) (log_name (lw_filename (fst wd)) (lw_maxBackup (fst wd))) \<noteq> None)"
  using assms
proof (induction ps arbitrary: wd)
  case (Cons p ps)
  obtain w d where wd: "wd = (w, d)" by (metis surj_pair)
  have pre: "log_ok (w, d)" "0 \<le> lw_maxSize w" "int (length p) \<le> lw_maxSize w" "log_full (w, d)" using Cons.prems by (simp_all add: wd)
  obtain w' d' where s: "log_Write no_faults p (w, d) = ((length p, None), w', d')" "log_ok (w', d')" "same_log w w'"
    by (rule write_step [OF pre(1-3)])
  have f: "log_full (w', d')" "log_history (w, d) @ p = log_history (w', d') \<or> d' (log_name (lw_filename w) (lw_maxBackup w)) \<noteq> None"
    "d (log_name (lw_filename w) (lw_maxBackup w)) \<noteq> None \<Longrightarrow> d' (log_name (lw_filename w) (lw_maxBackup w)) \<noteq> None"
    using write_full [OF pre s(1)] by blast+
  have "0 \<le> lw_maxSize (fst (w', d'))" "\<And>q. q \<in> set ps \<Longrightarrow> int (length q) \<le> lw_maxSize (fst (w', d'))"
    using Cons.prems s(3) by (auto simp: wd same_log_def)
  note ih = Cons.IH [OF s(2) this f(1)]
  have run: "log_run (p # ps) wd = log_run ps (w', d')" by (simp add: log_run_def wd s(1))
  have same: "lw_filename w' = lw_filename w" "lw_maxBackup w' = lw_maxBackup w" using s(3) by (simp_all add: same_log_def)
  note ih = ih [unfolded fst_conv snd_conv same, simplified]
  let ?top = "log_name (lw_filename w) (lw_maxBackup w)" and ?wd = "log_run ps (w', d')"
  have "log_history (w, d) @ concat (p # ps) = log_history ?wd \<or> snd ?wd ?top \<noteq> None"
  proof (cases "d' ?top")
    case None
    then have "log_history (w, d) @ concat (p # ps) = log_history (w', d') @ concat ps"
      using f(2) by (metis append.assoc concat.simps(2))
    then show ?thesis using ih by (auto simp del: concat.simps)
  next
    case (Some c)
    then show ?thesis using ih by auto
  qed
  then show ?case using ih f(3) unfolding run [unfolded wd] wd fst_conv snd_conv by auto
qed (simp add: log_run_def)

text \<open>With five backups, all there, that is more than three times the limit.\<close>

lemma full_size:
  assumes "log_full (w, d)" "lw_maxBackup w = 5" "d (log_name (lw_filename w) 5) \<noteq> None"
  shows "3 * lw_maxSize w < int (length (log_history (w, d)))"
proof -
  let ?f = "lw_filename w" and ?c = "\<lambda>i. length (content d (log_name (lw_filename w) i))"
  have f: "d (log_name ?f i) \<noteq> None \<and> lw_maxSize w < int (?c (Suc i) + ?c i)" if "i < 5" "d (log_name ?f (Suc i)) \<noteq> None" for i
    using assms(1,2) that unfolding log_full_def by auto
  have e: "d (log_name ?f 4) \<noteq> None" using f [of 4] assms(3) by (simp add: eval_nat_numeral)
  then have "d (log_name ?f 3) \<noteq> None" using f [of 3] by (simp add: eval_nat_numeral)
  moreover from this have "d (log_name ?f 2) \<noteq> None" using f [of 2] by (simp add: eval_nat_numeral)
  moreover from this have "d (log_name ?f 1) \<noteq> None" using f [of 1] by (simp add: eval_nat_numeral)
  ultimately have "lw_maxSize w < int (?c 5 + ?c 4)" "lw_maxSize w < int (?c 3 + ?c 2)" "lw_maxSize w < int (?c 1 + ?c 0)"
    using f [of 4] f [of 2] f [of 0] assms(3) by (simp_all add: eval_nat_numeral)
  moreover have "length (log_history (w, d)) = ?c 5 + ?c 4 + ?c 3 + ?c 2 + ?c 1 + ?c 0"
    by (simp add: log_history_def assms(2) eval_nat_numeral)
  ultimately show ?thesis by linarith
qed

lemma fresh_log:
  assumes "setupLogToFile no_faults d = (r, wd)" "\<And>x. x \<in> log_names ''gatesvr.log'' 5 \<Longrightarrow> d x = None"
  shows "log_full wd \<and> log_history wd = []"
proof -
  have "wd = (\<lparr>lw_filename = ''gatesvr.log'', lw_maxSize = 3145728, lw_maxBackup = 5, lw_file = OpenFile, lw_currentSize = 0\<rparr>,
      d(''gatesvr.log'' := Some []))"
    using assms(1) assms(2) [of "''gatesvr.log''"] by (auto simp: setupLogToFile_def openCurrent_def log_names_def)
  moreover have n: "d (backup_name ''gatesvr.log'' (Suc i)) = None" if "i < 5" for i
    by (rule assms(2)) (use that in \<open>auto simp: log_names_def\<close>)
  moreover have "backups ''gatesvr.log'' (d(''gatesvr.log'' := Some [])) k = []" if "k \<le> 5" for k
    using that n by (induction k) (auto simp: content_def)
  ultimately show ?thesis by (auto simp: log_full_def log_history_def content_def)
qed

text \<open>C25. The log on disk, the five backups from the oldest to the newest and then the current file, is always the
  end of everything that was ever logged: rotations lose nothing but the oldest backup and keep the
  order; every message of at most three megabytes is written completely; no file exceeds three
  megabytes if none did before; and from a first start on either everything or more than nine megabytes
  is there. \<close>

theorem log_keeps_suffix:
  assumes "setupLogToFile no_faults d = (r, wd)" "\<And>p. p \<in> set ps \<Longrightarrow> length p \<le> 3 * 1024 * 1024"
  shows "r = None \<and>
    (\<exists>dropped. backups ''gatesvr.log'' d 5 @ content d ''gatesvr.log'' @ concat ps = dropped @ log_history (log_run ps wd)) \<and>
    (\<forall>p. length p \<le> 3 * 1024 * 1024 \<longrightarrow> fst (log_Write no_faults p (log_run ps wd)) = (length p, None)) \<and>
    ((\<forall>x \<in> log_names ''gatesvr.log'' 5. length (content d x) \<le> 3 * 1024 * 1024) \<longrightarrow>
     (\<forall>x \<in> log_names ''gatesvr.log'' 5. length (content (snd (log_run ps wd)) x) \<le> 3 * 1024 * 1024)) \<and>
    ((\<forall>x \<in> log_names ''gatesvr.log'' 5. d x = None) \<longrightarrow>
     log_history (log_run ps wd) = concat ps \<or> 9 * 1024 * 1024 < length (log_history (log_run ps wd)))"
proof -
  obtain dropped where s: "r = None" "log_ok wd" "lw_filename (fst wd) = ''gatesvr.log''" "lw_maxBackup (fst wd) = 5"
    "lw_maxSize (fst wd) = 3145728" "log_history (fst wd, d) = dropped @ log_history wd"
    "log_small (fst wd, d) \<longrightarrow> log_small wd"
    by (rule setup_ok [OF assms(1)])
  have z: "0 \<le> lw_maxSize (fst wd)" by (simp add: s(5))
  have small: "int (length p) \<le> lw_maxSize (fst wd)" if "p \<in> set ps" for p using assms(2) [OF that] by (simp add: s(5))
  note run = run_keeps [of wd ps, OF s(2) z small, unfolded same_log_def]
  obtain dropped' where d': "log_history wd @ concat ps = dropped' @ log_history (log_run ps wd)" using run by auto
  have n: "lw_filename (fst (log_run ps wd)) = ''gatesvr.log''" "lw_maxBackup (fst (log_run ps wd)) = 5"
    "lw_maxSize (fst (log_run ps wd)) = 3145728" "log_ok (log_run ps wd)"
    using run s(3-5) by auto
  have "fst (log_Write no_faults p (log_run ps wd)) = (length p, None)" if "length p \<le> 3 * 1024 * 1024" for p
  proof -
    have "int (length p) \<le> lw_maxSize (fst (log_run ps wd))" "0 \<le> lw_maxSize (fst (log_run ps wd))" using that by (simp_all add: n)
    then show ?thesis using write_step [of "fst (log_run ps wd)" "snd (log_run ps wd)" p] n(4) by (metis fst_conv prod.collapse)
  qed
  moreover have "log_history (fst wd, d) @ concat ps = (dropped @ dropped') @ log_history (log_run ps wd)"
    using s(6) d' by simp
  moreover have "log_history (fst wd, d) = backups ''gatesvr.log'' d 5 @ content d ''gatesvr.log''"
    using s(3,4) by (simp add: log_history_def)
  moreover have "(\<forall>x \<in> log_names ''gatesvr.log'' 5. length (content d x) \<le> 3 * 1024 * 1024) \<longrightarrow>
     (\<forall>x \<in> log_names ''gatesvr.log'' 5. length (content (snd (log_run ps wd)) x) \<le> 3 * 1024 * 1024)"
    using s(3-5,7) n run by (auto simp: small_files_def)
  moreover have "log_history (log_run ps wd) = concat ps \<or> 9 * 1024 * 1024 < length (log_history (log_run ps wd))"
    if "\<forall>x \<in> log_names ''gatesvr.log'' 5. d x = None"
  proof -
    have fresh: "log_full wd" "log_history wd = []" using fresh_log [OF assms(1)] that by auto
    note full = run_full [of wd ps, OF s(2) z small fresh(1), unfolded s(3,4)]
    obtain w' d' where wd': "log_run ps wd = (w', d')" by (metis surj_pair)
    have "9 * 1024 * 1024 < length (log_history (log_run ps wd))" if "d' (log_name ''gatesvr.log'' 5) \<noteq> None"
      using full_size [of w' d'] full n(1-3) that by (simp add: wd')
    then show ?thesis using full fresh(2) by (auto simp: wd')
  qed
  ultimately show ?thesis using s(1) by (metis append.assoc)
qed

text \<open>An empty disk, and two messages.\<close>

theorem log_keeps_suffix_witness:
  "\<exists>wd. setupLogToFile no_faults (\<lambda>_. None) = (None, wd) \<and>
     log_Write no_faults [3] (log_run [[1, 2]] wd) = ((1, None), log_run [[1, 2], [3]] wd) \<and>
     (log_history (log_run [[1, 2], [3]] wd) = [1, 2, 3] \<or> 9437184 < length (log_history (log_run [[1, 2], [3]] wd)))"
proof -
  obtain r wd where s: "setupLogToFile no_faults (\<lambda>_. None) = (r, wd)" by (metis surj_pair)
  have l: "length p \<le> 3 * 1024 * 1024" if "p \<in> set [[1, 2]]" for p :: bytes using that by auto
  have l2: "length p \<le> 3 * 1024 * 1024" if "p \<in> set [[1, 2], [3]]" for p :: bytes using that by auto
  have "fst (log_Write no_faults [3] (log_run [[1, 2]] wd)) = (1, None)"
    using log_keeps_suffix [of _ r wd "[[1, 2]]", OF s l] by simp
  then have "log_Write no_faults [3] (log_run [[1, 2]] wd) = ((1, None), log_run [[1, 2], [3]] wd)"
    by (simp add: log_run_def prod_eq_iff)
  then show ?thesis using log_keeps_suffix [of _ r wd "[[1, 2], [3]]", OF s l2] s by auto
qed

end
