(* ===== verification/Upstream_Main.thy ===== *)
theory Upstream_Main
  imports Upstream_Server
begin

text \<open>
  \<open>cmd/upstream/main.go\<close>: the address of the upstream server, its health port and the health check. What
  \<open>flag\<close> has parsed, the environment and the HTTP client (\<open>get\<close>: the status code of an answer) are
  parameters; the texts it prints are left out.
\<close>

section \<open>The port of an address\<close>

text \<open>\<open>strings.LastIndex(s, ":")\<close>, with what follows it.\<close>

fun after_last_colon :: "string \<Rightarrow> string option" where
  "after_last_colon [] = None"
| "after_last_colon (c # s) =
     (case after_last_colon s of
        Some r \<Rightarrow> Some r
      | None \<Rightarrow> if c = CHR '':'' then Some s else None)"

text \<open>\<open>strconv.Atoi\<close> agrees with \<open>ParseInt\<close> in base 10: \<open>int\<close> has 64 bits.\<close>

definition extractPort :: "string \<Rightarrow> int" where
  "extractPort addr =
     (let first = (case addr of c # s \<Rightarrow> if c = CHR '':'' then ParseInt s else Inl ErrEOF | [] \<Rightarrow> Inl ErrEOF);
          last = (case after_last_colon addr of Some s \<Rightarrow> ParseInt s | None \<Rightarrow> Inl ErrEOF)
      in case first of
           Inr port \<Rightarrow> port
         | Inl _ \<Rightarrow> (case last of Inr port \<Rightarrow> port | Inl _ \<Rightarrow> 8081))"

definition health_addr :: "string \<Rightarrow> string" where
  "health_addr grpcAddr = '':'' @ show_int (i64 (extractPort grpcAddr + 1000))"

text \<open>The health server: its one page, and the address and pages it serves unless it cannot listen there.\<close>

definition healthHandler :: "int \<times> string" where
  "healthHandler = (200, ''{\"status\": \"healthy\", \"service\": \"upstream\"}'')"

definition startHealthServer :: "(string \<Rightarrow> err option) \<Rightarrow> string \<Rightarrow> err + string \<times> (string \<Rightarrow> (int \<times> string) option)" where
  "startHealthServer listen grpcAddr =
     (let httpAddr = health_addr grpcAddr in
      case listen httpAddr of
        Some e \<Rightarrow> Inl e
      | None \<Rightarrow> Inr (httpAddr, \<lambda>path. if path = ''/health'' then Some healthHandler else None))"

definition performHealthCheck :: "(string \<Rightarrow> err + int) \<Rightarrow> string \<Rightarrow> bool" where
  "performHealthCheck get addr =
     (case get (''http://localhost:'' @ show_int (i64 (extractPort addr + 1000)) @ ''/health'') of
        Inl _ \<Rightarrow> False
      | Inr statusCode \<Rightarrow> statusCode = 200)"

section \<open>The command\<close>

record upstream_flags =
  uf_addr :: string
  uf_health_check :: bool
  uf_version :: bool
  uf_help :: bool

definition default_upstream_flags :: upstream_flags where
  "default_upstream_flags = \<lparr>uf_addr = '':9000'', uf_health_check = False, uf_version = False, uf_help = False\<rparr>"

text \<open>What becomes of the process: it exits with a code, or it runs a server beside a health server.\<close>

datatype upstream_run = UpstreamExit nat | UpstreamRuns upstream_server string

definition upstream_main ::
  "(string \<Rightarrow> string) \<Rightarrow> (string \<Rightarrow> err + int) \<Rightarrow> time \<Rightarrow> err option \<Rightarrow> err option \<Rightarrow> upstream_flags \<Rightarrow> upstream_run" where
  "upstream_main getenv get now dial listen flags =
     (if uf_health_check flags then UpstreamExit (if performHealthCheck get (uf_addr flags) then 0 else 1)
      else if uf_version flags then UpstreamExit 0
      else if uf_help flags then UpstreamExit 0
      else
        let envAddr = getenv ''UPSTREAM_ADDR'';
            addr = (if envAddr \<noteq> [] then envAddr else uf_addr flags)
        in case upstream_Start dial listen (upstream_NewServer now getenv addr) of
             (Some _, _) \<Rightarrow> UpstreamExit 1
           | (None, s) \<Rightarrow> UpstreamRuns s (health_addr addr))"

section \<open>Reading a port back\<close>

lemma digit_of_digit: "is_digit c \<Longrightarrow> digit_of c = Some (int (digit c))"
proof -
  assume a: "is_digit c"
  have "(of_char c :: int) = int (of_char c)" by (simp add: of_nat_of_char)
  then show "digit_of c = Some (int (digit c))" using a by (simp add: digit_of_def is_digit_def digit_def)
qed

lemma digits_digits_value:
  "\<forall>c \<in> set s. is_digit c \<Longrightarrow> Gateway.digits (int n) s = Some (int (digits_value n s))"
proof (induction s arbitrary: n)
  case (Cons c s)
  have "Gateway.digits (int n) (c # s) = Gateway.digits (int (n * 10 + digit c)) s"
    using Cons.prems by (simp add: digit_of_digit)
  then show ?case using Cons.IH [of "n * 10 + digit c"] Cons.prems by simp
qed simp

lemma ParseInt_show:
  assumes "in_i64 n"
  shows "ParseInt (show_int n) = Inr n"
proof -
  have d: "Gateway.digits 0 (show_nat k) = Some (int k)" for k
    using digits_digits_value [of "show_nat k" 0] show_nat_digits [of _ k] by auto
  obtain c cs where c: "show_nat (nat n) = c # cs" "is_digit c" using show_nat_first by blast
  have "c \<noteq> CHR ''-''" "c \<noteq> CHR ''+''" using c(2) by (auto simp: is_digit_def)
  then show ?thesis
    using assms d [of "nat n"] d [of "nat (- n)"] c(1) by (auto simp: ParseInt_def show_int_def)
qed

lemma after_last_colon_append: "CHR '':'' \<notin> set s \<Longrightarrow> after_last_colon (h @ CHR '':'' # s) = Some s"
proof (induction h)
  case Nil
  have "after_last_colon s = None" using Nil by (induction s) auto
  then show ?case by simp
qed simp

lemma colon_not_digit: "CHR '':'' \<notin> set (show_int n)"
  using show_nat_digits [of "CHR '':''"] by (auto simp: show_int_def is_digit_def)

lemma digits_colon: "CHR '':'' \<in> set s \<Longrightarrow> Gateway.digits n s = None"
  by (induction n s rule: Gateway.digits.induct) (auto simp: digit_of_def split: option.split)

lemma ParseInt_colon:
  assumes "CHR '':'' \<in> set s"
  shows "\<exists>x. ParseInt s = Inl x"
proof -
  obtain c cs where s: "s = c # cs" using assms by (cases s) auto
  have "CHR '':'' \<in> set cs" if "c = CHR ''-'' \<or> c = CHR ''+''" using that assms s by auto
  then have "Gateway.digits 0 s = None" "c = CHR ''-'' \<or> c = CHR ''+'' \<Longrightarrow> Gateway.digits 0 cs = None"
    using assms digits_colon by blast+
  then show ?thesis unfolding s by (simp add: ParseInt_def Let_def del: Gateway.digits.simps)
qed

text \<open>The port of \<open>host:port\<close> is read back whatever the host, an empty one and one with colons included.\<close>

lemma extractPort_join:
  assumes "in_i64 n"
  shows "extractPort (h @ '':'' @ show_int n) = n"
proof -
  have l: "after_last_colon (h @ '':'' @ show_int n) = Some (show_int n)"
    by (simp add: after_last_colon_append colon_not_digit)
  show ?thesis
  proof (cases h)
    case Nil
    then show ?thesis using ParseInt_show [OF assms] by (simp add: extractPort_def)
  next
    case (Cons c h')
    have "\<exists>x. ParseInt (h' @ '':'' @ show_int n) = Inl x" by (rule ParseInt_colon) simp
    then show ?thesis
      using l ParseInt_show [OF assms] unfolding Cons by (auto simp: extractPort_def simp del: after_last_colon.simps)
  qed
qed

text \<open>Asked at the address it listens at, a health server passes the check; a client that reaches no one fails it.\<close>

definition ask :: "string \<times> (string \<Rightarrow> (int \<times> string) option) \<Rightarrow> string \<Rightarrow> err + int" where
  "ask h url =
     (if url = ''http://localhost'' @ fst h @ ''/health''
      then (case snd h ''/health'' of None \<Rightarrow> Inr 404 | Some (code, _) \<Rightarrow> Inr code) else Inl ErrEOF)"

lemma own_health_check:
  "startHealthServer listen addr = Inr h \<Longrightarrow> performHealthCheck (ask h) addr"
  by (auto simp: startHealthServer_def performHealthCheck_def ask_def health_addr_def healthHandler_def Let_def
      split: option.splits)

text \<open>The health check asks the port that the server's health endpoint listens on only if the address comes
  from the flag: an address from UPSTREAM_ADDR moves the server and its health port, but the check
  is answered before the variable is read and still asks the port of the flag. \<close>

theorem health_check_misses_env:
  assumes "in_i64 p" "in_i64 q" "getenv ''UPSTREAM_ADDR'' = (if env then host @ '':'' @ show_int q else [])"
    "uf_addr flags = host' @ '':'' @ show_int p" "\<not> uf_version flags" "\<not> uf_help flags"
    "port = (if env then q else p)"
  shows "(\<exists>s. upstream_main getenv get now dial None (flags\<lparr>uf_health_check := False\<rparr>) =
        UpstreamRuns s ('':'' @ show_int (i64 (port + 1000))) \<and>
        usv_addr s = (if env then getenv ''UPSTREAM_ADDR'' else uf_addr flags)) \<and>
    upstream_main getenv get now dial listen (flags\<lparr>uf_health_check := True\<rparr>) =
      UpstreamExit (if get (''http://localhost:'' @ show_int (i64 (p + 1000)) @ ''/health'') = Inr 200 then 0 else 1)"
proof
  show "\<exists>s. upstream_main getenv get now dial None (flags\<lparr>uf_health_check := False\<rparr>) =
      UpstreamRuns s ('':'' @ show_int (i64 (port + 1000))) \<and>
      usv_addr s = (if env then getenv ''UPSTREAM_ADDR'' else uf_addr flags)"
    using assms by (simp add: upstream_main_def upstream_Start_def upstream_NewServer_def health_addr_def
      extractPort_join [unfolded append.simps] Let_def)
  show "upstream_main getenv get now dial listen (flags\<lparr>uf_health_check := True\<rparr>) =
      UpstreamExit (if get (''http://localhost:'' @ show_int (i64 (p + 1000)) @ ''/health'') = Inr 200 then 0 else 1)"
    using assms extractPort_join [OF assms(1), of host'] by (auto simp: upstream_main_def performHealthCheck_def split: sum.split)
qed

text \<open>A server moved to port 9100 answers on port 10100; the check asks port 10000 and fails.\<close>

theorem health_check_misses_env_witness:
  "upstream_main (\<lambda>n. if n = ''UPSTREAM_ADDR'' then '':'' @ show_int 9100 else [])
     (\<lambda>url. if url = ''http://localhost:'' @ show_int 10100 @ ''/health'' then Inr 200 else Inl ErrEOF) 0 None None
     (default_upstream_flags\<lparr>uf_addr := '':'' @ show_int 9000, uf_health_check := True\<rparr>) = UpstreamExit 1"
proof -
  define get :: "string \<Rightarrow> err + int"
    where "get = (\<lambda>url. if url = ''http://localhost:'' @ show_int 10100 @ ''/health'' then Inr 200 else Inl ErrEOF)"
  define env where "env = (\<lambda>n. if n = ''UPSTREAM_ADDR'' then '':'' @ show_int 9100 else [])"
  define flags where "flags = default_upstream_flags\<lparr>uf_addr := '':'' @ show_int 9000\<rparr>"
  have e: "env ''UPSTREAM_ADDR'' = (if True then [] @ '':'' @ show_int 9100 else [])" by (simp add: env_def)
  have f: "uf_addr flags = [] @ '':'' @ show_int 9000" "\<not> uf_version flags" "\<not> uf_help flags"
    by (simp_all add: flags_def default_upstream_flags_def)
  have r: "in_i64 9000" "in_i64 9100" by (simp_all add: in_i64_def)
  have "i64 (9000 + 1000) = 10000" by (simp add: i64_def)
  then have "get (''http://localhost:'' @ show_int (i64 (9000 + 1000)) @ ''/health'') \<noteq> Inr 200"
    by (simp add: get_def show_int_def)
  then show ?thesis
    using health_check_misses_env [of 9000 9100 env True "[]" flags "[]" 9100 get 0 None None] r e f
    unfolding env_def [symmetric] get_def [symmetric] flags_def by simp
qed

end
