(* ===== verification/Queue_Drain.thy ===== *)
theory Queue_Drain
  imports Queue_Order
begin

text \<open>
  How long a sent message waits for its acknowledgement: the ticks of \<open>cleanupLoop\<close> resend it and give it up
  within a bounded time if the resends succeed, and never if they fail.
\<close>

section \<open>The ticks\<close>

definition tick_rounds :: "time list \<Rightarrow> 'w oqueue \<times> 'w \<Rightarrow> 'w oqueue \<times> 'w" where
  "tick_rounds ts qw = fold (\<lambda>now (q, w). cleanupLoop_round now q w) ts qw"

text \<open>Successive ticks are at most the period of the ticker apart.\<close>

fun tick_gaps :: "time \<Rightarrow> time list \<Rightarrow> bool" where
  "tick_gaps t [] \<longleftrightarrow> True"
| "tick_gaps t (x # xs) \<longleftrightarrow> x \<le> t + CleanupInterval \<and> tick_gaps x xs"

text \<open>What a tick at \<open>t\<close> has left: nothing that was due then.\<close>

definition settled :: "time \<Rightarrow> omsg \<Rightarrow> bool" where
  "settled t m \<longleftrightarrow> t - Timestamp m \<le> (if Retries m < MaxRetries then MessageTimeout div 2 else MessageTimeout) \<and>
     0 \<le> Retries m \<and> Retries m \<le> MaxRetries"

text \<open>When a message is gone at the latest: after the resends it still has and a last timeout, each with the
  ticker's delay.\<close>

definition deadline :: "omsg \<Rightarrow> time" where
  "deadline m = Timestamp m + (MaxRetries - Retries m) * (MessageTimeout div 2 + CleanupInterval) + MessageTimeout + CleanupInterval"

definition due_by :: "time \<Rightarrow> time \<Rightarrow> (u64 \<times> omsg) list \<Rightarrow> bool" where
  "due_by t d es \<longleftrightarrow> (\<forall>e \<in> set es. settled t (snd e) \<and> deadline (snd e) \<le> d)"

section \<open>Resends that succeed\<close>

lemma retry_one_due:
  assumes "settled t m" "deadline m \<le> d" "t' \<le> t + CleanupInterval"
    "\<not> (t' - Timestamp m > MessageTimeout \<and> MaxRetries \<le> Retries m)" "\<And>w m. snd (cb w m) = None"
  shows "settled t' (fst (retry_one t' (Some cb) m w)) \<and> deadline (fst (retry_one t' (Some cb) m w)) \<le> d"
proof -
  obtain w1 where c: "cb w m = (w1, None)" using assms(5) [of w m] by (metis prod.collapse)
  show ?thesis
    using assms(1-4)
    by (auto simp: retry_one_def c settled_def deadline_def MessageTimeout_def CleanupInterval_def MaxRetries_def Second_def
      algebra_simps)
qed

lemma retry_entries_due:
  assumes "\<And>w m. snd (cb w m) = None" "t' \<le> t + CleanupInterval"
  shows "due_by t d es \<Longrightarrow> \<forall>e \<in> set es. \<not> (t' - Timestamp (snd e) > MessageTimeout \<and> MaxRetries \<le> Retries (snd e)) \<Longrightarrow>
    due_by t' d (fst (retry_entries t' (Some cb) es w))"
proof (induction es arbitrary: w)
  case (Cons e es)
  obtain k m where e: "e = (k, m)" by (metis surj_pair)
  obtain m1 w1 where one: "retry_one t' (Some cb) m w = (m1, w1)" by (metis surj_pair)
  obtain es2 w2 where rest: "retry_entries t' (Some cb) es w1 = (es2, w2)" by (metis surj_pair)
  have "settled t' m1 \<and> deadline m1 \<le> d"
    using retry_one_due [of t m d t' cb w] Cons.prems assms one by (simp add: e due_by_def)
  moreover have "due_by t' d es2" using Cons.IH [of w1] Cons.prems rest by (simp add: due_by_def)
  ultimately show ?case by (simp add: e one rest due_by_def)
qed (simp add: due_by_def)

lemma round_due:
  assumes "sendCallback q = Some cb" "\<And>w m. snd (cb w m) = None" "\<not> stopCh_closed q"
    "t' \<le> t + CleanupInterval" "due_by t d (sentMessages q)"
  shows "due_by t' d (sentMessages (fst (cleanupLoop_round t' q w)))"
proof -
  let ?es = "gm_drop (\<lambda>(_, m). t' - Timestamp m > MessageTimeout \<and> MaxRetries \<le> Retries m) (sentMessages q)"
  have "due_by t' d (fst (retry_entries t' (Some cb) ?es w))"
    by (rule retry_entries_due [OF assms(2,4)]) (use assms(5) in \<open>auto simp: due_by_def gm_drop_def\<close>)
  then show ?thesis
    using assms(1,3) by (auto simp: cleanupLoop_round_def retryTimedOutMessages_def cleanupExpiredMessages_def split: prod.split)
qed

lemma round_frame [simp]:
  "sendCallback (fst (cleanupLoop_round t q w)) = sendCallback q"
  "stopCh_closed (fst (cleanupLoop_round t q w)) = stopCh_closed q"
  by (simp_all add: cleanupLoop_round_def retryTimedOutMessages_def cleanupExpiredMessages_def split: prod.split)

lemma rounds_due:
  assumes "\<And>w m. snd (cb w m) = None"
  shows "sendCallback q = Some cb \<Longrightarrow> \<not> stopCh_closed q \<Longrightarrow> tick_gaps t ts \<Longrightarrow> due_by t d (sentMessages q) \<Longrightarrow>
    due_by (last (t # ts)) d (sentMessages (fst (tick_rounds ts (q, w))))"
proof (induction ts arbitrary: t q w)
  case (Cons x ts)
  have "due_by x d (sentMessages (fst (cleanupLoop_round x q w)))"
    by (rule round_due [OF Cons.prems(1) assms Cons.prems(2)]) (use Cons.prems in auto)
  then show ?case
    using Cons.IH [of "fst (cleanupLoop_round x q w)" x "snd (cleanupLoop_round x q w)"] Cons.prems
    by (simp add: tick_rounds_def)
qed (simp add: tick_rounds_def)

lemma settled_before_deadline: "settled t m \<Longrightarrow> t < deadline m"
  by (auto simp: settled_def deadline_def MessageTimeout_def CleanupInterval_def MaxRetries_def Second_def algebra_simps
    split: if_splits)

section \<open>Resends that fail\<close>

lemma retry_entries_fail:
  assumes "\<And>w m. snd (cb w m) \<noteq> None"
  shows "fst (retry_entries t (Some cb) es w) = es"
proof (induction es arbitrary: w)
  case (Cons e es)
  obtain k m where e: "e = (k, m)" by (metis surj_pair)
  obtain w1 x where "cb w m = (w1, Some x)" using assms [of w m] by (metis not_Some_eq prod.collapse)
  then have "fst (retry_one t (Some cb) m w) = m" by (simp add: retry_one_def)
  then show ?case using Cons by (simp add: e split: prod.split) (metis fst_conv)
qed simp

lemma rounds_fail:
  assumes "\<And>w m. snd (cb w m) \<noteq> None" "sendCallback q = Some cb"
    "\<forall>e \<in> set (sentMessages q). Retries (snd e) < MaxRetries"
  shows "sentMessages (fst (tick_rounds ts (q, w))) = sentMessages q"
  using assms(2,3)
proof (induction ts arbitrary: q w)
  case (Cons x ts)
  have "gm_drop (\<lambda>(_, m). x - Timestamp m > MessageTimeout \<and> MaxRetries \<le> Retries m) (sentMessages q) = sentMessages q"
    using Cons.prems(2) by (auto simp: gm_drop_def filter_id_conv)
  then have "sentMessages (fst (cleanupLoop_round x q w)) = sentMessages q"
    using Cons.prems(1) retry_entries_fail [of cb, OF assms(1)]
    by (simp add: cleanupLoop_round_def retryTimedOutMessages_def cleanupExpiredMessages_def split: prod.split) (metis fst_conv)
  then show ?case
    using Cons.IH [of "fst (cleanupLoop_round x q w)" "snd (cleanupLoop_round x q w)"] Cons.prems by (simp add: tick_rounds_def)
qed (simp add: tick_rounds_def)

section \<open>Giving up\<close>

text \<open>C7. A message that the client never acknowledges is given up: while resends succeed and the ticker is on
  time, nothing sent before t is left 115 seconds later, whatever the resends it had had before. While
  they fail the loop never ends its work: the message stays for good, its retries are not counted. \<close>

theorem unacked_given_up:
  assumes "sendCallback q = Some cb" "\<not> stopCh_closed q"
    "\<forall>(k, m) \<in> set (sentMessages q). settled t m \<and> Timestamp m \<le> t"
  shows "((\<forall>w m. snd (cb w m) = None) \<and> tick_gaps t ts \<and> t + 115 * Second \<le> last (t # ts) \<longrightarrow>
      sentMessages (fst (tick_rounds ts (q, w))) = []) \<and>
    ((\<forall>w m. snd (cb w m) \<noteq> None) \<and> (\<forall>(k, m) \<in> set (sentMessages q). Retries m < MaxRetries) \<longrightarrow>
      sentMessages (fst (tick_rounds ts (q, w))) = sentMessages q)"
proof (intro conjI impI)
  assume a: "(\<forall>w m. snd (cb w m) = None) \<and> tick_gaps t ts \<and> t + 115 * Second \<le> last (t # ts)"
  let ?es = "sentMessages (fst (tick_rounds ts (q, w)))"
  have "due_by t (t + 115 * Second) (sentMessages q)"
    using assms(3) by (auto simp: due_by_def settled_def deadline_def MessageTimeout_def CleanupInterval_def MaxRetries_def
      Second_def algebra_simps)
  then have d: "due_by (last (t # ts)) (t + 115 * Second) ?es" by (intro rounds_due [of cb]) (use a assms in auto)
  have "e \<notin> set ?es" for e
    using d a settled_before_deadline [of "last (t # ts)" "snd e"] unfolding due_by_def by fastforce
  then show "?es = []" by (metis list.set_intros(1) neq_Nil_conv)
next
  assume "(\<forall>w m. snd (cb w m) \<noteq> None) \<and> (\<forall>(k, m) \<in> set (sentMessages q). Retries m < MaxRetries)"
  then show "sentMessages (fst (tick_rounds ts (q, w))) = sentMessages q"
    by (intro rounds_fail [of cb]) (use assms(1) in auto)
qed

text \<open>Two messages sent at time 0 and 9, ticks every 10 seconds: after 13 ticks both are gone.\<close>

definition sent_two :: "(unit \<times> u64 list) oqueue" where
  "sent_two = SetSendCallback (Some (log_cb good_cb)) (fst (run0 [OpEnqueue 1 push0 [] 0, OpEnqueue 2 push0 [] 9] good_cb))"

theorem unacked_given_up_witness:
  "sentMessages (fst (tick_rounds (map (\<lambda>i. 9 + int i * CleanupInterval) [1..<13]) (sent_two, ((), [])))) = []"
proof -
  let ?ts = "map (\<lambda>i. 9 + int i * CleanupInterval) [1..<13]"
  have s: "\<not> stopCh_closed sent_two" "\<forall>(k, m) \<in> set (sentMessages sent_two). settled 9 m \<and> Timestamp m \<le> 9"
    by code_simp+
  have cb: "sendCallback sent_two = Some (log_cb good_cb)"
    by (simp add: sent_two_def SetSendCallback_def)
  have t: "tick_gaps 9 ?ts \<and> 9 + 115 * Second \<le> last (9 # ?ts)" by code_simp
  have c: "snd (log_cb good_cb w m) = None" for w m by (simp add: log_cb_def good_cb_def)
  show ?thesis using unacked_given_up [OF cb s, of ?ts "((), [])"] t c by blast
qed

end
