(* ===== verification/Spec2Isabelle.thy ===== *)
theory Spec2Isabelle
  imports Gateway_Order Gateway_Failover Gate_Run Gateway_Monitor Metrics_Registry Backup_Interfaces Log_Rotation
    Gateway_Upstream Upstream_Main Queue_Drain
begin

text \<open>
  A gateway between game clients and business services: clients hold a QUIC connection to
  the gateway (\<open>cmd/gatesvr\<close>), which numbers and orders everything it sends them, forwards their
  requests to upstream services over gRPC, takes pushes from those services, and can run beside a backup
  server that receives its sessions and takes over when it fails. The repository also holds an example
  upstream service (\<open>cmd/upstream\<close>).

  The development follows the source file by file. A Go struct is a record whose fields carry a prefix,
  an enumeration a datatype, a function or method a definition of the same name (with a prefix where
  two files use one name). State is passed and returned; an \<open>error\<close> is a value of \<open>err\<close>, so that every
  early return is a branch; a panic or a process that ends is \<open>None\<close> or \<open>Inl\<close>. Each mutex-protected
  method is one atomic step (what is coarser than that is listed under Atomicity). A goroutine is a step (one turn of its loop) that the properties interleave
  freely with the others, or an entry of a list of work still to be run.

  \<^bold>\<open>Foundations.\<close> \<open>Go_Prelude\<close>: integers at their width (words, and \<open>i64\<close> with its wrap-around), built-in
  maps as association lists (locale \<open>keyed_store\<close>, interpreted on \<open>gm_get\<close>, \<open>gm_put\<close>, \<open>gm_del\<close>), the errors.
  \<open>Go_Heap\<close>: \<open>container/heap\<close> with the multiset it holds and its heap order. \<open>Go_Text\<close>: decimal numerals.
  \<open>Metrics\<close>: the calls to \<open>pkg/metrics\<close> in their order; \<open>Metrics_Registry\<close>: the collectors they go to, their registration,
  and the metrics server. \<open>Proto_Types\<close>: the messages of \<open>proto/\<close>.

  \<^bold>\<open>Sessions\<close> (\<open>internal/session\<close>, \<open>internal/message\<close>). \<open>Ordered_Queue\<close> is \<open>ordered_queue.go\<close> on a heap with
  the interface \<open>min_queue\<close>; \<open>Queue_Order\<close> shows its invariant and that messages leave in the order of
  their numbers, without gap or repetition, under any interleaving of operations; \<open>Queue_Drain\<close> bounds how
  long an unacknowledged message is kept. \<open>Notify_Ordering\<close> is \<open>notify_ordering.go\<close> (interface
  \<open>fifo_family\<close>: each request number has its own queue). \<open>Session_Core\<close> and \<open>Session_Manager\<close> are \<open>session.go\<close>
  and \<open>manager.go\<close>; the sessions live in a store, so that the two indices alias as in Go. \<open>Manager_Index\<close>
  proves the invariant of the indices for the step relation \<open>mgr_step\<close>, \<open>Manager_Props\<close> what clients and
  time can do to sessions. \<open>Message_Codec\<close> is \<open>codec.go\<close> with its round trips and bounds.

  \<^bold>\<open>Gateway\<close> (\<open>internal/gateway\<close>). \<open>Overload\<close>: admission control; \<open>Upstream_Registry\<close>: the table of services, their
  clients, routing; \<open>Ordered_Sender\<close>: sending through a session; \<open>Gateway\<close>: connections, handlers, the task
  queue and its workers; \<open>Gateway_Push\<close>: pushes, broadcasts, starting and stopping. \<open>Gateway_Steps\<close> has the
  interfaces \<open>manager_steps\<close> (which changes of the session manager the handlers make) and, extending it, \<open>server_rel\<close>:
  any relation that the primitive changes of a server satisfy holds between the states before and after every
  handler. They are interpreted for the manager's own steps (\<open>mgr_rel\<close>), for the connection counter, and in
  \<open>Gateway_Stream\<close> for the finer steps \<open>wire_step\<close>, in which giving out a number, setting the callback, queueing,
  cleaning, retrying and acknowledging are steps of their own: there the frames that a client reads from a connection
  are put in order, and repetitions are bounded by what is not yet acknowledged. \<open>Gateway_Props\<close> and \<open>Gateway_Order\<close> hold what follows for a whole
  connection, and in which order a client receives responses and notifications. \<open>Gateway_Monitor\<close> has the values of the
  monitoring pages and the statistics of the parts.

  \<^bold>\<open>Backup\<close> (\<open>internal/backup\<close>). \<open>Backup_Data\<close>: types, validation, CRC-32; \<open>Backup_Json\<close>: what a trip through JSON
  does to a message; \<open>Backup_Sync\<close> and \<open>Backup_Receiver\<close>: the two ends of the synchronisation, linked in
  \<open>Backup_Link\<close>; \<open>Backup_Heartbeat\<close>, \<open>Backup_Failover\<close>, \<open>Backup_Manager\<close>: detection, takeover and the manager, with
  their properties in \<open>Backup_Props\<close>. \<open>Backup_Interfaces\<close>: the Go interfaces as tables of operations, the types
  behind them, and what stopping means for all of them (interfaces \<open>service\<close> and \<open>ticking\<close>). \<open>Gateway_Failover\<close>: what a client
  of the primary meets at the backup server.

  \<^bold>\<open>Commands and configuration.\<close> \<open>Gate_Config\<close>: \<open>config.go\<close> with \<open>time.ParseDuration\<close>; \<open>Gate_Command\<close>: flags and
  environment over the file (\<open>cmd/gatesvr/main.go\<close>), which setting wins, and that what is built is well
  typed; \<open>Gate_Server\<close>: the whole process, with its listeners and its backup manager, from the flags to the running
  gateway and its stop, and \<open>Gate_Run\<close>: what a started gateway is, what a failed start leaves, what the role and the single
  upstream address mean for clients; \<open>Log_Rotation\<close>: the rotating log on a disk with faults. \<open>Upstream_Server\<close>, \<open>Upstream_Props\<close>,
  \<open>Upstream_Main\<close>: the example service, its users, its calculator and its command; \<open>Gateway_Upstream\<close> puts the
  gateway and the service together, each as the other's remote side.

  \<^bold>\<open>Parameters.\<close> Code outside the repository is an argument: the protobuf marshaller and the stream
  (\<open>ext\<close>), the deep copy of Go maps on iteration (\<open>copier_law\<close>: a permutation), the remote call (\<open>ev_invoke\<close>),
  dialing, what other goroutines do meanwhile (\<open>schedule\<close>), \<open>encoding/json\<close> (\<open>json_lib\<close>), listeners, the YAML
  decoder, the file system and environment (\<open>host\<close>), and the clock, read as an argument of each step.
  Hypotheses on them are named (\<open>writes_ok\<close>, \<open>carries\<close>: a stream takes a write whole or not at all; \<open>copier_law\<close>;
  \<open>calls_by_steps\<close>, \<open>calls_by_wire\<close>, \<open>others_by_wire\<close>: what runs beside a handler moves the sessions by the
  program's own steps; \<open>listen_ok\<close>) and each property that has one is followed by an instance that satisfies it.

  \<^bold>\<open>Bounds.\<close> A loop over a list is structural recursion; the heap operations, \<open>processWaitingMessages\<close>, the
  parsers and the scanners terminate by a measure on their input. A loop that reads a stream consumes it
  (each frame takes at least four bytes) and ends with it. No property is conditional on fuel. Times are
  unbounded integers where Go's \<open>time.Time\<close> does not wrap; counters and durations that can wrap do.

  \<^bold>\<open>Atomicity.\<close> Some definitions join what the program does in several steps. \<open>SendOrderedMessage\<close> numbers, encodes
  and queues at once; \<open>Gateway_Stream\<close> takes it apart (\<open>send_steps\<close>), and the order on the stream is proved for the parts in
  any interleaving. \<open>cleanupLoop_round\<close> is the cleaning and the retrying of one tick, two steps of \<open>wire_step\<close>.
  \<open>CreateOrReconnectSession\<close> is a sequence of operations on concurrent maps without a common lock: two reconnections of
  one user at the same time are taken one after the other. \<open>sync_Stop\<close> cancels, closes the connection and closes the
  channel at once, so a submission that meets a channel closed under it is a submission after the stop. The heartbeat
  goroutines are the steps \<open>heartbeat_step\<close> of \<open>Backup_Props\<close>, which leave the mode of the service alone.
  \<open>ToLower\<close> folds the 26 ASCII letters only, Go's function all of Unicode.

  \<^bold>\<open>Not modelled.\<close> The explaining texts of the monitoring pages; log lines, console output and the goroutines that only
  log; what Prometheus computes from the calls it gets; generated protobuf and gRPC code beyond the message types; TLS, the network below the listeners and
  signals.
  Data races inside one mutex-protected method do not exist; unprotected fields are treated as
  sequentially consistent.
\<close>

end
